(* ===== verification/Rust_Prelude.thy ===== *)
theory Rust_Prelude
  imports Main "HOL-Library.Word" "HOL-Library.Sublist" "HOL-Library.List_Lexorder"
    "HOL-Library.Char_ord" "HOL-Library.Monad_Syntax"
begin

text \<open>
  The part of the Rust language and of its standard library that the sources use, and the
  lemmas about it that the component theories share.

  Bytes are the type \<^typ>\<open>char\<close> (eight bits), a byte slice \<open>&[u8]\<close> is a list of them, and
  a \<open>&str\<close> or \<open>String\<close> is the list of its UTF-8 bytes. The string operations of the source
  search for ASCII characters only, so they work on the bytes; \<open>trim\<close> and
  \<open>split_whitespace\<close> know the UTF-8 encodings of the Unicode White\_Space characters.
  \<open>u64\<close> is \<^typ>\<open>64 word\<close>. \<open>usize\<close> values are natural numbers; where the source checks
  for overflow the bound \<open>2 ^ 64\<close> is written out.
\<close>

named_theorems str_simps \<open>equations of the string operations for concrete and symbolic evaluation\<close>
named_theorems bytes_ascii \<open>facts on byte lists that hold ASCII only\<close>

type_synonym bytes = "char list"
type_synonym u64 = "64 word"

abbreviation code :: "char \<Rightarrow> nat" where
  "code c \<equiv> of_char c"

abbreviation CR :: char where "CR \<equiv> CHR 0x0D"
abbreviation LF :: char where "LF \<equiv> CHR 0x0A"
abbreviation CRLF :: bytes where "CRLF \<equiv> [CR, LF]"
abbreviation CRLF2 :: bytes where "CRLF2 \<equiv> [CR, LF, CR, LF]"

definition usize_bound :: nat where
  "usize_bound = 2 ^ 64"

section \<open>Results\<close>

text \<open>\<open>io::Result\<close>: the kinds of \<open>io::ErrorKind\<close> that the source builds or inspects; any
  further kind an operating system call reports is \<open>OtherKind\<close> with its number.\<close>

datatype io_error_kind = InvalidData | InvalidInput | NotFound | UnexpectedEof | TimedOut
  | AlreadyExists | PermissionDenied | ConnectionReset | BrokenPipe | Other | OtherKind nat

datatype io_error = IoError (err_kind: io_error_kind) (err_msg: string)

type_synonym 'a io_result = "io_error + 'a"

abbreviation Ok :: "'a \<Rightarrow> 'e + 'a" where "Ok \<equiv> Inr"
abbreviation Err :: "'e \<Rightarrow> 'e + 'a" where "Err \<equiv> Inl"

text \<open>The \<open>?\<close> operator.\<close>

definition and_then :: "'e + 'a \<Rightarrow> ('a \<Rightarrow> 'e + 'b) \<Rightarrow> 'e + 'b" where
  "and_then r f = (case r of Inl e \<Rightarrow> Inl e | Inr x \<Rightarrow> f x)"

definition ok_or :: "'a option \<Rightarrow> 'e \<Rightarrow> 'e + 'a" where
  "ok_or x e = (case x of None \<Rightarrow> Inl e | Some v \<Rightarrow> Inr v)"

definition ensure :: "bool \<Rightarrow> 'e \<Rightarrow> 'e + unit" where
  "ensure b e = (if b then Inr () else Inl e)"

lemma and_then_simps [simp]:
  "and_then (Inl e) f = Inl e" "and_then (Inr x) f = f x"
  by (simp_all add: and_then_def)

lemma ok_or_simps [simp]: "ok_or None e = Inl e" "ok_or (Some v) e = Inr v"
  by (simp_all add: ok_or_def)

lemma ensure_simps [simp]: "ensure True e = Inr ()" "ensure False e = Inl e"
  by (simp_all add: ensure_def)

lemma and_then_Inr_iff: "and_then r f = Inr y \<longleftrightarrow> (\<exists>x. r = Inr x \<and> f x = Inr y)"
  by (cases r) auto

lemma ok_or_Inr_iff: "ok_or x e = Inr v \<longleftrightarrow> x = Some v"
  by (cases x) auto

lemma ensure_Inr_iff: "ensure b e = Inr u \<longleftrightarrow> b"
  by (cases b) auto

lemmas result_iffs = and_then_Inr_iff ok_or_Inr_iff ensure_Inr_iff

section \<open>Saturating arithmetic on u64\<close>

definition sat_add :: "u64 \<Rightarrow> u64 \<Rightarrow> u64" where
  "sat_add a b = (if unat a + unat b < 2 ^ 64 then a + b else - 1)"

definition sat_sub :: "u64 \<Rightarrow> u64 \<Rightarrow> u64" where
  "sat_sub a b = (if a < b then 0 else a - b)"

definition sat_mul :: "u64 \<Rightarrow> u64 \<Rightarrow> u64" where
  "sat_mul a b = (if unat a * unat b < 2 ^ 64 then a * b else - 1)"

lemma unat_max_u64: "unat (- 1 :: u64) = 2 ^ 64 - 1"
  by (simp add: unsigned_minus_1_eq_mask mask_eq_exp_minus_1)

lemma unat_less_u64: "unat (a :: u64) < 2 ^ 64"
proof -
  have "unat a < 2 ^ LENGTH(64)" by (rule unsigned_less)
  then show ?thesis by simp
qed

lemma unat_sat_add: "unat (sat_add a b) = min (unat a + unat b) (2 ^ 64 - 1)"
proof (cases "unat a + unat b < 2 ^ 64")
  case True
  then show ?thesis by (simp add: sat_add_def unat_word_ariths)
next
  case False
  then show ?thesis by (simp add: sat_add_def unat_max_u64)
qed

lemma unat_sat_mul: "unat (sat_mul a b) = min (unat a * unat b) (2 ^ 64 - 1)"
proof (cases "unat a * unat b < 2 ^ 64")
  case True
  then show ?thesis by (simp add: sat_mul_def unat_word_ariths)
next
  case False
  then show ?thesis by (simp add: sat_mul_def unat_max_u64)
qed

lemma sat_add_ge: "a \<le> sat_add a b"
  using unat_less_u64 [of a] by (simp add: word_le_nat_alt unat_sat_add)

lemma sat_add_strict: "b \<noteq> 0 \<Longrightarrow> a \<noteq> - 1 \<Longrightarrow> a < sat_add a b"
proof -
  assume b: "b \<noteq> 0" and a: "a \<noteq> - 1"
  have "unat a \<noteq> 2 ^ 64 - 1" using a by (metis unat_max_u64 word_unat_eq_iff)
  moreover have "unat a < 2 ^ 64" by (rule unat_less_u64)
  moreover have "0 < unat b" using b by (simp add: unat_gt_0)
  ultimately show ?thesis by (simp add: word_less_nat_alt unat_sat_add)
qed

lemma sat_add_commute: "sat_add a b = sat_add b a"
  by (simp add: sat_add_def add.commute)

lemma sat_add_assoc: "sat_add (sat_add a b) c = sat_add a (sat_add b c)"
proof -
  have "unat (sat_add (sat_add a b) c) = unat (sat_add a (sat_add b c))"
    by (simp add: unat_sat_add)
  then show ?thesis by (simp only: word_unat_eq_iff)
qed

end
