(* ===== verification/Rust_Str.thy ===== *)
theory Rust_Str
  imports Rust_Prelude
begin

text \<open>
  Strings and byte slices: the methods of \<open>str\<close> and \<open>[u8]\<close> that the sources call, with
  the lemmas on splitting, joining, trimming, case folding and UTF-8 that the header and
  host-name proofs use.
\<close>

section \<open>ASCII\<close>

definition to_lower :: "char \<Rightarrow> char" where
  "to_lower c = (if 65 \<le> code c \<and> code c \<le> 90 then char_of (code c + 32) else c)"

definition to_ascii_lowercase :: "bytes \<Rightarrow> bytes" where
  "to_ascii_lowercase s = map to_lower s"

definition eq_ignore_ascii_case :: "bytes \<Rightarrow> bytes \<Rightarrow> bool" where
  "eq_ignore_ascii_case a b \<longleftrightarrow> to_ascii_lowercase a = to_ascii_lowercase b"

definition is_ascii :: "bytes \<Rightarrow> bool" where
  "is_ascii s \<longleftrightarrow> list_all (\<lambda>c. code c < 128) s"

definition no_upper :: "bytes \<Rightarrow> bool" where
  "no_upper s \<longleftrightarrow> list_all (\<lambda>c. \<not> (65 \<le> code c \<and> code c \<le> 90)) s"

lemma code_to_lower: "code (to_lower c) = (if 65 \<le> code c \<and> code c \<le> 90 then code c + 32 else code c)"
  by (simp add: to_lower_def)

lemma to_lower_idem [simp]: "to_lower (to_lower c) = to_lower c"
  by (simp add: to_lower_def)

lemma to_ascii_lowercase_idem [simp]:
  "to_ascii_lowercase (to_ascii_lowercase s) = to_ascii_lowercase s"
  by (simp add: to_ascii_lowercase_def)

lemma to_ascii_lowercase_Nil_iff [simp]:
  "to_ascii_lowercase s = [] \<longleftrightarrow> s = []"
  "to_ascii_lowercase [] = []"
  by (simp_all add: to_ascii_lowercase_def)

lemma to_ascii_lowercase_append:
  "to_ascii_lowercase (a @ b) = to_ascii_lowercase a @ to_ascii_lowercase b"
  by (simp add: to_ascii_lowercase_def)

lemma length_to_ascii_lowercase [simp]: "length (to_ascii_lowercase s) = length s"
  by (simp add: to_ascii_lowercase_def)

lemma no_upper_lower [simp]: "no_upper (to_ascii_lowercase s)"
  by (auto simp: no_upper_def to_ascii_lowercase_def list_all_iff code_to_lower)

lemma lower_id_if_no_upper: "no_upper s \<Longrightarrow> to_ascii_lowercase s = s"
  by (induction s) (auto simp: no_upper_def to_ascii_lowercase_def to_lower_def)

lemma to_lower_eq_iff_not_alpha:
  "\<not> (97 \<le> code d \<and> code d \<le> 122) \<Longrightarrow> \<not> (65 \<le> code d \<and> code d \<le> 90) \<Longrightarrow> to_lower c = d \<longleftrightarrow> c = d"
  by (auto simp: to_lower_def)

lemma is_ascii_simps [simp, bytes_ascii]:
  "is_ascii []" "is_ascii (c # s) \<longleftrightarrow> code c < 128 \<and> is_ascii s"
  "is_ascii (a @ b) \<longleftrightarrow> is_ascii a \<and> is_ascii b"
  by (auto simp: is_ascii_def)

lemma is_ascii_take [bytes_ascii]: "is_ascii s \<Longrightarrow> is_ascii (take n s)"
  by (auto simp: is_ascii_def list_all_iff dest: in_set_takeD)

lemma is_ascii_drop [bytes_ascii]: "is_ascii s \<Longrightarrow> is_ascii (drop n s)"
  by (auto simp: is_ascii_def list_all_iff dest: in_set_dropD)

section \<open>Searching and splitting\<close>

text \<open>\<open>find(pat)\<close>, and \<open>windows(n).position(|w| w == pat)\<close> for a pattern of \<open>n > 0\<close> bytes.\<close>

fun find_sub :: "bytes \<Rightarrow> bytes \<Rightarrow> nat option" where
  "find_sub p [] = (if p = [] then Some 0 else None)"
| "find_sub p (c # s) = (if prefix p (c # s) then Some 0 else map_option Suc (find_sub p s))"

definition str_contains :: "bytes \<Rightarrow> bytes \<Rightarrow> bool" where
  "str_contains s p \<longleftrightarrow> find_sub p s \<noteq> None"

definition contains_char :: "bytes \<Rightarrow> char \<Rightarrow> bool" where
  "contains_char s c \<longleftrightarrow> c \<in> set s"

definition find_char :: "char \<Rightarrow> bytes \<Rightarrow> nat option" where
  "find_char c s = (if c \<in> set s then Some (length (takeWhile (\<lambda>x. x \<noteq> c) s)) else None)"

definition strip_prefix :: "bytes \<Rightarrow> bytes \<Rightarrow> bytes option" where
  "strip_prefix p s = (if prefix p s then Some (drop (length p) s) else None)"

definition strip_suffix_char :: "char \<Rightarrow> bytes \<Rightarrow> bytes option" where
  "strip_suffix_char c s = (if s \<noteq> [] \<and> last s = c then Some (butlast s) else None)"

definition trim_end_matches :: "char \<Rightarrow> bytes \<Rightarrow> bytes" where
  "trim_end_matches c s = rev (dropWhile (\<lambda>x. x = c) (rev s))"

definition split_once :: "char \<Rightarrow> bytes \<Rightarrow> (bytes \<times> bytes) option" where
  "split_once c s = (case dropWhile (\<lambda>x. x \<noteq> c) s of [] \<Rightarrow> None
     | _ # r \<Rightarrow> Some (takeWhile (\<lambda>x. x \<noteq> c) s, r))"

definition rsplit_once :: "char \<Rightarrow> bytes \<Rightarrow> (bytes \<times> bytes) option" where
  "rsplit_once c s = (case split_once c (rev s) of None \<Rightarrow> None
     | Some (a, b) \<Rightarrow> Some (rev b, rev a))"

fun split_on :: "char \<Rightarrow> bytes \<Rightarrow> bytes list" where
  "split_on c [] = [[]]"
| "split_on c (x # s) = (if x = c then [] # split_on c s
     else (case split_on c s of [] \<Rightarrow> [[x]] | y # ys \<Rightarrow> (x # y) # ys))"

fun split_crlf :: "bytes \<Rightarrow> bytes list" where
  "split_crlf [] = [[]]"
| "split_crlf [a] = [[a]]"
| "split_crlf (a # b # s) = (if a = CR \<and> b = LF then [] # split_crlf s
     else (case split_crlf (b # s) of [] \<Rightarrow> [[a]] | y # ys \<Rightarrow> (a # y) # ys))"

fun join :: "bytes \<Rightarrow> bytes list \<Rightarrow> bytes" where
  "join sep [] = []"
| "join sep [x] = x"
| "join sep (x # y # xs) = x @ sep @ join sep (y # xs)"

lemma find_sub_Some_iff:
  "find_sub p s = Some n \<longleftrightarrow> n \<le> length s \<and> prefix p (drop n s) \<and> (\<forall>m<n. \<not> prefix p (drop m s))"
proof (induction p s arbitrary: n rule: find_sub.induct)
  case (2 p c s)
  show ?case
  proof (cases n)
    case 0
    then show ?thesis by auto
  next
    case (Suc k)
    have all: "(\<forall>m<Suc k. \<not> prefix p (drop m (c # s))) \<longleftrightarrow>
      \<not> prefix p (c # s) \<and> (\<forall>m<k. \<not> prefix p (drop m s))"
      by (auto simp: less_Suc_eq_0_disj)
    show ?thesis unfolding Suc all using 2 by auto
  qed
qed auto

lemma find_sub_None_iff: "find_sub p s = None \<longleftrightarrow> \<not> sublist p s"
  by (induction p s rule: find_sub.induct) (auto simp: sublist_Cons_right)

lemma str_contains_iff [str_simps]: "str_contains s p \<longleftrightarrow> sublist p s"
  by (simp only: str_contains_def find_sub_None_iff not_not)

lemma find_sub_bound: "find_sub p s = Some n \<Longrightarrow> n + length p \<le> length s"
proof -
  assume "find_sub p s = Some n"
  then have "n \<le> length s" "prefix p (drop n s)" by (simp_all add: find_sub_Some_iff)
  then show ?thesis using prefix_length_le [of p "drop n s"] by simp
qed

lemma takeWhile_neq_append: "c \<notin> set a \<Longrightarrow> takeWhile (\<lambda>x. x \<noteq> c) (a @ c # b) = a"
  by (induction a) auto

lemma find_char_append: "c \<notin> set a \<Longrightarrow> find_char c (a @ c # b) = Some (length a)"
  by (simp add: find_char_def takeWhile_neq_append)

lemma find_char_None_iff: "find_char c s = None \<longleftrightarrow> c \<notin> set s"
  by (simp add: find_char_def)

lemma split_once_Nil [simp]: "split_once c [] = None"
  by (simp add: split_once_def)

lemma split_once_Cons [simp]:
  "split_once c (x # s) = (if x = c then Some ([], s) else map_option (apfst (Cons x)) (split_once c s))"
  by (cases "dropWhile (\<lambda>x. x \<noteq> c) s") (auto simp: split_once_def simp del: dropWhile_eq_Nil_conv)

lemma split_once_None_iff: "split_once c s = None \<longleftrightarrow> c \<notin> set s"
  by (induction s) auto

lemma split_once_Some_iff: "split_once c s = Some (a, b) \<longleftrightarrow> s = a @ c # b \<and> c \<notin> set a"
proof (induction s arbitrary: a)
  case (Cons x s)
  then show ?case by (cases a) (auto simp: apfst_def map_prod_def)
qed simp

lemma split_once_append [simp]: "c \<notin> set a \<Longrightarrow> split_once c (a @ c # b) = Some (a, b)"
  by (simp add: split_once_Some_iff)

lemma rsplit_once_None_iff: "rsplit_once c s = None \<longleftrightarrow> c \<notin> set s"
  using split_once_None_iff [of c "rev s"] by (auto simp: rsplit_once_def split: option.splits)

lemma rsplit_once_Some_iff: "rsplit_once c s = Some (a, b) \<longleftrightarrow> s = a @ c # b \<and> c \<notin> set b"
proof -
  have "rsplit_once c s = Some (a, b) \<longleftrightarrow> split_once c (rev s) = Some (rev b, rev a)"
    by (cases "split_once c (rev s)") (auto simp: rsplit_once_def rev_swap)
  also have "\<dots> \<longleftrightarrow> rev s = rev b @ c # rev a \<and> c \<notin> set b"
    by (simp add: split_once_Some_iff)
  also have "\<dots> \<longleftrightarrow> s = a @ c # b \<and> c \<notin> set b"
    by (metis append.assoc append_Cons append_Nil rev.simps(2) rev_append rev_rev_ident)
  finally show ?thesis .
qed

lemma split_on_not_Nil [simp]: "split_on c s \<noteq> []"
  by (induction s) (auto split: list.splits)

lemma split_on_no_sep: "x \<in> set (split_on c s) \<Longrightarrow> c \<notin> set x"
proof (induction s arbitrary: x)
  case (Cons a s)
  then show ?case by (cases "split_on c s") (auto split: if_splits)
qed simp

lemma join_Cons: "join sep (x # xs) = (if xs = [] then x else x @ sep @ join sep xs)"
  by (cases xs) simp_all

lemma join_split_on [simp]: "join [c] (split_on c s) = s"
proof (induction s)
  case (Cons a s)
  then show ?case by (cases "split_on c s") (auto simp: join_Cons split: if_splits)
qed simp

lemma split_on_id: "c \<notin> set s \<Longrightarrow> split_on c s = [s]"
  by (induction s) auto

lemma split_on_append: "c \<notin> set a \<Longrightarrow> split_on c (a @ c # b) = a # split_on c b"
  by (induction a) auto

lemma split_on_join:
  "xs \<noteq> [] \<Longrightarrow> list_all (\<lambda>x. c \<notin> set x) xs \<Longrightarrow> split_on c (join [c] xs) = xs"
proof (induction xs)
  case (Cons x xs)
  then show ?case by (cases xs) (auto simp: join_Cons split_on_append split_on_id)
qed simp

lemma split_crlf_not_Nil [simp]: "split_crlf s \<noteq> []"
  by (induction s rule: split_crlf.induct) (auto split: list.splits)

lemma join_split_crlf [simp]: "join CRLF (split_crlf s) = s"
proof (induction s rule: split_crlf.induct)
  case (3 a b s)
  then show ?case
    by (cases "a = CR \<and> b = LF"; cases "split_crlf (b # s)") (auto simp: join_Cons split: if_splits)
qed auto

definition no_crlf :: "bytes \<Rightarrow> bool" where
  "no_crlf s \<longleftrightarrow> split_crlf s = [s]"

lemma no_crlf_Nil [simp]: "no_crlf []"
  by (simp add: no_crlf_def)

lemma no_crlf_Cons_Cons [simp]:
  "no_crlf (a # b # s) \<longleftrightarrow> \<not> (a = CR \<and> b = LF) \<and> no_crlf (b # s)"
  by (cases "split_crlf (b # s)") (auto simp: no_crlf_def)

lemma no_crlf_single [simp]: "no_crlf [a]"
  by (simp add: no_crlf_def)

lemma no_crlf_iff: "no_crlf s \<longleftrightarrow> \<not> sublist CRLF s"
  by (induction s rule: split_crlf.induct) (auto simp: sublist_Cons_right)

lemma split_crlf_append: "no_crlf a \<Longrightarrow> split_crlf (a @ CRLF @ b) = a # split_crlf b"
proof (induction a rule: split_crlf.induct)
  case (3 x y s)
  then have "split_crlf ((y # s) @ CRLF @ b) = (y # s) # split_crlf b" by simp
  with 3 show ?case by auto
qed auto

lemma split_crlf_pieces: "x \<in> set (split_crlf s) \<Longrightarrow> no_crlf x"
proof (induction s arbitrary: x rule: split_crlf.induct)
  case (3 a b s)
  show ?case
  proof (cases "a = CR \<and> b = LF")
    case False
    obtain y ys where e: "split_crlf (b # s) = y # ys" by (cases "split_crlf (b # s)") auto
    have hd: "y = [] \<or> hd y = b" using e
      by (cases s) (auto split: if_splits list.splits)
    from False e 3(3) have "x = a # y \<or> x \<in> set ys" by auto
    moreover have "no_crlf y" "\<And>z. z \<in> set ys \<Longrightarrow> no_crlf z" using 3(2) False e by auto
    moreover have "no_crlf y \<Longrightarrow> no_crlf (a # y)" using hd False by (cases y) auto
    ultimately show ?thesis by auto
  qed (use 3 in auto)
qed auto

lemma split_crlf_join:
  "xs \<noteq> [] \<Longrightarrow> list_all no_crlf xs \<Longrightarrow> split_crlf (join CRLF xs) = xs"
proof (induction xs)
  case (Cons x xs)
  then show ?case
    by (cases xs) (auto simp: join_Cons split_crlf_append [simplified] no_crlf_def)
qed simp

section \<open>White space\<close>

text \<open>The bytes at the head of a list that encode one White\_Space character: one byte for
  the ASCII ones, two for U+0085 and U+00A0, three for U+1680, U+2000 to U+200A, U+2028,
  U+2029, U+202F, U+205F and U+3000; 0 when the list does not start with one.\<close>

definition ws1 :: "char \<Rightarrow> bool" where
  "ws1 a \<longleftrightarrow> 9 \<le> code a \<and> code a \<le> 13 \<or> code a = 32"

definition ws2 :: "char \<Rightarrow> char \<Rightarrow> bool" where
  "ws2 a b \<longleftrightarrow> code a = 0xC2 \<and> (code b = 0x85 \<or> code b = 0xA0)"

definition ws3 :: "char \<Rightarrow> char \<Rightarrow> char \<Rightarrow> bool" where
  "ws3 a b c \<longleftrightarrow>
     code a = 0xE1 \<and> code b = 0x9A \<and> code c = 0x80 \<or>
     code a = 0xE2 \<and> code b = 0x80 \<and>
       (0x80 \<le> code c \<and> code c \<le> 0x8A \<or> code c = 0xA8 \<or> code c = 0xA9 \<or> code c = 0xAF) \<or>
     code a = 0xE2 \<and> code b = 0x81 \<and> code c = 0x9F \<or>
     code a = 0xE3 \<and> code b = 0x80 \<and> code c = 0x80"

fun ws_len :: "bytes \<Rightarrow> nat" where
  "ws_len [] = 0"
| "ws_len [a] = (if ws1 a then 1 else 0)"
| "ws_len [a, b] = (if ws1 a then 1 else if ws2 a b then 2 else 0)"
| "ws_len (a # b # c # s) = (if ws1 a then 1 else if ws2 a b then 2 else if ws3 a b c then 3 else 0)"

fun ws_len_rev :: "bytes \<Rightarrow> nat" where
  "ws_len_rev [] = 0"
| "ws_len_rev [a] = (if ws1 a then 1 else 0)"
| "ws_len_rev [b, a] = (if ws1 b then 1 else if ws2 a b then 2 else 0)"
| "ws_len_rev (c # b # a # s) = (if ws1 c then 1 else if ws2 b c then 2 else if ws3 a b c then 3 else 0)"

function trim_start :: "bytes \<Rightarrow> bytes" where
  "trim_start s = (if ws_len s = 0 then s else trim_start (drop (ws_len s) s))"
  by pat_completeness auto
termination
proof (relation "measure length")
  fix s :: bytes
  assume "ws_len s \<noteq> 0"
  then show "(drop (ws_len s) s, s) \<in> measure length" by (cases s) auto
qed simp

function trim_rev :: "bytes \<Rightarrow> bytes" where
  "trim_rev s = (if ws_len_rev s = 0 then s else trim_rev (drop (ws_len_rev s) s))"
  by pat_completeness auto
termination
proof (relation "measure length")
  fix s :: bytes
  assume "ws_len_rev s \<noteq> 0"
  then show "(drop (ws_len_rev s) s, s) \<in> measure length" by (cases s) auto
qed simp

declare trim_start.simps [simp del] trim_rev.simps [simp del]

definition trim_end :: "bytes \<Rightarrow> bytes" where
  "trim_end s = rev (trim_rev (rev s))"

definition trim :: "bytes \<Rightarrow> bytes" where
  "trim s = trim_end (trim_start s)"

text \<open>\<open>split_whitespace\<close>: the maximal runs of bytes between White\_Space characters.\<close>

function split_whitespace_aux :: "bytes \<Rightarrow> bytes \<Rightarrow> bytes list" where
  "split_whitespace_aux acc s = (case s of [] \<Rightarrow> (if acc = [] then [] else [rev acc])
     | c # t \<Rightarrow> (if ws_len s = 0 then split_whitespace_aux (c # acc) t
        else (if acc = [] then [] else [rev acc]) @ split_whitespace_aux [] (drop (ws_len s) s)))"
  by pat_completeness auto
termination by (relation "measure (\<lambda>(acc, s). length s)") auto

declare split_whitespace_aux.simps [simp del]

definition split_whitespace :: "bytes \<Rightarrow> bytes list" where
  "split_whitespace s = split_whitespace_aux [] s"

lemma trim_start_suffix: "suffix (trim_start s) s"
proof (induction s rule: trim_start.induct)
  case (1 s)
  then show ?case
    by (subst trim_start.simps) (auto intro: suffix_order.trans suffix_drop)
qed

lemma trim_rev_suffix: "suffix (trim_rev s) s"
proof (induction s rule: trim_rev.induct)
  case (1 s)
  then show ?case
    by (subst trim_rev.simps) (auto intro: suffix_order.trans suffix_drop)
qed

lemma trim_end_prefix: "prefix (trim_end s) s"
  using trim_rev_suffix [of "rev s"] by (simp add: trim_end_def suffix_to_prefix)

lemma trim_sublist: "sublist (trim s) s"
proof -
  have "sublist (trim s) (trim_start s)"
    unfolding trim_def by (rule prefix_imp_sublist [OF trim_end_prefix])
  also have "sublist (trim_start s) s" by (rule suffix_imp_sublist [OF trim_start_suffix])
  finally show ?thesis .
qed

lemma set_trim: "set (trim s) \<subseteq> set s"
  by (rule set_mono_sublist [OF trim_sublist])

lemma trim_start_stop [simp]: "ws_len (trim_start s) = 0"
proof (induction s rule: trim_start.induct)
  case (1 s)
  then show ?case by (cases "ws_len s = 0") (simp_all add: trim_start.simps [of s])
qed

lemma trim_rev_stop [simp]: "ws_len_rev (trim_rev s) = 0"
proof (induction s rule: trim_rev.induct)
  case (1 s)
  then show ?case by (cases "ws_len_rev s = 0") (simp_all add: trim_rev.simps [of s])
qed

lemma trim_id: "ws_len s = 0 \<Longrightarrow> ws_len_rev (rev s) = 0 \<Longrightarrow> trim s = s"
  by (simp add: trim_def trim_end_def trim_start.simps [of s] trim_rev.simps [of "rev s"])

lemma ws_len_start_prefix: "ws_len s = 0 \<Longrightarrow> prefix p s \<Longrightarrow> ws_len p = 0"
  by (cases p rule: ws_len.cases; cases s rule: ws_len.cases) (auto split: if_splits)

lemma trim_idem [simp]: "trim (trim s) = trim s"
proof (rule trim_id)
  show "ws_len (trim s) = 0"
    unfolding trim_def by (rule ws_len_start_prefix [OF trim_start_stop trim_end_prefix])
  show "ws_len_rev (rev (trim s)) = 0" by (simp add: trim_def trim_end_def)
qed

text \<open>Visible ASCII: no white space, nothing that \<open>trim\<close> removes.\<close>

definition graphic :: "bytes \<Rightarrow> bool" where
  "graphic s \<longleftrightarrow> list_all (\<lambda>c. 33 \<le> code c \<and> code c \<le> 126) s"

lemma graphic_simps [simp]:
  "graphic []" "graphic (c # s) \<longleftrightarrow> 33 \<le> code c \<and> code c \<le> 126 \<and> graphic s"
  "graphic (a @ b) \<longleftrightarrow> graphic a \<and> graphic b" "graphic (rev a) \<longleftrightarrow> graphic a"
  by (auto simp: graphic_def)

lemma graphic_ascii: "graphic s \<Longrightarrow> is_ascii s"
  by (auto simp: graphic_def is_ascii_def list_all_iff)

lemma graphic_sublist: "graphic s \<Longrightarrow> set t \<subseteq> set s \<Longrightarrow> graphic t"
  by (auto simp: graphic_def list_all_iff)

lemma graphic_ws_len [simp]: "graphic s \<Longrightarrow> ws_len s = 0"
  by (cases s rule: ws_len.cases) (auto simp: ws1_def ws2_def ws3_def)

lemma graphic_ws_len_rev [simp]: "graphic s \<Longrightarrow> ws_len_rev s = 0"
  by (cases s rule: ws_len_rev.cases) (auto simp: ws1_def ws2_def ws3_def)

lemma trim_graphic: "graphic s \<Longrightarrow> trim s = s"
  by (rule trim_id) auto

end
