(* ===== verification/Rust_Text.thy ===== *)
theory Rust_Text
  imports Rust_Str
begin

text \<open>
  UTF-8 validation and lossy decoding (\<open>str::from_utf8\<close>, \<open>String::from_utf8_lossy\<close>), and
  unsigned integers as text (\<open>parse\<close>, \<open>from_str_radix\<close>, \<open>Display\<close>).
\<close>

section \<open>UTF-8\<close>

definition cont :: "char \<Rightarrow> bool" where
  "cont b \<longleftrightarrow> 0x80 \<le> code b \<and> code b \<le> 0xBF"

definition lead3 :: "char \<Rightarrow> char \<Rightarrow> bool" where
  "lead3 a b \<longleftrightarrow>
     code a = 0xE0 \<and> 0xA0 \<le> code b \<and> code b \<le> 0xBF \<or>
     (0xE1 \<le> code a \<and> code a \<le> 0xEC \<or> 0xEE \<le> code a \<and> code a \<le> 0xEF) \<and> cont b \<or>
     code a = 0xED \<and> 0x80 \<le> code b \<and> code b \<le> 0x9F"

definition lead4 :: "char \<Rightarrow> char \<Rightarrow> bool" where
  "lead4 a b \<longleftrightarrow>
     code a = 0xF0 \<and> 0x90 \<le> code b \<and> code b \<le> 0xBF \<or>
     0xF1 \<le> code a \<and> code a \<le> 0xF3 \<and> cont b \<or>
     code a = 0xF4 \<and> 0x80 \<le> code b \<and> code b \<le> 0x8F"

text \<open>One step of the decoder at the head of a non-empty list: whether a scalar value is
  encoded there, and how many bytes it, or the maximal ill-formed prefix, takes.\<close>

definition utf8_step :: "char \<Rightarrow> bytes \<Rightarrow> bool \<times> nat" where
  "utf8_step a s =
    (if code a < 0x80 then (True, 1)
     else if 0xC2 \<le> code a \<and> code a \<le> 0xDF then
       (case s of [] \<Rightarrow> (False, 1) | b # _ \<Rightarrow> if cont b then (True, 2) else (False, 1))
     else if 0xE0 \<le> code a \<and> code a \<le> 0xEF then
       (case s of [] \<Rightarrow> (False, 1)
        | b # s' \<Rightarrow> if \<not> lead3 a b then (False, 1)
            else (case s' of [] \<Rightarrow> (False, 2) | c # _ \<Rightarrow> if cont c then (True, 3) else (False, 2)))
     else if 0xF0 \<le> code a \<and> code a \<le> 0xF4 then
       (case s of [] \<Rightarrow> (False, 1)
        | b # s' \<Rightarrow> if \<not> lead4 a b then (False, 1)
            else (case s' of [] \<Rightarrow> (False, 2)
              | c # s'' \<Rightarrow> if \<not> cont c then (False, 2)
                  else (case s'' of [] \<Rightarrow> (False, 3) | d # _ \<Rightarrow> if cont d then (True, 4) else (False, 3))))
     else (False, 1))"

lemma utf8_step_pos: "0 < snd (utf8_step a s)"
  by (auto simp: utf8_step_def split: list.splits)

function utf8_valid :: "bytes \<Rightarrow> bool" where
  "utf8_valid [] = True"
| "utf8_valid (a # s) = (fst (utf8_step a s) \<and> utf8_valid (drop (snd (utf8_step a s)) (a # s)))"
  by pat_completeness auto
termination
proof (relation "measure length")
  fix a :: char and s :: bytes
  show "(drop (snd (utf8_step a s)) (a # s), a # s) \<in> measure length"
    using utf8_step_pos [of a s] by simp
qed simp

abbreviation REPLACEMENT :: bytes where
  "REPLACEMENT \<equiv> [CHR 0xEF, CHR 0xBF, CHR 0xBD]"

function from_utf8_lossy :: "bytes \<Rightarrow> bytes" where
  "from_utf8_lossy [] = []"
| "from_utf8_lossy (a # s) =
    (if fst (utf8_step a s) then take (snd (utf8_step a s)) (a # s) else REPLACEMENT) @
    from_utf8_lossy (drop (snd (utf8_step a s)) (a # s))"
  by pat_completeness auto
termination
proof (relation "measure length")
  fix a :: char and s :: bytes
  show "(drop (snd (utf8_step a s)) (a # s), a # s) \<in> measure length"
    using utf8_step_pos [of a s] by simp
qed simp

definition from_utf8 :: "bytes \<Rightarrow> bytes option" where
  "from_utf8 s = (if utf8_valid s then Some s else None)"

lemma utf8_step_ascii [simp]: "code a < 128 \<Longrightarrow> utf8_step a s = (True, Suc 0)"
  by (simp add: utf8_step_def)

lemma utf8_valid_ascii [simp]: "is_ascii s \<Longrightarrow> utf8_valid s"
  by (induction s) auto

lemma from_utf8_lossy_valid: "utf8_valid s \<Longrightarrow> from_utf8_lossy s = s"
proof (induction s rule: utf8_valid.induct)
  case (2 a s)
  then have "from_utf8_lossy (drop (snd (utf8_step a s)) (a # s)) = drop (snd (utf8_step a s)) (a # s)"
    by (simp del: from_utf8_lossy.simps)
  with 2 show ?case by (simp add: append_take_drop_id)
qed simp

lemma from_utf8_lossy_ascii [simp]: "is_ascii s \<Longrightarrow> from_utf8_lossy s = s"
  by (simp add: from_utf8_lossy_valid)

lemma from_utf8_ascii [simp]: "is_ascii s \<Longrightarrow> from_utf8 s = Some s"
  by (simp add: from_utf8_def)

lemma from_utf8_Some_iff: "from_utf8 s = Some t \<longleftrightarrow> utf8_valid s \<and> t = s"
  by (auto simp: from_utf8_def)

lemma utf8_step_take:
  "fst (utf8_step a s) \<Longrightarrow> utf8_step a (take (snd (utf8_step a s) - 1) s @ t) = utf8_step a s"
  unfolding utf8_step_def
  by (cases s; cases "tl s"; cases "tl (tl s)") (simp_all split: if_split_asm)

lemma utf8_step_le: "fst (utf8_step a s) \<Longrightarrow> snd (utf8_step a s) \<le> length (a # s)"
  by (auto simp: utf8_step_def split: list.splits if_splits)

lemma utf8_valid_step_append:
  assumes "fst (utf8_step a s)"
  shows "utf8_valid (take (snd (utf8_step a s)) (a # s) @ t) = utf8_valid t"
proof -
  let ?k = "snd (utf8_step a s)"
  have k: "0 < ?k" "?k \<le> length (a # s)" using assms utf8_step_pos utf8_step_le by auto
  then have e: "take ?k (a # s) @ t = a # (take (?k - 1) s @ t)" by (cases ?k) auto
  have "drop ?k (take ?k (a # s) @ t) = t" using k by simp
  then show ?thesis unfolding e using utf8_step_take [OF assms, of t] assms by (simp del: drop_Cons')
qed

lemma utf8_valid_lossy: "utf8_valid (from_utf8_lossy s)"
proof (induction s rule: from_utf8_lossy.induct)
  case (2 a s)
  have "utf8_valid (REPLACEMENT @ t) = utf8_valid t" for t
    by (simp add: utf8_step_def lead3_def cont_def)
  with 2 utf8_valid_step_append [of a s] show ?case by (simp del: append_Cons utf8_valid.simps(2))
qed simp

section \<open>Unsigned integers as text\<close>

definition digit_val :: "nat \<Rightarrow> char \<Rightarrow> nat option" where
  "digit_val r c =
    (let n = code c;
         d = (if 48 \<le> n \<and> n \<le> 57 then n - 48
              else if 97 \<le> n \<and> n \<le> 122 then n - 87
              else if 65 \<le> n \<and> n \<le> 90 then n - 55 else 36)
     in if d < r then Some d else None)"

fun parse_digits :: "nat \<Rightarrow> nat \<Rightarrow> nat \<Rightarrow> bytes \<Rightarrow> nat option" where
  "parse_digits r m acc [] = Some acc"
| "parse_digits r m acc (c # s) =
    (case digit_val r c of None \<Rightarrow> None
     | Some d \<Rightarrow> if acc * r + d < m then parse_digits r m (acc * r + d) s else None)"

text \<open>\<open>from_str_radix\<close> for an unsigned type with \<open>m\<close> values; \<open>parse()\<close> is radix 10. A
  leading plus sign is allowed, the digits may not be empty.\<close>

definition from_str_radix :: "nat \<Rightarrow> nat \<Rightarrow> bytes \<Rightarrow> nat option" where
  "from_str_radix r m s =
    (let ds = (case s of [] \<Rightarrow> [] | c # t \<Rightarrow> if c = CHR ''+'' then t else s)
     in if ds = [] then None else parse_digits r m 0 ds)"

definition parse_usize :: "bytes \<Rightarrow> nat option" where
  "parse_usize s = from_str_radix 10 usize_bound s"

definition parse_u16 :: "bytes \<Rightarrow> nat option" where
  "parse_u16 s = from_str_radix 10 65536 s"

definition digit_char :: "nat \<Rightarrow> char" where
  "digit_char d = (if d < 10 then char_of (48 + d) else char_of (87 + d))"

function show_radix :: "nat \<Rightarrow> nat \<Rightarrow> bytes" where
  "show_radix r n = (if n < r \<or> r < 2 then [digit_char n]
     else show_radix r (n div r) @ [digit_char (n mod r)])"
  by pat_completeness auto
termination by (relation "measure snd") auto

declare show_radix.simps [simp del]

abbreviation show_nat :: "nat \<Rightarrow> bytes" where
  "show_nat \<equiv> show_radix 10"

lemma digit_val_char: "d < r \<Longrightarrow> r \<le> 16 \<Longrightarrow> digit_val r (digit_char d) = Some d"
  by (auto simp: digit_val_def digit_char_def Let_def)

lemma parse_digits_append:
  "parse_digits r m acc (a @ b) = Option.bind (parse_digits r m acc a) (\<lambda>v. parse_digits r m v b)"
  by (induction a arbitrary: acc) (auto split: option.splits)

lemma parse_digits_show:
  "2 \<le> r \<Longrightarrow> r \<le> 16 \<Longrightarrow> n < m \<Longrightarrow> parse_digits r m 0 (show_radix r n) = Some n"
proof (induction r n rule: show_radix.induct)
  case (1 r n)
  show ?case
  proof (cases "n < r")
    case True
    with 1 show ?thesis by (simp add: show_radix.simps [of r n] digit_val_char)
  next
    case False
    moreover have "n div r < m" using 1(4) by (meson div_le_dividend le_less_trans)
    ultimately have "parse_digits r m 0 (show_radix r (n div r)) = Some (n div r)"
      using 1 by simp
    with False 1 show ?thesis
      by (simp add: show_radix.simps [of r n] digit_val_char parse_digits_append)
  qed
qed

lemma show_radix_not_Nil [simp]: "show_radix r n \<noteq> []"
  by (subst show_radix.simps) simp

lemma code_digit_char: "d < 16 \<Longrightarrow> 48 \<le> code (digit_char d) \<and> code (digit_char d) \<le> 102 \<and>
    code (digit_char d) \<noteq> 59 \<and> code (digit_char d) \<noteq> 58"
  by (auto simp: digit_char_def)

lemma show_radix_codes:
  "2 \<le> r \<Longrightarrow> r \<le> 16 \<Longrightarrow> c \<in> set (show_radix r n) \<Longrightarrow>
     48 \<le> code c \<and> code c \<le> 102 \<and> code c \<noteq> 59 \<and> code c \<noteq> 58"
proof (induction r n arbitrary: c rule: show_radix.induct)
  case (1 r n)
  show ?case
  proof (cases "n < r")
    case True
    with 1 code_digit_char [of n] show ?thesis by (auto simp: show_radix.simps [of r n])
  next
    case False
    moreover have "n mod r < 16" using 1(2,3) mod_less_divisor [of r n] by linarith
    ultimately show ?thesis using 1 code_digit_char [of "n mod r"]
      by (auto simp: show_radix.simps [of r n])
  qed
qed

lemma show_radix_graphic: "2 \<le> r \<Longrightarrow> r \<le> 16 \<Longrightarrow> graphic (show_radix r n)"
  using show_radix_codes [of r _ n] by (fastforce simp: graphic_def list_all_iff)

lemma show_radix_no_plus: "2 \<le> r \<Longrightarrow> r \<le> 16 \<Longrightarrow> show_radix r n = c # s \<Longrightarrow> c \<noteq> CHR ''+''"
  using show_radix_codes [of r c n] by auto

lemma from_str_radix_show:
  assumes "2 \<le> r" "r \<le> 16" "n < m"
  shows "from_str_radix r m (show_radix r n) = Some n"
proof -
  obtain c s where "show_radix r n = c # s" by (cases "show_radix r n") auto
  then show ?thesis
    using show_radix_no_plus [OF assms(1,2)] parse_digits_show [OF assms] by (simp add: from_str_radix_def)
qed

lemma parse_digits_bound: "acc < m \<Longrightarrow> parse_digits r m acc s = Some n \<Longrightarrow> n < m"
  by (induction s arbitrary: acc) (auto split: option.splits if_splits)

lemma from_str_radix_bound: "0 < m \<Longrightarrow> from_str_radix r m s = Some n \<Longrightarrow> n < m"
  by (auto simp: from_str_radix_def Let_def split: if_splits intro: parse_digits_bound)

end
