(* ===== verification/Hosts.thy ===== *)
theory Hosts
  imports Rust_Text
begin

text \<open>
  Host names. The function \<open>normalize_host\<close> stands, with the same body, in
  \<^verbatim>\<open>host_store.rs\<close>, \<^verbatim>\<open>cert_pin.rs\<close>, \<^verbatim>\<open>receipts.rs\<close> and \<^verbatim>\<open>policy.rs\<close>, and as
  \<open>normalize_dns_name\<close> in \<^verbatim>\<open>dns_filter.rs\<close>; it is modelled once. The walk over the parent
  domains of a host is a loop over \<open>split_once('.')\<close> in \<^verbatim>\<open>policy.rs\<close>; the abstract view
  is the list \<open>parents\<close>, characterised by \<open>parents_iff\<close>.
\<close>

definition normalize_host :: "bytes \<Rightarrow> bytes" where
  "normalize_host host = to_ascii_lowercase (trim_end_matches CHR ''.'' (trim host))"

function parents :: "bytes \<Rightarrow> bytes list" where
  "parents h = (case split_once CHR ''.'' h of None \<Rightarrow> [] | Some (_, after_dot) \<Rightarrow> after_dot # parents after_dot)"
  by pat_completeness auto
termination
  by (relation "measure length") (auto simp: split_once_Some_iff)

declare parents.simps [simp del]

text \<open>The loop of \<open>domain_in_set_or_parent\<close>.\<close>

function walk_contains :: "bytes set \<Rightarrow> bytes \<Rightarrow> bool" where
  "walk_contains domains remainder =
    (case split_once CHR ''.'' remainder of None \<Rightarrow> False
     | Some (_, after_dot) \<Rightarrow> after_dot \<in> domains \<or> walk_contains domains after_dot)"
  by pat_completeness auto
termination
  by (relation "measure (\<lambda>(d, r). length r)") (auto simp: split_once_Some_iff)

declare walk_contains.simps [simp del]

definition domain_in_set_or_parent :: "bytes \<Rightarrow> bytes set \<Rightarrow> bool" where
  "domain_in_set_or_parent host domains =
    (if host = [] then False else if host \<in> domains then True else walk_contains domains host)"

section \<open>Normalisation\<close>

definition host_char_ok :: "bytes \<Rightarrow> bool" where
  "host_char_ok h \<longleftrightarrow> no_upper h \<and> (h \<noteq> [] \<longrightarrow> last h \<noteq> CHR ''.'') \<and> ws_len h = 0"

lemma trim_end_matches_prefix: "prefix (trim_end_matches c s) s"
proof -
  have "suffix (dropWhile (\<lambda>x. x = c) (rev s)) (rev s)" by (rule suffix_dropWhile)
  then show ?thesis by (simp add: trim_end_matches_def suffix_to_prefix)
qed

lemma trim_end_matches_last: "trim_end_matches c s \<noteq> [] \<Longrightarrow> last (trim_end_matches c s) \<noteq> c"
  by (metis (mono_tags, lifting) hd_dropWhile last_rev rev_is_Nil_conv trim_end_matches_def)

lemma trim_end_matches_id: "s = [] \<or> last s \<noteq> c \<Longrightarrow> trim_end_matches c s = s"
  by (cases s rule: rev_cases) (auto simp: trim_end_matches_def)

lemma ws1_to_lower [simp]: "ws1 (to_lower a) = ws1 a"
  by (auto simp: ws1_def code_to_lower)

lemma ws2_to_lower [simp]: "ws2 (to_lower a) (to_lower b) = ws2 a b"
  by (auto simp: ws2_def code_to_lower)

lemma ws3_to_lower [simp]: "ws3 (to_lower a) (to_lower b) (to_lower c) = ws3 a b c"
  by (auto simp: ws3_def code_to_lower)

lemma ws_len_lower [simp]: "ws_len (to_ascii_lowercase s) = ws_len s"
  by (cases s rule: ws_len.cases) (auto simp: to_ascii_lowercase_def)

lemma last_lower_dot: "s \<noteq> [] \<Longrightarrow> last (to_ascii_lowercase s) = CHR ''.'' \<longleftrightarrow> last s = CHR ''.''"
  by (simp add: to_ascii_lowercase_def last_map to_lower_eq_iff_not_alpha)

lemma ws_len_trim [simp]: "ws_len (trim s) = 0"
  using ws_len_start_prefix [OF trim_start_stop trim_end_prefix] by (simp add: trim_def)

lemma normalize_host_ok: "host_char_ok (normalize_host h)"
proof -
  let ?t = "trim_end_matches CHR ''.'' (trim h)"
  have "ws_len ?t = 0" by (rule ws_len_start_prefix [OF ws_len_trim trim_end_matches_prefix])
  moreover have "?t \<noteq> [] \<Longrightarrow> last ?t \<noteq> CHR ''.''" by (rule trim_end_matches_last)
  ultimately show ?thesis by (auto simp: host_char_ok_def normalize_host_def last_lower_dot)
qed

lemma graphic_lower: "graphic s \<Longrightarrow> graphic (to_ascii_lowercase s)"
  by (auto simp: graphic_def to_ascii_lowercase_def list_all_iff code_to_lower)

lemma normalize_host_id: "graphic h \<Longrightarrow> no_upper h \<Longrightarrow> (h \<noteq> [] \<longrightarrow> last h \<noteq> CHR ''.'') \<Longrightarrow> normalize_host h = h"
  by (auto simp: normalize_host_def trim_graphic trim_end_matches_id lower_id_if_no_upper)

lemma graphic_normalize_host: "graphic h \<Longrightarrow> graphic (normalize_host h)"
proof -
  assume "graphic h"
  then have "graphic (trim_end_matches CHR ''.'' (trim h))"
    by (metis graphic_sublist prefix_imp_sublist set_mono_sublist set_trim subset_trans trim_end_matches_prefix)
  then show ?thesis by (simp add: normalize_host_def graphic_lower)
qed

lemma normalize_host_idem: "graphic h \<Longrightarrow> normalize_host (normalize_host h) = normalize_host h"
  using normalize_host_ok [of h]
  by (auto intro!: normalize_host_id graphic_normalize_host simp: host_char_ok_def)

lemma normalize_host_case: "eq_ignore_ascii_case (trim g) (trim h) \<Longrightarrow> normalize_host g = normalize_host h"
proof -
  have rd: "to_ascii_lowercase (trim_end_matches CHR ''.'' s) = trim_end_matches CHR ''.'' (to_ascii_lowercase s)" for s
  proof (induction s rule: rev_induct)
    case (snoc x s)
    then show ?case
      using to_lower_eq_iff_not_alpha [of "CHR ''.''" x]
      by (auto simp: trim_end_matches_def to_ascii_lowercase_def rev_map)
  qed (simp add: trim_end_matches_def)
  assume "eq_ignore_ascii_case (trim g) (trim h)"
  then show ?thesis by (simp add: normalize_host_def eq_ignore_ascii_case_def rd)
qed

section \<open>Parent domains\<close>

lemma parents_iff: "x \<in> set (parents h) \<longleftrightarrow> (\<exists>p. h = p @ CHR ''.'' # x)"
proof (induction h arbitrary: x rule: parents.induct)
  case (1 h)
  show ?case
  proof (cases "split_once CHR ''.'' h")
    case None
    then have "CHR ''.'' \<notin> set h" by (simp add: split_once_None_iff)
    with None show ?thesis by (auto simp: parents.simps [of h])
  next
    case (Some ab)
    obtain a b where ab: "ab = (a, b)" by (cases ab)
    with Some have h: "h = a @ CHR ''.'' # b" and a: "CHR ''.'' \<notin> set a"
      by (auto simp: split_once_Some_iff)
    have IH: "x \<in> set (parents b) \<longleftrightarrow> (\<exists>p. b = p @ CHR ''.'' # x)"
      using 1 Some ab by blast
    have "(\<exists>p. h = p @ CHR ''.'' # x) \<longleftrightarrow> x = b \<or> (\<exists>p. b = p @ CHR ''.'' # x)"
    proof
      assume "\<exists>p. h = p @ CHR ''.'' # x"
      then obtain p where "a @ CHR ''.'' # b = p @ CHR ''.'' # x" using h by auto
      with a show "x = b \<or> (\<exists>p. b = p @ CHR ''.'' # x)"
        by (auto simp: append_eq_append_conv2 Cons_eq_append_conv append_eq_Cons_conv)
    qed (use h in auto)
    with IH Some ab show ?thesis by (auto simp: parents.simps [of h])
  qed
qed

lemma walk_contains_iff: "walk_contains D h \<longleftrightarrow> (\<exists>x\<in>set (parents h). x \<in> D)"
proof (induction D h rule: walk_contains.induct)
  case (1 D h)
  show ?case
  proof (cases "split_once CHR ''.'' h")
    case (Some ab)
    obtain a b where ab: "ab = (a, b)" by (cases ab)
    with 1 Some have "walk_contains D b \<longleftrightarrow> (\<exists>x\<in>set (parents b). x \<in> D)" by blast
    with Some ab show ?thesis by (auto simp: parents.simps [of h] walk_contains.simps [of D h])
  qed (simp add: parents.simps [of h] walk_contains.simps [of D h])
qed

lemma domain_in_set_or_parent_iff:
  "domain_in_set_or_parent h D \<longleftrightarrow> h \<noteq> [] \<and> (h \<in> D \<or> (\<exists>p x. h = p @ CHR ''.'' # x \<and> x \<in> D))"
  by (auto simp: domain_in_set_or_parent_def walk_contains_iff parents_iff Bex_def)

lemma domain_in_set_or_parent_empty [simp]: "\<not> domain_in_set_or_parent h {}"
  by (simp add: domain_in_set_or_parent_iff)

lemma domain_in_set_or_parent_mono:
  "domain_in_set_or_parent h D \<Longrightarrow> D \<subseteq> E \<Longrightarrow> domain_in_set_or_parent h E"
  by (auto simp: domain_in_set_or_parent_iff)

lemma domain_in_set_or_parent_sub:
  "domain_in_set_or_parent h D \<Longrightarrow> domain_in_set_or_parent (l @ CHR ''.'' # h) D"
  by (auto simp: domain_in_set_or_parent_iff)

end
