(* ===== verification/Json_Api.thy ===== *)
theory Json_Api
  imports Rust_Text
begin

text \<open>
  The crate \<^verbatim>\<open>serde_json\<close> is not part of the sources. The operations the code calls on a
  \<open>Value\<close> are the fields of a record that the definitions take as an argument; what a proof
  needs of them is the predicate \<open>json_laws\<close>, the documented inverses of the constructors and
  of the printer. An object is the list of its entries in the crate's iteration order, which is
  the order of the keys (a \<open>BTreeMap\<close>); an object built from entries with increasing keys
  gives those entries back.
\<close>

record 'v json_api =
  as_object :: "'v \<Rightarrow> (bytes \<times> 'v) list option"
  as_array :: "'v \<Rightarrow> 'v list option"
  as_str :: "'v \<Rightarrow> bytes option"
  as_bool :: "'v \<Rightarrow> bool option"
  as_u64 :: "'v \<Rightarrow> u64 option"
  is_null :: "'v \<Rightarrow> bool"
  mk_object :: "(bytes \<times> 'v) list \<Rightarrow> 'v"
  mk_array :: "'v list \<Rightarrow> 'v"
  mk_str :: "bytes \<Rightarrow> 'v"
  mk_u64 :: "u64 \<Rightarrow> 'v"
  mk_null :: "'v"
  to_string_pretty :: "'v \<Rightarrow> string + bytes"
  from_str :: "bytes \<Rightarrow> string + 'v"
  print_strings :: "bytes list \<Rightarrow> string + bytes"
  parse_strings :: "bytes \<Rightarrow> string + bytes list"

definition json_laws :: "'v json_api \<Rightarrow> bool" where
  "json_laws J \<longleftrightarrow>
     (\<forall>ob. sorted_wrt (<) (map fst ob) \<longrightarrow> as_object J (mk_object J ob) = Some ob) \<and> (\<forall>a. as_array J (mk_array J a) = Some a) \<and>
     (\<forall>s. as_str J (mk_str J s) = Some s) \<and> (\<forall>n. as_u64 J (mk_u64 J n) = Some n) \<and>
     as_str J (mk_null J) = None \<and>
     (\<forall>v t. to_string_pretty J v = Inr t \<longrightarrow> from_str J t = Inr v \<and> utf8_valid t) \<and>
     (\<forall>xs t. print_strings J xs = Inr t \<longrightarrow> parse_strings J t = Inr xs \<and> utf8_valid t)"

lemma json_lawsD:
  assumes "json_laws J"
  shows "sorted_wrt (<) (map fst ob) \<Longrightarrow> as_object J (mk_object J ob) = Some ob" "as_array J (mk_array J a) = Some a"
    "as_str J (mk_str J s) = Some s" "as_u64 J (mk_u64 J n) = Some n" "as_str J (mk_null J) = None"
    "to_string_pretty J v = Inr t \<Longrightarrow> from_str J t = Inr v"
    "to_string_pretty J v = Inr t \<Longrightarrow> utf8_valid t"
    "print_strings J xs = Inr u \<Longrightarrow> parse_strings J u = Inr xs"
    "print_strings J xs = Inr u \<Longrightarrow> utf8_valid u"
  using assms by (auto simp: json_laws_def)

abbreviation get :: "(bytes \<times> 'v) list \<Rightarrow> bytes \<Rightarrow> 'v option" where
  "get obj k \<equiv> map_of obj k"

text \<open>The strict-key loops: the first key outside the allowed list is an error.\<close>

fun reject_unknown :: "bytes list \<Rightarrow> (bytes \<Rightarrow> io_error) \<Rightarrow> (bytes \<times> 'v) list \<Rightarrow> unit io_result" where
  "reject_unknown allowed err [] = Ok ()"
| "reject_unknown allowed err ((k, v) # obj) =
    (if k \<in> set allowed then reject_unknown allowed err obj else Err (err k))"

lemma reject_unknown_Ok_iff: "reject_unknown allowed err obj = Ok u \<longleftrightarrow> fst ` set obj \<subseteq> set allowed"
  by (induction obj) (auto split: if_splits)

lemma reject_unknown_Err:
  assumes "k \<in> fst ` set obj" "k \<notin> set allowed"
  shows "\<exists>e. reject_unknown allowed err obj = Err e"
proof (cases "reject_unknown allowed err obj")
  case (Inr u)
  then have "fst ` set obj \<subseteq> set allowed" by (simp only: reject_unknown_Ok_iff)
  with assms show ?thesis by blast
qed simp

section \<open>An instance\<close>

text \<open>JSON values as a datatype, with a printer whose text the parser reads back; it shows that
  the laws can hold, and the witnesses of the configuration theorems are built from it. \<open>JNum\<close>
  is a number that \<open>as_u64\<close> reads, \<open>JOtherNum\<close> every other number, as it is written: negative, with a
  fraction or beyond 64 bits.\<close>

datatype jval = JNull | JBool bool | JNum u64 | JOtherNum bytes | JStr bytes | JArr "jval list" | JObj "(bytes \<times> jval) list"

fun j_object :: "jval \<Rightarrow> (bytes \<times> jval) list option" where
  "j_object (JObj o') = Some o'" | "j_object _ = None"

fun j_array :: "jval \<Rightarrow> jval list option" where
  "j_array (JArr a) = Some a" | "j_array _ = None"

fun j_str :: "jval \<Rightarrow> bytes option" where
  "j_str (JStr s) = Some s" | "j_str _ = None"

fun j_bool :: "jval \<Rightarrow> bool option" where
  "j_bool (JBool b) = Some b" | "j_bool _ = None"

fun j_u64 :: "jval \<Rightarrow> u64 option" where
  "j_u64 (JNum n) = Some n" | "j_u64 _ = None"

text \<open>A line-oriented text form for arrays of strings without control characters: one string
  per line. Strings it cannot represent are a serialisation error.\<close>

definition j_print_strings :: "bytes list \<Rightarrow> string + bytes" where
  "j_print_strings xs = (if list_all (\<lambda>x. is_ascii x \<and> LF \<notin> set x) xs
     then Inr (concat (map (\<lambda>x. x @ [LF]) xs)) else Inl ''unsupported string'')"

definition j_parse_strings :: "bytes \<Rightarrow> string + bytes list" where
  "j_parse_strings t = Inr (butlast (split_on LF t))"

definition jval_api :: "(bytes \<Rightarrow> string + jval) \<Rightarrow> (jval \<Rightarrow> string + bytes) \<Rightarrow> jval json_api" where
  "jval_api parse print = \<lparr>as_object = j_object, as_array = j_array, as_str = j_str, as_bool = j_bool,
     as_u64 = j_u64, is_null = (\<lambda>v. v = JNull), mk_object = JObj, mk_array = JArr, mk_str = JStr,
     mk_u64 = JNum, mk_null = JNull, to_string_pretty = print, from_str = parse,
     print_strings = j_print_strings, parse_strings = j_parse_strings\<rparr>"

lemma jval_api_simps [simp]:
  "as_object (jval_api pa pr) = j_object" "as_array (jval_api pa pr) = j_array"
  "as_str (jval_api pa pr) = j_str" "as_bool (jval_api pa pr) = j_bool" "as_u64 (jval_api pa pr) = j_u64"
  "is_null (jval_api pa pr) = (\<lambda>v. v = JNull)" "from_str (jval_api pa pr) = pa"
  "mk_object (jval_api pa pr) = JObj" "mk_array (jval_api pa pr) = JArr" "mk_str (jval_api pa pr) = JStr"
  "mk_u64 (jval_api pa pr) = JNum" "mk_null (jval_api pa pr) = JNull"
  "to_string_pretty (jval_api pa pr) = pr" "print_strings (jval_api pa pr) = j_print_strings"
  "parse_strings (jval_api pa pr) = j_parse_strings"
  by (simp_all add: jval_api_def)

lemma j_lines_roundtrip:
  "list_all (\<lambda>x. LF \<notin> set x) xs \<Longrightarrow> butlast (split_on LF (concat (map (\<lambda>x. x @ [LF]) xs))) = xs"
proof (induction xs)
  case (Cons x xs)
  then have "split_on LF (concat (map (\<lambda>x. x @ [LF]) (x # xs))) = x # split_on LF (concat (map (\<lambda>x. x @ [LF]) xs))"
    by (simp add: split_on_append)
  with Cons show ?case by simp
qed simp

lemma j_strings_roundtrip:
  assumes "j_print_strings xs = Inr t"
  shows "j_parse_strings t = Inr xs \<and> utf8_valid t"
proof -
  have l: "list_all (\<lambda>x. is_ascii x \<and> LF \<notin> set x) xs" and t: "t = concat (map (\<lambda>x. x @ [LF]) xs)"
    using assms by (auto simp: j_print_strings_def split: if_splits)
  have "is_ascii t" unfolding t using l by (induction xs) auto
  moreover have "list_all (\<lambda>x. LF \<notin> set x) xs" using l by (auto simp: list_all_iff)
  ultimately show ?thesis by (simp add: t j_parse_strings_def j_lines_roundtrip)
qed

text \<open>A printer that can write the one document \<open>v\<close>, and the parser that reads it back.\<close>

definition jdoc :: "jval \<Rightarrow> jval json_api" where
  "jdoc v = jval_api (\<lambda>t. if t = ''{}'' then Inr v else Inl ''expected value'')
     (\<lambda>w. if w = v then Inr ''{}'' else Inl ''unsupported document'')"

lemma json_laws_jdoc: "json_laws (jdoc v)"
  using j_strings_roundtrip by (simp add: jdoc_def json_laws_def)

end
