(* ===== verification/File_Store.thy ===== *)
theory File_Store
  imports Rust_Text
begin

text \<open>
  The file-system calls of the stores (\<^verbatim>\<open>host_store.rs\<close>, \<^verbatim>\<open>cert_pin.rs\<close>, \<^verbatim>\<open>receipts.rs\<close>,
  \<^verbatim>\<open>filter_list.rs\<close>). A disk maps paths to contents; what the operating system answers to
  each call is an explicit outcome, so every error branch of the source is a branch here. The
  four stores share the write-to-temporary-then-rename sequence; it is modelled once as
  \<open>replace_file\<close>, and its crash behaviour is stated here.
\<close>

text \<open>A path with a file name: directory, stem and extension.\<close>

record path =
  p_dir :: bytes
  p_stem :: bytes
  p_ext :: "bytes option"

definition with_extension :: "bytes \<Rightarrow> path \<Rightarrow> path" where
  "with_extension e p = p\<lparr>p_ext := Some e\<rparr>"

type_synonym disk = "path \<rightharpoonup> bytes"

text \<open>The operating system's answers during one \<open>replace_file\<close>: directory creation, the write
  of the temporary file (on failure also what it leaves there), the rename, the removal of
  the target and the second rename.\<close>

record fs_outcome =
  o_mkdir :: "io_error option"
  o_write :: "(io_error \<times> bytes option) option"
  o_rename :: "io_error option"
  o_remove_ok :: bool
  o_rename2 :: "io_error option"

definition fs_all_ok :: fs_outcome where
  "fs_all_ok = \<lparr>o_mkdir = None, o_write = None, o_rename = None, o_remove_ok = True, o_rename2 = None\<rparr>"

definition fs_rename :: "path \<Rightarrow> path \<Rightarrow> disk \<Rightarrow> disk" where
  "fs_rename src dst d = (if src = dst then d else d(dst := d src, src := None))"

definition overwrite_denied :: "io_error \<Rightarrow> bool" where
  "overwrite_denied e \<longleftrightarrow> err_kind e = AlreadyExists \<or> err_kind e = PermissionDenied"

definition replace_file :: "fs_outcome \<Rightarrow> disk \<Rightarrow> path \<Rightarrow> path \<Rightarrow> bytes \<Rightarrow> disk \<times> unit io_result" where
  "replace_file env d tmp_path path text =
    (case o_mkdir env of Some e \<Rightarrow> (d, Err e) | None \<Rightarrow>
    (case o_write env of Some (e, left) \<Rightarrow> (d(tmp_path := left), Err e) | None \<Rightarrow>
      let d1 = d(tmp_path \<mapsto> text) in
      (case o_rename env of None \<Rightarrow> (fs_rename tmp_path path d1, Ok ())
       | Some e \<Rightarrow>
           if overwrite_denied e then
             let d2 = (if o_remove_ok env then d1(path := None) else d1) in
             (case o_rename2 env of None \<Rightarrow> (fs_rename tmp_path path d2, Ok ()) | Some e2 \<Rightarrow> (d2, Err e2))
           else (d1, Err e))))"

text \<open>\<open>fs::read_to_string\<close> on a file that may be missing; \<open>o\<close> is an error of the system.\<close>

definition read_to_string :: "io_error option \<Rightarrow> disk \<Rightarrow> path \<Rightarrow> bytes io_result" where
  "read_to_string o_read d p =
    (case o_read of Some e \<Rightarrow> Err e
     | None \<Rightarrow> (case d p of None \<Rightarrow> Err (IoError NotFound ''No such file or directory'')
        | Some t \<Rightarrow> if utf8_valid t then Ok t
            else Err (IoError InvalidData ''stream did not contain valid UTF-8'')))"

lemmas replace_file_cases = replace_file_def Let_def fs_rename_def

lemma replace_file_Ok:
  assumes "snd (replace_file env d tmp_path path text) = Ok ()" and "tmp_path \<noteq> path"
  shows "fst (replace_file env d tmp_path path text) = d(path \<mapsto> text, tmp_path := None)"
  using assms by (auto simp: replace_file_cases fun_eq_iff split: option.splits if_splits)

lemma replace_file_frame:
  "q \<noteq> path \<Longrightarrow> q \<noteq> tmp_path \<Longrightarrow> fst (replace_file env d tmp_path path text) q = d q"
  by (auto simp: replace_file_cases split: option.splits)

text \<open>The store file is never torn: after any outcome it holds the old content, or the whole
  new content, or is absent after the remove of the overwrite fallback.\<close>

lemma replace_file_atomic:
  assumes "tmp_path \<noteq> path"
  shows "fst (replace_file env d tmp_path path text) path \<in> {d path, Some text, None}"
  using assms by (auto simp: replace_file_cases split: option.splits)

lemma replace_file_Err_keeps:
  assumes "snd (replace_file env d tmp_path path text) = Err e" "tmp_path \<noteq> path"
    and "\<And>r. o_rename env = Some r \<Longrightarrow> \<not> overwrite_denied r"
  shows "fst (replace_file env d tmp_path path text) path = d path"
  using assms by (auto simp: replace_file_cases split: option.splits if_splits)

lemma replace_file_all_ok [simp]: "snd (replace_file fs_all_ok d tmp_path path text) = Ok ()"
  by (simp add: replace_file_def fs_all_ok_def)

lemma with_extension_neq: "p_ext p \<noteq> Some e \<Longrightarrow> with_extension e p \<noteq> p"
  by (auto simp: with_extension_def dest: arg_cong [of _ _ p_ext])

end
