(* ===== verification/Policy_Config.thy ===== *)
theory Policy_Config
  imports Hosts Json_Api File_Store
begin

text \<open>
  The configuration half of \<^verbatim>\<open>src/policy.rs\<close>: modes, consent levels, the rules and their
  defaults, validation, and the strict parser of the JSON configuration. Each optional rule
  object of \<open>from_json_value\<close> has its own definition; the parser calls them in the order of the
  code. CSS validity is the argument \<open>css_ok\<close>.
\<close>

datatype policy_mode = Disabled | ReportOnly | Enforce

fun mode_as_str :: "policy_mode \<Rightarrow> bytes" where
  "mode_as_str Disabled = ''disabled''"
| "mode_as_str ReportOnly = ''report_only''"
| "mode_as_str Enforce = ''enforce''"

definition mode_parse_config_value :: "bytes \<Rightarrow> policy_mode option" where
  "mode_parse_config_value s =
    (let normalized = to_ascii_lowercase (trim s) in
     if normalized = ''disabled'' then Some Disabled
     else if normalized \<in> {''report_only'', ''report-only'', ''reportonly''} then Some ReportOnly
     else if normalized \<in> {''enforce'', ''enforced''} then Some Enforce
     else None)"

datatype consent_level = EssentialOnly | AnalyticsOk | ConsentAll

definition consent_parse :: "bytes \<Rightarrow> consent_level option" where
  "consent_parse s =
    (let n = to_ascii_lowercase (trim s) in
     if n = ''essential_only'' then Some EssentialOnly
     else if n = ''analytics_ok'' then Some AnalyticsOk
     else if n = ''all'' then Some ConsentAll
     else None)"

fun consent_as_str :: "consent_level \<Rightarrow> bytes" where
  "consent_as_str EssentialOnly = ''essential_only''"
| "consent_as_str AnalyticsOk = ''analytics_ok''"
| "consent_as_str ConsentAll = ''all''"

datatype domain_category = Advertising | Analytics

record tracker_set_cookie_rule =
  tsc_enabled :: bool
  tsc_domains :: "bytes set"

record dns_block_rule =
  dns_enabled :: bool
  dns_domains :: "bytes set"

record body_rewrite_rule =
  bw_enabled :: bool
  bw_tracker_script_patterns :: "bytes list"
  bw_remove_selectors :: "bytes list"
  bw_css_inject_selectors :: "bytes list"
  bw_strip_tracking_pixels :: bool
  bw_max_body_bytes :: nat
  bw_referer_spoof_domains :: "bytes set"
  bw_query_param_strip_enabled :: bool

record user_profile =
  up_name :: bytes
  up_consent :: consent_level

record consent_enforcement_rule =
  ce_enabled :: bool
  ce_default_consent :: consent_level
  ce_analytics_domains :: "bytes set"
  ce_site_overrides :: "bytes \<rightharpoonup> consent_level"
  ce_user_profiles :: "bytes \<rightharpoonup> user_profile"

record policy_config =
  pc_version :: u64
  pc_mode :: policy_mode
  pc_tracker_set_cookie :: tracker_set_cookie_rule
  pc_dns_block :: dns_block_rule
  pc_body_rewrite :: body_rewrite_rule
  pc_consent_enforcement :: consent_enforcement_rule
  pc_websocket_blocking_enabled :: bool

definition DEFAULT_TRACKER_COOKIE_DOMAINS :: "bytes list" where
  "DEFAULT_TRACKER_COOKIE_DOMAINS = [''google-analytics.com'', ''doubleclick.net'', ''facebook.com'',
     ''scorecardresearch.com'', ''adnxs.com'']"

definition tsc_default_enabled :: "policy_mode \<Rightarrow> tracker_set_cookie_rule" where
  "tsc_default_enabled mode = \<lparr>tsc_enabled = (mode \<noteq> Disabled),
     tsc_domains = fold (\<lambda>d domains. let normalized = normalize_host d in
       if normalized \<noteq> [] then insert normalized domains else domains) DEFAULT_TRACKER_COOKIE_DOMAINS {}\<rparr>"

definition dns_block_default :: dns_block_rule where
  "dns_block_default = \<lparr>dns_enabled = False, dns_domains = {}\<rparr>"

definition body_rewrite_default :: body_rewrite_rule where
  "body_rewrite_default = \<lparr>bw_enabled = False, bw_tracker_script_patterns = [], bw_remove_selectors = [],
     bw_css_inject_selectors = [], bw_strip_tracking_pixels = False, bw_max_body_bytes = 2 * 1024 * 1024,
     bw_referer_spoof_domains = {}, bw_query_param_strip_enabled = False\<rparr>"

definition consent_default :: consent_enforcement_rule where
  "consent_default = \<lparr>ce_enabled = False, ce_default_consent = EssentialOnly, ce_analytics_domains = {},
     ce_site_overrides = Map.empty, ce_user_profiles = Map.empty\<rparr>"

definition default_for_mode :: "policy_mode \<Rightarrow> policy_config" where
  "default_for_mode mode = \<lparr>pc_version = 1, pc_mode = mode, pc_tracker_set_cookie = tsc_default_enabled mode,
     pc_dns_block = dns_block_default, pc_body_rewrite = body_rewrite_default,
     pc_consent_enforcement = consent_default, pc_websocket_blocking_enabled = True\<rparr>"

abbreviation invalid :: "string \<Rightarrow> io_error" where
  "invalid msg \<equiv> IoError InvalidData msg"

definition in_quotes :: "bytes \<Rightarrow> bytes" where
  "in_quotes s = [CHR 0x27] @ s @ [CHR 0x27]"

fun check_selectors :: "(bytes \<Rightarrow> bool) \<Rightarrow> bytes list \<Rightarrow> unit io_result" where
  "check_selectors css_ok [] = Ok ()"
| "check_selectors css_ok (sel # sels) =
    (if \<not> css_ok sel then Err (invalid (''invalid CSS selector in body_rewrite.remove_selectors: '' @ in_quotes sel))
     else check_selectors css_ok sels)"

definition policy_validate :: "(bytes \<Rightarrow> bool) \<Rightarrow> policy_config \<Rightarrow> unit io_result" where
  "policy_validate css_ok cfg =
    (if pc_version cfg \<noteq> 1 then
       Err (invalid (''unsupported policy config version: '' @ show_nat (unat (pc_version cfg))))
     else if tsc_enabled (pc_tracker_set_cookie cfg) \<and> tsc_domains (pc_tracker_set_cookie cfg) = {} then
       Err (invalid ''tracker_set_cookie.enabled=true but domains list is empty'')
     else if dns_enabled (pc_dns_block cfg) \<and> dns_domains (pc_dns_block cfg) = {} then
       Err (invalid ''dns_block.enabled=true but domains list is empty'')
     else if bw_enabled (pc_body_rewrite cfg) then
       (if bw_tracker_script_patterns (pc_body_rewrite cfg) = [] \<and> bw_remove_selectors (pc_body_rewrite cfg) = [] \<and>
           \<not> bw_strip_tracking_pixels (pc_body_rewrite cfg) then
          Err (invalid ''body_rewrite.enabled=true but no patterns, selectors, or pixel stripping configured'')
        else check_selectors css_ok (bw_remove_selectors (pc_body_rewrite cfg)))
     else Ok ())"

section \<open>Parsing\<close>

fun parse_domain_entries ::
  "'v json_api \<Rightarrow> io_error \<Rightarrow> (bytes \<Rightarrow> io_error) \<Rightarrow> 'v list \<Rightarrow> bytes set \<Rightarrow> bytes set io_result" where
  "parse_domain_entries J not_str bad [] domains = Ok domains"
| "parse_domain_entries J not_str bad (entry # es) domains =
    (case as_str J entry of None \<Rightarrow> Err not_str
     | Some raw \<Rightarrow>
        let normalized = normalize_host raw in
        if normalized = [] then parse_domain_entries J not_str bad es domains
        else if contains_char normalized CHR ''/'' \<or> contains_char normalized CHR '' '' then Err (bad raw)
        else parse_domain_entries J not_str bad es (insert normalized domains))"

fun parse_host_entries :: "'v json_api \<Rightarrow> io_error \<Rightarrow> 'v list \<Rightarrow> bytes set \<Rightarrow> bytes set io_result" where
  "parse_host_entries J not_str [] hosts = Ok hosts"
| "parse_host_entries J not_str (entry # es) hosts =
    (case as_str J entry of None \<Rightarrow> Err not_str
     | Some raw \<Rightarrow>
        let normalized = normalize_host raw in
        parse_host_entries J not_str es (if normalized \<noteq> [] then insert normalized hosts else hosts))"

definition parse_tracker_rule :: "'v json_api \<Rightarrow> (bytes \<times> 'v) list \<Rightarrow> tracker_set_cookie_rule io_result" where
  "parse_tracker_rule J rules_obj =
    and_then (ok_or (get rules_obj ''tracker_set_cookie'') (invalid ''policy rules missing required key: tracker_set_cookie'')) (\<lambda>val.
    and_then (ok_or (as_object J val) (invalid ''tracker_set_cookie must be a JSON object'')) (\<lambda>obj.
    and_then (reject_unknown [''enabled'', ''domains''] (\<lambda>k. invalid (''unknown tracker_set_cookie key: '' @ in_quotes k)) obj) (\<lambda>_.
    and_then (ok_or (Option.bind (get obj ''enabled'') (as_bool J))
        (invalid ''tracker_set_cookie missing required boolean field: enabled'')) (\<lambda>enabled.
    and_then (ok_or (get obj ''domains'') (invalid ''tracker_set_cookie missing required array field: domains'')) (\<lambda>dv.
    and_then (ok_or (as_array J dv) (invalid ''tracker_set_cookie.domains must be a JSON array of strings'')) (\<lambda>arr.
    and_then (parse_domain_entries J (invalid ''tracker_set_cookie.domains must contain only strings'')
        (\<lambda>raw. invalid (''invalid tracker domain value: '' @ in_quotes raw)) arr {}) (\<lambda>domains.
    Ok \<lparr>tsc_enabled = enabled, tsc_domains = domains\<rparr>)))))))"

definition parse_dns_rule :: "'v json_api \<Rightarrow> (bytes \<times> 'v) list \<Rightarrow> dns_block_rule io_result" where
  "parse_dns_rule J rules_obj =
    (case get rules_obj ''dns_block'' of None \<Rightarrow> Ok dns_block_default
     | Some val \<Rightarrow>
    and_then (ok_or (as_object J val) (invalid ''dns_block must be a JSON object'')) (\<lambda>obj.
    and_then (reject_unknown [''enabled'', ''domains''] (\<lambda>k. invalid (''unknown dns_block key: '' @ in_quotes k)) obj) (\<lambda>_.
    and_then (ok_or (Option.bind (get obj ''enabled'') (as_bool J))
        (invalid ''dns_block missing required boolean field: enabled'')) (\<lambda>enabled.
    and_then (ok_or (Option.bind (get obj ''domains'') (as_array J))
        (invalid ''dns_block missing required array field: domains'')) (\<lambda>arr.
    and_then (parse_domain_entries J (invalid ''dns_block.domains must contain only strings'')
        (\<lambda>raw. invalid (''invalid dns_block domain value: '' @ in_quotes raw)) arr {}) (\<lambda>domains.
    Ok \<lparr>dns_enabled = enabled, dns_domains = domains\<rparr>))))))"

definition string_array_or_empty :: "'v json_api \<Rightarrow> (bytes \<times> 'v) list \<Rightarrow> bytes \<Rightarrow> bytes list" where
  "string_array_or_empty J obj k = (case Option.bind (get obj k) (as_array J) of None \<Rightarrow> []
     | Some arr \<Rightarrow> List.map_filter (as_str J) arr)"

definition bool_or_false :: "'v json_api \<Rightarrow> (bytes \<times> 'v) list \<Rightarrow> bytes \<Rightarrow> bool" where
  "bool_or_false J obj k = (case Option.bind (get obj k) (as_bool J) of None \<Rightarrow> False | Some b \<Rightarrow> b)"

definition body_rewrite_keys :: "bytes list" where
  "body_rewrite_keys = [''enabled'', ''tracker_script_patterns'', ''remove_selectors'', ''css_inject_selectors'',
     ''strip_tracking_pixels'', ''max_body_bytes'', ''referer_spoof_domains'', ''query_param_strip_enabled'']"

definition parse_body_rewrite_rule :: "'v json_api \<Rightarrow> (bytes \<times> 'v) list \<Rightarrow> body_rewrite_rule io_result" where
  "parse_body_rewrite_rule J rules_obj =
    (case get rules_obj ''body_rewrite'' of None \<Rightarrow> Ok body_rewrite_default
     | Some val \<Rightarrow>
    and_then (ok_or (as_object J val) (invalid ''body_rewrite must be a JSON object'')) (\<lambda>obj.
    and_then (reject_unknown body_rewrite_keys (\<lambda>k. invalid (''unknown body_rewrite key: '' @ in_quotes k)) obj) (\<lambda>_.
    and_then (ok_or (Option.bind (get obj ''enabled'') (as_bool J))
        (invalid ''body_rewrite missing required boolean field: enabled'')) (\<lambda>enabled.
    and_then (case Option.bind (get obj ''referer_spoof_domains'') (as_array J) of
          None \<Rightarrow> Ok {}
        | Some arr \<Rightarrow> parse_host_entries J (invalid ''body_rewrite.referer_spoof_domains must contain only strings'') arr {}) (\<lambda>referer.
    Ok \<lparr>bw_enabled = enabled,
        bw_tracker_script_patterns = string_array_or_empty J obj ''tracker_script_patterns'',
        bw_remove_selectors = string_array_or_empty J obj ''remove_selectors'',
        bw_css_inject_selectors = string_array_or_empty J obj ''css_inject_selectors'',
        bw_strip_tracking_pixels = bool_or_false J obj ''strip_tracking_pixels'',
        bw_max_body_bytes = (case Option.bind (get obj ''max_body_bytes'') (as_u64 J) of
            None \<Rightarrow> 2 * 1024 * 1024 | Some v \<Rightarrow> unat v),
        bw_referer_spoof_domains = referer,
        bw_query_param_strip_enabled = bool_or_false J obj ''query_param_strip_enabled''\<rparr>)))))"

fun parse_site_overrides ::
  "'v json_api \<Rightarrow> (bytes \<times> 'v) list \<Rightarrow> (bytes \<rightharpoonup> consent_level) \<Rightarrow> (bytes \<rightharpoonup> consent_level) io_result" where
  "parse_site_overrides J [] overrides = Ok overrides"
| "parse_site_overrides J ((site, level_val) # rest) overrides =
    and_then (ok_or (as_str J level_val)
        (invalid (''consent_enforcement.site_overrides['' @ in_quotes site @ ''] must be a string''))) (\<lambda>level_str.
    and_then (ok_or (consent_parse level_str)
        (invalid (''invalid consent level '' @ in_quotes level_str @ '' for site override '' @ in_quotes site))) (\<lambda>level.
    parse_site_overrides J rest (overrides(normalize_host site \<mapsto> level))))"

fun parse_user_profiles ::
  "'v json_api \<Rightarrow> (bytes \<times> 'v) list \<Rightarrow> (bytes \<rightharpoonup> user_profile) \<Rightarrow> (bytes \<rightharpoonup> user_profile) io_result" where
  "parse_user_profiles J [] profiles = Ok profiles"
| "parse_user_profiles J ((ip_key, profile_val) # rest) profiles =
    (let at = ''user_profiles['' @ in_quotes ip_key @ '']'' in
    and_then (ok_or (as_object J profile_val) (invalid (''consent_enforcement.'' @ at @ '' must be a JSON object''))) (\<lambda>obj.
    and_then (reject_unknown [''name'', ''consent''] (\<lambda>k. invalid (''unknown key '' @ in_quotes k @ '' in '' @ at)) obj) (\<lambda>_.
    and_then (ok_or (Option.bind (get obj ''name'') (as_str J)) (invalid (at @ '' missing required string field: name''))) (\<lambda>name.
    and_then (ok_or (Option.bind (get obj ''consent'') (as_str J)) (invalid (at @ '' missing required string field: consent''))) (\<lambda>consent_str.
    and_then (ok_or (consent_parse consent_str)
        (invalid (''invalid consent level '' @ in_quotes consent_str @ '' for '' @ at))) (\<lambda>consent.
    parse_user_profiles J rest (profiles(ip_key \<mapsto> \<lparr>up_name = name, up_consent = consent\<rparr>))))))))"

definition consent_keys :: "bytes list" where
  "consent_keys = [''enabled'', ''default_consent'', ''analytics_domains'', ''site_overrides'', ''user_profiles'']"

definition parse_consent_rule :: "'v json_api \<Rightarrow> (bytes \<times> 'v) list \<Rightarrow> consent_enforcement_rule io_result" where
  "parse_consent_rule J rules_obj =
    (case get rules_obj ''consent_enforcement'' of None \<Rightarrow> Ok consent_default
     | Some val \<Rightarrow>
    and_then (ok_or (as_object J val) (invalid ''consent_enforcement must be a JSON object'')) (\<lambda>obj.
    and_then (reject_unknown consent_keys (\<lambda>k. invalid (''unknown consent_enforcement key: '' @ in_quotes k)) obj) (\<lambda>_.
    and_then (ok_or (Option.bind (get obj ''enabled'') (as_bool J))
        (invalid ''consent_enforcement missing required boolean field: enabled'')) (\<lambda>enabled.
    and_then (ok_or (Option.bind (get obj ''default_consent'') (as_str J))
        (invalid ''consent_enforcement missing required string field: default_consent'')) (\<lambda>level_str.
    and_then (ok_or (consent_parse level_str) (invalid (''invalid consent level '' @ in_quotes level_str @
          '' (expected essential_only|analytics_ok|all)''))) (\<lambda>level.
    and_then (parse_host_entries J (invalid ''consent_enforcement.analytics_domains must contain only strings'')
        (case Option.bind (get obj ''analytics_domains'') (as_array J) of None \<Rightarrow> [] | Some arr \<Rightarrow> arr) {}) (\<lambda>analytics.
    and_then (case get obj ''site_overrides'' of None \<Rightarrow> Ok Map.empty
        | Some v \<Rightarrow> and_then (ok_or (as_object J v) (invalid ''consent_enforcement.site_overrides must be a JSON object''))
            (\<lambda>m. parse_site_overrides J m Map.empty)) (\<lambda>overrides.
    and_then (case get obj ''user_profiles'' of None \<Rightarrow> Ok Map.empty
        | Some v \<Rightarrow> and_then (ok_or (as_object J v) (invalid ''consent_enforcement.user_profiles must be a JSON object''))
            (\<lambda>m. parse_user_profiles J m Map.empty)) (\<lambda>profiles.
    Ok \<lparr>ce_enabled = enabled, ce_default_consent = level, ce_analytics_domains = analytics,
        ce_site_overrides = overrides, ce_user_profiles = profiles\<rparr>)))))))))"

definition parse_websocket_rule :: "'v json_api \<Rightarrow> (bytes \<times> 'v) list \<Rightarrow> bool io_result" where
  "parse_websocket_rule J rules_obj =
    (case get rules_obj ''websocket_blocking'' of None \<Rightarrow> Ok True
     | Some val \<Rightarrow>
    and_then (ok_or (as_object J val) (invalid ''websocket_blocking must be a JSON object'')) (\<lambda>obj.
    and_then (reject_unknown [''enabled''] (\<lambda>k. invalid (''unknown websocket_blocking key: '' @ in_quotes k)) obj) (\<lambda>_.
    ok_or (Option.bind (get obj ''enabled'') (as_bool J))
        (invalid ''websocket_blocking missing required boolean field: enabled''))))"

definition top_keys :: "bytes list" where
  "top_keys = [''version'', ''mode'', ''rules'', ''meta'', ''filter_lists'']"

definition rule_keys :: "bytes list" where
  "rule_keys = [''tracker_set_cookie'', ''dns_block'', ''body_rewrite'', ''consent_enforcement'', ''websocket_blocking'']"

definition policy_from_json_value :: "'v json_api \<Rightarrow> (bytes \<Rightarrow> bool) \<Rightarrow> 'v \<Rightarrow> policy_config io_result" where
  "policy_from_json_value J css_ok v =
    and_then (ok_or (as_object J v) (invalid ''policy config must be a JSON object'')) (\<lambda>obj.
    and_then (reject_unknown top_keys (\<lambda>k. invalid (''unknown policy config key: '' @ in_quotes k)) obj) (\<lambda>_.
    and_then (ok_or (Option.bind (get obj ''version'') (as_u64 J))
        (invalid ''policy config missing required integer field: version'')) (\<lambda>version.
    and_then (ok_or (Option.bind (get obj ''mode'') (as_str J))
        (invalid ''policy config missing required string field: mode'')) (\<lambda>mode_str.
    and_then (ok_or (mode_parse_config_value mode_str)
        (invalid (''invalid policy mode '' @ in_quotes mode_str @ '' (expected disabled|report_only|enforce)''))) (\<lambda>mode.
    and_then (ok_or (get obj ''rules'') (invalid ''policy config missing required object field: rules'')) (\<lambda>rules_val.
    and_then (ok_or (as_object J rules_val) (invalid ''policy rules must be a JSON object'')) (\<lambda>rules_obj.
    and_then (reject_unknown rule_keys (\<lambda>k. invalid (''unknown policy rule: '' @ in_quotes k)) rules_obj) (\<lambda>_.
    and_then (parse_tracker_rule J rules_obj) (\<lambda>tracker.
    and_then (parse_dns_rule J rules_obj) (\<lambda>dns.
    and_then (parse_body_rewrite_rule J rules_obj) (\<lambda>body.
    and_then (parse_consent_rule J rules_obj) (\<lambda>consent.
    and_then (parse_websocket_rule J rules_obj) (\<lambda>ws.
    let cfg = \<lparr>pc_version = version, pc_mode = mode, pc_tracker_set_cookie = tracker, pc_dns_block = dns,
          pc_body_rewrite = body, pc_consent_enforcement = consent, pc_websocket_blocking_enabled = ws\<rparr>
    in and_then (policy_validate css_ok cfg) (\<lambda>_. Ok cfg))))))))))))))"

definition parse_json_file :: "'v json_api \<Rightarrow> string \<Rightarrow> io_error option \<Rightarrow> disk \<Rightarrow> path \<Rightarrow> 'v io_result" where
  "parse_json_file J what o_read d path =
    and_then (read_to_string o_read d path) (\<lambda>raw.
    case from_str J raw of Inl e \<Rightarrow> Err (invalid (''invalid '' @ what @ '' JSON: '' @ e)) | Inr v \<Rightarrow> Ok v)"

definition load_policy_config_from_file ::
  "'v json_api \<Rightarrow> (bytes \<Rightarrow> bool) \<Rightarrow> io_error option \<Rightarrow> disk \<Rightarrow> path \<Rightarrow> policy_mode option \<Rightarrow> policy_config io_result" where
  "load_policy_config_from_file J css_ok o_read d path mode_override =
    and_then (parse_json_file J ''policy config'' o_read d path) (\<lambda>parsed.
    and_then (policy_from_json_value J css_ok parsed) (\<lambda>cfg0.
    let cfg = (case mode_override of None \<Rightarrow> cfg0 | Some m \<Rightarrow> cfg0\<lparr>pc_mode := m\<rparr>) in
    and_then (policy_validate css_ok cfg) (\<lambda>_. Ok cfg)))"

record policy_config_summary =
  sm_version :: u64
  sm_mode :: policy_mode
  sm_tracker_rule_enabled :: bool
  sm_tracker_domain_count :: nat
  sm_dns_block_enabled :: bool
  sm_dns_block_domain_count :: nat
  sm_consent_enforcement_enabled :: bool
  sm_consent_default_consent :: bytes
  sm_consent_analytics_domain_count :: nat
  sm_consent_user_profile_count :: nat

definition describe_for_logs :: "policy_config \<Rightarrow> policy_config_summary" where
  "describe_for_logs c = \<lparr>sm_version = pc_version c, sm_mode = pc_mode c,
     sm_tracker_rule_enabled = (tsc_enabled (pc_tracker_set_cookie c) \<and> pc_mode c \<noteq> Disabled),
     sm_tracker_domain_count = card (tsc_domains (pc_tracker_set_cookie c)),
     sm_dns_block_enabled = (dns_enabled (pc_dns_block c) \<and> pc_mode c \<noteq> Disabled),
     sm_dns_block_domain_count = card (dns_domains (pc_dns_block c)),
     sm_consent_enforcement_enabled = (ce_enabled (pc_consent_enforcement c) \<and> pc_mode c \<noteq> Disabled),
     sm_consent_default_consent = (if ce_enabled (pc_consent_enforcement c)
        then consent_as_str (ce_default_consent (pc_consent_enforcement c)) else ''disabled''),
     sm_consent_analytics_domain_count = card (ce_analytics_domains (pc_consent_enforcement c)),
     sm_consent_user_profile_count = card (dom (ce_user_profiles (pc_consent_enforcement c)))\<rparr>"

section \<open>Lemmas\<close>

definition rule_domain_ok :: "bytes \<Rightarrow> bool" where
  "rule_domain_ok d \<longleftrightarrow> d \<noteq> [] \<and> host_char_ok d \<and> CHR ''/'' \<notin> set d \<and> CHR '' '' \<notin> set d"

definition domains_clean :: "bytes set \<Rightarrow> bool" where
  "domains_clean D \<longleftrightarrow> (\<forall>d\<in>D. rule_domain_ok d)"

definition hosts_clean :: "bytes set \<Rightarrow> bool" where
  "hosts_clean D \<longleftrightarrow> (\<forall>d\<in>D. d \<noteq> [] \<and> host_char_ok d)"

definition config_wf :: "(bytes \<Rightarrow> bool) \<Rightarrow> policy_config \<Rightarrow> bool" where
  "config_wf css_ok c \<longleftrightarrow> pc_version c = 1 \<and>
     domains_clean (tsc_domains (pc_tracker_set_cookie c)) \<and> domains_clean (dns_domains (pc_dns_block c)) \<and>
     hosts_clean (bw_referer_spoof_domains (pc_body_rewrite c)) \<and>
     hosts_clean (ce_analytics_domains (pc_consent_enforcement c)) \<and>
     (tsc_enabled (pc_tracker_set_cookie c) \<longrightarrow> tsc_domains (pc_tracker_set_cookie c) \<noteq> {}) \<and>
     (dns_enabled (pc_dns_block c) \<longrightarrow> dns_domains (pc_dns_block c) \<noteq> {}) \<and>
     (bw_enabled (pc_body_rewrite c) \<longrightarrow> list_all css_ok (bw_remove_selectors (pc_body_rewrite c)) \<and>
        (bw_tracker_script_patterns (pc_body_rewrite c) \<noteq> [] \<or> bw_remove_selectors (pc_body_rewrite c) \<noteq> [] \<or>
         bw_strip_tracking_pixels (pc_body_rewrite c)))"

lemma clean_empty [simp]: "domains_clean {}" "hosts_clean {}"
  by (simp_all add: domains_clean_def hosts_clean_def)

lemma parse_domain_entries_ok:
  "parse_domain_entries J ns bad es D = Ok E \<Longrightarrow> domains_clean D \<Longrightarrow> domains_clean E"
proof (induction es arbitrary: D)
  case (Cons entry es)
  from Cons.prems(1) obtain raw where raw: "as_str J entry = Some raw" by (cases "as_str J entry") auto
  let ?n = "normalize_host raw"
  show ?case
  proof (cases "?n = []")
    case True
    with Cons raw show ?thesis by simp
  next
    case False
    with Cons.prems(1) raw have c: "\<not> (contains_char ?n CHR ''/'' \<or> contains_char ?n CHR '' '')"
      and p: "parse_domain_entries J ns bad es (insert ?n D) = Ok E" by (auto simp: Let_def split: if_splits)
    have "domains_clean (insert ?n D)"
      using Cons.prems(2) False c normalize_host_ok [of raw]
      by (simp add: domains_clean_def rule_domain_ok_def contains_char_def)
    with p show ?thesis by (rule Cons.IH)
  qed
qed simp

lemma parse_host_entries_ok: "parse_host_entries J ns es D = Ok E \<Longrightarrow> hosts_clean D \<Longrightarrow> hosts_clean E"
proof (induction es arbitrary: D)
  case (Cons entry es)
  from Cons.prems(1) obtain raw where raw: "as_str J entry = Some raw" by (cases "as_str J entry") auto
  have "hosts_clean (if normalize_host raw \<noteq> [] then insert (normalize_host raw) D else D)"
    using Cons.prems(2) normalize_host_ok [of raw] by (simp add: hosts_clean_def)
  moreover from Cons.prems(1) raw
  have "parse_host_entries J ns es (if normalize_host raw \<noteq> [] then insert (normalize_host raw) D else D) = Ok E"
    by (simp add: Let_def)
  ultimately show ?case using Cons.IH by blast
qed simp

lemma check_selectors_Ok_iff: "check_selectors css_ok sels = Ok u \<longleftrightarrow> list_all css_ok sels"
  by (induction sels) auto

lemma policy_validate_Ok:
  assumes "policy_validate css_ok c = Ok u"
  shows "pc_version c = 1" "tsc_enabled (pc_tracker_set_cookie c) \<Longrightarrow> tsc_domains (pc_tracker_set_cookie c) \<noteq> {}"
    "dns_enabled (pc_dns_block c) \<Longrightarrow> dns_domains (pc_dns_block c) \<noteq> {}"
    "bw_enabled (pc_body_rewrite c) \<Longrightarrow> list_all css_ok (bw_remove_selectors (pc_body_rewrite c)) \<and>
        (bw_tracker_script_patterns (pc_body_rewrite c) \<noteq> [] \<or> bw_remove_selectors (pc_body_rewrite c) \<noteq> [] \<or>
         bw_strip_tracking_pixels (pc_body_rewrite c))"
  using assms by (auto simp: policy_validate_def check_selectors_Ok_iff split: if_splits)

lemmas entries_ok = parse_domain_entries_ok [OF _ clean_empty(1)] parse_host_entries_ok [OF _ clean_empty(2)]

lemma parse_tracker_rule_ok: "parse_tracker_rule J rules = Ok r \<Longrightarrow> domains_clean (tsc_domains r)"
  by (auto simp: parse_tracker_rule_def result_iffs dest: entries_ok)

lemma parse_dns_rule_ok: "parse_dns_rule J rules = Ok r \<Longrightarrow> domains_clean (dns_domains r)"
  by (cases "get rules ''dns_block''") (auto simp: parse_dns_rule_def dns_block_default_def result_iffs dest: entries_ok)

lemma referer_domains_ok:
  "(case arr of None \<Rightarrow> Ok {} | Some arr \<Rightarrow> parse_host_entries J e arr {}) = Ok E \<Longrightarrow> hosts_clean E"
  by (cases arr) (auto dest: entries_ok)

lemma parse_body_rewrite_rule_ok: "parse_body_rewrite_rule J rules = Ok r \<Longrightarrow> hosts_clean (bw_referer_spoof_domains r)"
  by (cases "get rules ''body_rewrite''")
    (auto simp: parse_body_rewrite_rule_def body_rewrite_default_def result_iffs dest: referer_domains_ok)

lemma parse_consent_rule_ok: "parse_consent_rule J rules = Ok r \<Longrightarrow> hosts_clean (ce_analytics_domains r)"
  by (cases "get rules ''consent_enforcement''")
    (auto simp: parse_consent_rule_def consent_default_def result_iffs dest: entries_ok)

lemma policy_from_json_Ok:
  assumes "policy_from_json_value J css_ok v = Ok c"
  obtains obj rules_val rules where "as_object J v = Some obj" "fst ` set obj \<subseteq> set top_keys"
    "get obj ''rules'' = Some rules_val" "as_object J rules_val = Some rules" "fst ` set rules \<subseteq> set rule_keys"
    "parse_tracker_rule J rules = Ok (pc_tracker_set_cookie c)" "parse_dns_rule J rules = Ok (pc_dns_block c)"
    "parse_body_rewrite_rule J rules = Ok (pc_body_rewrite c)" "parse_consent_rule J rules = Ok (pc_consent_enforcement c)"
    "parse_websocket_rule J rules = Ok (pc_websocket_blocking_enabled c)" "policy_validate css_ok c = Ok ()"
  using assms unfolding policy_from_json_value_def Let_def
  by (auto simp: result_iffs reject_unknown_Ok_iff)

text \<open>A value that is present is an object with allowed keys only.\<close>

definition strict_object :: "'v json_api \<Rightarrow> bytes set \<Rightarrow> 'v \<Rightarrow> bool" where
  "strict_object J allowed val \<longleftrightarrow> (case as_object J val of Some obj \<Rightarrow> fst ` set obj \<subseteq> allowed | None \<Rightarrow> False)"

definition strict_entry :: "'v json_api \<Rightarrow> (bytes \<times> 'v) list \<Rightarrow> bytes \<Rightarrow> bytes set \<Rightarrow> bool" where
  "strict_entry J entries name allowed \<longleftrightarrow> (case get entries name of Some val \<Rightarrow> strict_object J allowed val | None \<Rightarrow> True)"

text \<open>The user profiles of the consent rule: an object whose every entry is strict.\<close>

definition strict_profiles :: "'v json_api \<Rightarrow> (bytes \<times> 'v) list \<Rightarrow> bool" where
  "strict_profiles J rules \<longleftrightarrow>
     (case Option.bind (Option.bind (get rules ''consent_enforcement'') (as_object J)) (\<lambda>obj. get obj ''user_profiles'') of
        None \<Rightarrow> True
      | Some val \<Rightarrow> (case as_object J val of None \<Rightarrow> False
          | Some profiles \<Rightarrow> list_all (\<lambda>(ip, profile). strict_object J {''name'', ''consent''} profile) profiles))"

lemma strict_entryI:
  "(\<And>val. get entries name = Some val \<Longrightarrow> \<exists>obj. as_object J val = Some obj \<and> fst ` set obj \<subseteq> allowed) \<Longrightarrow> strict_entry J entries name allowed"
  by (fastforce simp: strict_entry_def strict_object_def split: option.split)

lemma strict_entry_intros:
  "parse_tracker_rule J rules = Ok r \<Longrightarrow> strict_entry J rules ''tracker_set_cookie'' {''enabled'', ''domains''}"
  "parse_dns_rule J rules = Ok r2 \<Longrightarrow> strict_entry J rules ''dns_block'' {''enabled'', ''domains''}"
  "parse_body_rewrite_rule J rules = Ok r3 \<Longrightarrow> strict_entry J rules ''body_rewrite'' (set body_rewrite_keys)"
  "parse_consent_rule J rules = Ok r4 \<Longrightarrow> strict_entry J rules ''consent_enforcement'' (set consent_keys)"
  "parse_websocket_rule J rules = Ok r5 \<Longrightarrow> strict_entry J rules ''websocket_blocking'' {''enabled''}"
  by (rule strict_entryI, simp add: parse_tracker_rule_def parse_dns_rule_def parse_body_rewrite_rule_def parse_consent_rule_def
      parse_websocket_rule_def and_then_Inr_iff ok_or_Inr_iff reject_unknown_Ok_iff, blast)+

lemma parse_user_profiles_strict:
  "parse_user_profiles J profiles m = Ok m' \<Longrightarrow> list_all (\<lambda>(ip, profile). strict_object J {''name'', ''consent''} profile) profiles"
  by (induction J profiles m rule: parse_user_profiles.induct)
    (auto simp: and_then_Inr_iff ok_or_Inr_iff reject_unknown_Ok_iff strict_object_def Let_def)

lemma parse_consent_rule_profiles:
  assumes "parse_consent_rule J rules = Ok r"
  shows "strict_profiles J rules"
proof (cases "Option.bind (Option.bind (get rules ''consent_enforcement'') (as_object J)) (\<lambda>obj. get obj ''user_profiles'')")
  case (Some val)
  then obtain v obj where v: "get rules ''consent_enforcement'' = Some v" "as_object J v = Some obj" "get obj ''user_profiles'' = Some val"
    by (auto simp: bind_eq_Some_conv)
  with assms obtain profiles m where "as_object J val = Some profiles" "parse_user_profiles J profiles Map.empty = Ok m"
    by (auto simp: parse_consent_rule_def and_then_Inr_iff ok_or_Inr_iff)
  then show ?thesis using Some parse_user_profiles_strict [of J profiles] by (simp add: strict_profiles_def)
qed (simp add: strict_profiles_def)

lemma loaded_config_mode_wf:
  assumes "load_policy_config_from_file J css_ok o_read d path mode_override = Ok c"
  shows "config_wf css_ok c \<and> (\<forall>m. mode_override = Some m \<longrightarrow> pc_mode c = m)"
proof -
  from assms obtain v c0 where p: "policy_from_json_value J css_ok v = Ok c0"
    and c: "c = (case mode_override of None \<Rightarrow> c0 | Some m \<Rightarrow> c0\<lparr>pc_mode := m\<rparr>)"
    and valid: "policy_validate css_ok c = Ok ()"
    by (auto simp: load_policy_config_from_file_def Let_def result_iffs)
  have same: "pc_tracker_set_cookie c = pc_tracker_set_cookie c0" "pc_dns_block c = pc_dns_block c0"
    "pc_body_rewrite c = pc_body_rewrite c0" "pc_consent_enforcement c = pc_consent_enforcement c0"
    by (simp_all add: c split: option.splits)
  from p obtain rules where
    "parse_tracker_rule J rules = Ok (pc_tracker_set_cookie c0)" "parse_dns_rule J rules = Ok (pc_dns_block c0)"
    "parse_body_rewrite_rule J rules = Ok (pc_body_rewrite c0)" "parse_consent_rule J rules = Ok (pc_consent_enforcement c0)"
    by (rule policy_from_json_Ok)
  then show ?thesis
    using policy_validate_Ok [OF valid] same
    by (auto simp: config_wf_def c parse_tracker_rule_ok parse_dns_rule_ok parse_body_rewrite_rule_ok parse_consent_rule_ok)
qed

lemma loaded_config_wf: "load_policy_config_from_file J css_ok o_read d path mode_override = Ok c \<Longrightarrow> config_wf css_ok c"
  by (drule loaded_config_mode_wf) simp

section \<open>Properties\<close>

text \<open>C25: a policy file that loads is sane: it has version 1, the override mode when one was
  given, only normalised non-empty domains (without slash or space in the block rules), a
  non-empty domain list for each enabled block rule, and something to do plus only valid CSS
  selectors when body rewriting is enabled.\<close>
theorem loaded_policy_wf:
  assumes "load_policy_config_from_file J css_ok o_read d path mode_override = Ok c"
  shows "config_wf css_ok c \<and> (\<forall>m. mode_override = Some m \<longrightarrow> pc_mode c = m)"
  using assms by (rule loaded_config_mode_wf)

text \<open>C26: configuration parsing is strict at every level: a document that is accepted has no key outside the
  documented ones at the top level, among the rules, in each of the five rule objects and in every entry of the user profiles, and what
  stands for a rule or a profile is an object; so a misspelt setting is an error and never silently ignored.\<close>
theorem policy_keys_strict:
  assumes "policy_from_json_value J css_ok v = Ok c"
  shows "\<exists>obj rules_val rules. as_object J v = Some obj \<and> fst ` set obj \<subseteq> {''version'', ''mode'', ''rules'', ''meta'', ''filter_lists''} \<and>
    get obj ''rules'' = Some rules_val \<and> as_object J rules_val = Some rules \<and>
    fst ` set rules \<subseteq> {''tracker_set_cookie'', ''dns_block'', ''body_rewrite'', ''consent_enforcement'', ''websocket_blocking''} \<and>
    strict_entry J rules ''tracker_set_cookie'' {''enabled'', ''domains''} \<and>
    strict_entry J rules ''dns_block'' {''enabled'', ''domains''} \<and>
    strict_entry J rules ''body_rewrite'' {''enabled'', ''tracker_script_patterns'', ''remove_selectors'', ''css_inject_selectors'',
      ''strip_tracking_pixels'', ''max_body_bytes'', ''referer_spoof_domains'', ''query_param_strip_enabled''} \<and>
    strict_entry J rules ''consent_enforcement'' {''enabled'', ''default_consent'', ''analytics_domains'', ''site_overrides'', ''user_profiles''} \<and>
    strict_profiles J rules \<and>
    strict_entry J rules ''websocket_blocking'' {''enabled''}"
proof -
  from assms obtain obj rv rules where k: "as_object J v = Some obj" "fst ` set obj \<subseteq> set top_keys"
    "get obj ''rules'' = Some rv" "as_object J rv = Some rules" "fst ` set rules \<subseteq> set rule_keys"
    "parse_tracker_rule J rules = Ok (pc_tracker_set_cookie c)" "parse_dns_rule J rules = Ok (pc_dns_block c)"
    "parse_body_rewrite_rule J rules = Ok (pc_body_rewrite c)" "parse_consent_rule J rules = Ok (pc_consent_enforcement c)"
    "parse_websocket_rule J rules = Ok (pc_websocket_blocking_enabled c)"
    by (rule policy_from_json_Ok)
  note s = strict_entry_intros(1) [OF k(6)] strict_entry_intros(2) [OF k(7)] strict_entry_intros(3) [OF k(8)]
    strict_entry_intros(4) [OF k(9)] parse_consent_rule_profiles [OF k(9)] strict_entry_intros(5) [OF k(10)]
  show ?thesis
    by (intro exI conjI; (rule k(1,3,4) | insert k(2,5) s))
      (simp_all only: top_keys_def rule_keys_def body_rewrite_keys_def consent_keys_def list.set)
qed

definition wit_rules :: "(bytes \<times> jval) list" where
  "wit_rules = [(''dns_block'', JObj [(''domains'', JArr [JStr ''Ads.Example.'']), (''enabled'', JBool True)]),
     (''tracker_set_cookie'', JObj [(''domains'', JArr [JStr ''t.example'']), (''enabled'', JBool True)])]"

definition wit_policy :: jval where
  "wit_policy = JObj [(''mode'', JStr ''enforce''), (''rules'', JObj wit_rules), (''version'', JNum 1)]"

definition wit_config :: policy_config where
  "wit_config = \<lparr>pc_version = 1, pc_mode = Enforce, pc_tracker_set_cookie = \<lparr>tsc_enabled = True, tsc_domains = {''t.example''}\<rparr>,
     pc_dns_block = \<lparr>dns_enabled = True, dns_domains = {''ads.example''}\<rparr>, pc_body_rewrite = body_rewrite_default,
     pc_consent_enforcement = consent_default, pc_websocket_blocking_enabled = True\<rparr>"

lemma wit_policy_parses: "policy_from_json_value (jdoc wit_policy) (\<lambda>s. True) wit_policy = Ok wit_config"
proof -
  have n: "normalize_host ''Ads.Example.'' = ''ads.example''" "normalize_host ''t.example'' = ''t.example''"
    "mode_parse_config_value ''enforce'' = Some Enforce"
    by code_simp+
  show ?thesis
    by (simp add: policy_from_json_value_def wit_policy_def wit_rules_def jdoc_def top_keys_def rule_keys_def
        parse_tracker_rule_def parse_dns_rule_def parse_body_rewrite_rule_def parse_consent_rule_def
        parse_websocket_rule_def n contains_char_def policy_validate_def body_rewrite_default_def wit_config_def)
qed

definition wit_policy_path :: path where
  "wit_policy_path = \<lparr>p_dir = ''/etc'', p_stem = ''policy'', p_ext = Some ''json''\<rparr>"

lemma wit_policy_loads:
  "load_policy_config_from_file (jdoc wit_policy) (\<lambda>s. True) None [wit_policy_path \<mapsto> ''{}''] wit_policy_path (Some ReportOnly)
   = Ok (wit_config\<lparr>pc_mode := ReportOnly\<rparr>)"
proof -
  have "parse_json_file (jdoc wit_policy) ''policy config'' None [wit_policy_path \<mapsto> ''{}''] wit_policy_path = Ok wit_policy"
    by (simp add: parse_json_file_def read_to_string_def jdoc_def)
  then show ?thesis
    by (simp add: load_policy_config_from_file_def wit_policy_parses Let_def)
      (simp add: policy_validate_def wit_config_def body_rewrite_default_def)
qed

theorem loaded_policy_wf_witness:
  "config_wf (\<lambda>s. True) (wit_config\<lparr>pc_mode := ReportOnly\<rparr>) \<and> pc_mode (wit_config\<lparr>pc_mode := ReportOnly\<rparr>) = ReportOnly"
  using loaded_policy_wf [OF wit_policy_loads] by blast

text \<open>A policy with a user profile.\<close>

definition wit_consent_rules :: "(bytes \<times> jval) list" where
  "wit_consent_rules = (''consent_enforcement'', JObj [(''default_consent'', JStr ''all''), (''enabled'', JBool True),
     (''user_profiles'', JObj [(''10.0.0.1'', JObj [(''consent'', JStr ''all''), (''name'', JStr ''A'')])])]) # wit_rules"

definition wit_consent_policy :: jval where
  "wit_consent_policy = JObj [(''mode'', JStr ''enforce''), (''rules'', JObj wit_consent_rules), (''version'', JNum 1)]"

lemma wit_consent_parses: "\<exists>c. policy_from_json_value (jdoc JNull) (\<lambda>s. True) wit_consent_policy = Ok c"
proof -
  have n: "normalize_host ''Ads.Example.'' = ''ads.example''" "normalize_host ''t.example'' = ''t.example''"
    "mode_parse_config_value ''enforce'' = Some Enforce" "consent_parse ''all'' = Some ConsentAll"
    by code_simp+
  show ?thesis
    by (simp add: policy_from_json_value_def wit_consent_policy_def wit_consent_rules_def wit_rules_def jdoc_def top_keys_def rule_keys_def
        parse_tracker_rule_def parse_dns_rule_def parse_body_rewrite_rule_def parse_consent_rule_def parse_websocket_rule_def
        consent_keys_def consent_default_def body_rewrite_default_def contains_char_def policy_validate_def n Let_def)
qed

theorem policy_keys_strict_witness:
  "strict_profiles (jdoc JNull) wit_consent_rules \<and>
   \<not> strict_profiles (jdoc JNull) [(''consent_enforcement'', JObj [(''user_profiles'', JObj [(''10.0.0.1'', JObj [(''colour'', JNull)])])])]"
proof -
  obtain c where c: "policy_from_json_value (jdoc JNull) (\<lambda>s. True) wit_consent_policy = Ok c" using wit_consent_parses by blast
  from policy_keys_strict [OF c] have "strict_profiles (jdoc JNull) wit_consent_rules"
    by (simp add: wit_consent_policy_def jdoc_def)
  then show ?thesis by (simp add: strict_profiles_def strict_object_def jdoc_def)
qed

end
