(* ===== verification/Filter_List_Parser.thy ===== *)
theory Filter_List_Parser
  imports Hosts
begin

text \<open>
  \<^verbatim>\<open>src/filter_list_parser.rs\<close>: one line of an ABP / EasyList filter list to a rule, and a
  whole list to its rules with the line statistics. Whether the crate \<^verbatim>\<open>lol_html\<close> accepts a
  CSS selector is the argument \<open>css_ok\<close>.
\<close>

datatype parsed_rule =
    is_DomainBlock: DomainBlock bytes
  | is_UrlPattern: UrlPattern bytes bytes
  | is_CosmeticGlobal: CosmeticGlobal bytes
  | is_CosmeticDomainScoped: CosmeticDomainScoped bytes bytes
  | is_ExceptionRule: ExceptionRule bytes

record parse_stats =
  total_lines :: nat
  domain_blocks :: nat
  url_patterns :: nat
  cosmetic_global :: nat
  cosmetic_domain_scoped :: nat
  exceptions :: nat
  skipped_comments :: nat
  skipped_unsupported :: nat

definition stats_default :: parse_stats where
  "stats_default = \<lparr>total_lines = 0, domain_blocks = 0, url_patterns = 0, cosmetic_global = 0,
     cosmetic_domain_scoped = 0, exceptions = 0, skipped_comments = 0, skipped_unsupported = 0\<rparr>"

definition normalize_filter_domain :: "bytes \<Rightarrow> bytes option" where
  "normalize_filter_domain raw =
    (let trimmed = to_ascii_lowercase (trim_end_matches CHR ''.'' (trim raw)) in
     if trimmed = [] then None
     else if contains_char trimmed CHR ''*'' \<or> contains_char trimmed CHR ''?'' \<or> contains_char trimmed CHR ''{'' then None
     else if contains_char trimmed CHR '' '' then None
     else Some trimmed)"

definition extended_css :: "bytes list" where
  "extended_css = ['':has('', '':has-text('', '':matches-css('', '':-abp-has('', '':-abp-contains('', '':contains('',
     '':xpath('', '':nth-ancestor('', '':upward('', '':remove('', '':style('', '':matches-path('']"

definition contains_extended_css :: "bytes \<Rightarrow> bool" where
  "contains_extended_css selector = (let lower = to_ascii_lowercase selector in
     list_ex (\<lambda>ext. str_contains lower ext) extended_css)"

definition parse_exception :: "bytes \<Rightarrow> parsed_rule option" where
  "parse_exception rest =
    (let domain_part = hd (split_on CHR ''$'' rest);
         domain_part = (case strip_suffix_char CHR ''^'' domain_part of None \<Rightarrow> domain_part | Some d \<Rightarrow> d)
     in case normalize_filter_domain domain_part of None \<Rightarrow> None
        | Some domain \<Rightarrow> if contains_char domain CHR ''/'' then None else Some (ExceptionRule domain))"

definition parse_cosmetic :: "(bytes \<Rightarrow> bool) \<Rightarrow> bytes \<Rightarrow> nat \<Rightarrow> parsed_rule option" where
  "parse_cosmetic css_ok line separator_idx =
    (let domain_part = take separator_idx line;
         selector = drop (separator_idx + 2) line
     in if selector = [] then None
        else if contains_extended_css selector then None
        else if \<not> css_ok selector then None
        else if domain_part = [] then Some (CosmeticGlobal selector)
        else (case normalize_filter_domain (hd (split_on CHR '','' domain_part)) of None \<Rightarrow> None
              | Some domain \<Rightarrow> Some (CosmeticDomainScoped domain selector)))"

definition parse_domain_or_url :: "bytes \<Rightarrow> parsed_rule option" where
  "parse_domain_or_url rest =
    (let without_options = hd (split_on CHR ''$'' rest) in
     case find_char CHR ''/'' without_options of
       Some slash_idx \<Rightarrow>
         let domain_part = take slash_idx without_options;
             path_part = trim_end_matches CHR ''^'' (drop slash_idx without_options)
         in (case normalize_filter_domain domain_part of None \<Rightarrow> None
             | Some domain \<Rightarrow>
                 if path_part = [] \<or> path_part = ''/'' then Some (DomainBlock domain)
                 else Some (UrlPattern domain path_part))
     | None \<Rightarrow>
         let domain_part = trim_end_matches CHR ''^'' without_options
         in (case normalize_filter_domain domain_part of None \<Rightarrow> None
             | Some domain \<Rightarrow> Some (DomainBlock domain)))"

definition is_comment :: "bytes \<Rightarrow> bool" where
  "is_comment line \<longleftrightarrow> prefix ''!'' line \<or> prefix ''['' line"

definition parse_line :: "(bytes \<Rightarrow> bool) \<Rightarrow> bytes \<Rightarrow> parsed_rule option" where
  "parse_line css_ok line0 =
    (let line = trim line0 in
     if line = [] then None
     else if is_comment line then None
     else case strip_prefix ''@@||'' line of Some rest \<Rightarrow> parse_exception rest
     | None \<Rightarrow> (case find_sub ''##'' line of Some idx \<Rightarrow> parse_cosmetic css_ok line idx
     | None \<Rightarrow> (case strip_prefix ''||'' line of Some rest \<Rightarrow> parse_domain_or_url rest
     | None \<Rightarrow> None)))"

text \<open>\<open>str::lines\<close>: pieces between line feeds, each without its final CR; a last piece that no
  line feed ends is kept as it is, an empty one is dropped.\<close>

definition strip_cr :: "bytes \<Rightarrow> bytes" where
  "strip_cr l = (if l \<noteq> [] \<and> last l = CR then butlast l else l)"

definition str_lines :: "bytes \<Rightarrow> bytes list" where
  "str_lines text = (let ps = split_on LF text in
     map strip_cr (butlast ps) @ (if last ps = [] then [] else [last ps]))"

fun count_rule :: "parsed_rule \<Rightarrow> parse_stats \<Rightarrow> parse_stats" where
  "count_rule (DomainBlock _) st = st\<lparr>domain_blocks := domain_blocks st + 1\<rparr>"
| "count_rule (UrlPattern _ _) st = st\<lparr>url_patterns := url_patterns st + 1\<rparr>"
| "count_rule (CosmeticGlobal _) st = st\<lparr>cosmetic_global := cosmetic_global st + 1\<rparr>"
| "count_rule (CosmeticDomainScoped _ _) st = st\<lparr>cosmetic_domain_scoped := cosmetic_domain_scoped st + 1\<rparr>"
| "count_rule (ExceptionRule _) st = st\<lparr>exceptions := exceptions st + 1\<rparr>"

definition parse_filter_step ::
  "(bytes \<Rightarrow> bool) \<Rightarrow> bytes \<Rightarrow> parsed_rule list \<times> parse_stats \<Rightarrow> parsed_rule list \<times> parse_stats" where
  "parse_filter_step css_ok line acc =
    (let (rules, st) = acc;
         st = st\<lparr>total_lines := total_lines st + 1\<rparr>;
         trimmed = trim line
     in if trimmed = [] then (rules, st)
        else if is_comment trimmed then (rules, st\<lparr>skipped_comments := skipped_comments st + 1\<rparr>)
        else (case parse_line css_ok trimmed of
            Some rule \<Rightarrow> (rules @ [rule], count_rule rule st)
          | None \<Rightarrow> (rules, st\<lparr>skipped_unsupported := skipped_unsupported st + 1\<rparr>)))"

definition parse_filter_list :: "(bytes \<Rightarrow> bool) \<Rightarrow> bytes \<Rightarrow> parsed_rule list \<times> parse_stats" where
  "parse_filter_list css_ok text = fold (parse_filter_step css_ok) (str_lines text) ([], stats_default)"

section \<open>Lemmas\<close>

definition domain_clean :: "bytes \<Rightarrow> bool" where
  "domain_clean d \<longleftrightarrow> d \<noteq> [] \<and> no_upper d \<and> last d \<noteq> CHR ''.'' \<and> ws_len d = 0 \<and>
     set d \<inter> {CHR ''*'', CHR ''?'', CHR ''{'', CHR '' ''} = {}"

fun rule_ok :: "(bytes \<Rightarrow> bool) \<Rightarrow> parsed_rule \<Rightarrow> bool" where
  "rule_ok css_ok (DomainBlock d) \<longleftrightarrow> domain_clean d \<and> CHR ''/'' \<notin> set d"
| "rule_ok css_ok (UrlPattern d p) \<longleftrightarrow> domain_clean d \<and> CHR ''/'' \<notin> set d \<and>
     prefix ''/'' p \<and> p \<noteq> ''/'' \<and> last p \<noteq> CHR ''^''"
| "rule_ok css_ok (CosmeticGlobal s) \<longleftrightarrow> s \<noteq> [] \<and> css_ok s \<and> \<not> contains_extended_css s"
| "rule_ok css_ok (CosmeticDomainScoped d s) \<longleftrightarrow> domain_clean d \<and> CHR '','' \<notin> set d \<and>
     s \<noteq> [] \<and> css_ok s \<and> \<not> contains_extended_css s"
| "rule_ok css_ok (ExceptionRule d) \<longleftrightarrow> domain_clean d \<and> CHR ''/'' \<notin> set d"

lemma normalize_filter_domain_eq:
  "normalize_filter_domain raw =
    (let n = normalize_host raw in
     if n = [] \<or> set n \<inter> {CHR ''*'', CHR ''?'', CHR ''{'', CHR '' ''} \<noteq> {} then None else Some n)"
  by (auto simp: normalize_filter_domain_def normalize_host_def contains_char_def Let_def)

lemma normalize_filter_domain_clean: "normalize_filter_domain raw = Some d \<Longrightarrow> domain_clean d"
  using normalize_host_ok [of raw]
  by (auto simp: normalize_filter_domain_eq domain_clean_def host_char_ok_def Let_def split: if_splits)

lemma set_normalize_host_special:
  assumes "c \<notin> set raw" "\<not> (97 \<le> code c \<and> code c \<le> 122)" "\<not> (65 \<le> code c \<and> code c \<le> 90)"
  shows "c \<notin> set (normalize_host raw)"
proof -
  have "set (trim_end_matches CHR ''.'' (trim raw)) \<subseteq> set raw"
    by (meson dual_order.trans prefix_imp_sublist set_mono_sublist set_trim trim_end_matches_prefix)
  then have n: "c \<notin> set (trim_end_matches CHR ''.'' (trim raw))" using assms(1) by (rule contra_subsetD)
  show ?thesis
  proof
    assume "c \<in> set (normalize_host raw)"
    then obtain x where "x \<in> set (trim_end_matches CHR ''.'' (trim raw))" "to_lower x = c"
      by (auto simp: normalize_host_def to_ascii_lowercase_def)
    with n assms show False by (simp add: to_lower_eq_iff_not_alpha)
  qed
qed

lemma normalize_filter_domain_char:
  assumes "normalize_filter_domain raw = Some d" "c \<notin> set raw"
    "\<not> (97 \<le> code c \<and> code c \<le> 122)" "\<not> (65 \<le> code c \<and> code c \<le> 90)"
  shows "c \<notin> set d"
  using assms set_normalize_host_special [of c raw]
  by (auto simp: normalize_filter_domain_eq Let_def split: if_splits)

lemma set_trim_end_matches: "set (trim_end_matches c s) \<subseteq> set s"
  using prefix_imp_sublist [OF trim_end_matches_prefix] by (rule set_mono_sublist)

lemma parse_exception_ok: "parse_exception rest = Some r \<Longrightarrow> rule_ok css_ok r"
  by (auto simp: parse_exception_def contains_char_def Let_def normalize_filter_domain_clean
      split: option.splits if_splits)

lemma parse_cosmetic_ok: "parse_cosmetic css_ok line i = Some r \<Longrightarrow> rule_ok css_ok r"
proof -
  have "CHR '','' \<notin> set (hd (split_on CHR '','' s))" for s
    using split_on_no_sep [of "hd (split_on CHR '','' s)" "CHR '',''" s] by simp
  then show "parse_cosmetic css_ok line i = Some r \<Longrightarrow> rule_ok css_ok r"
    using normalize_filter_domain_char [where c = "CHR '',''"]
    by (fastforce simp: parse_cosmetic_def Let_def normalize_filter_domain_clean split: option.splits if_splits)
qed


lemma trim_end_matches_Cons_other:
  "a \<noteq> c \<Longrightarrow> \<exists>p. trim_end_matches c (a # s) = a # p"
  by (auto simp: trim_end_matches_def dropWhile_append intro: exI [of _ "rev ys" for ys])

lemma parse_domain_or_url_ok: "parse_domain_or_url rest = Some r \<Longrightarrow> rule_ok css_ok r"
proof -
  assume r: "parse_domain_or_url rest = Some r"
  let ?w = "hd (split_on CHR ''$'' rest)"
  note slash = normalize_filter_domain_char [where c = "CHR ''/''", simplified]
  show "rule_ok css_ok r"
  proof (cases "split_once CHR ''/'' ?w")
    case None
    then have ns: "CHR ''/'' \<notin> set ?w" by (simp add: split_once_None_iff)
    then have "CHR ''/'' \<notin> set (trim_end_matches CHR ''^'' ?w)"
      using set_trim_end_matches [of "CHR ''^''" ?w] by blast
    with r ns show ?thesis
      by (auto simp: parse_domain_or_url_def find_char_None_iff [THEN iffD2] Let_def
          normalize_filter_domain_clean dest: slash split: option.splits)
  next
    case (Some ab)
    obtain a b where w: "?w = a @ CHR ''/'' # b" and a: "CHR ''/'' \<notin> set a"
      using Some by (cases ab) (auto simp: split_once_Some_iff)
    obtain p where p: "trim_end_matches CHR ''^'' (CHR ''/'' # b) = CHR ''/'' # p"
      using trim_end_matches_Cons_other [of "CHR ''/''" "CHR ''^''" b] by auto
    have lst: "last (CHR ''/'' # p) \<noteq> CHR ''^''"
      using trim_end_matches_last [of "CHR ''^''" "CHR ''/'' # b"] p by simp
    have f: "find_char CHR ''/'' ?w = Some (length a)" using find_char_append [OF a] w by simp
    then show ?thesis using r a lst
      by (simp add: parse_domain_or_url_def w p Let_def del: last.simps split: option.splits if_splits)
        (auto simp: normalize_filter_domain_clean dest: slash)
  qed
qed

lemma parse_line_rule_ok: "parse_line css_ok line = Some r \<Longrightarrow> rule_ok css_ok r"
  by (auto simp: parse_line_def Let_def parse_exception_ok parse_cosmetic_ok parse_domain_or_url_ok
      split: if_splits option.splits)



lemma parse_line_trim [simp]: "parse_line css_ok (trim line) = parse_line css_ok line"
  by (simp add: parse_line_def)

lemma parse_filter_step_rules:
  "fst (parse_filter_step css_ok line acc) = fst acc @
     (case parse_line css_ok line of None \<Rightarrow> [] | Some r \<Rightarrow> [r])"
proof -
  have "parse_line css_ok line = None" if "trim line = [] \<or> is_comment (trim line)"
    using that by (auto simp: parse_line_def Let_def)
  then show ?thesis
    by (auto simp: parse_filter_step_def Let_def split: option.splits prod.splits)
qed

lemma parse_filter_list_fst:
  "fst (parse_filter_list css_ok text) = List.map_filter (parse_line css_ok) (str_lines text)"
proof -
  have "fst (fold (parse_filter_step css_ok) ls acc) = fst acc @ List.map_filter (parse_line css_ok) ls" for ls acc
    by (induction ls arbitrary: acc)
      (auto simp: parse_filter_step_rules List.map_filter_def split: option.splits)
  then show ?thesis by (simp add: parse_filter_list_def)
qed

section \<open>Printing rules back\<close>

definition dns_char :: "char \<Rightarrow> bool" where
  "dns_char c \<longleftrightarrow> (97 \<le> code c \<and> code c \<le> 122 \<or> 45 \<le> code c \<and> code c \<le> 57 \<or> code c = 95) \<and> code c \<noteq> 47"

definition dns_name :: "bytes \<Rightarrow> bool" where
  "dns_name d \<longleftrightarrow> d \<noteq> [] \<and> list_all dns_char d \<and> last d \<noteq> CHR ''.''"

fun render_rule :: "parsed_rule \<Rightarrow> bytes" where
  "render_rule (DomainBlock d) = ''||'' @ d @ ''^''"
| "render_rule (UrlPattern d p) = ''||'' @ d @ p @ ''^''"
| "render_rule (CosmeticGlobal s) = ''##'' @ s"
| "render_rule (CosmeticDomainScoped d s) = d @ ''##'' @ s"
| "render_rule (ExceptionRule d) = ''@@||'' @ d @ ''^''"

definition selector_printable :: "(bytes \<Rightarrow> bool) \<Rightarrow> bytes \<Rightarrow> bool" where
  "selector_printable css_ok s \<longleftrightarrow> s \<noteq> [] \<and> ws_len_rev (rev s) = 0 \<and> LF \<notin> set s \<and> css_ok s \<and> \<not> contains_extended_css s"

fun rule_printable :: "(bytes \<Rightarrow> bool) \<Rightarrow> parsed_rule \<Rightarrow> bool" where
  "rule_printable css_ok (DomainBlock d) \<longleftrightarrow> dns_name d"
| "rule_printable css_ok (UrlPattern d p) \<longleftrightarrow> dns_name d \<and> prefix ''/'' p \<and> p \<noteq> ''/'' \<and> last p \<noteq> CHR ''^'' \<and>
     graphic p \<and> CHR ''$'' \<notin> set p \<and> CHR ''#'' \<notin> set p"
| "rule_printable css_ok (CosmeticGlobal s) \<longleftrightarrow> selector_printable css_ok s"
| "rule_printable css_ok (CosmeticDomainScoped d s) \<longleftrightarrow> dns_name d \<and> selector_printable css_ok s"
| "rule_printable css_ok (ExceptionRule d) \<longleftrightarrow> dns_name d"

definition render_list :: "parsed_rule list \<Rightarrow> bytes" where
  "render_list rs = concat (map (\<lambda>r. render_rule r @ [LF]) rs)"

lemma dns_char_range: "dns_char c \<Longrightarrow> 45 \<le> code c \<and> code c \<le> 122 \<and> \<not> (65 \<le> code c \<and> code c \<le> 90)"
  by (auto simp: dns_char_def)

lemma dns_name_graphic: "dns_name d \<Longrightarrow> graphic d"
  by (force simp: dns_name_def graphic_def list_all_iff dest: dns_char_range)

lemma dns_name_not_in: "dns_name d \<Longrightarrow> \<not> dns_char c \<Longrightarrow> c \<notin> set d"
  by (auto simp: dns_name_def list_all_iff)

lemma dns_name_normalize: "dns_name d \<Longrightarrow> normalize_filter_domain d = Some d"
proof -
  assume d: "dns_name d"
  have "no_upper d" using d by (force simp: dns_name_def no_upper_def list_all_iff dest: dns_char_range)
  then have "normalize_host d = d"
    using d by (intro normalize_host_id dns_name_graphic) (auto simp: dns_name_def)
  moreover have "c \<notin> set d" if "c \<in> {CHR ''*'', CHR ''?'', CHR ''{'', CHR '' ''}" for c
    using that d by (intro dns_name_not_in) (auto simp: dns_char_def)
  ultimately show ?thesis using d by (auto simp: normalize_filter_domain_eq dns_name_def)
qed

lemma trim_end_matches_snoc [simp]: "trim_end_matches c (s @ [c]) = trim_end_matches c s"
  by (simp add: trim_end_matches_def)

lemma find_sub_append:
  "a \<notin> set d \<Longrightarrow> find_sub [a, a] (d @ a # a # s) = Some (length d)"
  by (induction d) auto

lemma find_sub_absent: "a \<notin> set s \<Longrightarrow> find_sub [a, b] s = None"
  by (induction s) auto

lemma ws_len_rev_append:
  "t \<noteq> [] \<Longrightarrow> ws_len_rev t = 0 \<Longrightarrow> graphic g \<Longrightarrow> ws_len_rev (t @ g) = 0"
  by (cases t rule: ws_len_rev.cases; cases g rule: ws_len_rev.cases)
    (auto simp: ws2_def ws3_def split: if_splits)


lemma is_comment_Cons [simp]: "is_comment (c # s) \<longleftrightarrow> c = CHR ''!'' \<or> c = CHR ''[''"
  by (auto simp: is_comment_def)

lemma strip_prefix_Cons: "strip_prefix (a # p) (b # s) = (if a = b then strip_prefix p s else None)"
  by (simp add: strip_prefix_def)

lemma strip_prefix_Nil [simp]: "strip_prefix [] s = Some s"
  by (simp add: strip_prefix_def)

lemma strip_suffix_char_snoc [simp]: "strip_suffix_char c (s @ [c]) = Some s"
  by (simp add: strip_suffix_char_def)

lemma hd_split_on_id: "c \<notin> set s \<Longrightarrow> hd (split_on c s) = s"
  by (simp add: split_on_id)

lemma dns_name_absent [simp]:
  assumes "dns_name d"
  shows "CHR ''$'' \<notin> set d" "CHR ''#'' \<notin> set d" "CHR ''/'' \<notin> set d" "CHR '','' \<notin> set d"
    "CHR ''^'' \<notin> set d" "LF \<notin> set d"
  by (rule dns_name_not_in [OF assms], simp add: dns_char_def)+

lemma dns_name_trim_caret: "dns_name d \<Longrightarrow> trim_end_matches CHR ''^'' d = d"
  using dns_name_absent(5) [of d] last_in_set [of d] by (intro trim_end_matches_id) metis

lemma parse_line_block: "dns_name d \<Longrightarrow> parse_line css_ok (render_rule (DomainBlock d)) = Some (DomainBlock d)"
  using dns_name_graphic [of d]
  by (simp add: parse_line_def trim_graphic strip_prefix_Cons find_sub_absent parse_domain_or_url_def
      hd_split_on_id find_char_None_iff [THEN iffD2] dns_name_trim_caret dns_name_normalize)

lemma parse_line_exception: "dns_name d \<Longrightarrow> parse_line css_ok (render_rule (ExceptionRule d)) = Some (ExceptionRule d)"
  using dns_name_graphic [of d]
  by (simp add: parse_line_def trim_graphic strip_prefix_Cons parse_exception_def
      hd_split_on_id dns_name_normalize contains_char_def)

lemma parse_line_url:
  assumes "rule_printable css_ok (UrlPattern d p)"
  shows "parse_line css_ok (render_rule (UrlPattern d p)) = Some (UrlPattern d p)"
proof -
  obtain q where p: "p = CHR ''/'' # q" using assms by (cases p) auto
  have "trim_end_matches CHR ''^'' p = p" using assms by (intro trim_end_matches_id) auto
  moreover have "trim_end_matches CHR ''^'' (CHR ''/'' # q @ ''^'') = trim_end_matches CHR ''^'' (CHR ''/'' # q)"
    using trim_end_matches_snoc [of "CHR ''^''" "CHR ''/'' # q"] by simp
  ultimately show ?thesis
    using assms dns_name_graphic [of d] p
    by (simp add: parse_line_def trim_graphic strip_prefix_Cons find_sub_absent parse_domain_or_url_def
      hd_split_on_id find_char_append dns_name_normalize Let_def)
qed

lemma trim_selector:
  "graphic g \<Longrightarrow> g \<noteq> [] \<Longrightarrow> selector_printable css_ok s \<Longrightarrow> trim (g @ ''##'' @ s) = g @ ''##'' @ s"
proof (rule trim_id)
  assume g: "graphic g" "g \<noteq> []" and s: "selector_printable css_ok s"
  have "graphic (g @ ''##'')" using g by simp
  then show "ws_len (g @ ''##'' @ s) = 0"
    by (cases "(g, s)" rule: prod.exhaust; cases g rule: ws_len.cases)
      (auto simp: ws1_def ws2_def ws3_def g)
  show "ws_len_rev (rev (g @ ''##'' @ s)) = 0"
    using ws_len_rev_append [of "rev s" "''##'' @ rev g"] s g by (simp add: selector_printable_def)
qed

lemma parse_line_cosmetic:
  assumes "rule_printable css_ok (CosmeticDomainScoped d s)"
  shows "parse_line css_ok (render_rule (CosmeticDomainScoped d s)) = Some (CosmeticDomainScoped d s)"
proof -
  from assms have d: "dns_name d" and s: "selector_printable css_ok s" by auto
  have "\<not> is_comment (d @ ''##'' @ s)" "strip_prefix ''@@||'' (d @ ''##'' @ s) = None"
    using d by (cases d; auto simp: dns_name_def dns_char_def strip_prefix_Cons)+
  moreover have "d \<noteq> []" using d by (simp add: dns_name_def)
  ultimately show ?thesis
    using trim_selector [OF dns_name_graphic [OF d] _ s] d s find_sub_append [of "CHR ''#''" d s]
    by (simp add: parse_line_def parse_cosmetic_def hd_split_on_id
        dns_name_normalize selector_printable_def Let_def)
qed

lemma parse_line_render_rule:
  "rule_printable css_ok r \<Longrightarrow> parse_line css_ok (render_rule r) = Some r"
proof (cases r)
  case (CosmeticGlobal s)
  assume "rule_printable css_ok r"
  with CosmeticGlobal have s: "selector_printable css_ok s" by simp
  have "ws_len (''##'' @ s) = 0"
    by (cases s) (auto simp: ws1_def ws2_def ws3_def)
  moreover have "ws_len_rev (rev (''##'' @ s)) = 0"
    using ws_len_rev_append [of "rev s" "''##''"] s by (simp add: selector_printable_def)
  ultimately have "trim (''##'' @ s) = ''##'' @ s" by (rule trim_id)
  with s CosmeticGlobal show ?thesis
    by (simp add: parse_line_def strip_prefix_Cons parse_cosmetic_def selector_printable_def)
qed (simp_all only: parse_line_block parse_line_exception parse_line_url parse_line_cosmetic rule_printable.simps(1,5))

lemma split_on_lines: "list_all (\<lambda>l. c \<notin> set l) ls \<Longrightarrow> split_on c (concat (map (\<lambda>l. l @ [c]) ls)) = ls @ [[]]"
  by (induction ls) (auto simp: split_on_append)

lemma str_lines_concat:
  "list_all (\<lambda>l. LF \<notin> set l \<and> (l = [] \<or> last l \<noteq> CR)) ls \<Longrightarrow> str_lines (concat (map (\<lambda>l. l @ [LF]) ls)) = ls"
proof -
  assume a: "list_all (\<lambda>l. LF \<notin> set l \<and> (l = [] \<or> last l \<noteq> CR)) ls"
  then have "split_on LF (concat (map (\<lambda>l. l @ [LF]) ls)) = ls @ [[]]"
    by (intro split_on_lines) (auto simp: list_all_iff)
  moreover have "map strip_cr ls = ls" using a by (intro map_idI) (auto simp: strip_cr_def list_all_iff)
  ultimately show ?thesis by (simp add: str_lines_def)
qed

lemma ws_len_rev_last: "s \<noteq> [] \<Longrightarrow> ws_len_rev (rev s) = 0 \<Longrightarrow> last s \<noteq> CR"
  by (cases "rev s" rule: ws_len_rev.cases) (auto simp: ws1_def rev_swap split: if_splits)

lemma render_rule_line:
  "rule_printable css_ok r \<Longrightarrow> LF \<notin> set (render_rule r) \<and> last (render_rule r) \<noteq> CR"
  by (cases r) (auto simp: selector_printable_def ws_len_rev_last graphic_def list_all_iff)

definition blank_line :: "bytes \<Rightarrow> bool" where
  "blank_line l \<longleftrightarrow> trim l = []"

definition rules_total :: "parse_stats \<Rightarrow> nat" where
  "rules_total st = domain_blocks st + url_patterns st + cosmetic_global st + cosmetic_domain_scoped st + exceptions st"

definition stats_of :: "nat \<Rightarrow> nat \<Rightarrow> nat \<Rightarrow> parsed_rule list \<Rightarrow> parse_stats" where
  "stats_of n comments unsupported rules = \<lparr>total_lines = n,
     domain_blocks = length (filter is_DomainBlock rules), url_patterns = length (filter is_UrlPattern rules),
     cosmetic_global = length (filter is_CosmeticGlobal rules),
     cosmetic_domain_scoped = length (filter is_CosmeticDomainScoped rules),
     exceptions = length (filter is_ExceptionRule rules),
     skipped_comments = comments, skipped_unsupported = unsupported\<rparr>"

lemma count_rule_stats_of: "count_rule r (stats_of n c u rs) = stats_of n c u (rs @ [r])"
  by (cases r) (simp_all add: stats_of_def)

lemma rules_total_stats_of: "rules_total (stats_of n c u rs) = length rs"
proof (induction rs)
  case (Cons r rs)
  then show ?case by (cases r) (simp_all add: rules_total_def stats_of_def)
qed (simp add: rules_total_def stats_of_def)

lemma parse_filter_fold:
  "fold (parse_filter_step css_ok) ls (rs, stats_of n c u rs) = (rs', st) \<Longrightarrow>
    \<exists>c' u'. st = stats_of (n + length ls) c' u' rs' \<and>
      n + length ls + (c + u + length rs) = n + length (filter blank_line ls) + (c' + u' + length rs')"
proof (induction ls arbitrary: rs n c u)
  case (Cons l ls)
  have t: "stats_of n c u rs\<lparr>total_lines := total_lines (stats_of n c u rs) + 1\<rparr> = stats_of (Suc n) c u rs"
    by (simp add: stats_of_def)
  show ?case
  proof (cases "parse_filter_step css_ok l (rs, stats_of n c u rs)")
    case (Pair rs1 st1)
    have "\<exists>c1 u1. st1 = stats_of (Suc n) c1 u1 rs1 \<and>
        (if blank_line l then c + u + length rs = c1 + u1 + length rs1 else c + u + length rs + 1 = c1 + u1 + length rs1)"
      using Pair unfolding parse_filter_step_def Let_def split t
      by (auto simp: blank_line_def count_rule_stats_of split: if_splits option.splits)
        (auto simp: stats_of_def)
    then obtain c1 u1 where st1: "st1 = stats_of (Suc n) c1 u1 rs1"
      and s: "if blank_line l then c + u + length rs = c1 + u1 + length rs1 else c + u + length rs + 1 = c1 + u1 + length rs1"
      by auto
    from Cons.prems Pair st1 have "fold (parse_filter_step css_ok) ls (rs1, stats_of (Suc n) c1 u1 rs1) = (rs', st)" by simp
    from Cons.IH [OF this] obtain c2 u2 where
      "st = stats_of (Suc n + length ls) c2 u2 rs'"
      "Suc n + length ls + (c1 + u1 + length rs1) = Suc n + length (filter blank_line ls) + (c2 + u2 + length rs')"
      by auto
    with s show ?thesis by (intro exI [of _ c2] exI [of _ u2]) (auto split: if_splits)
  qed
qed auto

section \<open>Properties\<close>

text \<open>Every rule that the parser returns for a filter list is well formed: the domain is
  non-empty, lower case, without white space, wildcard or trailing dot; a block or exception
  domain has no path separator, a URL pattern has a non-trivial path that starts with a slash
  and no trailing separator mark, and a cosmetic selector was accepted by the CSS parser and
  uses none of the extended pseudo-classes.\<close>
theorem parse_filter_list_rules_ok: "list_all (rule_ok css_ok) (fst (parse_filter_list css_ok text))"
  by (auto simp: parse_filter_list_fst list_all_iff List.map_filter_def dest: parse_line_rule_ok)

text \<open>The statistics account for every line: each line is blank, a comment, unsupported or
  one rule, and the five per-kind counters are the numbers of returned rules of that kind.\<close>
theorem parse_filter_list_accounting:
  "case parse_filter_list css_ok text of (rules, st) \<Rightarrow>
     total_lines st = length (str_lines text) \<and>
     total_lines st = length (filter blank_line (str_lines text)) + skipped_comments st + skipped_unsupported st + length rules \<and>
     rules_total st = length rules \<and>
     domain_blocks st = length (filter is_DomainBlock rules) \<and> url_patterns st = length (filter is_UrlPattern rules) \<and>
     cosmetic_global st = length (filter is_CosmeticGlobal rules) \<and>
     cosmetic_domain_scoped st = length (filter is_CosmeticDomainScoped rules) \<and>
     exceptions st = length (filter is_ExceptionRule rules)"
proof -
  have "stats_default = stats_of 0 0 0 []" by (simp add: stats_default_def stats_of_def)
  moreover obtain rs st where p: "parse_filter_list css_ok text = (rs, st)" by fastforce
  ultimately obtain c u where "st = stats_of (length (str_lines text)) c u rs"
    "length (str_lines text) = length (filter blank_line (str_lines text)) + (c + u + length rs)"
    using parse_filter_fold [of css_ok "str_lines text" "[]" 0 0 0 rs st] by (auto simp: parse_filter_list_def)
  then show ?thesis unfolding p using rules_total_stats_of by (simp add: stats_of_def)
qed

text \<open>C39: rules of every kind whose domains are plain DNS names and whose paths and selectors
  are printable survive a round trip: parsing the list that has one line per rule in the
  filter-list syntax gives back the same rules in the same order.\<close>
theorem parse_filter_list_roundtrip:
  assumes "list_all (rule_printable css_ok) rules"
  shows "fst (parse_filter_list css_ok (render_list rules)) = rules"
proof -
  have "str_lines (render_list rules) = map render_rule rules"
    using str_lines_concat [of "map render_rule rules"] assms
    by (auto simp: render_list_def list_all_iff o_def dest: render_rule_line)
  moreover have "List.map_filter (parse_line css_ok) (map render_rule rules) = rules"
    using assms by (induction rules) (simp_all add: List.map_filter_def parse_line_render_rule)
  ultimately show ?thesis by (simp add: parse_filter_list_fst)
qed

theorem parse_filter_list_roundtrip_witness:
  "fst (parse_filter_list (\<lambda>s. True) (render_list [DomainBlock ''ads.example'', ExceptionRule ''cdn.example'',
      UrlPattern ''t.example'' ''/px.gif'', CosmeticGlobal ''.ad-box > a'', CosmeticDomainScoped ''n.example'' ''#top'']))
   = [DomainBlock ''ads.example'', ExceptionRule ''cdn.example'',
      UrlPattern ''t.example'' ''/px.gif'', CosmeticGlobal ''.ad-box > a'', CosmeticDomainScoped ''n.example'' ''#top'']"
proof (rule parse_filter_list_roundtrip)
  show "list_all (rule_printable (\<lambda>s. True)) [DomainBlock ''ads.example'', ExceptionRule ''cdn.example'',
      UrlPattern ''t.example'' ''/px.gif'', CosmeticGlobal ''.ad-box > a'', CosmeticDomainScoped ''n.example'' ''#top'']"
    by code_simp
qed

end
