(* ===== verification/Filter_List.thy ===== *)
theory Filter_List
  imports Filter_List_Parser File_Store
begin

text \<open>
  \<^verbatim>\<open>src/filter_list.rs\<close>: aggregation of the parsed rules of several sources, the HTTP/1.1
  download with redirects, chunked decoding and size limit, the disk cache, and the refresh of
  all sources. The URI parser of the crate \<^verbatim>\<open>hyper\<close> and the network (TCP connect, TLS
  handshake, the bytes a server answers) are arguments; the clock of \<open>tokio::time::timeout\<close> is
  the flag \<open>timed_out\<close>.
\<close>

record filter_list_aggregate_stats =
  source_count :: nat
  agg_total_lines :: nat
  agg_domain_blocks :: nat
  agg_url_patterns :: nat
  agg_cosmetic_global :: nat
  agg_cosmetic_domain_scoped :: nat
  agg_exceptions :: nat
  agg_skipped_unsupported :: nat
  agg_skipped_comments :: nat

record filter_list_rules =
  block_domains :: "bytes set"
  tracker_script_patterns :: "bytes list"
  cosmetic_selectors :: "bytes list"
  domain_cosmetic_map :: "bytes \<rightharpoonup> bytes list"
  exception_domains :: "bytes set"
  fl_stats :: filter_list_aggregate_stats

definition fl_stats_default :: filter_list_aggregate_stats where
  "fl_stats_default = \<lparr>source_count = 0, agg_total_lines = 0, agg_domain_blocks = 0, agg_url_patterns = 0,
     agg_cosmetic_global = 0, agg_cosmetic_domain_scoped = 0, agg_exceptions = 0,
     agg_skipped_unsupported = 0, agg_skipped_comments = 0\<rparr>"

definition fl_rules_default :: filter_list_rules where
  "fl_rules_default = \<lparr>block_domains = {}, tracker_script_patterns = [], cosmetic_selectors = [],
     domain_cosmetic_map = Map.empty, exception_domains = {}, fl_stats = fl_stats_default\<rparr>"

datatype filter_list_source_kind = LocalFile | Url

record filter_list_source =
  origin :: bytes
  fl_kind :: filter_list_source_kind

section \<open>Aggregation\<close>

definition add_stats :: "parse_stats \<Rightarrow> filter_list_aggregate_stats \<Rightarrow> filter_list_aggregate_stats" where
  "add_stats st a = a\<lparr>
     agg_total_lines := agg_total_lines a + total_lines st,
     agg_domain_blocks := agg_domain_blocks a + domain_blocks st,
     agg_url_patterns := agg_url_patterns a + url_patterns st,
     agg_cosmetic_global := agg_cosmetic_global a + cosmetic_global st,
     agg_cosmetic_domain_scoped := agg_cosmetic_domain_scoped a + cosmetic_domain_scoped st,
     agg_exceptions := agg_exceptions a + exceptions st,
     agg_skipped_unsupported := agg_skipped_unsupported a + skipped_unsupported st,
     agg_skipped_comments := agg_skipped_comments a + skipped_comments st\<rparr>"

fun add_rule :: "parsed_rule \<Rightarrow> filter_list_rules \<Rightarrow> filter_list_rules" where
  "add_rule (DomainBlock domain) r = r\<lparr>block_domains := insert domain (block_domains r)\<rparr>"
| "add_rule (UrlPattern domain path) r = r\<lparr>tracker_script_patterns := tracker_script_patterns r @ [domain @ path]\<rparr>"
| "add_rule (CosmeticGlobal selector) r = r\<lparr>cosmetic_selectors := cosmetic_selectors r @ [selector]\<rparr>"
| "add_rule (CosmeticDomainScoped domain selector) r = r\<lparr>domain_cosmetic_map := (domain_cosmetic_map r)(domain \<mapsto>
     (case domain_cosmetic_map r domain of None \<Rightarrow> [] | Some v \<Rightarrow> v) @ [selector])\<rparr>"
| "add_rule (ExceptionRule domain) r = r\<lparr>exception_domains := insert domain (exception_domains r)\<rparr>"

definition add_source :: "parsed_rule list \<times> parse_stats \<Rightarrow> filter_list_rules \<Rightarrow> filter_list_rules" where
  "add_source res r = fold add_rule (fst res) (r\<lparr>fl_stats := add_stats (snd res) (fl_stats r)\<rparr>)"

definition sort_dedup :: "bytes list \<Rightarrow> bytes list" where
  "sort_dedup xs = remdups_adj (sort xs)"

definition aggregate_rules :: "(parsed_rule list \<times> parse_stats) list \<Rightarrow> filter_list_rules" where
  "aggregate_rules all_results =
    (let r = fold add_source all_results
           (fl_rules_default\<lparr>fl_stats := fl_stats_default\<lparr>source_count := length all_results\<rparr>\<rparr>)
     in r\<lparr>tracker_script_patterns := sort_dedup (tracker_script_patterns r),
          cosmetic_selectors := sort_dedup (cosmetic_selectors r),
          domain_cosmetic_map := (\<lambda>k. map_option sort_dedup (domain_cosmetic_map r k))\<rparr>)"

section \<open>Download\<close>

definition MAX_DOWNLOAD_BYTES :: nat where "MAX_DOWNLOAD_BYTES = 32 * 1024 * 1024"
definition MAX_REDIRECTS :: nat where "MAX_REDIRECTS = 5"

record parsed_url =
  u_scheme :: bytes
  u_host :: bytes
  u_port :: nat
  u_path_and_query :: bytes

record downloaded =
  status_code :: nat
  location :: "bytes option"
  dl_body :: bytes

text \<open>What the accessors of \<open>hyper::Uri\<close> return for a string that it parses.\<close>

record uri =
  scheme_str :: "bytes option"
  uri_host :: "bytes option"
  port_u16 :: "nat option"
  path_and_query :: "bytes option"

type_synonym uri_parser = "bytes \<Rightarrow> string + uri"

definition quoted :: "bytes \<Rightarrow> bytes" where
  "quoted s = [CHR 0x27] @ s @ [CHR 0x27]"

definition parse_url :: "uri_parser \<Rightarrow> bytes \<Rightarrow> parsed_url io_result" where
  "parse_url uri_parse url =
    (case uri_parse url of Inl e \<Rightarrow> Err (IoError InvalidInput (''invalid URL '' @ quoted url @ '': '' @ e))
     | Inr u \<Rightarrow>
        let scheme = to_ascii_lowercase (case scheme_str u of None \<Rightarrow> ''http'' | Some s \<Rightarrow> s) in
        and_then (ok_or (uri_host u) (IoError InvalidInput ''URL missing host'')) (\<lambda>host.
        let port = (case port_u16 u of Some p \<Rightarrow> p | None \<Rightarrow> if scheme = ''https'' then 443 else 80);
            pq = (case path_and_query u of None \<Rightarrow> ''/'' | Some p \<Rightarrow> p)
        in Ok \<lparr>u_scheme = scheme, u_host = host, u_port = port, u_path_and_query = pq\<rparr>))"

definition resolve_redirect :: "parsed_url \<Rightarrow> bytes \<Rightarrow> bytes io_result" where
  "resolve_redirect base loc =
    (if prefix ''http://'' loc \<or> prefix ''https://'' loc then Ok loc
     else if prefix ''/'' loc then
       let default_port = (if u_scheme base = ''https'' then 443 else 80);
           port_part = (if u_port base = default_port then '''' else '':'' @ show_nat (u_port base))
       in Ok (u_scheme base @ ''://'' @ u_host base @ port_part @ loc)
     else Err (IoError InvalidData (''unsupported redirect location: '' @ quoted loc)))"

text \<open>A connection answers the bytes written to it with the result of the write and the results
  of the reads that follow; an empty read, or no further one, is the end of the stream.\<close>

type_synonym conn = "bytes \<Rightarrow> unit io_result \<times> bytes io_result list"

fun read_all :: "bytes io_result list \<Rightarrow> bytes \<Rightarrow> bytes io_result" where
  "read_all [] out = Ok out"
| "read_all (Inl e # rs) out = Err e"
| "read_all (Inr chunk # rs) out =
    (if chunk = [] then Ok out
     else let out = out @ chunk in
       if length out > MAX_DOWNLOAD_BYTES then Err (IoError InvalidData (''download exceeded max bytes ('' @ show_nat MAX_DOWNLOAD_BYTES @ '')''))
       else read_all rs out)"

definition http1_get_request :: "bytes \<Rightarrow> bytes \<Rightarrow> bytes" where
  "http1_get_request host pq = ''GET '' @ pq @ '' HTTP/1.1'' @ CRLF @ ''Host: '' @ host @ CRLF @
     ''User-Agent: privacy-engine-rust/0.1'' @ CRLF @ ''Accept: text/plain,*/*'' @ CRLF @
     ''Accept-Encoding: identity'' @ CRLF @ ''Connection: close'' @ CRLF @ CRLF"

definition http1_get_over_stream :: "conn \<Rightarrow> bytes \<Rightarrow> bytes \<Rightarrow> bytes io_result" where
  "http1_get_over_stream stream host pq =
    (let (written, reads) = stream (http1_get_request host pq)
     in and_then written (\<lambda>_. read_all reads []))"

function decode_chunked_from :: "bytes \<Rightarrow> nat \<Rightarrow> bytes \<Rightarrow> bytes io_result" where
  "decode_chunked_from body i out =
    (case find_sub CRLF (drop i body) of
       None \<Rightarrow> Err (IoError InvalidData ''invalid chunked encoding'')
     | Some off \<Rightarrow>
        let line_end = off + i;
            size_line = take off (drop i body);
            size_str = trim (hd (split_on CHR '';'' (from_utf8_lossy size_line)))
        in (case from_str_radix 16 usize_bound size_str of
              None \<Rightarrow> Err (IoError InvalidData ''invalid chunk size'')
            | Some sz \<Rightarrow>
               let i' = line_end + 2 in
               if sz = 0 then Ok out
               else if i' + sz \<ge> usize_bound then Err (IoError InvalidData ''chunk size overflow'')
               else let e = i' + sz in
               if e > length body then Err (IoError UnexpectedEof ''chunked body truncated'')
               else if take 2 (drop e body) \<noteq> CRLF then Err (IoError InvalidData ''invalid chunk terminator'')
               else decode_chunked_from body (e + 2) (out @ take sz (drop i' body))))"
  by pat_completeness auto
termination
  by (relation "measure (\<lambda>(body, i, out). length body - i)") (auto dest: find_sub_bound)

declare decode_chunked_from.simps [simp del]

definition decode_chunked :: "bytes \<Rightarrow> bytes io_result" where
  "decode_chunked body = decode_chunked_from body 0 []"

record resp_fields =
  rf_location :: "bytes option"
  rf_content_encoding :: "bytes option"
  rf_chunked :: bool
  rf_content_length :: "nat option"

definition response_line :: "bytes \<Rightarrow> resp_fields \<Rightarrow> resp_fields" where
  "response_line line f =
    (if line = [] then f
     else case split_once CHR '':'' line of None \<Rightarrow> f
     | Some (k, v) \<Rightarrow>
        let key = to_ascii_lowercase (trim k); value = trim v in
        if key = ''location'' then f\<lparr>rf_location := Some value\<rparr>
        else if key = ''content-encoding'' then f\<lparr>rf_content_encoding := Some (to_ascii_lowercase value)\<rparr>
        else if key = ''transfer-encoding'' then
          (if str_contains (to_ascii_lowercase value) ''chunked'' then f\<lparr>rf_chunked := True\<rparr> else f)
        else if key = ''content-length'' then f\<lparr>rf_content_length := parse_usize value\<rparr>
        else f)"

definition parse_http1_response :: "bytes \<Rightarrow> downloaded io_result" where
  "parse_http1_response raw =
    and_then (ok_or (find_sub CRLF2 raw) (IoError InvalidData ''invalid HTTP response'')) (\<lambda>header_end.
    let header_bytes = take (header_end + 4) raw; body_bytes = drop (header_end + 4) raw;
        lines = split_crlf (from_utf8_lossy header_bytes);
        words = split_whitespace (hd lines)
    in and_then (ok_or (if 1 < length words then Some (words ! 1) else None) (IoError InvalidData ''invalid status line'')) (\<lambda>w.
    and_then (ok_or (parse_u16 w) (IoError InvalidData ''invalid status code'')) (\<lambda>status.
    let f = fold response_line (tl lines)
          \<lparr>rf_location = None, rf_content_encoding = None, rf_chunked = False, rf_content_length = None\<rparr>
    in if (case rf_content_encoding f of None \<Rightarrow> False | Some enc \<Rightarrow> enc \<noteq> ''identity'') then
         Err (IoError InvalidData (''unsupported Content-Encoding: '' @ the (rf_content_encoding f)))
       else and_then
         (if rf_chunked f then decode_chunked body_bytes
          else case rf_content_length f of
            Some cl \<Rightarrow> if length body_bytes < cl then Err (IoError UnexpectedEof ''HTTP body truncated'')
                       else Ok (take cl body_bytes)
          | None \<Rightarrow> Ok body_bytes) (\<lambda>body.
         Ok \<lparr>status_code = status, location = rf_location f, dl_body = body\<rparr>))))"

record net =
  n_connect :: "bytes \<Rightarrow> nat \<Rightarrow> conn io_result"
  n_tls_config :: "unit io_result"
  n_server_name :: "bytes \<Rightarrow> bool"
  n_tls :: "bytes \<Rightarrow> conn \<Rightarrow> string + conn"

definition download_once :: "uri_parser \<Rightarrow> net \<Rightarrow> bytes \<Rightarrow> downloaded io_result" where
  "download_once uri_parse n url =
    and_then (parse_url uri_parse url) (\<lambda>parsed.
    and_then (n_connect n (u_host parsed) (u_port parsed)) (\<lambda>tcp.
    and_then
      (if u_scheme parsed = ''https'' then
         and_then (n_tls_config n) (\<lambda>_.
         and_then (ensure (n_server_name n (u_host parsed)) (IoError InvalidInput ''invalid DNS name'')) (\<lambda>_.
         (case n_tls n (u_host parsed) tcp of
            Inl e \<Rightarrow> Err (IoError Other (''TLS handshake failed: '' @ e))
          | Inr tls \<Rightarrow> http1_get_over_stream tls (u_host parsed) (u_path_and_query parsed))))
       else http1_get_over_stream tcp (u_host parsed) (u_path_and_query parsed))
      parse_http1_response))"

text \<open>The \<open>for\<close> loop over \<open>0..=MAX_REDIRECTS\<close>; \<open>nets\<close> gives the network at each iteration.\<close>

fun download_loop :: "uri_parser \<Rightarrow> (nat \<Rightarrow> net) \<Rightarrow> nat \<Rightarrow> nat \<Rightarrow> bytes \<Rightarrow> bytes io_result" where
  "download_loop uri_parse nets 0 k current = Err (IoError Other ''too many redirects'')"
| "download_loop uri_parse nets (Suc m) k current =
    and_then (parse_url uri_parse current) (\<lambda>base.
    and_then (download_once uri_parse (nets k) current) (\<lambda>dl.
    if 200 \<le> status_code dl \<and> status_code dl < 300 then Ok (dl_body dl)
    else if 300 \<le> status_code dl \<and> status_code dl < 400 then
      (case location dl of
         None \<Rightarrow> Err (IoError InvalidData ''redirect without Location header'')
       | Some loc \<Rightarrow> and_then (resolve_redirect base loc) (\<lambda>next.
           download_loop uri_parse nets m (Suc k) next))
    else Err (IoError Other (''unexpected HTTP status: '' @ show_nat (status_code dl)))))"

definition download_filter_list :: "uri_parser \<Rightarrow> (nat \<Rightarrow> net) \<Rightarrow> bool \<Rightarrow> bytes \<Rightarrow> bytes io_result" where
  "download_filter_list uri_parse nets timed_out url =
    (if timed_out then Err (IoError TimedOut (''download timed out for '' @ url))
     else and_then (download_loop uri_parse nets (MAX_REDIRECTS + 1) 0 url) (\<lambda>body. Ok (from_utf8_lossy body)))"

section \<open>Cache and refresh\<close>

text \<open>The characters of a string are its UTF-8 bytes without the continuation bytes.\<close>

definition cache_char :: "char \<Rightarrow> char" where
  "cache_char c = (if 48 \<le> code c \<and> code c \<le> 57 \<or> 65 \<le> code c \<and> code c \<le> 90 \<or> 97 \<le> code c \<and> code c \<le> 122 \<or>
     c = CHR ''.'' then c else CHR ''_'')"

definition cache_filename :: "bytes \<Rightarrow> bytes" where
  "cache_filename url = map cache_char (filter (\<lambda>c. \<not> (128 \<le> code c \<and> code c < 192)) url)"

text \<open>A file name in a directory; the extension is what follows the last dot, unless the name
  starts with it.\<close>

definition path_join :: "bytes \<Rightarrow> bytes \<Rightarrow> path" where
  "path_join dir name = (case rsplit_once CHR ''.'' name of
     None \<Rightarrow> \<lparr>p_dir = dir, p_stem = name, p_ext = None\<rparr>
   | Some (a, b) \<Rightarrow> if a = [] then \<lparr>p_dir = dir, p_stem = name, p_ext = None\<rparr>
       else \<lparr>p_dir = dir, p_stem = a, p_ext = Some b\<rparr>)"

definition path_of :: "bytes \<Rightarrow> path" where
  "path_of s = (case rsplit_once CHR ''/'' s of None \<Rightarrow> path_join [] s | Some (a, b) \<Rightarrow> path_join a b)"

definition cache_to_disk :: "fs_outcome \<Rightarrow> disk \<Rightarrow> bytes \<Rightarrow> bytes \<Rightarrow> bytes \<Rightarrow> disk \<times> path io_result" where
  "cache_to_disk env d cache_dir url body =
    (let filename = cache_filename url;
         target = path_join cache_dir filename;
         tmp = path_join cache_dir (filename @ ''.tmp'')
     in case replace_file env d tmp target body of
          (d', Inl e) \<Rightarrow> (d', Err e) | (d', Inr _) \<Rightarrow> (d', Ok target))"

definition load_from_cache :: "io_error option \<Rightarrow> disk \<Rightarrow> bytes \<Rightarrow> bytes \<Rightarrow> bytes option io_result" where
  "load_from_cache o_read d cache_dir url =
    (case read_to_string o_read d (path_join cache_dir (cache_filename url)) of
       Inr content \<Rightarrow> Ok (Some content)
     | Inl e \<Rightarrow> if err_kind e = NotFound then Ok None else Err e)"

text \<open>The outside world of one \<open>load_source\<close>.\<close>

record source_env =
  e_nets :: "nat \<Rightarrow> net"
  e_timed_out :: bool
  e_cache :: fs_outcome
  e_read :: "io_error option"

definition load_source ::
  "(bytes \<Rightarrow> bool) \<Rightarrow> uri_parser \<Rightarrow> source_env \<Rightarrow> disk \<Rightarrow> bytes \<Rightarrow> filter_list_source \<Rightarrow>
   disk \<times> (parsed_rule list \<times> parse_stats) option" where
  "load_source css_ok uri_parse env d cache_dir source =
    (case fl_kind source of
       LocalFile \<Rightarrow> (case read_to_string (e_read env) d (path_of (origin source)) of
           Inr text \<Rightarrow> (d, Some (parse_filter_list css_ok text))
         | Inl e \<Rightarrow> (d, None))
     | Url \<Rightarrow> (case download_filter_list uri_parse (e_nets env) (e_timed_out env) (origin source) of
           Inr text \<Rightarrow> (fst (cache_to_disk (e_cache env) d cache_dir (origin source) text),
                        Some (parse_filter_list css_ok text))
         | Inl e \<Rightarrow> (case load_from_cache (e_read env) d cache_dir (origin source) of
               Inr (Some text) \<Rightarrow> (d, Some (parse_filter_list css_ok text))
             | Inr None \<Rightarrow> (d, None)
             | Inl _ \<Rightarrow> (d, None))))"

fun load_sources ::
  "(bytes \<Rightarrow> bool) \<Rightarrow> uri_parser \<Rightarrow> (filter_list_source \<times> source_env) list \<Rightarrow> disk \<Rightarrow> bytes \<Rightarrow>
   disk \<times> (parsed_rule list \<times> parse_stats) list" where
  "load_sources css_ok uri_parse [] d cache_dir = (d, [])"
| "load_sources css_ok uri_parse ((source, env) # rest) d cache_dir =
    (let (d1, r) = load_source css_ok uri_parse env d cache_dir source;
         (d2, rs) = load_sources css_ok uri_parse rest d1 cache_dir
     in (d2, case r of None \<Rightarrow> rs | Some x \<Rightarrow> x # rs))"

definition refresh_filter_lists ::
  "(bytes \<Rightarrow> bool) \<Rightarrow> uri_parser \<Rightarrow> (filter_list_source \<times> source_env) list \<Rightarrow> disk \<Rightarrow> bytes \<Rightarrow>
   disk \<times> filter_list_rules io_result" where
  "refresh_filter_lists css_ok uri_parse sources d cache_dir =
    (if sources = [] then (d, Ok fl_rules_default)
     else let (d', all_results) = load_sources css_ok uri_parse sources d cache_dir in
       if all_results = [] then (d', Err (IoError Other ''all filter list sources failed''))
       else (d', Ok (aggregate_rules all_results)))"

section \<open>Lemmas\<close>

lemma remdups_adj_strict: "sorted xs \<Longrightarrow> sorted_wrt (<) (remdups_adj (xs :: 'a :: linorder list))"
proof (induction xs rule: remdups_adj.induct)
  case (3 x y xs)
  show ?case
  proof (cases "x = y")
    case False
    then have "\<forall>z\<in>set (y # xs). x < z" using 3(3) by auto
    with False 3 show ?thesis by (simp del: remdups_adj.simps add: remdups_adj.simps(3))
  qed (use 3 in simp)
qed auto

lemma sort_dedup_eq: "sort_dedup xs = sorted_list_of_set (set xs)"
proof (rule sorted_distinct_set_unique)
  have "sorted_wrt (<) (sort_dedup xs)" by (simp add: sort_dedup_def remdups_adj_strict)
  then show "sorted (sort_dedup xs)" "distinct (sort_dedup xs)"
    by (auto simp: strict_sorted_iff)
qed (simp_all add: sort_dedup_def)

definition all_rules :: "(parsed_rule list \<times> parse_stats) list \<Rightarrow> parsed_rule list" where
  "all_rules rs = concat (map fst rs)"

definition scoped :: "parsed_rule list \<Rightarrow> bytes \<Rightarrow> bytes list" where
  "scoped rs d = List.map_filter (\<lambda>r. case r of CosmeticDomainScoped d' s \<Rightarrow> if d' = d then Some s else None | _ \<Rightarrow> None) rs"

lemma fold_add_rule:
  "block_domains (fold add_rule rs r) = block_domains r \<union> {d. DomainBlock d \<in> set rs}"
  "exception_domains (fold add_rule rs r) = exception_domains r \<union> {d. ExceptionRule d \<in> set rs}"
  "set (tracker_script_patterns (fold add_rule rs r)) = set (tracker_script_patterns r) \<union> {d @ p |d p. UrlPattern d p \<in> set rs}"
  "set (cosmetic_selectors (fold add_rule rs r)) = set (cosmetic_selectors r) \<union> {s. CosmeticGlobal s \<in> set rs}"
  "fl_stats (fold add_rule rs r) = fl_stats r"
proof (induction rs arbitrary: r)
  case (Cons x rs)
  { case 1 show ?case using Cons(1) by (cases x) auto }
  { case 2 show ?case using Cons(2) by (cases x) auto }
  { case 3 show ?case using Cons(3) by (cases x) auto }
  { case 4 show ?case using Cons(4) by (cases x) auto }
  { case 5 show ?case using Cons(5) by (cases x) auto }
qed auto

lemma fold_add_rule_map:
  "domain_cosmetic_map (fold add_rule rs r) d =
    (if scoped rs d = [] then domain_cosmetic_map r d
     else Some ((case domain_cosmetic_map r d of None \<Rightarrow> [] | Some v \<Rightarrow> v) @ scoped rs d))"
proof (induction rs arbitrary: r)
  case (Cons x rs)
  then show ?case by (cases x) (auto simp: scoped_def List.map_filter_def split: option.splits)
qed (simp add: scoped_def List.map_filter_def)

lemma fold_add_source:
  "fold add_source rs r = fold add_rule (all_rules rs) (r\<lparr>fl_stats := fold (add_stats \<circ> snd) rs (fl_stats r)\<rparr>)"
proof (induction rs arbitrary: r)
  case (Cons x rs)
  have "fold add_rule ys (r\<lparr>fl_stats := s\<rparr>)\<lparr>fl_stats := t\<rparr> = fold add_rule ys (r\<lparr>fl_stats := t\<rparr>)" for ys r s t
  proof (induction ys arbitrary: r)
    case (Cons y ys)
    have "add_rule y (r\<lparr>fl_stats := u\<rparr>) = (add_rule y r)\<lparr>fl_stats := u\<rparr>" for u by (cases y) simp_all
    with Cons show ?case by simp
  qed simp
  with Cons show ?case by (simp add: add_source_def all_rules_def fold_add_rule(5))
qed (simp add: all_rules_def)

lemma fold_add_stats:
  "agg_total_lines (fold (add_stats \<circ> snd) rs a) = agg_total_lines a + (\<Sum>x\<leftarrow>rs. total_lines (snd x))"
  "source_count (fold (add_stats \<circ> snd) rs a) = source_count a"
  "agg_domain_blocks (fold (add_stats \<circ> snd) rs a) = agg_domain_blocks a + (\<Sum>x\<leftarrow>rs. domain_blocks (snd x))"
  by (induction rs arbitrary: a) (simp_all add: add_stats_def)

lemma scoped_set: "s \<in> set (scoped rs d) \<longleftrightarrow> CosmeticDomainScoped d s \<in> set rs"
proof (induction rs)
  case (Cons r rs)
  then show ?case by (cases r) (auto simp: scoped_def List.map_filter_def)
qed (simp add: scoped_def List.map_filter_def)

definition enc_chunk :: "bytes \<Rightarrow> bytes" where
  "enc_chunk c = show_radix 16 (length c) @ CRLF @ c @ CRLF"

lemma find_sub_CRLF_append: "CR \<notin> set a \<Longrightarrow> find_sub CRLF (a @ CRLF @ b) = Some (length a)"
  by (induction a) auto

lemma show_radix16_facts:
  "CR \<notin> set (show_radix 16 n)" "hd (split_on CHR '';'' (show_radix 16 n)) = show_radix 16 n"
  "trim (show_radix 16 n) = show_radix 16 n" "is_ascii (show_radix 16 n)"
proof -
  show "CR \<notin> set (show_radix 16 n)" using show_radix_codes [of 16 CR n] by auto
  have "CHR '';'' \<notin> set (show_radix 16 n)" using show_radix_codes [of 16 "CHR '';''" n] by auto
  then show "hd (split_on CHR '';'' (show_radix 16 n)) = show_radix 16 n" by (simp add: hd_split_on_id)
  show "trim (show_radix 16 n) = show_radix 16 n" by (simp add: trim_graphic show_radix_graphic)
  show "is_ascii (show_radix 16 n)" by (simp add: graphic_ascii show_radix_graphic)
qed

lemma decode_chunk_step:
  assumes "c \<noteq> []" "length (pre @ enc_chunk c @ rest) < usize_bound"
  shows "decode_chunked_from (pre @ enc_chunk c @ rest) (length pre) out =
    decode_chunked_from (pre @ enc_chunk c @ rest) (length (pre @ enc_chunk c)) (out @ c)"
proof -
  let ?h = "show_radix 16 (length c)"
  have len: "length c < usize_bound" using assms(2) by (simp add: enc_chunk_def)
  have f: "find_sub CRLF (?h @ CR # LF # x) = Some (length ?h)" for x
    using find_sub_CRLF_append [OF show_radix16_facts(1)] by simp
  show ?thesis
    using assms len
    by (subst decode_chunked_from.simps)
      (simp add: enc_chunk_def f show_radix16_facts from_str_radix_show Let_def add_ac)
qed

lemma decode_chunked_from_enc:
  assumes "list_all (\<lambda>c. c \<noteq> []) cs" "length (pre @ concat (map enc_chunk cs) @ ''0'' @ CRLF @ trailer) < usize_bound"
  shows "decode_chunked_from (pre @ concat (map enc_chunk cs) @ ''0'' @ CRLF @ trailer) (length pre) out = Ok (out @ concat cs)"
  using assms
proof (induction cs arbitrary: pre out)
  case Nil
  have z: "show_radix 16 0 = ''0''" by code_simp
  have "from_str_radix 16 usize_bound (trim ''0'') = Some 0"
    using from_str_radix_show [of 16 0 usize_bound] z show_radix16_facts(3) [of 0] by (simp add: usize_bound_def)
  then show ?case by (subst decode_chunked_from.simps) (simp add: Let_def)
next
  case (Cons c cs)
  let ?rest = "concat (map enc_chunk cs) @ ''0'' @ CRLF @ trailer"
  have "decode_chunked_from (pre @ enc_chunk c @ ?rest) (length pre) out =
      decode_chunked_from (pre @ enc_chunk c @ ?rest) (length (pre @ enc_chunk c)) (out @ c)"
    by (rule decode_chunk_step) (use Cons.prems in simp_all)
  also have "\<dots> = Ok (out @ concat (c # cs))"
    using Cons.IH [of "pre @ enc_chunk c" "out @ c"] Cons.prems by simp
  finally show ?case by simp
qed

definition redirects_to :: "uri_parser \<Rightarrow> net \<Rightarrow> bytes \<Rightarrow> bytes \<Rightarrow> bool" where
  "redirects_to uri_parse n u v \<longleftrightarrow> (\<exists>base dl loc. parse_url uri_parse u = Ok base \<and> download_once uri_parse n u = Ok dl \<and>
     300 \<le> status_code dl \<and> status_code dl < 400 \<and> location dl = Some loc \<and> resolve_redirect base loc = Ok v)"

definition serves :: "uri_parser \<Rightarrow> net \<Rightarrow> bytes \<Rightarrow> bytes \<Rightarrow> bool" where
  "serves uri_parse n u body \<longleftrightarrow> (\<exists>dl. download_once uri_parse n u = Ok dl \<and>
     200 \<le> status_code dl \<and> status_code dl < 300 \<and> dl_body dl = body)"

fun serves_via :: "uri_parser \<Rightarrow> (nat \<Rightarrow> net) \<Rightarrow> nat \<Rightarrow> bytes \<Rightarrow> bytes list \<Rightarrow> bytes \<Rightarrow> bool" where
  "serves_via uri_parse nets k u [] body = serves uri_parse (nets k) u body"
| "serves_via uri_parse nets k u (v # vs) body =
    (redirects_to uri_parse (nets k) u v \<and> serves_via uri_parse nets (Suc k) v vs body)"

lemma download_once_parses: "download_once uri_parse n u = Ok dl \<Longrightarrow> \<exists>base. parse_url uri_parse u = Ok base"
  by (auto simp: download_once_def and_then_Inr_iff)

lemma download_loop_iff:
  "download_loop uri_parse nets m k u = Ok body \<longleftrightarrow> (\<exists>vs. length vs < m \<and> serves_via uri_parse nets k u vs body)"
proof (induction m arbitrary: k u)
  case (Suc m)
  show ?case
  proof (cases "download_once uri_parse (nets k) u")
    case (Inl e)
    then have "\<not> serves_via uri_parse nets k u vs body" for vs
      by (cases vs) (auto simp: serves_def redirects_to_def)
    with Inl show ?thesis by (auto simp: and_then_Inr_iff)
  next
    case (Inr dl)
    then obtain base where base: "parse_url uri_parse u = Ok base" using download_once_parses by blast
    have sv: "serves_via uri_parse nets k u vs body \<longleftrightarrow>
      (vs = [] \<and> 200 \<le> status_code dl \<and> status_code dl < 300 \<and> dl_body dl = body) \<or>
      (\<exists>v ws loc. vs = v # ws \<and> 300 \<le> status_code dl \<and> status_code dl < 400 \<and> location dl = Some loc \<and>
         resolve_redirect base loc = Ok v \<and> serves_via uri_parse nets (Suc k) v ws body)" for vs
      using Inr base by (cases vs) (auto simp: serves_def redirects_to_def)
    consider "200 \<le> status_code dl \<and> status_code dl < 300" | "300 \<le> status_code dl \<and> status_code dl < 400"
      | "\<not> (200 \<le> status_code dl \<and> status_code dl < 400)" by linarith
    then show ?thesis
    proof cases
      case 2
      then have "download_loop uri_parse nets (Suc m) k u = Ok body \<longleftrightarrow>
          (\<exists>loc v. location dl = Some loc \<and> resolve_redirect base loc = Ok v \<and> download_loop uri_parse nets m (Suc k) v = Ok body)"
        using Inr base by (auto simp: and_then_Inr_iff split: option.splits)
      also have "\<dots> \<longleftrightarrow> (\<exists>vs. length vs < Suc m \<and> serves_via uri_parse nets k u vs body)"
        unfolding Suc.IH sv using 2 by (auto intro: exI [of _ "v # vs" for v vs])
      finally show ?thesis .
    qed (use Inr base in \<open>auto simp: sv\<close>)
  qed
qed simp

lemma path_join_inj: "path_join d a = path_join d b \<Longrightarrow> a = b"
proof -
  have "a = p_stem (path_join d a) @ (case p_ext (path_join d a) of None \<Rightarrow> [] | Some e \<Rightarrow> CHR ''.'' # e)" for a
    by (cases "rsplit_once CHR ''.'' a") (auto simp: path_join_def rsplit_once_Some_iff)
  then show "path_join d a = path_join d b \<Longrightarrow> a = b" by metis
qed

lemma cache_to_disk_Ok:
  assumes "cache_to_disk env d cache_dir url body = (d', Ok target)"
  shows "d' = d(path_join cache_dir (cache_filename url) \<mapsto> body, path_join cache_dir (cache_filename url @ ''.tmp'') := None)"
proof -
  let ?t = "path_join cache_dir (cache_filename url)" and ?tmp = "path_join cache_dir (cache_filename url @ ''.tmp'')"
  have "?tmp \<noteq> ?t" by (auto dest: path_join_inj)
  moreover have "snd (replace_file env d ?tmp ?t body) = Ok ()" "d' = fst (replace_file env d ?tmp ?t body)"
    using assms by (auto simp: cache_to_disk_def Let_def split: prod.splits sum.splits)
  ultimately show ?thesis using replace_file_Ok by metis
qed

lemma load_from_cache_after:
  assumes "cache_to_disk env d cache_dir url body = (d', Ok target)" "utf8_valid body"
  shows "load_from_cache None d' cache_dir url = Ok (Some body)"
proof -
  have "path_join cache_dir (cache_filename url @ ''.tmp'') \<noteq> path_join cache_dir (cache_filename url)"
    by (auto dest: path_join_inj)
  then show ?thesis
    using assms(2) by (simp add: cache_to_disk_Ok [OF assms(1)] load_from_cache_def read_to_string_def)
qed

lemma download_filter_list_valid:
  "download_filter_list uri_parse nets timed_out url = Ok text \<Longrightarrow> utf8_valid text"
  by (auto simp: download_filter_list_def and_then_Inr_iff utf8_valid_lossy split: if_splits)

definition wit_uri :: uri_parser where
  "wit_uri u = Inr \<lparr>scheme_str = Some ''http'', uri_host = Some ''lists.example'', port_u16 = None, path_and_query = Some ''/l.txt''\<rparr>"

definition wit_net :: net where
  "wit_net = \<lparr>n_connect = (\<lambda>h p. Ok (\<lambda>req. (Ok (), [Ok (''HTTP/1.1 200 OK'' @ CRLF2 @ ''||ads.example^'')]))),
     n_tls_config = Ok (), n_server_name = (\<lambda>h. True), n_tls = (\<lambda>h c. Inr c)\<rparr>"

definition wit_env :: "bool \<Rightarrow> source_env" where
  "wit_env late = \<lparr>e_nets = (\<lambda>_. wit_net), e_timed_out = late, e_cache = fs_all_ok, e_read = None\<rparr>"

lemma wit_download:
  "download_filter_list wit_uri (e_nets (wit_env False)) (e_timed_out (wit_env False)) url = Ok ''||ads.example^''"
proof -
  have p: "parse_http1_response (''HTTP/1.1 200 OK'' @ CRLF2 @ ''||ads.example^'') =
      Ok \<lparr>status_code = 200, location = None, dl_body = ''||ads.example^''\<rparr>"
  proof -
    let ?raw = "''HTTP/1.1 200 OK'' @ CRLF2 @ ''||ads.example^''"
    have f: "find_sub CRLF2 ?raw = Some 15" by code_simp
    have l: "split_crlf (from_utf8_lossy (take 19 ?raw)) = [''HTTP/1.1 200 OK'', [], []]" by code_simp
    have w: "split_whitespace ''HTTP/1.1 200 OK'' = [''HTTP/1.1'', ''200'', ''OK'']" by code_simp
    have n: "parse_u16 ''200'' = Some 200"
      by (simp add: parse_u16_def from_str_radix_def digit_val_def)
    have d: "drop 19 ?raw = ''||ads.example^''" by simp
    show ?thesis unfolding parse_http1_response_def f by (simp only: ok_or_simps and_then_simps Let_def l d arith_simps list.sel w)
        (simp add: n response_line_def)
  qed
  have u: "parse_url wit_uri url = Ok \<lparr>u_scheme = ''http'', u_host = ''lists.example'', u_port = 80, u_path_and_query = ''/l.txt''\<rparr>"
    by (simp add: parse_url_def wit_uri_def to_ascii_lowercase_def to_lower_def)
  have "download_once wit_uri wit_net url = Ok \<lparr>status_code = 200, location = None, dl_body = ''||ads.example^''\<rparr>"
    unfolding download_once_def u using p
    by (simp add: wit_net_def http1_get_over_stream_def MAX_DOWNLOAD_BYTES_def Let_def)
  then show ?thesis by (simp add: download_filter_list_def wit_env_def u)
qed

section \<open>Properties\<close>

text \<open>Aggregation of any number of sources: the block and exception sets are exactly the
  domains of the block and exception rules, the pattern and selector lists are the sorted lists
  without duplicates of those of the rules, the per-domain selector lists likewise, and the
  statistics are the sums over the sources. The result depends on the rules as a set, so not on
  the order of sources or lines.\<close>
theorem aggregate_rules_spec:
  "block_domains (aggregate_rules rs) = {d. DomainBlock d \<in> set (all_rules rs)} \<and>
   exception_domains (aggregate_rules rs) = {d. ExceptionRule d \<in> set (all_rules rs)} \<and>
   tracker_script_patterns (aggregate_rules rs) = sorted_list_of_set {d @ p |d p. UrlPattern d p \<in> set (all_rules rs)} \<and>
   cosmetic_selectors (aggregate_rules rs) = sorted_list_of_set {s. CosmeticGlobal s \<in> set (all_rules rs)} \<and>
   (\<forall>d. domain_cosmetic_map (aggregate_rules rs) d =
      (let sel = {s. CosmeticDomainScoped d s \<in> set (all_rules rs)} in
       if sel = {} then None else Some (sorted_list_of_set sel))) \<and>
   source_count (fl_stats (aggregate_rules rs)) = length rs \<and>
   agg_total_lines (fl_stats (aggregate_rules rs)) = (\<Sum>x\<leftarrow>rs. total_lines (snd x)) \<and>
   agg_domain_blocks (fl_stats (aggregate_rules rs)) = (\<Sum>x\<leftarrow>rs. domain_blocks (snd x))"
proof -
  have sc: "set (scoped (all_rules rs) d) = {s. CosmeticDomainScoped d s \<in> set (all_rules rs)}" for d
    by (auto simp: scoped_set)
  then have "scoped (all_rules rs) d = [] \<longleftrightarrow> {s. CosmeticDomainScoped d s \<in> set (all_rules rs)} = {}" for d
    by (metis set_empty)
  with sc show ?thesis
    by (simp add: aggregate_rules_def Let_def fold_add_source fold_add_rule fold_add_rule_map sort_dedup_eq
        fl_rules_default_def fl_stats_default_def fold_add_stats)
qed

text \<open>Chunked transfer coding round trip: a body sent as any non-empty chunks with
  hexadecimal sizes, then the zero chunk and any trailer, decodes to the concatenation of the
  chunks.\<close>
theorem decode_chunked_roundtrip:
  assumes "list_all (\<lambda>c. c \<noteq> []) cs" "length (concat (map enc_chunk cs) @ ''0'' @ CRLF @ trailer) < usize_bound"
  shows "decode_chunked (concat (map enc_chunk cs) @ ''0'' @ CRLF @ trailer) = Ok (concat cs)"
  using decode_chunked_from_enc [of cs "[]" trailer "[]"] assms by (simp add: decode_chunked_def)

theorem decode_chunked_roundtrip_witness:
  "decode_chunked (concat (map enc_chunk [''||ads.example^'', ''! end'']) @ ''0'' @ CRLF @ CRLF) = Ok (''||ads.example^'' @ ''! end'')"
proof -
  have "length (concat (map enc_chunk [''||ads.example^'', ''! end'']) @ ''0'' @ CRLF @ CRLF) = 34" by code_simp
  then show ?thesis
    using decode_chunked_roundtrip [of "[''||ads.example^'', ''! end'']" CRLF]
    by (simp only: usize_bound_def) simp
qed

text \<open>A download returns a body exactly when the URL, through a chain of at most five
  redirects, each answered with a 3xx status and a location that resolves to the next URL, ends
  at a server that answers with a 2xx status and that body (decoded lossily), before the
  timeout; a longer chain, or a server that redirects for ever, is an error.\<close>
theorem download_filter_list_iff:
  "download_filter_list uri_parse nets timed_out url = Ok text \<longleftrightarrow>
   (\<not> timed_out \<and> (\<exists>hops body. length hops \<le> 5 \<and> serves_via uri_parse nets 0 url hops body \<and> text = from_utf8_lossy body))"
proof -
  have "length hops < Suc 5 \<longleftrightarrow> length hops \<le> 5" for hops :: "bytes list" by auto
  then show ?thesis
    unfolding download_filter_list_def
    by (simp add: and_then_Inr_iff download_loop_iff MAX_REDIRECTS_def) blast
qed

text \<open>The offline fallback: once a URL source was downloaded and its cache write succeeded,
  a later load of it whose download fails returns the same rules from the cache.\<close>
theorem cached_source_survives_offline:
  assumes "fl_kind source = Url"
    and "download_filter_list uri_parse (e_nets env) (e_timed_out env) (origin source) = Ok text"
    and "snd (cache_to_disk (e_cache env) d cache_dir (origin source) text) = Ok target"
    and "download_filter_list uri_parse (e_nets env') (e_timed_out env') (origin source) = Err e"
    and "e_read env' = None"
  shows "snd (load_source css_ok uri_parse env' (fst (load_source css_ok uri_parse env d cache_dir source)) cache_dir source)
    = snd (load_source css_ok uri_parse env d cache_dir source)"
proof -
  obtain d' where c: "cache_to_disk (e_cache env) d cache_dir (origin source) text = (d', Ok target)"
    using assms(3) by (cases "cache_to_disk (e_cache env) d cache_dir (origin source) text") auto
  from assms(2) have "utf8_valid text" by (rule download_filter_list_valid)
  then have "load_from_cache None d' cache_dir (origin source) = Ok (Some text)"
    by (rule load_from_cache_after [OF c])
  with assms c show ?thesis by (simp add: load_source_def)
qed

theorem cached_source_survives_offline_witness:
  "snd (load_source (\<lambda>s. True) wit_uri (wit_env True)
      (fst (load_source (\<lambda>s. True) wit_uri (wit_env False) Map.empty ''/cache'' \<lparr>origin = ''http://lists.example/l.txt'', fl_kind = Url\<rparr>))
      ''/cache'' \<lparr>origin = ''http://lists.example/l.txt'', fl_kind = Url\<rparr>)
    = snd (load_source (\<lambda>s. True) wit_uri (wit_env False) Map.empty ''/cache'' \<lparr>origin = ''http://lists.example/l.txt'', fl_kind = Url\<rparr>)"
proof -
  have "snd (cache_to_disk (e_cache (wit_env False)) Map.empty ''/cache'' ''http://lists.example/l.txt'' ''||ads.example^'')
      = Ok (path_join ''/cache'' (cache_filename ''http://lists.example/l.txt''))"
    by (simp add: cache_to_disk_def wit_env_def Let_def fs_all_ok_def replace_file_def)
  then show ?thesis
    using wit_download [of "''http://lists.example/l.txt''"]
    by (intro cached_source_survives_offline) (simp_all add: download_filter_list_def wit_env_def)
qed

end
