(* ===== verification/Metrics.thy ===== *)
theory Metrics
  imports Rust_Prelude
begin

text \<open>
  \<^verbatim>\<open>src/metrics.rs\<close>: the runtime counters. Each is an \<open>AtomicU64\<close> updated with
  \<open>fetch_add(1)\<close>, which wraps, or \<open>store\<close>; a snapshot reads them one by one. Threads update
  the counters in any order: \<open>apply_metric\<close> over a list of events is one such interleaving.
\<close>

record metrics =
  m_connection_total :: u64
  m_passthrough_tunnel_total :: u64
  m_mitm_attempt_total :: u64
  m_mitm_success_total :: u64
  m_mitm_failure_total :: u64
  m_mitm_client_tls_reject_total :: u64
  m_host_auto_pinned_total :: u64
  m_dns_query_total :: u64
  m_dns_blocked_total :: u64
  m_dns_report_only_total :: u64
  m_body_rewrite_total :: u64
  m_body_rewrite_skipped_total :: u64
  m_filter_list_refresh_total :: u64
  m_filter_list_refresh_failed_total :: u64
  m_filter_list_rules_active :: u64
  m_dns_cname_uncloaked_total :: u64
  m_consent_enforcement_blocked_total :: u64
  m_websocket_blocked_total :: u64
  m_referer_spoofed_total :: u64
  m_cert_pin_violation_total :: u64
  m_query_params_stripped_total :: u64
  m_cache_headers_stripped_total :: u64

definition metrics_default :: metrics where
  "metrics_default = \<lparr>m_connection_total = 0, m_passthrough_tunnel_total = 0, m_mitm_attempt_total = 0,
     m_mitm_success_total = 0, m_mitm_failure_total = 0, m_mitm_client_tls_reject_total = 0,
     m_host_auto_pinned_total = 0, m_dns_query_total = 0, m_dns_blocked_total = 0,
     m_dns_report_only_total = 0, m_body_rewrite_total = 0, m_body_rewrite_skipped_total = 0,
     m_filter_list_refresh_total = 0, m_filter_list_refresh_failed_total = 0, m_filter_list_rules_active = 0,
     m_dns_cname_uncloaked_total = 0, m_consent_enforcement_blocked_total = 0, m_websocket_blocked_total = 0,
     m_referer_spoofed_total = 0, m_cert_pin_violation_total = 0, m_query_params_stripped_total = 0,
     m_cache_headers_stripped_total = 0\<rparr>"

definition inc_connection_total :: "metrics \<Rightarrow> metrics" where
  "inc_connection_total m = m\<lparr>m_connection_total := m_connection_total m + 1\<rparr>"

definition inc_passthrough_tunnel_total :: "metrics \<Rightarrow> metrics" where
  "inc_passthrough_tunnel_total m = m\<lparr>m_passthrough_tunnel_total := m_passthrough_tunnel_total m + 1\<rparr>"

definition inc_mitm_attempt_total :: "metrics \<Rightarrow> metrics" where
  "inc_mitm_attempt_total m = m\<lparr>m_mitm_attempt_total := m_mitm_attempt_total m + 1\<rparr>"

definition inc_mitm_success_total :: "metrics \<Rightarrow> metrics" where
  "inc_mitm_success_total m = m\<lparr>m_mitm_success_total := m_mitm_success_total m + 1\<rparr>"

definition inc_mitm_failure_total :: "metrics \<Rightarrow> metrics" where
  "inc_mitm_failure_total m = m\<lparr>m_mitm_failure_total := m_mitm_failure_total m + 1\<rparr>"

definition inc_mitm_client_tls_reject_total :: "metrics \<Rightarrow> metrics" where
  "inc_mitm_client_tls_reject_total m = m\<lparr>m_mitm_client_tls_reject_total := m_mitm_client_tls_reject_total m + 1\<rparr>"

definition inc_host_auto_pinned_total :: "metrics \<Rightarrow> metrics" where
  "inc_host_auto_pinned_total m = m\<lparr>m_host_auto_pinned_total := m_host_auto_pinned_total m + 1\<rparr>"

definition inc_dns_query_total :: "metrics \<Rightarrow> metrics" where
  "inc_dns_query_total m = m\<lparr>m_dns_query_total := m_dns_query_total m + 1\<rparr>"

definition inc_dns_blocked_total :: "metrics \<Rightarrow> metrics" where
  "inc_dns_blocked_total m = m\<lparr>m_dns_blocked_total := m_dns_blocked_total m + 1\<rparr>"

definition inc_dns_report_only_total :: "metrics \<Rightarrow> metrics" where
  "inc_dns_report_only_total m = m\<lparr>m_dns_report_only_total := m_dns_report_only_total m + 1\<rparr>"

definition inc_body_rewrite_total :: "metrics \<Rightarrow> metrics" where
  "inc_body_rewrite_total m = m\<lparr>m_body_rewrite_total := m_body_rewrite_total m + 1\<rparr>"

definition inc_body_rewrite_skipped_total :: "metrics \<Rightarrow> metrics" where
  "inc_body_rewrite_skipped_total m = m\<lparr>m_body_rewrite_skipped_total := m_body_rewrite_skipped_total m + 1\<rparr>"

definition inc_filter_list_refresh_total :: "metrics \<Rightarrow> metrics" where
  "inc_filter_list_refresh_total m = m\<lparr>m_filter_list_refresh_total := m_filter_list_refresh_total m + 1\<rparr>"

definition inc_filter_list_refresh_failed_total :: "metrics \<Rightarrow> metrics" where
  "inc_filter_list_refresh_failed_total m = m\<lparr>m_filter_list_refresh_failed_total := m_filter_list_refresh_failed_total m + 1\<rparr>"

definition inc_dns_cname_uncloaked_total :: "metrics \<Rightarrow> metrics" where
  "inc_dns_cname_uncloaked_total m = m\<lparr>m_dns_cname_uncloaked_total := m_dns_cname_uncloaked_total m + 1\<rparr>"

definition inc_consent_enforcement_blocked_total :: "metrics \<Rightarrow> metrics" where
  "inc_consent_enforcement_blocked_total m = m\<lparr>m_consent_enforcement_blocked_total := m_consent_enforcement_blocked_total m + 1\<rparr>"

definition inc_websocket_blocked_total :: "metrics \<Rightarrow> metrics" where
  "inc_websocket_blocked_total m = m\<lparr>m_websocket_blocked_total := m_websocket_blocked_total m + 1\<rparr>"

definition inc_referer_spoofed_total :: "metrics \<Rightarrow> metrics" where
  "inc_referer_spoofed_total m = m\<lparr>m_referer_spoofed_total := m_referer_spoofed_total m + 1\<rparr>"

definition inc_cert_pin_violation_total :: "metrics \<Rightarrow> metrics" where
  "inc_cert_pin_violation_total m = m\<lparr>m_cert_pin_violation_total := m_cert_pin_violation_total m + 1\<rparr>"

definition inc_query_params_stripped_total :: "metrics \<Rightarrow> metrics" where
  "inc_query_params_stripped_total m = m\<lparr>m_query_params_stripped_total := m_query_params_stripped_total m + 1\<rparr>"

definition inc_cache_headers_stripped_total :: "metrics \<Rightarrow> metrics" where
  "inc_cache_headers_stripped_total m = m\<lparr>m_cache_headers_stripped_total := m_cache_headers_stripped_total m + 1\<rparr>"

definition set_filter_list_rules_active :: "u64 \<Rightarrow> metrics \<Rightarrow> metrics" where
  "set_filter_list_rules_active val m = m\<lparr>m_filter_list_rules_active := val\<rparr>"

record metrics_snapshot =
  ms_connection_total :: u64
  ms_passthrough_tunnel_total :: u64
  ms_mitm_attempt_total :: u64
  ms_mitm_success_total :: u64
  ms_mitm_failure_total :: u64
  ms_mitm_client_tls_reject_total :: u64
  ms_host_auto_pinned_total :: u64
  ms_dns_query_total :: u64
  ms_dns_blocked_total :: u64
  ms_dns_report_only_total :: u64
  ms_body_rewrite_total :: u64
  ms_body_rewrite_skipped_total :: u64
  ms_filter_list_refresh_total :: u64
  ms_filter_list_refresh_failed_total :: u64
  ms_filter_list_rules_active :: u64
  ms_dns_cname_uncloaked_total :: u64
  ms_consent_enforcement_blocked_total :: u64
  ms_websocket_blocked_total :: u64
  ms_referer_spoofed_total :: u64
  ms_cert_pin_violation_total :: u64
  ms_query_params_stripped_total :: u64
  ms_cache_headers_stripped_total :: u64

definition snapshot :: "metrics \<Rightarrow> metrics_snapshot" where
  "snapshot m = \<lparr>ms_connection_total = m_connection_total m, ms_passthrough_tunnel_total = m_passthrough_tunnel_total m, ms_mitm_attempt_total = m_mitm_attempt_total m,
     ms_mitm_success_total = m_mitm_success_total m, ms_mitm_failure_total = m_mitm_failure_total m, ms_mitm_client_tls_reject_total = m_mitm_client_tls_reject_total m,
     ms_host_auto_pinned_total = m_host_auto_pinned_total m, ms_dns_query_total = m_dns_query_total m, ms_dns_blocked_total = m_dns_blocked_total m,
     ms_dns_report_only_total = m_dns_report_only_total m, ms_body_rewrite_total = m_body_rewrite_total m, ms_body_rewrite_skipped_total = m_body_rewrite_skipped_total m,
     ms_filter_list_refresh_total = m_filter_list_refresh_total m, ms_filter_list_refresh_failed_total = m_filter_list_refresh_failed_total m, ms_filter_list_rules_active = m_filter_list_rules_active m,
     ms_dns_cname_uncloaked_total = m_dns_cname_uncloaked_total m, ms_consent_enforcement_blocked_total = m_consent_enforcement_blocked_total m, ms_websocket_blocked_total = m_websocket_blocked_total m,
     ms_referer_spoofed_total = m_referer_spoofed_total m, ms_cert_pin_violation_total = m_cert_pin_violation_total m, ms_query_params_stripped_total = m_query_params_stripped_total m,
     ms_cache_headers_stripped_total = m_cache_headers_stripped_total m\<rparr>"

definition snapshot_fields :: "metrics_snapshot \<Rightarrow> (string \<times> u64) list" where
  "snapshot_fields s = [(''connection_total'', ms_connection_total s), (''passthrough_tunnel_total'', ms_passthrough_tunnel_total s),
     (''mitm_attempt_total'', ms_mitm_attempt_total s), (''mitm_success_total'', ms_mitm_success_total s),
     (''mitm_failure_total'', ms_mitm_failure_total s), (''mitm_client_tls_reject_total'', ms_mitm_client_tls_reject_total s),
     (''host_auto_pinned_total'', ms_host_auto_pinned_total s), (''dns_query_total'', ms_dns_query_total s),
     (''dns_blocked_total'', ms_dns_blocked_total s), (''dns_report_only_total'', ms_dns_report_only_total s),
     (''body_rewrite_total'', ms_body_rewrite_total s), (''body_rewrite_skipped_total'', ms_body_rewrite_skipped_total s),
     (''filter_list_refresh_total'', ms_filter_list_refresh_total s), (''filter_list_refresh_failed_total'', ms_filter_list_refresh_failed_total s),
     (''filter_list_rules_active'', ms_filter_list_rules_active s), (''dns_cname_uncloaked_total'', ms_dns_cname_uncloaked_total s),
     (''consent_enforcement_blocked_total'', ms_consent_enforcement_blocked_total s), (''websocket_blocked_total'', ms_websocket_blocked_total s),
     (''referer_spoofed_total'', ms_referer_spoofed_total s), (''cert_pin_violation_total'', ms_cert_pin_violation_total s),
     (''query_params_stripped_total'', ms_query_params_stripped_total s), (''cache_headers_stripped_total'', ms_cache_headers_stripped_total s)]"

text \<open>The event that \<open>log_snapshot\<close> gives to the logger: its name, what triggered it, and the counters.\<close>

definition log_snapshot :: "string \<Rightarrow> metrics \<Rightarrow> string \<times> string \<times> (string \<times> u64) list" where
  "log_snapshot trigger m = (''metrics_snapshot'', trigger, snapshot_fields (snapshot m))"

section \<open>Interleavings of updates\<close>

datatype metric_counter = ConnectionCounter
  | PassthroughTunnelCounter
  | MitmAttemptCounter
  | MitmSuccessCounter
  | MitmFailureCounter
  | MitmClientTlsRejectCounter
  | HostAutoPinnedCounter
  | DnsQueryCounter
  | DnsBlockedCounter
  | DnsReportOnlyCounter
  | BodyRewriteCounter
  | BodyRewriteSkippedCounter
  | FilterListRefreshCounter
  | FilterListRefreshFailedCounter
  | DnsCnameUncloakedCounter
  | ConsentEnforcementBlockedCounter
  | WebsocketBlockedCounter
  | RefererSpoofedCounter
  | CertPinViolationCounter
  | QueryParamsStrippedCounter
  | CacheHeadersStrippedCounter

datatype metric_event = Inc metric_counter | SetRulesActive u64

fun inc_metric :: "metric_counter \<Rightarrow> metrics \<Rightarrow> metrics" where
  "inc_metric ConnectionCounter m = inc_connection_total m"
| "inc_metric PassthroughTunnelCounter m = inc_passthrough_tunnel_total m"
| "inc_metric MitmAttemptCounter m = inc_mitm_attempt_total m"
| "inc_metric MitmSuccessCounter m = inc_mitm_success_total m"
| "inc_metric MitmFailureCounter m = inc_mitm_failure_total m"
| "inc_metric MitmClientTlsRejectCounter m = inc_mitm_client_tls_reject_total m"
| "inc_metric HostAutoPinnedCounter m = inc_host_auto_pinned_total m"
| "inc_metric DnsQueryCounter m = inc_dns_query_total m"
| "inc_metric DnsBlockedCounter m = inc_dns_blocked_total m"
| "inc_metric DnsReportOnlyCounter m = inc_dns_report_only_total m"
| "inc_metric BodyRewriteCounter m = inc_body_rewrite_total m"
| "inc_metric BodyRewriteSkippedCounter m = inc_body_rewrite_skipped_total m"
| "inc_metric FilterListRefreshCounter m = inc_filter_list_refresh_total m"
| "inc_metric FilterListRefreshFailedCounter m = inc_filter_list_refresh_failed_total m"
| "inc_metric DnsCnameUncloakedCounter m = inc_dns_cname_uncloaked_total m"
| "inc_metric ConsentEnforcementBlockedCounter m = inc_consent_enforcement_blocked_total m"
| "inc_metric WebsocketBlockedCounter m = inc_websocket_blocked_total m"
| "inc_metric RefererSpoofedCounter m = inc_referer_spoofed_total m"
| "inc_metric CertPinViolationCounter m = inc_cert_pin_violation_total m"
| "inc_metric QueryParamsStrippedCounter m = inc_query_params_stripped_total m"
| "inc_metric CacheHeadersStrippedCounter m = inc_cache_headers_stripped_total m"

fun metric_value :: "metric_counter \<Rightarrow> metrics \<Rightarrow> u64" where
  "metric_value ConnectionCounter m = m_connection_total m"
| "metric_value PassthroughTunnelCounter m = m_passthrough_tunnel_total m"
| "metric_value MitmAttemptCounter m = m_mitm_attempt_total m"
| "metric_value MitmSuccessCounter m = m_mitm_success_total m"
| "metric_value MitmFailureCounter m = m_mitm_failure_total m"
| "metric_value MitmClientTlsRejectCounter m = m_mitm_client_tls_reject_total m"
| "metric_value HostAutoPinnedCounter m = m_host_auto_pinned_total m"
| "metric_value DnsQueryCounter m = m_dns_query_total m"
| "metric_value DnsBlockedCounter m = m_dns_blocked_total m"
| "metric_value DnsReportOnlyCounter m = m_dns_report_only_total m"
| "metric_value BodyRewriteCounter m = m_body_rewrite_total m"
| "metric_value BodyRewriteSkippedCounter m = m_body_rewrite_skipped_total m"
| "metric_value FilterListRefreshCounter m = m_filter_list_refresh_total m"
| "metric_value FilterListRefreshFailedCounter m = m_filter_list_refresh_failed_total m"
| "metric_value DnsCnameUncloakedCounter m = m_dns_cname_uncloaked_total m"
| "metric_value ConsentEnforcementBlockedCounter m = m_consent_enforcement_blocked_total m"
| "metric_value WebsocketBlockedCounter m = m_websocket_blocked_total m"
| "metric_value RefererSpoofedCounter m = m_referer_spoofed_total m"
| "metric_value CertPinViolationCounter m = m_cert_pin_violation_total m"
| "metric_value QueryParamsStrippedCounter m = m_query_params_stripped_total m"
| "metric_value CacheHeadersStrippedCounter m = m_cache_headers_stripped_total m"

fun apply_metric :: "metric_event \<Rightarrow> metrics \<Rightarrow> metrics" where
  "apply_metric (Inc c) m = inc_metric c m"
| "apply_metric (SetRulesActive v) m = set_filter_list_rules_active v m"

lemmas inc_defs =
  inc_connection_total_def inc_passthrough_tunnel_total_def inc_mitm_attempt_total_def
  inc_mitm_success_total_def inc_mitm_failure_total_def inc_mitm_client_tls_reject_total_def
  inc_host_auto_pinned_total_def inc_dns_query_total_def inc_dns_blocked_total_def
  inc_dns_report_only_total_def inc_body_rewrite_total_def inc_body_rewrite_skipped_total_def
  inc_filter_list_refresh_total_def inc_filter_list_refresh_failed_total_def inc_dns_cname_uncloaked_total_def
  inc_consent_enforcement_blocked_total_def inc_websocket_blocked_total_def inc_referer_spoofed_total_def
  inc_cert_pin_violation_total_def inc_query_params_stripped_total_def inc_cache_headers_stripped_total_def

lemma metric_value_inc: "metric_value c (inc_metric c' m) = metric_value c m + (if c = c' then 1 else 0)"
  by (cases c'; simp only: inc_metric.simps inc_defs; cases c; simp)

lemma metric_value_set: "metric_value c (set_filter_list_rules_active v m) = metric_value c m"
  by (cases c) (simp_all add: set_filter_list_rules_active_def)

lemma rules_active_inc: "m_filter_list_rules_active (inc_metric c m) = m_filter_list_rules_active m"
  by (cases c) (simp_all add: inc_defs)

lemma rules_active_set: "m_filter_list_rules_active (set_filter_list_rules_active v m) = v"
  by (simp add: set_filter_list_rules_active_def)

definition last_set :: "metric_event list \<Rightarrow> u64 \<Rightarrow> u64" where
  "last_set es v = fold (\<lambda>e v. case e of SetRulesActive w \<Rightarrow> w | Inc _ \<Rightarrow> v) es v"

text \<open>Under every interleaving of counter updates, each counter ends at its start value plus
  the number of its increments, modulo 2 to the 64, no increment is lost or lands in another
  counter, and the active-rules gauge holds the last value stored.\<close>
theorem metrics_count_events:
  "(\<forall>c. metric_value c (fold apply_metric es m) = metric_value c m + of_nat (count_list es (Inc c))) \<and>
   m_filter_list_rules_active (fold apply_metric es m) = last_set es (m_filter_list_rules_active m)"
proof (induction es arbitrary: m)
  case (Cons e es)
  then show ?case
    by (cases e) (auto simp: metric_value_inc metric_value_set rules_active_inc last_set_def rules_active_set)
qed (simp add: last_set_def)

end
