(* ===== verification/Policy.thy ===== *)
theory Policy
  imports Policy_Config Filter_List Metrics
begin

text \<open>
  The engine half of \<^verbatim>\<open>src/policy.rs\<close>: the shared configuration and filter-list rules with
  their two locks, the plans for a session, a DNS query and a body rewrite, the Set-Cookie
  policy on a response header block, reloading, and the periodic refresh of
  \<^verbatim>\<open>filter_list.rs\<close>, which replaces the rules of the engine.
\<close>

record session_plan =
  sp_mode :: policy_mode
  sp_tracker_match :: bool
  sp_enable_http1_set_cookie_filter :: bool
  sp_consent_enforcement_active :: bool
  sp_consent_level :: "consent_level option"
  sp_domain_category :: "domain_category option"
  sp_user_profile_name :: "bytes option"
  sp_websocket_blocking_enabled :: bool

record header_policy_outcome =
  output_headers :: bytes
  ho_tracker_match :: bool
  set_cookie_count :: nat
  enforcement_applied :: bool
  report_only_hit :: bool
  ho_consent_enforcement_active :: bool
  ho_consent_level :: "consent_level option"
  ho_domain_category :: "domain_category option"
  ho_user_profile_name :: "bytes option"

record body_rewrite_plan =
  bp_mode :: policy_mode
  should_rewrite :: bool
  manual_script_patterns :: "bytes list"
  filter_script_patterns :: "bytes list"
  manual_remove_selectors :: "bytes list"
  filter_remove_selectors :: "bytes list"
  domain_remove_selectors :: "bytes list list"
  css_inject_selectors :: "bytes list"
  strip_tracking_pixels :: bool
  max_body_bytes :: nat
  referer_spoof :: bool
  query_param_strip :: bool

record dns_query_plan =
  dp_mode :: policy_mode
  should_block :: bool

record policy_engine =
  pe_cfg :: policy_config
  pe_cfg_poisoned :: bool
  pe_filter_list_rules :: filter_list_rules
  pe_fl_poisoned :: bool

definition policy_engine_new :: "policy_mode \<Rightarrow> policy_engine" where
  "policy_engine_new mode = \<lparr>pe_cfg = default_for_mode mode, pe_cfg_poisoned = False,
     pe_filter_list_rules = fl_rules_default, pe_fl_poisoned = False\<rparr>"

definition policy_engine_load_from_file ::
  "'v json_api \<Rightarrow> (bytes \<Rightarrow> bool) \<Rightarrow> io_error option \<Rightarrow> disk \<Rightarrow> path \<Rightarrow> policy_mode option \<Rightarrow> policy_engine io_result" where
  "policy_engine_load_from_file J css_ok o_read d path mode_override =
    and_then (load_policy_config_from_file J css_ok o_read d path mode_override) (\<lambda>cfg.
    Ok \<lparr>pe_cfg = cfg, pe_cfg_poisoned = False, pe_filter_list_rules = fl_rules_default, pe_fl_poisoned = False\<rparr>)"

definition replace_filter_list_rules :: "filter_list_rules \<Rightarrow> policy_engine \<Rightarrow> policy_engine" where
  "replace_filter_list_rules new_rules e = (if pe_fl_poisoned e then e else e\<lparr>pe_filter_list_rules := new_rules\<rparr>)"

definition filter_list_stats :: "policy_engine \<Rightarrow> filter_list_aggregate_stats" where
  "filter_list_stats e = (if pe_fl_poisoned e then fl_stats_default else fl_stats (pe_filter_list_rules e))"

definition policy_summary :: "policy_engine \<Rightarrow> policy_config_summary" where
  "policy_summary e = (if pe_cfg_poisoned e then
     \<lparr>sm_version = 1, sm_mode = Disabled, sm_tracker_rule_enabled = False, sm_tracker_domain_count = 0,
      sm_dns_block_enabled = False, sm_dns_block_domain_count = 0, sm_consent_enforcement_enabled = False,
      sm_consent_default_consent = ''disabled'', sm_consent_analytics_domain_count = 0, sm_consent_user_profile_count = 0\<rparr>
   else describe_for_logs (pe_cfg e))"

definition replace_from_file ::
  "'v json_api \<Rightarrow> (bytes \<Rightarrow> bool) \<Rightarrow> io_error option \<Rightarrow> disk \<Rightarrow> path \<Rightarrow> policy_mode option \<Rightarrow> policy_engine \<Rightarrow>
   policy_engine \<times> policy_config_summary io_result" where
  "replace_from_file J css_ok o_read d path mode_override e =
    (case load_policy_config_from_file J css_ok o_read d path mode_override of
       Inl err \<Rightarrow> (e, Err err)
     | Inr cfg \<Rightarrow>
        if pe_cfg_poisoned e then (e, Err (IoError Other ''policy config lock poisoned: poisoned lock: another task failed inside''))
        else (e\<lparr>pe_cfg := cfg\<rparr>, Ok (describe_for_logs cfg)))"

section \<open>Plans\<close>

definition fl_blocks :: "policy_engine \<Rightarrow> bytes \<Rightarrow> bool" where
  "fl_blocks e normalized \<longleftrightarrow> \<not> pe_fl_poisoned e \<and>
     domain_in_set_or_parent normalized (block_domains (pe_filter_list_rules e)) \<and>
     \<not> domain_in_set_or_parent normalized (exception_domains (pe_filter_list_rules e))"

function override_walk :: "(bytes \<rightharpoonup> consent_level) \<Rightarrow> bytes \<Rightarrow> consent_level option" where
  "override_walk overrides remainder =
    (case split_once CHR ''.'' remainder of None \<Rightarrow> None
     | Some (_, after_dot) \<Rightarrow> (case overrides after_dot of Some level \<Rightarrow> Some level
         | None \<Rightarrow> override_walk overrides after_dot))"
  by pat_completeness auto
termination
  by (relation "measure (\<lambda>(m, r). length r)") (auto simp: split_once_Some_iff)

declare override_walk.simps [simp del]

definition site_consent :: "consent_enforcement_rule \<Rightarrow> bytes \<Rightarrow> consent_level" where
  "site_consent ce normalized =
    (case ce_site_overrides ce normalized of Some level \<Rightarrow> level
     | None \<Rightarrow> (case override_walk (ce_site_overrides ce) normalized of Some level \<Rightarrow> level
         | None \<Rightarrow> ce_default_consent ce))"

fun consent_filter :: "domain_category option \<Rightarrow> consent_level option \<Rightarrow> bool" where
  "consent_filter (Some Advertising) (Some ConsentAll) = False"
| "consent_filter (Some Advertising) _ = True"
| "consent_filter (Some Analytics) (Some EssentialOnly) = True"
| "consent_filter (Some Analytics) _ = False"
| "consent_filter None _ = False"

definition plan_for_host_with_source_ip :: "policy_engine \<Rightarrow> bytes \<Rightarrow> bytes option \<Rightarrow> session_plan" where
  "plan_for_host_with_source_ip e host source_ip =
    (let normalized = normalize_host host in
     if pe_cfg_poisoned e then
       \<lparr>sp_mode = Disabled, sp_tracker_match = False, sp_enable_http1_set_cookie_filter = False,
        sp_consent_enforcement_active = False, sp_consent_level = None, sp_domain_category = None,
        sp_user_profile_name = None, sp_websocket_blocking_enabled = False\<rparr>
     else
     let cfg = pe_cfg e; ce = pc_consent_enforcement cfg; mode = pc_mode cfg;
         consent_active = (ce_enabled ce \<and> mode \<noteq> Disabled);
         is_advertising = (if tsc_enabled (pc_tracker_set_cookie cfg) \<and> mode \<noteq> Disabled
           then domain_in_set_or_parent normalized (tsc_domains (pc_tracker_set_cookie cfg)) else False);
         is_advertising = (if \<not> is_advertising \<and> mode \<noteq> Disabled then fl_blocks e normalized else is_advertising);
         is_analytics = (consent_active \<and> domain_in_set_or_parent normalized (ce_analytics_domains ce));
         category = (if consent_active then
             (if is_analytics then Some Analytics else if is_advertising then Some Advertising else None) else None);
         tracker_match = (is_advertising \<or> is_analytics);
         user_profile = (if consent_active then Option.bind source_ip (ce_user_profiles ce) else None);
         level = (if consent_active then
             (case user_profile of Some profile \<Rightarrow> Some (up_consent profile) | None \<Rightarrow> Some (site_consent ce normalized))
           else None);
         enable_filter = (if consent_active then consent_filter category level
           else tracker_match \<and> mode \<noteq> Disabled)
     in \<lparr>sp_mode = mode, sp_tracker_match = tracker_match, sp_enable_http1_set_cookie_filter = enable_filter,
        sp_consent_enforcement_active = consent_active, sp_consent_level = level, sp_domain_category = category,
        sp_user_profile_name = map_option up_name user_profile,
        sp_websocket_blocking_enabled = pc_websocket_blocking_enabled cfg\<rparr>)"

definition plan_for_host :: "policy_engine \<Rightarrow> bytes \<Rightarrow> session_plan" where
  "plan_for_host e host = plan_for_host_with_source_ip e host None"

definition plan_for_dns_query :: "policy_engine \<Rightarrow> bytes \<Rightarrow> dns_query_plan" where
  "plan_for_dns_query e host =
    (let normalized = normalize_host host in
     if pe_cfg_poisoned e then \<lparr>dp_mode = Disabled, should_block = False\<rparr>
     else let cfg = pe_cfg e; mode = pc_mode cfg in
     if mode = Disabled then \<lparr>dp_mode = mode, should_block = False\<rparr>
     else let matched = (if dns_enabled (pc_dns_block cfg)
            then domain_in_set_or_parent normalized (dns_domains (pc_dns_block cfg)) else False);
          matched = (if \<not> matched then fl_blocks e normalized else matched)
     in \<lparr>dp_mode = mode, should_block = matched\<rparr>)"

function domain_selectors_walk :: "(bytes \<rightharpoonup> bytes list) \<Rightarrow> bytes \<Rightarrow> bytes list list" where
  "domain_selectors_walk m remainder =
    (case m remainder of Some sels \<Rightarrow> [sels] | None \<Rightarrow> []) @
    (case split_once CHR ''.'' remainder of Some (_, after_dot) \<Rightarrow> domain_selectors_walk m after_dot | None \<Rightarrow> [])"
  by pat_completeness auto
termination
  by (relation "measure (\<lambda>(m, r). length r)") (auto simp: split_once_Some_iff)

declare domain_selectors_walk.simps [simp del]

definition plan_for_body_rewrite :: "policy_engine \<Rightarrow> bytes \<Rightarrow> body_rewrite_plan" where
  "plan_for_body_rewrite e host =
    (let normalized = normalize_host host in
     if pe_cfg_poisoned e then
       \<lparr>bp_mode = Disabled, should_rewrite = False, manual_script_patterns = [], filter_script_patterns = [],
        manual_remove_selectors = [], filter_remove_selectors = [], domain_remove_selectors = [],
        css_inject_selectors = [], strip_tracking_pixels = False, max_body_bytes = 2 * 1024 * 1024,
        referer_spoof = False, query_param_strip = False\<rparr>
     else
     let cfg = pe_cfg e; bw = pc_body_rewrite cfg; mode = pc_mode cfg; fl = pe_filter_list_rules e;
         use_fl = (mode \<noteq> Disabled \<and> \<not> pe_fl_poisoned e);
         msp = (if bw_enabled bw then bw_tracker_script_patterns bw else []);
         mrs = (if bw_enabled bw then bw_remove_selectors bw else []);
         pixels = (bw_enabled bw \<and> bw_strip_tracking_pixels bw);
         fsp = (if use_fl then tracker_script_patterns fl else []);
         frs = (if use_fl then cosmetic_selectors fl else []);
         drs = (if use_fl then domain_selectors_walk (domain_cosmetic_map fl) normalized else []);
         cis = (if bw_enabled bw then bw_css_inject_selectors bw else [])
     in \<lparr>bp_mode = mode,
        should_rewrite = (mode \<noteq> Disabled \<and>
          (pixels \<or> msp \<noteq> [] \<or> fsp \<noteq> [] \<or> mrs \<noteq> [] \<or> frs \<noteq> [] \<or> drs \<noteq> [] \<or> cis \<noteq> [])),
        manual_script_patterns = msp, filter_script_patterns = fsp, manual_remove_selectors = mrs,
        filter_remove_selectors = frs, domain_remove_selectors = drs, css_inject_selectors = cis,
        strip_tracking_pixels = pixels, max_body_bytes = bw_max_body_bytes bw,
        referer_spoof = (mode \<noteq> Disabled \<and> bw_enabled bw \<and> bw_referer_spoof_domains bw \<noteq> {} \<and>
          domain_in_set_or_parent normalized (bw_referer_spoof_domains bw)),
        query_param_strip = (mode \<noteq> Disabled \<and> bw_enabled bw \<and> bw_query_param_strip_enabled bw)\<rparr>)"

datatype policy_hook_action = AllowAction

definition on_mitm_session_start :: "policy_engine \<Rightarrow> bytes \<Rightarrow> policy_hook_action" where
  "on_mitm_session_start e host = (let plan = plan_for_host e host in AllowAction)"

section \<open>The Set-Cookie policy\<close>

definition starts_with_ascii_case_insensitive :: "bytes \<Rightarrow> bytes \<Rightarrow> bool" where
  "starts_with_ascii_case_insensitive haystack pre \<longleftrightarrow>
     length haystack \<ge> length pre \<and> eq_ignore_ascii_case (take (length pre) haystack) pre"

definition strip_trailing_cr :: "bytes \<Rightarrow> bytes" where
  "strip_trailing_cr line = (case strip_suffix_char CR line of None \<Rightarrow> line | Some l \<Rightarrow> l)"

definition find_headers_end :: "bytes \<Rightarrow> nat option" where
  "find_headers_end buf = map_option (\<lambda>idx. idx + 4) (find_sub CRLF2 buf)"

abbreviation is_set_cookie :: "bytes \<Rightarrow> bool" where
  "is_set_cookie line \<equiv> starts_with_ascii_case_insensitive line ''set-cookie:''"

fun set_cookie_loop :: "policy_mode \<Rightarrow> bytes list \<Rightarrow> bytes \<times> nat \<Rightarrow> bytes \<times> nat" where
  "set_cookie_loop mode [] acc = acc"
| "set_cookie_loop mode (line # lines) (rebuilt, n) =
    (if is_set_cookie line then
       (if mode = Enforce then set_cookie_loop mode lines (rebuilt, n + 1)
        else set_cookie_loop mode lines (rebuilt @ line @ CRLF, n + 1))
     else set_cookie_loop mode lines (rebuilt @ line @ CRLF, n))"

definition header_outcome_unchanged :: "session_plan \<Rightarrow> bytes \<Rightarrow> header_policy_outcome" where
  "header_outcome_unchanged plan header_block =
    \<lparr>output_headers = header_block, ho_tracker_match = sp_tracker_match plan, set_cookie_count = 0,
     enforcement_applied = False, report_only_hit = False,
     ho_consent_enforcement_active = sp_consent_enforcement_active plan, ho_consent_level = sp_consent_level plan,
     ho_domain_category = sp_domain_category plan, ho_user_profile_name = sp_user_profile_name plan\<rparr>"

definition apply_http1_response_header_policy ::
  "policy_engine \<Rightarrow> bytes \<Rightarrow> bytes \<Rightarrow> bytes option \<Rightarrow> header_policy_outcome" where
  "apply_http1_response_header_policy e host header_block source_ip =
    (let plan = plan_for_host_with_source_ip e host source_ip in
     if \<not> sp_enable_http1_set_cookie_filter plan then header_outcome_unchanged plan header_block
     else case find_headers_end header_block of
       None \<Rightarrow> header_outcome_unchanged plan header_block
     | Some header_end \<Rightarrow>
        (case map strip_trailing_cr (split_on LF (take (header_end - 2) header_block)) of
           [] \<Rightarrow> header_outcome_unchanged plan header_block
         | status_line # lines \<Rightarrow>
            let (rebuilt, n) = set_cookie_loop (sp_mode plan) lines (status_line @ CRLF, 0);
                rebuilt = rebuilt @ CRLF @ drop header_end header_block
            in (header_outcome_unchanged plan header_block)\<lparr>
                 output_headers := (if sp_mode plan = Enforce then rebuilt else header_block),
                 set_cookie_count := n,
                 enforcement_applied := (sp_mode plan = Enforce \<and> n > 0),
                 report_only_hit := (sp_mode plan = ReportOnly \<and> n > 0)\<rparr>))"

section \<open>Filter-list sources and refresh\<close>

fun parse_source_entries :: "'v json_api \<Rightarrow> 'v list \<Rightarrow> filter_list_source list io_result" where
  "parse_source_entries J [] = Ok []"
| "parse_source_entries J (entry # es) =
    (case as_str J entry of None \<Rightarrow> Err (invalid ''filter_lists entries must be strings'')
     | Some s \<Rightarrow> and_then (parse_source_entries J es) (\<lambda>rest. Ok (
         \<lparr>origin = s, fl_kind = (if prefix ''http://'' s \<or> prefix ''https://'' s then Url else LocalFile)\<rparr> # rest)))"

definition parse_filter_list_sources_from_config ::
  "'v json_api \<Rightarrow> io_error option \<Rightarrow> disk \<Rightarrow> path \<Rightarrow> filter_list_source list io_result" where
  "parse_filter_list_sources_from_config J o_read d path =
    and_then (parse_json_file J ''policy config'' o_read d path) (\<lambda>parsed.
    and_then (ok_or (as_object J parsed) (invalid ''policy config must be a JSON object'')) (\<lambda>obj.
    case get obj ''filter_lists'' of None \<Rightarrow> Ok []
    | Some v \<Rightarrow> and_then (ok_or (as_array J v) (invalid ''filter_lists must be a JSON array'')) (parse_source_entries J)))"

record refresh_state =
  rf_engine :: policy_engine
  rf_metrics :: metrics
  rf_disk :: disk

text \<open>One tick of the background task of \<open>spawn_refresh_task\<close>.\<close>

definition refresh_tick ::
  "(bytes \<Rightarrow> bool) \<Rightarrow> uri_parser \<Rightarrow> (filter_list_source \<times> source_env) list \<Rightarrow> bytes \<Rightarrow> refresh_state \<Rightarrow> refresh_state" where
  "refresh_tick css_ok uri_parse sources cache_dir s =
    (let m = inc_filter_list_refresh_total (rf_metrics s);
         (d, r) = refresh_filter_lists css_ok uri_parse sources (rf_disk s) cache_dir
     in case r of
       Inr new_rules \<Rightarrow>
         let active = card (block_domains new_rules) + length (tracker_script_patterns new_rules) + length (cosmetic_selectors new_rules)
         in \<lparr>rf_engine = replace_filter_list_rules new_rules (rf_engine s),
             rf_metrics = set_filter_list_rules_active (of_nat active) m, rf_disk = d\<rparr>
     | Inl e \<Rightarrow> \<lparr>rf_engine = rf_engine s, rf_metrics = inc_filter_list_refresh_failed_total m, rf_disk = d\<rparr>)"

section \<open>Domain rules\<close>

text \<open>The meaning of a domain set: the domain itself and everything below it.\<close>

definition covered :: "bytes \<Rightarrow> bytes set \<Rightarrow> bool" where
  "covered h D \<longleftrightarrow> h \<noteq> [] \<and> (\<exists>d\<in>D. h = d \<or> suffix (CHR ''.'' # d) h)"

lemma domain_in_set_or_parent_covered: "domain_in_set_or_parent h D \<longleftrightarrow> covered h D"
  by (auto simp: domain_in_set_or_parent_iff covered_def suffix_def)

text \<open>A decision on hosts that extends to every subdomain.\<close>

locale subdomain_closed =
  fixes decides :: "bytes \<Rightarrow> bool"
  assumes below: "decides h \<Longrightarrow> decides (l @ CHR ''.'' # h)"
begin

lemma below_labels: "decides h \<Longrightarrow> decides (concat (map (\<lambda>l. l @ ''.'') ls) @ h)"
proof (induction ls)
  case (Cons l ls)
  then show ?case using below [of "concat (map (\<lambda>l. l @ ''.'') ls) @ h" l] by simp
qed simp

lemma parent_decides: "x \<in> set (parents h) \<Longrightarrow> decides x \<Longrightarrow> decides h"
  using below by (auto simp: parents_iff)

end

interpretation cover: subdomain_closed "\<lambda>h. covered h D" for D
proof
  fix h l
  assume "covered h D"
  then obtain d where d: "d \<in> D" "h = d \<or> suffix (CHR ''.'' # d) h" by (auto simp: covered_def)
  then have "suffix (CHR ''.'' # d) (l @ CHR ''.'' # h)"
    by (metis append_Cons append_assoc suffix_def)
  with d show "covered (l @ CHR ''.'' # h) D" by (auto simp: covered_def)
qed

text \<open>The nearest of a host and its parents that a map knows.\<close>

definition nearest :: "(bytes \<rightharpoonup> 'a) \<Rightarrow> bytes \<Rightarrow> 'a option" where
  "nearest m h = Option.bind (List.find (\<lambda>x. m x \<noteq> None) (h # parents h)) m"

lemma override_walk_find: "override_walk m h = Option.bind (List.find (\<lambda>x. m x \<noteq> None) (parents h)) m"
proof (induction m h rule: override_walk.induct)
  case (1 m h)
  then show ?case
    by (subst override_walk.simps, subst parents.simps) (auto split: option.splits)
qed

lemma site_consent_nearest:
  "site_consent ce h = (case nearest (ce_site_overrides ce) h of Some l \<Rightarrow> l | None \<Rightarrow> ce_default_consent ce)"
  by (auto simp: site_consent_def nearest_def override_walk_find split: option.splits)

lemma domain_selectors_walk_eq: "domain_selectors_walk m h = List.map_filter m (h # parents h)"
proof (induction m h rule: domain_selectors_walk.induct)
  case (1 m h)
  then show ?case
    by (subst domain_selectors_walk.simps, subst parents.simps)
      (auto simp: List.map_filter_simps split: option.splits)
qed

definition advertising :: "policy_engine \<Rightarrow> bytes \<Rightarrow> bool" where
  "advertising e h \<longleftrightarrow>
     tsc_enabled (pc_tracker_set_cookie (pe_cfg e)) \<and> covered h (tsc_domains (pc_tracker_set_cookie (pe_cfg e))) \<or>
     \<not> pe_fl_poisoned e \<and> covered h (block_domains (pe_filter_list_rules e)) \<and>
       \<not> covered h (exception_domains (pe_filter_list_rules e))"

lemma fl_blocks_covered:
  "fl_blocks e h \<longleftrightarrow> \<not> pe_fl_poisoned e \<and> covered h (block_domains (pe_filter_list_rules e)) \<and>
     \<not> covered h (exception_domains (pe_filter_list_rules e))"
  by (simp add: fl_blocks_def domain_in_set_or_parent_covered)

section \<open>Header blocks\<close>

definition header_line_ok :: "bytes \<Rightarrow> bool" where
  "header_line_ok l \<longleftrightarrow> l \<noteq> [] \<and> LF \<notin> set l \<and> last l \<noteq> CR"

lemma find_sub_CRLF2_line:
  assumes "LF \<notin> set l" "\<not> prefix CRLF t"
  shows "find_sub CRLF2 (l @ CR # LF # t) = map_option (\<lambda>n. length l + 2 + n) (find_sub CRLF2 t)"
  using assms(1)
proof (induction l)
  case Nil
  have "\<not> prefix CRLF2 (CR # LF # t)" using assms(2) by simp
  then have "find_sub CRLF2 (CR # LF # t) = map_option Suc (map_option Suc (find_sub CRLF2 t))"
    by (simp only: find_sub.simps if_False) simp
  then show ?case by (simp add: option.map_comp o_def)
next
  case (Cons c l)
  have "\<not> prefix CRLF2 (c # l @ CR # LF # t)" using Cons.prems by (cases l) auto
  then have "find_sub CRLF2 (c # l @ CR # LF # t) = map_option Suc (find_sub CRLF2 (l @ CR # LF # t))"
    by (simp only: find_sub.simps if_False)
  with Cons show ?case by (simp add: option.map_comp o_def)
qed

lemma find_sub_CRLF2_end: "LF \<notin> set l \<Longrightarrow> find_sub CRLF2 (l @ CRLF2 @ t) = Some (length l)"
proof (induction l)
  case (Cons c l)
  have "\<not> prefix CRLF2 (c # l @ CRLF2 @ t)" using Cons.prems by (cases l) auto
  with Cons show ?case by auto
qed simp

lemma find_sub_header_block:
  "ls \<noteq> [] \<Longrightarrow> list_all header_line_ok ls \<Longrightarrow> find_sub CRLF2 (join CRLF ls @ CRLF2 @ rest) = Some (length (join CRLF ls))"
proof (induction ls)
  case (Cons l ls)
  show ?case
  proof (cases ls)
    case Nil
    with Cons.prems show ?thesis using find_sub_CRLF2_end [of l rest] by (simp add: header_line_ok_def)
  next
    case (Cons m ms)
    let ?t = "join CRLF ls @ CRLF2 @ rest"
    have "m \<noteq> []" "LF \<notin> set m" using Cons.prems Cons by (auto simp: header_line_ok_def)
    then have "\<not> prefix CRLF ?t" using Cons by (cases m; cases "tl m") (auto simp: join_Cons)
    moreover have "LF \<notin> set l" using Cons.prems by (simp add: header_line_ok_def)
    ultimately have "find_sub CRLF2 (l @ CR # LF # ?t) = map_option (\<lambda>n. length l + 2 + n) (find_sub CRLF2 ?t)"
      by (intro find_sub_CRLF2_line)
    with Cons.IH Cons.prems Cons show ?thesis by (simp add: join_Cons)
  qed
qed simp

lemma join_CRLF_concat: "ls \<noteq> [] \<Longrightarrow> join CRLF ls @ CRLF = concat (map (\<lambda>l. l @ CRLF) ls)"
  by (induction ls) (auto simp: join_Cons)

lemma strip_trailing_cr_simps [simp]:
  "strip_trailing_cr [] = []" "strip_trailing_cr (l @ [CR]) = l"
  by (simp_all add: strip_trailing_cr_def strip_suffix_char_def)

lemma split_header_lines:
  assumes "ls \<noteq> []" "list_all header_line_ok ls"
  shows "map strip_trailing_cr (split_on LF (join CRLF ls @ CRLF)) = ls @ [[]]"
proof -
  have "join CRLF ls @ CRLF = concat (map (\<lambda>l. l @ [LF]) (map (\<lambda>l. l @ [CR]) ls))"
    unfolding join_CRLF_concat [OF assms(1)] by (induction ls) auto
  moreover have "list_all (\<lambda>l. LF \<notin> set l) (map (\<lambda>l. l @ [CR]) ls)"
    using assms(2) by (auto simp: list_all_iff header_line_ok_def)
  ultimately have "split_on LF (join CRLF ls @ CRLF) = map (\<lambda>l. l @ [CR]) ls @ [[]]"
    by (simp only: split_on_lines)
  then show ?thesis by (simp add: o_def)
qed

lemma set_cookie_loop_eq:
  "set_cookie_loop mode lines (r, n) =
    (r @ concat (map (\<lambda>l. l @ CRLF) (if mode = Enforce then filter (\<lambda>l. \<not> is_set_cookie l) lines else lines)),
     n + length (filter is_set_cookie lines))"
  by (induction mode lines "(r, n)" arbitrary: r n rule: set_cookie_loop.induct) auto

lemma is_set_cookie_Nil [simp]: "\<not> is_set_cookie []"
  by (simp add: starts_with_ascii_case_insensitive_def)

section \<open>Properties\<close>

text \<open>C9: a DNS name is blocked exactly when a policy is active and the normalised name is one of
  the configured block domains or below one, or the filter lists block it or a parent and no
  filter-list exception covers it. So an exception of a list never cancels a block that the
  administrator configured, and every subdomain of a configured domain is blocked.\<close>
theorem dns_block_iff:
  "should_block (plan_for_dns_query e host) \<longleftrightarrow>
     \<not> pe_cfg_poisoned e \<and> pc_mode (pe_cfg e) \<noteq> Disabled \<and>
     (dns_enabled (pc_dns_block (pe_cfg e)) \<and> covered (normalize_host host) (dns_domains (pc_dns_block (pe_cfg e))) \<or>
      \<not> pe_fl_poisoned e \<and> covered (normalize_host host) (block_domains (pe_filter_list_rules e)) \<and>
        \<not> covered (normalize_host host) (exception_domains (pe_filter_list_rules e)))"
  by (auto simp: plan_for_dns_query_def Let_def fl_blocks_covered domain_in_set_or_parent_covered)

text \<open>C10: the consent matrix. With consent enforcement active, cookies of a host are filtered
  exactly when it is an analytics domain and the consent is essential-only, or it is (only) an
  advertising domain and the consent is not for everything, where the consent is that of the
  user profile of the source address, else of the nearest configured parent site, else the
  default.\<close>
theorem consent_matrix:
  assumes "\<not> pe_cfg_poisoned e" "pc_mode (pe_cfg e) \<noteq> Disabled" "ce_enabled (pc_consent_enforcement (pe_cfg e))"
    and "h = normalize_host host" and "ce = pc_consent_enforcement (pe_cfg e)"
    and "consent = (case Option.bind source_ip (ce_user_profiles ce) of Some p \<Rightarrow> up_consent p
         | None \<Rightarrow> (case nearest (ce_site_overrides ce) h of Some l \<Rightarrow> l | None \<Rightarrow> ce_default_consent ce))"
  shows "sp_enable_http1_set_cookie_filter (plan_for_host_with_source_ip e host source_ip) \<longleftrightarrow>
    (if covered h (ce_analytics_domains ce) then consent = EssentialOnly else advertising e h \<and> consent \<noteq> ConsentAll)"
proof -
  have "consent_filter (Some Advertising) (Some l) \<longleftrightarrow> l \<noteq> ConsentAll" "consent_filter (Some Analytics) (Some l) \<longleftrightarrow> l = EssentialOnly" for l
    by (cases l; simp)+
  then show ?thesis
    using assms
    by (simp add: plan_for_host_with_source_ip_def Let_def advertising_def fl_blocks_covered
        domain_in_set_or_parent_covered site_consent_nearest split: option.splits)
qed

text \<open>A disabled policy, and a policy whose lock is poisoned, is inert: no DNS name is blocked,
  no body is rewritten, no referer or query is touched, and every response header block is
  returned unchanged.\<close>
theorem disabled_policy_inert:
  assumes "pe_cfg_poisoned e \<or> pc_mode (pe_cfg e) = Disabled"
  shows "\<not> should_block (plan_for_dns_query e host) \<and>
    \<not> should_rewrite (plan_for_body_rewrite e host) \<and> \<not> referer_spoof (plan_for_body_rewrite e host) \<and>
    \<not> query_param_strip (plan_for_body_rewrite e host) \<and>
    output_headers (apply_http1_response_header_policy e host block source_ip) = block \<and>
    \<not> sp_tracker_match (plan_for_host_with_source_ip e host source_ip)"
proof (intro conjI)
  have "\<not> sp_enable_http1_set_cookie_filter (plan_for_host_with_source_ip e host source_ip)"
    using assms by (auto simp: plan_for_host_with_source_ip_def Let_def)
  then show "output_headers (apply_http1_response_header_policy e host block source_ip) = block"
    by (simp add: apply_http1_response_header_policy_def header_outcome_unchanged_def Let_def)
qed (use assms in \<open>auto simp: plan_for_dns_query_def plan_for_body_rewrite_def plan_for_host_with_source_ip_def Let_def\<close>)

text \<open>Reloading the policy is atomic: it either reports an error and the engine is unchanged, or
  the engine has a well-formed new configuration and the filter-list rules it had.\<close>
theorem policy_reload_atomic:
  "case replace_from_file J css_ok o_read d path mode_override e of
     (e', Inl err) \<Rightarrow> e' = e
   | (e', Inr summary) \<Rightarrow> config_wf css_ok (pe_cfg e') \<and> summary = describe_for_logs (pe_cfg e') \<and>
       pe_filter_list_rules e' = pe_filter_list_rules e"
proof (cases "load_policy_config_from_file J css_ok o_read d path mode_override")
  case (Inr c)
  then have "config_wf css_ok c" by (rule loaded_config_wf)
  with Inr show ?thesis by (simp add: replace_from_file_def)
qed (simp add: replace_from_file_def)

text \<open>C11: the Set-Cookie policy on a response whose header lines are well formed. In enforce mode
  the output has the status line and every header line but the Set-Cookie lines, in order, then
  the blank line, then one more line end than the input had, then the rest; in report-only mode
  the output is the input. The count is the number of Set-Cookie lines in both modes.\<close>
theorem set_cookie_policy_output:
  assumes "sp_enable_http1_set_cookie_filter (plan_for_host_with_source_ip e host source_ip)"
    and "mode = sp_mode (plan_for_host_with_source_ip e host source_ip)"
    and "list_all header_line_ok (status # headers)"
    and "block = join CRLF (status # headers) @ CRLF2 @ rest"
    and "out = apply_http1_response_header_policy e host block source_ip"
  shows "output_headers out =
      (if mode = Enforce then join CRLF (status # filter (\<lambda>l. \<not> is_set_cookie l) headers) @ CRLF2 @ CRLF @ rest else block) \<and>
    set_cookie_count out = length (filter is_set_cookie headers) \<and>
    (enforcement_applied out \<longleftrightarrow> mode = Enforce \<and> (\<exists>l\<in>set headers. is_set_cookie l)) \<and>
    (report_only_hit out \<longleftrightarrow> mode = ReportOnly \<and> (\<exists>l\<in>set headers. is_set_cookie l))"
proof -
  let ?j = "join CRLF (status # headers)"
  have "find_sub CRLF2 block = Some (length ?j)"
    unfolding assms(4) by (rule find_sub_header_block) (use assms(3) in simp_all)
  then have f: "find_headers_end block = Some (length ?j + 4)" by (simp add: find_headers_end_def)
  have "take (length ?j + 2) block = ?j @ CRLF" by (simp add: assms(4))
  then have s: "map strip_trailing_cr (split_on LF (take (length ?j + 4 - 2) block)) = status # headers @ [[]]"
    using split_header_lines [of "status # headers"] assms(3) by simp
  have d: "drop (length ?j + 4) block = rest" by (simp add: assms(4))
  have len: "filter P xs \<noteq> [] \<longleftrightarrow> (\<exists>l\<in>set xs. P l)" for P :: "bytes \<Rightarrow> bool" and xs
    by (auto simp: filter_empty_conv)
  show ?thesis
    using assms(1) join_CRLF_concat [of "status # filter (\<lambda>l. \<not> is_set_cookie l) headers"]
    unfolding assms(5) apply_http1_response_header_policy_def Let_def f option.case s list.case d
      set_cookie_loop_eq split assms(2) [symmetric]
    by (simp add: header_outcome_unchanged_def len)
qed

text \<open>A refresh that fails (every source unreadable) leaves the policy engine as it was and
  counts one failure; a refresh that succeeds installs the aggregated rules, unless the lock is
  poisoned, and stores the number of active rules.\<close>
theorem refresh_tick_outcome:
  assumes "refresh_filter_lists css_ok uri_parse sources (rf_disk s) cache_dir = (d, r)"
    and "t = refresh_tick css_ok uri_parse sources cache_dir s"
  shows "rf_disk t = d \<and> m_filter_list_refresh_total (rf_metrics t) = m_filter_list_refresh_total (rf_metrics s) + 1 \<and>
    (case r of
       Inl err \<Rightarrow> rf_engine t = rf_engine s \<and>
         m_filter_list_refresh_failed_total (rf_metrics t) = m_filter_list_refresh_failed_total (rf_metrics s) + 1
     | Inr rules \<Rightarrow> pe_cfg (rf_engine t) = pe_cfg (rf_engine s) \<and>
         (\<not> pe_fl_poisoned (rf_engine s) \<longrightarrow> pe_filter_list_rules (rf_engine t) = rules) \<and>
         m_filter_list_refresh_failed_total (rf_metrics t) = m_filter_list_refresh_failed_total (rf_metrics s) \<and>
         m_filter_list_rules_active (rf_metrics t) =
           of_nat (card (block_domains rules) + length (tracker_script_patterns rules) + length (cosmetic_selectors rules)))"
  unfolding assms(2) refresh_tick_def Let_def assms(1) split
  by (cases r) (simp_all add: inc_filter_list_refresh_total_def inc_filter_list_refresh_failed_total_def
      set_filter_list_rules_active_def replace_filter_list_rules_def)

section \<open>Witnesses\<close>

definition wit_engine :: policy_engine where
  "wit_engine = \<lparr>pe_cfg = wit_config, pe_cfg_poisoned = False, pe_filter_list_rules = fl_rules_default, pe_fl_poisoned = False\<rparr>"

definition wit_consent :: consent_enforcement_rule where
  "wit_consent = \<lparr>ce_enabled = True, ce_default_consent = AnalyticsOk, ce_analytics_domains = {''stats.example''},
     ce_site_overrides = [''shop.example'' \<mapsto> ConsentAll], ce_user_profiles = Map.empty\<rparr>"

definition wit_consent_engine :: policy_engine where
  "wit_consent_engine = wit_engine\<lparr>pe_cfg := wit_config\<lparr>pc_consent_enforcement := wit_consent\<rparr>\<rparr>"

lemma wit_hosts: "normalize_host ''www.t.example'' = ''www.t.example''" "parents ''www.t.example'' = [''t.example'', ''example'']"
  by code_simp+

theorem consent_matrix_witness:
  "sp_enable_http1_set_cookie_filter (plan_for_host_with_source_ip wit_consent_engine ''www.t.example'' (Some ''10.0.0.9''))"
proof -
  have "sp_enable_http1_set_cookie_filter (plan_for_host_with_source_ip wit_consent_engine ''www.t.example'' (Some ''10.0.0.9'')) \<longleftrightarrow>
    (if covered ''www.t.example'' (ce_analytics_domains wit_consent) then AnalyticsOk = EssentialOnly
     else advertising wit_consent_engine ''www.t.example'' \<and> AnalyticsOk \<noteq> ConsentAll)"
  proof (rule consent_matrix)
    show "AnalyticsOk = (case Option.bind (Some ''10.0.0.9'') (ce_user_profiles wit_consent) of Some p \<Rightarrow> up_consent p
       | None \<Rightarrow> (case nearest (ce_site_overrides wit_consent) ''www.t.example'' of Some l \<Rightarrow> l | None \<Rightarrow> ce_default_consent wit_consent))"
      by (simp add: wit_consent_def nearest_def wit_hosts)
  qed (simp_all add: wit_consent_engine_def wit_engine_def wit_config_def wit_consent_def wit_hosts)
  moreover have "advertising wit_consent_engine ''www.t.example''"
    by (simp add: advertising_def wit_consent_engine_def wit_engine_def wit_config_def covered_def suffix_def)
  moreover have "\<not> covered ''www.t.example'' (ce_analytics_domains wit_consent)"
    by (simp add: covered_def wit_consent_def suffix_to_prefix)
  ultimately show ?thesis by simp
qed

theorem disabled_policy_inert_witness:
  "\<not> should_block (plan_for_dns_query (wit_engine\<lparr>pe_cfg := wit_config\<lparr>pc_mode := Disabled\<rparr>\<rparr>) ''ads.example'')"
  using disabled_policy_inert [of "wit_engine\<lparr>pe_cfg := wit_config\<lparr>pc_mode := Disabled\<rparr>\<rparr>" "''ads.example''" "[]" None] by simp

theorem set_cookie_policy_output_witness:
  "output_headers (apply_http1_response_header_policy wit_engine ''www.t.example''
      (join CRLF [''HTTP/1.1 200 OK'', ''Set-COOKIE: id=1'', ''Content-Length: 2''] @ CRLF2 @ ''hi'') None)
   = join CRLF [''HTTP/1.1 200 OK'', ''Content-Length: 2''] @ CRLF2 @ CRLF @ ''hi''"
proof -
  let ?plan = "plan_for_host_with_source_ip wit_engine ''www.t.example'' None"
  have "covered ''www.t.example'' {''t.example''}" by (simp add: covered_def suffix_def)
  then have p: "sp_enable_http1_set_cookie_filter ?plan" "sp_mode ?plan = Enforce"
    by (simp_all add: plan_for_host_with_source_ip_def wit_hosts wit_engine_def wit_config_def consent_default_def
        domain_in_set_or_parent_covered Let_def)
  have c: "filter (\<lambda>l. \<not> is_set_cookie l) [''Set-COOKIE: id=1'', ''Content-Length: 2''] = [''Content-Length: 2'']"
    by code_simp
  have ok: "list_all header_line_ok [''HTTP/1.1 200 OK'', ''Set-COOKIE: id=1'', ''Content-Length: 2'']"
    by code_simp
  show ?thesis
    using set_cookie_policy_output [OF p(1) p(2) [symmetric] ok refl refl, of "''hi''"] unfolding c by simp
qed

theorem refresh_tick_outcome_witness:
  "rf_engine (refresh_tick (\<lambda>s. True) wit_uri [(\<lparr>origin = ''/lists/missing.txt'', fl_kind = LocalFile\<rparr>, wit_env False)] ''/cache''
     \<lparr>rf_engine = wit_engine, rf_metrics = metrics_default, rf_disk = Map.empty\<rparr>) = wit_engine"
proof -
  have "refresh_filter_lists (\<lambda>s. True) wit_uri [(\<lparr>origin = ''/lists/missing.txt'', fl_kind = LocalFile\<rparr>, wit_env False)]
      (rf_disk \<lparr>rf_engine = wit_engine, rf_metrics = metrics_default, rf_disk = Map.empty\<rparr>) ''/cache''
    = (Map.empty, Err (IoError Other ''all filter list sources failed''))"
    by (simp add: refresh_filter_lists_def load_source_def read_to_string_def wit_env_def)
  from refresh_tick_outcome [OF this refl] show ?thesis by simp
qed

end
