(* ===== verification/Host_Store.thy ===== *)
theory Host_Store
  imports Hosts File_Store Json_Api
begin

text \<open>
  \<^verbatim>\<open>src/host_store.rs\<close>: the set of pass-through (pinned) hosts with its JSON file. The state
  is the path, the set behind the lock, whether the lock is poisoned, and the creation time
  (in nanoseconds of the monotonic clock). Operations take the disk and the operating
  system's answers and return the new disk, the new state and the result.

  The locale \<open>host_keyed_store\<close> is the contract that the routing code relies on and that the
  three stores keyed by normalised host names keep; it is interpreted for the pinned hosts
  here and for the certificate pins and the receipts in their theories.
\<close>

section \<open>The contract of a store keyed by normalised host names\<close>

locale host_keyed_store =
  fixes norm :: "bytes \<Rightarrow> bytes"
    and accepts :: "bytes \<Rightarrow> bool"
    and ins :: "bytes \<Rightarrow> 's \<Rightarrow> 's"
    and mem :: "'s \<Rightarrow> bytes \<Rightarrow> bool"
  assumes mem_ins: "mem (ins h s) g \<longleftrightarrow> accepts (norm h) \<and> norm g = norm h \<or> mem s g"
    and mem_norm: "norm g = norm h \<Longrightarrow> mem s g = mem s h"
begin

lemma mem_ins_self: "accepts (norm h) \<Longrightarrow> mem (ins h s) h"
  by (simp add: mem_ins)

lemma mem_ins_mono: "mem s g \<Longrightarrow> mem (ins h s) g"
  by (simp add: mem_ins)

lemma mem_fold_ins:
  "mem (fold ins hs s) g \<longleftrightarrow> (\<exists>h\<in>set hs. accepts (norm h) \<and> norm g = norm h) \<or> mem s g"
  by (induction hs arbitrary: s) (auto simp: mem_ins)

text \<open>The order in which hosts arrive, and how they are spelled, does not matter.\<close>

lemma mem_fold_cong:
  assumes "norm ` set hs = norm ` set hs'"
  shows "mem (fold ins hs s) g = mem (fold ins hs' s) g"
proof -
  have "(\<exists>h\<in>set l. accepts (norm h) \<and> norm g = norm h) \<longleftrightarrow> norm g \<in> norm ` set l \<and> accepts (norm g)" for l
    by auto
  with assms show ?thesis by (simp add: mem_fold_ins)
qed

end

section \<open>The pinned hosts\<close>

record pinned_hosts =
  ph_path :: path
  ph_hosts :: "bytes set"
  ph_poisoned :: bool
  ph_created_at :: nat

definition lock_error :: "string \<Rightarrow> io_error" where
  "lock_error what = IoError Other (what @ '' lock poisoned: poisoned lock: another task failed inside'')"

definition persist_pinned_hosts ::
  "'v json_api \<Rightarrow> fs_outcome \<Rightarrow> disk \<Rightarrow> path \<Rightarrow> bytes set \<Rightarrow> disk \<times> unit io_result" where
  "persist_pinned_hosts J env d path hosts =
    (let sorted_hosts = sorted_list_of_set hosts in
     case print_strings J sorted_hosts of
       Inl e \<Rightarrow> (d, Err (IoError InvalidData (''failed to serialize pinned hosts: '' @ e)))
     | Inr json \<Rightarrow> replace_file env d (with_extension ''tmp'' path) path json)"

definition load_pinned_hosts ::
  "'v json_api \<Rightarrow> io_error option \<Rightarrow> disk \<Rightarrow> path \<Rightarrow> bytes set io_result" where
  "load_pinned_hosts J o_read d path =
    (if d path = None then Ok {}
     else and_then (read_to_string o_read d path) (\<lambda>raw.
       case parse_strings J raw of
         Inl e \<Rightarrow> Err (IoError InvalidData (''invalid pinned-hosts JSON: '' @ e))
       | Inr parsed \<Rightarrow> Ok (fold (\<lambda>host hosts. let normalized = normalize_host host in
           if normalized \<noteq> [] then insert normalized hosts else hosts) parsed {})))"

definition pinned_load ::
  "'v json_api \<Rightarrow> io_error option \<Rightarrow> disk \<Rightarrow> path \<Rightarrow> nat \<Rightarrow> pinned_hosts io_result" where
  "pinned_load J o_read d path now =
    and_then (load_pinned_hosts J o_read d path)
      (\<lambda>hosts. Ok \<lparr>ph_path = path, ph_hosts = hosts, ph_poisoned = False, ph_created_at = now\<rparr>)"

definition pinned_len :: "pinned_hosts \<Rightarrow> nat io_result" where
  "pinned_len ph = (if ph_poisoned ph then Err (lock_error ''pinned-host'') else Ok (card (ph_hosts ph)))"

definition pinned_contains :: "pinned_hosts \<Rightarrow> bytes \<Rightarrow> bool io_result" where
  "pinned_contains ph host = (let normalized = normalize_host host in
     if ph_poisoned ph then Err (lock_error ''pinned-host'') else Ok (normalized \<in> ph_hosts ph))"

definition add_and_persist ::
  "'v json_api \<Rightarrow> fs_outcome \<Rightarrow> disk \<Rightarrow> pinned_hosts \<Rightarrow> bytes \<Rightarrow> disk \<times> pinned_hosts \<times> bool io_result" where
  "add_and_persist J env d ph host =
    (let normalized = normalize_host host in
     if normalized = [] then (d, ph, Ok False)
     else if ph_poisoned ph then (d, ph, Err (lock_error ''pinned-host''))
     else if normalized \<in> ph_hosts ph then (d, ph, Ok False)
     else
       let ph' = ph\<lparr>ph_hosts := insert normalized (ph_hosts ph)\<rparr>;
           (d', r) = persist_pinned_hosts J env d (ph_path ph') (ph_hosts ph')
       in (d', ph', case r of Inl e \<Rightarrow> Err e | Inr _ \<Rightarrow> Ok True))"

definition clear_and_persist ::
  "'v json_api \<Rightarrow> fs_outcome \<Rightarrow> disk \<Rightarrow> pinned_hosts \<Rightarrow> disk \<times> pinned_hosts \<times> nat io_result" where
  "clear_and_persist J env d ph =
    (if ph_poisoned ph then (d, ph, Err (lock_error ''pinned-host''))
     else
       let removed = card (ph_hosts ph);
           ph' = ph\<lparr>ph_hosts := {}\<rparr>;
           (d', r) = persist_pinned_hosts J env d (ph_path ph') (ph_hosts ph')
       in (d', ph', case r of Inl e \<Rightarrow> Err e | Inr _ \<Rightarrow> Ok removed))"

definition pinned_age :: "pinned_hosts \<Rightarrow> nat \<Rightarrow> nat" where
  "pinned_age ph now = now - ph_created_at ph"

definition in_grace_period :: "pinned_hosts \<Rightarrow> nat \<Rightarrow> nat \<Rightarrow> bool" where
  "in_grace_period ph now duration \<longleftrightarrow> now - ph_created_at ph < duration"

definition host_from_authority :: "bytes \<Rightarrow> bytes option" where
  "host_from_authority authority =
    (if authority = [] then None
     else if hd authority = CHR ''['' then
       (case find_char CHR '']'' authority of None \<Rightarrow> None
        | Some end_idx \<Rightarrow> Some (normalize_host (take (end_idx - 1) (drop 1 authority))))
     else
       let host = (case rsplit_once CHR '':'' authority of None \<Rightarrow> authority | Some (h, _) \<Rightarrow> h)
       in Some (normalize_host host))"

section \<open>Lemmas\<close>

definition pins_wf :: "pinned_hosts \<Rightarrow> bool" where
  "pins_wf ph \<longleftrightarrow> finite (ph_hosts ph) \<and> [] \<notin> ph_hosts ph"

lemma fold_normalized_insert:
  "fold (\<lambda>host hosts. let normalized = normalize_host host in
      if normalized \<noteq> [] then insert normalized hosts else hosts) xs S
   = S \<union> (normalize_host ` set xs - {[]})"
  by (induction xs arbitrary: S) (auto simp: Let_def)

lemma load_pinned_hosts_wf:
  "load_pinned_hosts J o_read d path = Ok hosts \<Longrightarrow> finite hosts \<and> [] \<notin> hosts"
  by (cases "read_to_string o_read d path"; cases "parse_strings J (projr (read_to_string o_read d path))")
     (auto simp: load_pinned_hosts_def fold_normalized_insert split: if_splits)

lemma add_and_persist_wf: "pins_wf ph \<Longrightarrow> pins_wf (fst (snd (add_and_persist J env d ph host)))"
  by (auto simp: add_and_persist_def pins_wf_def Let_def split: prod.splits)

lemma clear_and_persist_wf: "pins_wf ph \<Longrightarrow> pins_wf (fst (snd (clear_and_persist J env d ph)))"
  by (auto simp: clear_and_persist_def pins_wf_def Let_def split: prod.splits)

lemma add_and_persist_hosts:
  "ph_hosts (fst (snd (add_and_persist J env d ph host))) =
     (if normalize_host host = [] \<or> ph_poisoned ph then ph_hosts ph
      else insert (normalize_host host) (ph_hosts ph))"
  by (auto simp: add_and_persist_def Let_def split: prod.splits)

lemma add_and_persist_frame:
  "ph_path (fst (snd (add_and_persist J env d ph host))) = ph_path ph"
  "ph_poisoned (fst (snd (add_and_persist J env d ph host))) = ph_poisoned ph"
  "ph_created_at (fst (snd (add_and_persist J env d ph host))) = ph_created_at ph"
  by (auto simp: add_and_persist_def Let_def split: prod.splits)

lemma persist_then_load:
  assumes "json_laws J" "finite hosts" "p_ext path \<noteq> Some ''tmp''"
    and "persist_pinned_hosts J env d path hosts = (d', Ok ())"
  shows "load_pinned_hosts J None d' path = Ok (normalize_host ` hosts - {[]})"
proof -
  obtain t where t: "print_strings J (sorted_list_of_set hosts) = Inr t"
    and r: "replace_file env d (with_extension ''tmp'' path) path t = (d', Ok ())"
    using assms(4) by (auto simp: persist_pinned_hosts_def Let_def split: sum.splits)
  from replace_file_Ok [of env d "with_extension ''tmp'' path" path t] r
  have "d' path = Some t" using with_extension_neq [OF assms(3)] by simp
  with t assms(1,2) show ?thesis
    by (simp add: load_pinned_hosts_def read_to_string_def json_lawsD fold_normalized_insert)
qed

text \<open>The in-memory effect of pinning, as the contract sees it; the store keeps it whatever the
  file system answers.\<close>

interpretation pins: host_keyed_store normalize_host "\<lambda>n. n \<noteq> []"
  "\<lambda>h s. ph_hosts (fst (snd (add_and_persist J env d \<lparr>ph_path = p, ph_hosts = s, ph_poisoned = False, ph_created_at = c\<rparr> h)))"
  "\<lambda>s g. pinned_contains \<lparr>ph_path = p, ph_hosts = s, ph_poisoned = False, ph_created_at = c\<rparr> g = Ok True"
  for J :: "'v json_api" and env d p c
  by unfold_locales (auto simp: add_and_persist_hosts pinned_contains_def Let_def)

text \<open>C27: Pinning a host: when \<open>add_and_persist\<close> returns \<open>Ok(true)\<close> the host (in any spelling with
  the same normal form) is in the set, the file holds the serialised sorted set, no file
  other than the store and its temporary changed, and loading that file gives back exactly
  the set in memory, when the pinned names are in normal form.
\<close>
theorem add_and_persist_durable:
  assumes "json_laws J" "pins_wf ph" "p_ext (ph_path ph) \<noteq> Some ''tmp''"
    and "\<forall>h \<in> insert (normalize_host host) (ph_hosts ph). normalize_host h = h"
    and "add_and_persist J env d ph host = (d', ph', Ok True)"
  shows "pinned_contains ph' g = Ok (normalize_host g = normalize_host host \<or> normalize_host g \<in> ph_hosts ph)
    \<and> load_pinned_hosts J None d' (ph_path ph) = Ok (ph_hosts ph')
    \<and> (\<forall>q. q \<noteq> ph_path ph \<and> q \<noteq> with_extension ''tmp'' (ph_path ph) \<longrightarrow> d' q = d q)"
proof -
  from assms(5) have n: "normalize_host host \<noteq> []" "\<not> ph_poisoned ph"
    and ph': "ph' = ph\<lparr>ph_hosts := insert (normalize_host host) (ph_hosts ph)\<rparr>"
    and ps: "persist_pinned_hosts J env d (ph_path ph) (ph_hosts ph') = (d', Ok ())"
    by (auto simp: add_and_persist_def Let_def split: if_splits prod.splits sum.splits)
  have "load_pinned_hosts J None d' (ph_path ph) = Ok (normalize_host ` ph_hosts ph' - {[]})"
    using persist_then_load [OF assms(1) _ assms(3) ps] assms(2) ph' by (simp add: pins_wf_def)
  moreover have "normalize_host ` ph_hosts ph' - {[]} = ph_hosts ph'"
    using assms(2,4) n ph' by (force simp: pins_wf_def)
  moreover have "q \<noteq> ph_path ph \<and> q \<noteq> with_extension ''tmp'' (ph_path ph) \<longrightarrow> d' q = d q" for q
    using ps replace_file_frame [of q "ph_path ph" "with_extension ''tmp'' (ph_path ph)" env d]
    by (auto simp: persist_pinned_hosts_def Let_def split: sum.splits) (metis fst_conv)
  ultimately show ?thesis using n ph' by (auto simp: pinned_contains_def Let_def)
qed

theorem add_and_persist_durable_witness:
  "load_pinned_hosts (jdoc JNull) None
     (fst (add_and_persist (jdoc JNull) fs_all_ok Map.empty
       \<lparr>ph_path = \<lparr>p_dir = ''/tmp'', p_stem = ''pins'', p_ext = Some ''json''\<rparr>, ph_hosts = {''a.example''},
         ph_poisoned = False, ph_created_at = 0\<rparr> ''Bank.COM.''))
     \<lparr>p_dir = ''/tmp'', p_stem = ''pins'', p_ext = Some ''json''\<rparr>
   = Ok {''a.example'', ''bank.com''}"
proof -
  let ?ph = "\<lparr>ph_path = \<lparr>p_dir = ''/tmp'', p_stem = ''pins'', p_ext = Some ''json''\<rparr>, ph_hosts = {''a.example''},
    ph_poisoned = False, ph_created_at = 0\<rparr>"
  have n: "normalize_host ''Bank.COM.'' = ''bank.com''" by code_simp
  have n2: "normalize_host ''a.example'' = ''a.example''" "normalize_host ''bank.com'' = ''bank.com''" by code_simp+
  obtain d' ph' r where e: "add_and_persist (jdoc JNull) fs_all_ok Map.empty ?ph ''Bank.COM.'' = (d', ph', r)"
    by (metis prod_cases3)
  then have "r = Ok True" "ph_hosts ph' = {''a.example'', ''bank.com''}"
    by (auto simp: add_and_persist_def Let_def n persist_pinned_hosts_def jdoc_def j_print_strings_def
        replace_file_def fs_all_ok_def split: prod.splits if_splits)
  then show ?thesis
    using add_and_persist_durable [OF json_laws_jdoc, of ?ph "''Bank.COM.''" JNull fs_all_ok Map.empty d' ph'] e
    by (simp add: pins_wf_def n n2 insert_commute)
qed

text \<open>When writing the file fails, \<open>add_and_persist\<close> returns the error but the host stays in
  the set; a repeated call for the same host then returns \<open>Ok(false)\<close> and writes nothing,
  whatever the disk would answer, so the pin is not retried and is lost on restart.
\<close>
theorem add_and_persist_error_not_retried:
  assumes "add_and_persist J env d ph host = (d', ph', Err e)" "\<not> ph_poisoned ph"
  shows "pinned_contains ph' host = Ok True \<and> add_and_persist J env2 d2 ph' host = (d2, ph', Ok False)"
  using assms by (auto simp: add_and_persist_def pinned_contains_def Let_def split: if_splits prod.splits sum.splits)

theorem add_and_persist_error_not_retried_witness:
  "add_and_persist (jdoc JNull) fs_all_ok Map.empty
     (fst (snd (add_and_persist (jdoc JNull) (fs_all_ok\<lparr>o_mkdir := Some (IoError PermissionDenied ''denied'')\<rparr>) Map.empty
       \<lparr>ph_path = \<lparr>p_dir = ''/ro'', p_stem = ''pins'', p_ext = Some ''json''\<rparr>, ph_hosts = {},
         ph_poisoned = False, ph_created_at = 0\<rparr> ''bank.com''))) ''bank.com''
   = (Map.empty, \<lparr>ph_path = \<lparr>p_dir = ''/ro'', p_stem = ''pins'', p_ext = Some ''json''\<rparr>, ph_hosts = {''bank.com''},
         ph_poisoned = False, ph_created_at = 0\<rparr>, Ok False)"
proof -
  let ?ph = "\<lparr>ph_path = \<lparr>p_dir = ''/ro'', p_stem = ''pins'', p_ext = Some ''json''\<rparr>, ph_hosts = {},
    ph_poisoned = False, ph_created_at = 0\<rparr>"
  let ?env = "fs_all_ok\<lparr>o_mkdir := Some (IoError PermissionDenied ''denied'')\<rparr>"
  have n: "normalize_host ''bank.com'' = ''bank.com''" by code_simp
  have e: "add_and_persist (jdoc JNull) ?env Map.empty ?ph ''bank.com'' =
    (Map.empty, ?ph\<lparr>ph_hosts := {''bank.com''}\<rparr>, Err (IoError PermissionDenied ''denied''))"
    by (simp add: add_and_persist_def n persist_pinned_hosts_def jdoc_def j_print_strings_def replace_file_def)
  from add_and_persist_error_not_retried [OF e, of fs_all_ok Map.empty] e show ?thesis by simp
qed

text \<open>\<open>host_from_authority\<close> inverts the formatting of an authority: for a host without a colon
  and bracket it strips the port, for a bracketed IPv6 literal the brackets and whatever
  follows, and it returns \<open>None\<close> exactly for the empty string and an unclosed bracket.
\<close>
theorem host_from_authority_spec:
  "(h \<noteq> [] \<and> hd h \<noteq> CHR ''['' \<and> CHR '':'' \<notin> set port \<longrightarrow>
      host_from_authority (h @ CHR '':'' # port) = Some (normalize_host h)) \<and>
   (CHR '']'' \<notin> set v6 \<longrightarrow>
      host_from_authority (CHR ''['' # v6 @ CHR '']'' # rest) = Some (normalize_host v6)) \<and>
   (host_from_authority a = None \<longleftrightarrow> a = [] \<or> hd a = CHR ''['' \<and> CHR '']'' \<notin> set a)"
proof (intro conjI impI)
  assume h: "h \<noteq> [] \<and> hd h \<noteq> CHR ''['' \<and> CHR '':'' \<notin> set port"
  then have "rsplit_once CHR '':'' (h @ CHR '':'' # port) = Some (h, port)"
    by (simp add: rsplit_once_Some_iff)
  with h show "host_from_authority (h @ CHR '':'' # port) = Some (normalize_host h)"
    by (simp add: host_from_authority_def)
next
  assume v: "CHR '']'' \<notin> set v6"
  then show "host_from_authority (CHR ''['' # v6 @ CHR '']'' # rest) = Some (normalize_host v6)"
    using find_char_append [of "CHR '']''" "CHR ''['' # v6" rest] by (simp add: host_from_authority_def)
next
  show "host_from_authority a = None \<longleftrightarrow> a = [] \<or> hd a = CHR ''['' \<and> CHR '']'' \<notin> set a"
    by (auto simp: host_from_authority_def find_char_def Let_def split: option.splits if_splits)
qed

theorem host_from_authority_spec_witness:
  "host_from_authority ''Example.COM:443'' = Some ''example.com''"
proof -
  have "normalize_host ''Example.COM'' = ''example.com''" by code_simp
  with host_from_authority_spec [of "''Example.COM''" "''443''"] show ?thesis by simp
qed

end
