(* ===== verification/Receipts.thy ===== *)
theory Receipts
  imports Host_Store
begin

text \<open>
  \<^verbatim>\<open>src/receipts.rs\<close>: the per-host receipts, their JSON form and file, the recording
  operations on the shared store, the flush, and the figures of the reports. Counters are
  \<^typ>\<open>u64\<close> and saturate; wall-clock seconds are arguments. This theory has the selection, order
  and totals of what the reports print, and the HTML escaping; \<open>Receipts_Report\<close> has their text.
\<close>

record host_receipt =
  hr_seen_total :: u64
  hr_routing_mitm_total :: u64
  hr_routing_passthrough_total :: u64
  hr_mitm_attempt_total :: u64
  hr_mitm_success_total :: u64
  hr_mitm_failure_total :: u64
  hr_mitm_client_tls_reject_total :: u64
  hr_host_auto_pinned_total :: u64
  hr_policy_set_cookie_would_strip_total :: u64
  hr_policy_set_cookie_stripped_total :: u64
  hr_policy_set_cookie_headers_total :: u64
  hr_dns_blocked_total :: u64
  hr_dns_report_only_total :: u64
  hr_dns_cname_uncloaked_total :: u64
  hr_consent_enforcement_blocked_total :: u64
  hr_consent_enforcement_report_only_total :: u64
  hr_body_rewrite_total :: u64
  hr_body_rewrite_report_only_total :: u64
  hr_body_rewrite_skipped_total :: u64
  hr_body_rewrite_removed_script_total :: u64
  hr_body_rewrite_removed_pixel_total :: u64
  hr_body_rewrite_removed_cosmetic_total :: u64
  hr_body_rewrite_bytes_saved_total :: u64
  hr_body_rewrite_removed_script_report_only_total :: u64
  hr_body_rewrite_removed_pixel_report_only_total :: u64
  hr_body_rewrite_removed_cosmetic_report_only_total :: u64
  hr_body_rewrite_bytes_saved_report_only_total :: u64
  hr_websocket_blocked_total :: u64
  hr_referer_spoofed_total :: u64
  hr_cert_pin_violation_total :: u64
  hr_query_params_stripped_total :: u64
  hr_cache_headers_stripped_total :: u64
  hr_last_seen_unix :: u64
  hr_last_flow :: "bytes option"
  hr_last_action :: "bytes option"
  hr_last_reason :: "bytes option"

definition host_receipt_default :: host_receipt where
  "host_receipt_default = \<lparr>hr_seen_total = 0, hr_routing_mitm_total = 0, hr_routing_passthrough_total = 0,
     hr_mitm_attempt_total = 0, hr_mitm_success_total = 0, hr_mitm_failure_total = 0,
     hr_mitm_client_tls_reject_total = 0, hr_host_auto_pinned_total = 0, hr_policy_set_cookie_would_strip_total = 0,
     hr_policy_set_cookie_stripped_total = 0, hr_policy_set_cookie_headers_total = 0, hr_dns_blocked_total = 0,
     hr_dns_report_only_total = 0, hr_dns_cname_uncloaked_total = 0, hr_consent_enforcement_blocked_total = 0,
     hr_consent_enforcement_report_only_total = 0, hr_body_rewrite_total = 0, hr_body_rewrite_report_only_total = 0,
     hr_body_rewrite_skipped_total = 0, hr_body_rewrite_removed_script_total = 0, hr_body_rewrite_removed_pixel_total = 0,
     hr_body_rewrite_removed_cosmetic_total = 0, hr_body_rewrite_bytes_saved_total = 0, hr_body_rewrite_removed_script_report_only_total = 0,
     hr_body_rewrite_removed_pixel_report_only_total = 0, hr_body_rewrite_removed_cosmetic_report_only_total = 0, hr_body_rewrite_bytes_saved_report_only_total = 0,
     hr_websocket_blocked_total = 0, hr_referer_spoofed_total = 0, hr_cert_pin_violation_total = 0,
     hr_query_params_stripped_total = 0, hr_cache_headers_stripped_total = 0, hr_last_seen_unix = 0,
     hr_last_flow = None, hr_last_action = None, hr_last_reason = None\<rparr>"

definition touch :: "u64 \<Rightarrow> bytes \<Rightarrow> bytes \<Rightarrow> bytes \<Rightarrow> host_receipt \<Rightarrow> host_receipt" where
  "touch now flow action reason r =
    (let r = r\<lparr>hr_seen_total := sat_add (hr_seen_total r) 1, hr_last_seen_unix := now,
           hr_last_flow := Some flow, hr_last_action := Some action, hr_last_reason := Some reason\<rparr>
     in if action = ''mitm'' then r\<lparr>hr_routing_mitm_total := sat_add (hr_routing_mitm_total r) 1\<rparr>
        else if action = ''passthrough'' then
          r\<lparr>hr_routing_passthrough_total := sat_add (hr_routing_passthrough_total r) 1\<rparr>
        else r)"

definition opt_str :: "'v json_api \<Rightarrow> bytes option \<Rightarrow> 'v" where
  "opt_str J s = (case s of None \<Rightarrow> mk_null J | Some t \<Rightarrow> mk_str J t)"

definition receipt_entries :: "'v json_api \<Rightarrow> host_receipt \<Rightarrow> (bytes \<times> 'v) list" where
  "receipt_entries J r =
    [(''body_rewrite_bytes_saved_report_only_total'', mk_u64 J (hr_body_rewrite_bytes_saved_report_only_total r)),
     (''body_rewrite_bytes_saved_total'', mk_u64 J (hr_body_rewrite_bytes_saved_total r)),
     (''body_rewrite_removed_cosmetic_report_only_total'', mk_u64 J (hr_body_rewrite_removed_cosmetic_report_only_total r)),
     (''body_rewrite_removed_cosmetic_total'', mk_u64 J (hr_body_rewrite_removed_cosmetic_total r)),
     (''body_rewrite_removed_pixel_report_only_total'', mk_u64 J (hr_body_rewrite_removed_pixel_report_only_total r)),
     (''body_rewrite_removed_pixel_total'', mk_u64 J (hr_body_rewrite_removed_pixel_total r)),
     (''body_rewrite_removed_script_report_only_total'', mk_u64 J (hr_body_rewrite_removed_script_report_only_total r)),
     (''body_rewrite_removed_script_total'', mk_u64 J (hr_body_rewrite_removed_script_total r)),
     (''body_rewrite_report_only_total'', mk_u64 J (hr_body_rewrite_report_only_total r)),
     (''body_rewrite_skipped_total'', mk_u64 J (hr_body_rewrite_skipped_total r)),
     (''body_rewrite_total'', mk_u64 J (hr_body_rewrite_total r)),
     (''cache_headers_stripped_total'', mk_u64 J (hr_cache_headers_stripped_total r)),
     (''cert_pin_violation_total'', mk_u64 J (hr_cert_pin_violation_total r)),
     (''consent_enforcement_blocked_total'', mk_u64 J (hr_consent_enforcement_blocked_total r)),
     (''consent_enforcement_report_only_total'', mk_u64 J (hr_consent_enforcement_report_only_total r)),
     (''dns_blocked_total'', mk_u64 J (hr_dns_blocked_total r)),
     (''dns_cname_uncloaked_total'', mk_u64 J (hr_dns_cname_uncloaked_total r)),
     (''dns_report_only_total'', mk_u64 J (hr_dns_report_only_total r)),
     (''host_auto_pinned_total'', mk_u64 J (hr_host_auto_pinned_total r)),
     (''last_action'', opt_str J (hr_last_action r)),
     (''last_flow'', opt_str J (hr_last_flow r)),
     (''last_reason'', opt_str J (hr_last_reason r)),
     (''last_seen_unix'', mk_u64 J (hr_last_seen_unix r)),
     (''mitm_attempt_total'', mk_u64 J (hr_mitm_attempt_total r)),
     (''mitm_client_tls_reject_total'', mk_u64 J (hr_mitm_client_tls_reject_total r)),
     (''mitm_failure_total'', mk_u64 J (hr_mitm_failure_total r)),
     (''mitm_success_total'', mk_u64 J (hr_mitm_success_total r)),
     (''policy_set_cookie_headers_total'', mk_u64 J (hr_policy_set_cookie_headers_total r)),
     (''policy_set_cookie_stripped_total'', mk_u64 J (hr_policy_set_cookie_stripped_total r)),
     (''policy_set_cookie_would_strip_total'', mk_u64 J (hr_policy_set_cookie_would_strip_total r)),
     (''query_params_stripped_total'', mk_u64 J (hr_query_params_stripped_total r)),
     (''referer_spoofed_total'', mk_u64 J (hr_referer_spoofed_total r)),
     (''routing_mitm_total'', mk_u64 J (hr_routing_mitm_total r)),
     (''routing_passthrough_total'', mk_u64 J (hr_routing_passthrough_total r)),
     (''seen_total'', mk_u64 J (hr_seen_total r)),
     (''websocket_blocked_total'', mk_u64 J (hr_websocket_blocked_total r))]"

definition receipt_as_json :: "'v json_api \<Rightarrow> host_receipt \<Rightarrow> 'v" where
  "receipt_as_json J r = mk_object J (receipt_entries J r)"

definition receipt_u64 :: "'v json_api \<Rightarrow> 'v \<Rightarrow> bytes \<Rightarrow> u64" where
  "receipt_u64 J v k = (case Option.bind (Option.bind (as_object J v) (\<lambda>m. get m k)) (as_u64 J) of None \<Rightarrow> 0 | Some n \<Rightarrow> n)"

definition receipt_string :: "'v json_api \<Rightarrow> 'v \<Rightarrow> bytes \<Rightarrow> bytes option" where
  "receipt_string J v k = Option.bind (Option.bind (as_object J v) (\<lambda>m. get m k)) (as_str J)"

definition receipt_from_json :: "'v json_api \<Rightarrow> 'v \<Rightarrow> host_receipt" where
  "receipt_from_json J v = \<lparr>
     hr_seen_total = receipt_u64 J v ''seen_total'',
     hr_routing_mitm_total = receipt_u64 J v ''routing_mitm_total'',
     hr_routing_passthrough_total = receipt_u64 J v ''routing_passthrough_total'',
     hr_mitm_attempt_total = receipt_u64 J v ''mitm_attempt_total'',
     hr_mitm_success_total = receipt_u64 J v ''mitm_success_total'',
     hr_mitm_failure_total = receipt_u64 J v ''mitm_failure_total'',
     hr_mitm_client_tls_reject_total = receipt_u64 J v ''mitm_client_tls_reject_total'',
     hr_host_auto_pinned_total = receipt_u64 J v ''host_auto_pinned_total'',
     hr_policy_set_cookie_would_strip_total = receipt_u64 J v ''policy_set_cookie_would_strip_total'',
     hr_policy_set_cookie_stripped_total = receipt_u64 J v ''policy_set_cookie_stripped_total'',
     hr_policy_set_cookie_headers_total = receipt_u64 J v ''policy_set_cookie_headers_total'',
     hr_dns_blocked_total = receipt_u64 J v ''dns_blocked_total'',
     hr_dns_report_only_total = receipt_u64 J v ''dns_report_only_total'',
     hr_dns_cname_uncloaked_total = receipt_u64 J v ''dns_cname_uncloaked_total'',
     hr_consent_enforcement_blocked_total = receipt_u64 J v ''consent_enforcement_blocked_total'',
     hr_consent_enforcement_report_only_total = receipt_u64 J v ''consent_enforcement_report_only_total'',
     hr_body_rewrite_total = receipt_u64 J v ''body_rewrite_total'',
     hr_body_rewrite_report_only_total = receipt_u64 J v ''body_rewrite_report_only_total'',
     hr_body_rewrite_skipped_total = receipt_u64 J v ''body_rewrite_skipped_total'',
     hr_body_rewrite_removed_script_total = receipt_u64 J v ''body_rewrite_removed_script_total'',
     hr_body_rewrite_removed_pixel_total = receipt_u64 J v ''body_rewrite_removed_pixel_total'',
     hr_body_rewrite_removed_cosmetic_total = receipt_u64 J v ''body_rewrite_removed_cosmetic_total'',
     hr_body_rewrite_bytes_saved_total = receipt_u64 J v ''body_rewrite_bytes_saved_total'',
     hr_body_rewrite_removed_script_report_only_total = receipt_u64 J v ''body_rewrite_removed_script_report_only_total'',
     hr_body_rewrite_removed_pixel_report_only_total = receipt_u64 J v ''body_rewrite_removed_pixel_report_only_total'',
     hr_body_rewrite_removed_cosmetic_report_only_total = receipt_u64 J v ''body_rewrite_removed_cosmetic_report_only_total'',
     hr_body_rewrite_bytes_saved_report_only_total = receipt_u64 J v ''body_rewrite_bytes_saved_report_only_total'',
     hr_websocket_blocked_total = receipt_u64 J v ''websocket_blocked_total'',
     hr_referer_spoofed_total = receipt_u64 J v ''referer_spoofed_total'',
     hr_cert_pin_violation_total = receipt_u64 J v ''cert_pin_violation_total'',
     hr_query_params_stripped_total = receipt_u64 J v ''query_params_stripped_total'',
     hr_cache_headers_stripped_total = receipt_u64 J v ''cache_headers_stripped_total'',
     hr_last_seen_unix = receipt_u64 J v ''last_seen_unix'',
     hr_last_flow = receipt_string J v ''last_flow'',
     hr_last_action = receipt_string J v ''last_action'',
     hr_last_reason = receipt_string J v ''last_reason''\<rparr>"

section \<open>The receipts file\<close>

text \<open>\<open>to_writer_pretty\<close> writes through a \<open>BufWriter\<close> that is dropped afterwards; the error of
  its last flush is discarded, so \<open>lost\<close> final bytes may be missing from the temporary file
  although the call succeeds. \<open>part\<close> is what a serialisation that fails has written.\<close>

definition persist_receipts ::
  "'v json_api \<Rightarrow> fs_outcome \<Rightarrow> bytes \<Rightarrow> nat \<Rightarrow> disk \<Rightarrow> path \<Rightarrow> 'v \<Rightarrow> disk \<times> unit io_result" where
  "persist_receipts J env part lost d path json =
    (case to_string_pretty J json of
       Inl e \<Rightarrow>
         (case o_mkdir env of Some e' \<Rightarrow> (d, Err e') | None \<Rightarrow>
         (case o_write env of Some (e', left) \<Rightarrow> (d(with_extension ''tmp'' path := left), Err e')
          | None \<Rightarrow> (d(with_extension ''tmp'' path \<mapsto> part), Err (IoError InvalidData (''failed to serialize receipts: '' @ e)))))
     | Inr text \<Rightarrow> replace_file env d (with_extension ''tmp'' path) path (take (length text - lost) text))"

definition receipts_hosts_obj :: "'v json_api \<Rightarrow> 'v \<Rightarrow> (bytes \<times> 'v) list option" where
  "receipts_hosts_obj J parsed = (case Option.bind (as_object J parsed) (\<lambda>m. get m ''hosts'') of
     Some hosts \<Rightarrow> as_object J hosts | None \<Rightarrow> as_object J parsed)"

definition receipts_of_object :: "'v json_api \<Rightarrow> (bytes \<times> 'v) list \<Rightarrow> (bytes \<rightharpoonup> host_receipt)" where
  "receipts_of_object J obj = fold (\<lambda>(host, v) out.
     let normalized = normalize_host host in
     if normalized = [] then out else out(normalized \<mapsto> receipt_from_json J v)) obj Map.empty"

definition parse_receipts_file :: "'v json_api \<Rightarrow> io_error option \<Rightarrow> disk \<Rightarrow> path \<Rightarrow> 'v io_result" where
  "parse_receipts_file J o_read d path =
    and_then (read_to_string o_read d path) (\<lambda>raw.
    case from_str J raw of Inl e \<Rightarrow> Err (IoError InvalidData (''invalid receipts JSON: '' @ e)) | Inr v \<Rightarrow> Ok v)"

definition load_receipts :: "'v json_api \<Rightarrow> io_error option \<Rightarrow> disk \<Rightarrow> path \<Rightarrow> (bytes \<rightharpoonup> host_receipt) io_result" where
  "load_receipts J o_read d path =
    (if d path = None then Ok Map.empty
     else and_then (parse_receipts_file J o_read d path) (\<lambda>parsed.
       and_then (ok_or (receipts_hosts_obj J parsed) (IoError InvalidData ''invalid receipts root object'')) (\<lambda>obj.
       Ok (receipts_of_object J obj))))"

record receipts_report_data =
  rd_version :: "u64 option"
  rd_generated_unix :: "u64 option"
  rd_hosts :: "(bytes \<times> host_receipt) list"

definition load_receipts_for_reporting ::
  "'v json_api \<Rightarrow> io_error option \<Rightarrow> disk \<Rightarrow> (path \<Rightarrow> bytes) \<Rightarrow> path \<Rightarrow> receipts_report_data io_result" where
  "load_receipts_for_reporting J o_read d disp path =
    (if d path = None then Err (IoError NotFound (''receipts file not found: '' @ [CHR 0x27] @ disp path @ [CHR 0x27]))
     else and_then (parse_receipts_file J o_read d path) (\<lambda>parsed.
       let field = (\<lambda>k. Option.bind (Option.bind (as_object J parsed) (\<lambda>m. get m k)) (as_u64 J)) in
       and_then (ok_or (receipts_hosts_obj J parsed) (IoError InvalidData ''invalid receipts root object'')) (\<lambda>obj.
       Ok \<lparr>rd_version = field ''version'', rd_generated_unix = field ''generated_unix'',
           rd_hosts = List.map_filter (\<lambda>(host, v). let normalized = normalize_host host in
              if normalized = [] then None else Some (normalized, receipt_from_json J v)) obj\<rparr>)))"

section \<open>The store\<close>

record receipt_store =
  rs_path :: path
  rs_hosts :: "bytes \<rightharpoonup> host_receipt"
  rs_dirty :: bool
  rs_poisoned :: bool

record body_rewrite_details =
  removed_scripts :: u64
  removed_pixels :: u64
  removed_cosmetic :: u64
  bytes_saved :: u64

definition prune_stale_hosts :: "u64 \<Rightarrow> u64 \<Rightarrow> (bytes \<rightharpoonup> host_receipt) \<Rightarrow> (bytes \<rightharpoonup> host_receipt)" where
  "prune_stale_hosts now max_age_secs hosts =
    (let cutoff = sat_sub now max_age_secs in
     (\<lambda>h. case hosts h of None \<Rightarrow> None | Some r \<Rightarrow> if hr_last_seen_unix r \<ge> cutoff then Some r else None))"

definition receipt_store_load :: "'v json_api \<Rightarrow> io_error option \<Rightarrow> disk \<Rightarrow> path \<Rightarrow> receipt_store io_result" where
  "receipt_store_load J o_read d path = and_then (load_receipts J o_read d path) (\<lambda>hosts.
     Ok \<lparr>rs_path = path, rs_hosts = hosts, rs_dirty = False, rs_poisoned = False\<rparr>)"

definition entry_or_default :: "(bytes \<rightharpoonup> host_receipt) \<Rightarrow> bytes \<Rightarrow> host_receipt" where
  "entry_or_default m h = (case m h of None \<Rightarrow> host_receipt_default | Some r \<Rightarrow> r)"

definition record_tls_routing_decision :: "u64 \<Rightarrow> bytes \<Rightarrow> bytes \<Rightarrow> bytes \<Rightarrow> bytes \<Rightarrow> receipt_store \<Rightarrow> receipt_store" where
  "record_tls_routing_decision now flow host action reason s =
    (let normalized = normalize_host host in
     if normalized = [] then s
     else if rs_poisoned s then s
     else s\<lparr>rs_hosts := (rs_hosts s)(normalized \<mapsto> touch now flow action reason (entry_or_default (rs_hosts s) normalized)),
            rs_dirty := True\<rparr>)"

definition inc_counter :: "u64 \<Rightarrow> bytes \<Rightarrow> (host_receipt \<Rightarrow> host_receipt) \<Rightarrow> receipt_store \<Rightarrow> receipt_store" where
  "inc_counter now host update s =
    (let normalized = normalize_host host in
     if normalized = [] then s
     else if rs_poisoned s then s
     else s\<lparr>rs_hosts := (rs_hosts s)(normalized \<mapsto>
              (update (entry_or_default (rs_hosts s) normalized))\<lparr>hr_last_seen_unix := now\<rparr>),
            rs_dirty := True\<rparr>)"

definition u64_of_usize :: "nat \<Rightarrow> u64" where
  "u64_of_usize n = (if n < 2 ^ 64 then of_nat n else - 1)"

definition record_mitm_attempt :: "u64 \<Rightarrow> bytes \<Rightarrow> receipt_store \<Rightarrow> receipt_store" where
  "record_mitm_attempt now host = inc_counter now host (\<lambda>r. r\<lparr>hr_mitm_attempt_total := sat_add (hr_mitm_attempt_total r) 1\<rparr>)"

definition record_mitm_success :: "u64 \<Rightarrow> bytes \<Rightarrow> receipt_store \<Rightarrow> receipt_store" where
  "record_mitm_success now host = inc_counter now host (\<lambda>r. r\<lparr>hr_mitm_success_total := sat_add (hr_mitm_success_total r) 1\<rparr>)"

definition record_mitm_failure :: "u64 \<Rightarrow> bytes \<Rightarrow> receipt_store \<Rightarrow> receipt_store" where
  "record_mitm_failure now host = inc_counter now host (\<lambda>r. r\<lparr>hr_mitm_failure_total := sat_add (hr_mitm_failure_total r) 1\<rparr>)"

definition record_client_tls_reject :: "u64 \<Rightarrow> bytes \<Rightarrow> receipt_store \<Rightarrow> receipt_store" where
  "record_client_tls_reject now host = inc_counter now host
     (\<lambda>r. r\<lparr>hr_mitm_client_tls_reject_total := sat_add (hr_mitm_client_tls_reject_total r) 1\<rparr>)"

definition record_host_auto_pinned :: "u64 \<Rightarrow> bytes \<Rightarrow> receipt_store \<Rightarrow> receipt_store" where
  "record_host_auto_pinned now host = inc_counter now host (\<lambda>r. r\<lparr>hr_host_auto_pinned_total := sat_add (hr_host_auto_pinned_total r) 1\<rparr>)"

definition record_policy_set_cookie :: "u64 \<Rightarrow> bytes \<Rightarrow> bytes \<Rightarrow> nat \<Rightarrow> receipt_store \<Rightarrow> receipt_store" where
  "record_policy_set_cookie now host mode set_cookie_count = inc_counter now host (\<lambda>r.
     let r = r\<lparr>hr_policy_set_cookie_headers_total := sat_add (hr_policy_set_cookie_headers_total r) (u64_of_usize set_cookie_count)\<rparr> in
     if mode = ''enforce'' then r\<lparr>hr_policy_set_cookie_stripped_total := sat_add (hr_policy_set_cookie_stripped_total r) 1\<rparr>
     else if mode = ''report_only'' then
       r\<lparr>hr_policy_set_cookie_would_strip_total := sat_add (hr_policy_set_cookie_would_strip_total r) 1\<rparr>
     else r)"

definition record_dns_block :: "u64 \<Rightarrow> bytes \<Rightarrow> receipt_store \<Rightarrow> receipt_store" where
  "record_dns_block now host = inc_counter now host (\<lambda>r. r\<lparr>hr_dns_blocked_total := sat_add (hr_dns_blocked_total r) 1\<rparr>)"

definition record_dns_report_only :: "u64 \<Rightarrow> bytes \<Rightarrow> receipt_store \<Rightarrow> receipt_store" where
  "record_dns_report_only now host = inc_counter now host (\<lambda>r. r\<lparr>hr_dns_report_only_total := sat_add (hr_dns_report_only_total r) 1\<rparr>)"

definition record_dns_cname_uncloaked :: "u64 \<Rightarrow> bytes \<Rightarrow> receipt_store \<Rightarrow> receipt_store" where
  "record_dns_cname_uncloaked now host = inc_counter now host
     (\<lambda>r. r\<lparr>hr_dns_cname_uncloaked_total := sat_add (hr_dns_cname_uncloaked_total r) 1\<rparr>)"

definition record_consent_enforcement :: "u64 \<Rightarrow> bytes \<Rightarrow> bytes \<Rightarrow> nat \<Rightarrow> receipt_store \<Rightarrow> receipt_store" where
  "record_consent_enforcement now host mode set_cookie_count = inc_counter now host (\<lambda>r.
     let r = r\<lparr>hr_policy_set_cookie_headers_total := sat_add (hr_policy_set_cookie_headers_total r) (u64_of_usize set_cookie_count)\<rparr> in
     if mode = ''enforce'' then
       r\<lparr>hr_consent_enforcement_blocked_total := sat_add (hr_consent_enforcement_blocked_total r) 1,
         hr_policy_set_cookie_stripped_total := sat_add (hr_policy_set_cookie_stripped_total r) 1\<rparr>
     else if mode = ''report_only'' then
       r\<lparr>hr_consent_enforcement_report_only_total := sat_add (hr_consent_enforcement_report_only_total r) 1,
         hr_policy_set_cookie_would_strip_total := sat_add (hr_policy_set_cookie_would_strip_total r) 1\<rparr>
     else r)"

definition record_body_rewrite :: "u64 \<Rightarrow> bytes \<Rightarrow> bytes \<Rightarrow> body_rewrite_details \<Rightarrow> receipt_store \<Rightarrow> receipt_store" where
  "record_body_rewrite now host mode details = inc_counter now host (\<lambda>r.
     if mode = ''enforce'' then
       r\<lparr>hr_body_rewrite_total := sat_add (hr_body_rewrite_total r) 1,
         hr_body_rewrite_removed_script_total := sat_add (hr_body_rewrite_removed_script_total r) (removed_scripts details),
         hr_body_rewrite_removed_pixel_total := sat_add (hr_body_rewrite_removed_pixel_total r) (removed_pixels details),
         hr_body_rewrite_removed_cosmetic_total := sat_add (hr_body_rewrite_removed_cosmetic_total r) (removed_cosmetic details),
         hr_body_rewrite_bytes_saved_total := sat_add (hr_body_rewrite_bytes_saved_total r) (bytes_saved details)\<rparr>
     else if mode = ''report_only'' then
       r\<lparr>hr_body_rewrite_report_only_total := sat_add (hr_body_rewrite_report_only_total r) 1,
         hr_body_rewrite_removed_script_report_only_total := sat_add (hr_body_rewrite_removed_script_report_only_total r) (removed_scripts details),
         hr_body_rewrite_removed_pixel_report_only_total := sat_add (hr_body_rewrite_removed_pixel_report_only_total r) (removed_pixels details),
         hr_body_rewrite_removed_cosmetic_report_only_total := sat_add (hr_body_rewrite_removed_cosmetic_report_only_total r) (removed_cosmetic details),
         hr_body_rewrite_bytes_saved_report_only_total := sat_add (hr_body_rewrite_bytes_saved_report_only_total r) (bytes_saved details)\<rparr>
     else r)"

definition record_body_rewrite_skipped :: "u64 \<Rightarrow> bytes \<Rightarrow> receipt_store \<Rightarrow> receipt_store" where
  "record_body_rewrite_skipped now host = inc_counter now host
     (\<lambda>r. r\<lparr>hr_body_rewrite_skipped_total := sat_add (hr_body_rewrite_skipped_total r) 1\<rparr>)"

definition record_websocket_blocked :: "u64 \<Rightarrow> bytes \<Rightarrow> receipt_store \<Rightarrow> receipt_store" where
  "record_websocket_blocked now host = inc_counter now host (\<lambda>r. r\<lparr>hr_websocket_blocked_total := sat_add (hr_websocket_blocked_total r) 1\<rparr>)"

definition record_referer_spoofed :: "u64 \<Rightarrow> bytes \<Rightarrow> receipt_store \<Rightarrow> receipt_store" where
  "record_referer_spoofed now host = inc_counter now host (\<lambda>r. r\<lparr>hr_referer_spoofed_total := sat_add (hr_referer_spoofed_total r) 1\<rparr>)"

definition record_cert_pin_violation :: "u64 \<Rightarrow> bytes \<Rightarrow> receipt_store \<Rightarrow> receipt_store" where
  "record_cert_pin_violation now host = inc_counter now host (\<lambda>r. r\<lparr>hr_cert_pin_violation_total := sat_add (hr_cert_pin_violation_total r) 1\<rparr>)"

definition record_query_params_stripped :: "u64 \<Rightarrow> bytes \<Rightarrow> receipt_store \<Rightarrow> receipt_store" where
  "record_query_params_stripped now host = inc_counter now host
     (\<lambda>r. r\<lparr>hr_query_params_stripped_total := sat_add (hr_query_params_stripped_total r) 1\<rparr>)"

definition record_cache_headers_stripped :: "u64 \<Rightarrow> bytes \<Rightarrow> receipt_store \<Rightarrow> receipt_store" where
  "record_cache_headers_stripped now host = inc_counter now host
     (\<lambda>r. r\<lparr>hr_cache_headers_stripped_total := sat_add (hr_cache_headers_stripped_total r) 1\<rparr>)"

definition hosts_json :: "'v json_api \<Rightarrow> (bytes \<rightharpoonup> host_receipt) \<Rightarrow> 'v" where
  "hosts_json J snapshot = mk_object J (map (\<lambda>h. (h, receipt_as_json J (the (snapshot h)))) (sorted_list_of_set (dom snapshot)))"

definition hosts_as_json :: "'v json_api \<Rightarrow> receipt_store \<Rightarrow> 'v" where
  "hosts_as_json J s = (if rs_poisoned s then mk_object J [] else hosts_json J (rs_hosts s))"

text \<open>The flush hands a snapshot to a blocking task, whose error is only logged.\<close>

definition flush_if_dirty :: "u64 \<Rightarrow> receipt_store \<Rightarrow> receipt_store \<times> (bytes \<rightharpoonup> host_receipt) option \<times> bool io_result" where
  "flush_if_dirty now s =
    (if \<not> rs_dirty s then (s, None, Ok False)
     else let s = s\<lparr>rs_dirty := False\<rparr>;
              s = (if rs_poisoned s then s else s\<lparr>rs_hosts := prune_stale_hosts now (6 * 3600) (rs_hosts s)\<rparr>)
          in if rs_poisoned s then (s, None, Err (lock_error ''receipts''))
             else (s, Some (rs_hosts s), Ok True))"

definition flush_task :: "'v json_api \<Rightarrow> fs_outcome \<Rightarrow> bytes \<Rightarrow> nat \<Rightarrow> u64 \<Rightarrow> disk \<Rightarrow> path \<Rightarrow> (bytes \<rightharpoonup> host_receipt) \<Rightarrow>
    disk \<times> unit io_result" where
  "flush_task J env part lost now d path snapshot =
    persist_receipts J env part lost d path (mk_object J
      [(''generated_unix'', mk_u64 J now), (''hosts'', hosts_json J snapshot), (''version'', mk_u64 J 1)])"

section \<open>Reports\<close>

definition percent_u64 :: "u64 \<Rightarrow> u64 \<Rightarrow> u64 option" where
  "percent_u64 numer denom = (if denom = 0 then None else Some (min (sat_mul numer 100 div denom) 100))"

definition fmt_percent :: "u64 \<Rightarrow> u64 \<Rightarrow> bytes" where
  "fmt_percent numer denom = (case percent_u64 numer denom of Some p \<Rightarrow> show_nat (unat p) @ ''%'' | None \<Rightarrow> ''-'')"

definition host_filter_matches :: "bytes \<Rightarrow> (bytes \<times> host_receipt) list \<Rightarrow> (bytes \<times> host_receipt) list" where
  "host_filter_matches host_filter hosts =
    (let f = normalize_host host_filter;
         matched = filter (\<lambda>(h, _). h = f \<or> suffix (CHR ''.'' # f) h) hosts
     in sort_key (\<lambda>(_, r). - int (unat (hr_last_seen_unix r))) matched)"

definition top_hosts_rows :: "nat \<Rightarrow> (bytes \<times> host_receipt) list \<Rightarrow> (bytes \<times> host_receipt) list" where
  "top_hosts_rows top_hosts hosts =
    take (max 1 (min top_hosts 200)) (sort_key (\<lambda>(_, r). - int (unat (hr_seen_total r))) hosts)"

definition compliance_actions :: "host_receipt \<Rightarrow> u64" where
  "compliance_actions r = sat_add (sat_add (sat_add (sat_add (sat_add (sat_add (sat_add (sat_add (sat_add
     (hr_dns_blocked_total r) (hr_dns_report_only_total r)) (hr_dns_cname_uncloaked_total r))
     (hr_policy_set_cookie_stripped_total r)) (hr_policy_set_cookie_would_strip_total r))
     (hr_body_rewrite_total r)) (hr_body_rewrite_report_only_total r)) (hr_body_rewrite_skipped_total r))
     (hr_consent_enforcement_blocked_total r)) (hr_consent_enforcement_report_only_total r)"

definition compliance_rows :: "nat \<Rightarrow> (bytes \<times> host_receipt) list \<Rightarrow> (bytes \<times> host_receipt \<times> u64) list" where
  "compliance_rows top_hosts hosts =
    (let rows = List.map_filter (\<lambda>(h, r). let actions = compliance_actions r in
           if actions > 0 then Some (h, r, actions) else None) hosts
     in take (max 1 (min top_hosts 200)) (sort_key (\<lambda>(_, _, a). - int (unat a)) rows))"

definition escape_char :: "char \<Rightarrow> bytes" where
  "escape_char c = (if c = CHR ''&'' then ''&amp;'' else if c = CHR ''<'' then ''&lt;''
     else if c = CHR ''>'' then ''&gt;'' else if c = CHR 0x22 then ''&quot;''
     else if c = CHR 0x27 then ''&#39;'' else [c])"

definition escape_html :: "bytes \<Rightarrow> bytes" where
  "escape_html s = concat (map escape_char s)"

record compliance_totals =
  ct_hosts :: u64
  ct_seen_total :: u64
  ct_routing_mitm_total :: u64
  ct_routing_passthrough_total :: u64
  ct_mitm_attempt_total :: u64
  ct_mitm_success_total :: u64
  ct_mitm_failure_total :: u64
  ct_mitm_client_tls_reject_total :: u64
  ct_host_auto_pinned_total :: u64
  ct_cookie_stripped_events_total :: u64
  ct_cookie_report_only_events_total :: u64
  ct_set_cookie_headers_total :: u64
  ct_dns_blocked_total :: u64
  ct_dns_report_only_total :: u64
  ct_dns_cname_uncloaked_total :: u64
  ct_consent_blocked_total :: u64
  ct_consent_report_only_total :: u64
  ct_body_rewrite_enforce_total :: u64
  ct_body_rewrite_report_only_total :: u64
  ct_body_rewrite_skipped_total :: u64
  ct_body_rewrite_removed_script_total :: u64
  ct_body_rewrite_removed_pixel_total :: u64
  ct_body_rewrite_removed_cosmetic_total :: u64
  ct_body_rewrite_bytes_saved_total :: u64
  ct_body_rewrite_removed_script_report_only_total :: u64
  ct_body_rewrite_removed_pixel_report_only_total :: u64
  ct_body_rewrite_removed_cosmetic_report_only_total :: u64
  ct_body_rewrite_bytes_saved_report_only_total :: u64

definition compliance_default :: compliance_totals where
  "compliance_default = \<lparr>ct_hosts = 0, ct_seen_total = 0, ct_routing_mitm_total = 0,
     ct_routing_passthrough_total = 0, ct_mitm_attempt_total = 0, ct_mitm_success_total = 0,
     ct_mitm_failure_total = 0, ct_mitm_client_tls_reject_total = 0, ct_host_auto_pinned_total = 0,
     ct_cookie_stripped_events_total = 0, ct_cookie_report_only_events_total = 0, ct_set_cookie_headers_total = 0,
     ct_dns_blocked_total = 0, ct_dns_report_only_total = 0, ct_dns_cname_uncloaked_total = 0,
     ct_consent_blocked_total = 0, ct_consent_report_only_total = 0, ct_body_rewrite_enforce_total = 0,
     ct_body_rewrite_report_only_total = 0, ct_body_rewrite_skipped_total = 0, ct_body_rewrite_removed_script_total = 0,
     ct_body_rewrite_removed_pixel_total = 0, ct_body_rewrite_removed_cosmetic_total = 0, ct_body_rewrite_bytes_saved_total = 0,
     ct_body_rewrite_removed_script_report_only_total = 0, ct_body_rewrite_removed_pixel_report_only_total = 0, ct_body_rewrite_removed_cosmetic_report_only_total = 0,
     ct_body_rewrite_bytes_saved_report_only_total = 0\<rparr>"

definition compliance_add :: "compliance_totals \<Rightarrow> host_receipt \<Rightarrow> compliance_totals" where
  "compliance_add t r = \<lparr>
     ct_hosts = sat_add (ct_hosts t) 1,
     ct_seen_total = sat_add (ct_seen_total t) (hr_seen_total r),
     ct_routing_mitm_total = sat_add (ct_routing_mitm_total t) (hr_routing_mitm_total r),
     ct_routing_passthrough_total = sat_add (ct_routing_passthrough_total t) (hr_routing_passthrough_total r),
     ct_mitm_attempt_total = sat_add (ct_mitm_attempt_total t) (hr_mitm_attempt_total r),
     ct_mitm_success_total = sat_add (ct_mitm_success_total t) (hr_mitm_success_total r),
     ct_mitm_failure_total = sat_add (ct_mitm_failure_total t) (hr_mitm_failure_total r),
     ct_mitm_client_tls_reject_total = sat_add (ct_mitm_client_tls_reject_total t) (hr_mitm_client_tls_reject_total r),
     ct_host_auto_pinned_total = sat_add (ct_host_auto_pinned_total t) (hr_host_auto_pinned_total r),
     ct_cookie_stripped_events_total = sat_add (ct_cookie_stripped_events_total t) (hr_policy_set_cookie_stripped_total r),
     ct_cookie_report_only_events_total = sat_add (ct_cookie_report_only_events_total t) (hr_policy_set_cookie_would_strip_total r),
     ct_set_cookie_headers_total = sat_add (ct_set_cookie_headers_total t) (hr_policy_set_cookie_headers_total r),
     ct_dns_blocked_total = sat_add (ct_dns_blocked_total t) (hr_dns_blocked_total r),
     ct_dns_report_only_total = sat_add (ct_dns_report_only_total t) (hr_dns_report_only_total r),
     ct_dns_cname_uncloaked_total = sat_add (ct_dns_cname_uncloaked_total t) (hr_dns_cname_uncloaked_total r),
     ct_consent_blocked_total = sat_add (ct_consent_blocked_total t) (hr_consent_enforcement_blocked_total r),
     ct_consent_report_only_total = sat_add (ct_consent_report_only_total t) (hr_consent_enforcement_report_only_total r),
     ct_body_rewrite_enforce_total = sat_add (ct_body_rewrite_enforce_total t) (hr_body_rewrite_total r),
     ct_body_rewrite_report_only_total = sat_add (ct_body_rewrite_report_only_total t) (hr_body_rewrite_report_only_total r),
     ct_body_rewrite_skipped_total = sat_add (ct_body_rewrite_skipped_total t) (hr_body_rewrite_skipped_total r),
     ct_body_rewrite_removed_script_total = sat_add (ct_body_rewrite_removed_script_total t) (hr_body_rewrite_removed_script_total r),
     ct_body_rewrite_removed_pixel_total = sat_add (ct_body_rewrite_removed_pixel_total t) (hr_body_rewrite_removed_pixel_total r),
     ct_body_rewrite_removed_cosmetic_total = sat_add (ct_body_rewrite_removed_cosmetic_total t) (hr_body_rewrite_removed_cosmetic_total r),
     ct_body_rewrite_bytes_saved_total = sat_add (ct_body_rewrite_bytes_saved_total t) (hr_body_rewrite_bytes_saved_total r),
     ct_body_rewrite_removed_script_report_only_total = sat_add (ct_body_rewrite_removed_script_report_only_total t) (hr_body_rewrite_removed_script_report_only_total r),
     ct_body_rewrite_removed_pixel_report_only_total = sat_add (ct_body_rewrite_removed_pixel_report_only_total t) (hr_body_rewrite_removed_pixel_report_only_total r),
     ct_body_rewrite_removed_cosmetic_report_only_total = sat_add (ct_body_rewrite_removed_cosmetic_report_only_total t) (hr_body_rewrite_removed_cosmetic_report_only_total r),
     ct_body_rewrite_bytes_saved_report_only_total = sat_add (ct_body_rewrite_bytes_saved_report_only_total t) (hr_body_rewrite_bytes_saved_report_only_total r)\<rparr>"

definition compliance_sum :: "(bytes \<times> host_receipt) list \<Rightarrow> compliance_totals" where
  "compliance_sum hosts = fold (\<lambda>(_, r) t. compliance_add t r) hosts compliance_default"

section \<open>The JSON form\<close>

lemma opt_str_read: "json_laws J \<Longrightarrow> as_str J (opt_str J s) = s"
  by (cases s) (simp_all add: opt_str_def json_lawsD)

definition receipt_keys :: "bytes list" where
  "receipt_keys = [''body_rewrite_bytes_saved_report_only_total'',
     ''body_rewrite_bytes_saved_total'',
     ''body_rewrite_removed_cosmetic_report_only_total'',
     ''body_rewrite_removed_cosmetic_total'',
     ''body_rewrite_removed_pixel_report_only_total'',
     ''body_rewrite_removed_pixel_total'',
     ''body_rewrite_removed_script_report_only_total'',
     ''body_rewrite_removed_script_total'',
     ''body_rewrite_report_only_total'',
     ''body_rewrite_skipped_total'',
     ''body_rewrite_total'',
     ''cache_headers_stripped_total'',
     ''cert_pin_violation_total'',
     ''consent_enforcement_blocked_total'',
     ''consent_enforcement_report_only_total'',
     ''dns_blocked_total'',
     ''dns_cname_uncloaked_total'',
     ''dns_report_only_total'',
     ''host_auto_pinned_total'',
     ''last_action'',
     ''last_flow'',
     ''last_reason'',
     ''last_seen_unix'',
     ''mitm_attempt_total'',
     ''mitm_client_tls_reject_total'',
     ''mitm_failure_total'',
     ''mitm_success_total'',
     ''policy_set_cookie_headers_total'',
     ''policy_set_cookie_stripped_total'',
     ''policy_set_cookie_would_strip_total'',
     ''query_params_stripped_total'',
     ''referer_spoofed_total'',
     ''routing_mitm_total'',
     ''routing_passthrough_total'',
     ''seen_total'',
     ''websocket_blocked_total'']"

lemma receipt_keys_sorted: "sorted_wrt (<) receipt_keys"
  by code_simp

lemma receipt_entries_keys: "map fst (receipt_entries J r) = receipt_keys"
  by (simp only: receipt_entries_def receipt_keys_def list.map fst_conv)

lemma receipt_entries_object: "json_laws J \<Longrightarrow> as_object J (receipt_as_json J r) = Some (receipt_entries J r)"
  by (simp add: receipt_as_json_def json_lawsD receipt_entries_keys receipt_keys_sorted)

lemma receipt_entry:
  assumes "json_laws J" "(k, v) \<in> set (receipt_entries J r)"
  shows "Option.bind (as_object J (receipt_as_json J r)) (\<lambda>m. get m k) = Some v"
proof -
  have "distinct (map fst (receipt_entries J r))"
    using receipt_keys_sorted by (simp add: receipt_entries_keys strict_sorted_iff)
  with assms(2) have "map_of (receipt_entries J r) k = Some v" by (metis map_of_is_SomeI)
  then show ?thesis by (simp add: receipt_entries_object [OF assms(1)])
qed

lemma receipt_u64_entry:
  assumes "json_laws J" "(k, mk_u64 J n) \<in> set (receipt_entries J r)"
  shows "receipt_u64 J (receipt_as_json J r) k = n"
  by (simp add: receipt_u64_def receipt_entry [OF assms] json_lawsD [OF assms(1)])

lemma receipt_string_entry:
  assumes "json_laws J" "(k, opt_str J s) \<in> set (receipt_entries J r)"
  shows "receipt_string J (receipt_as_json J r) k = s"
  by (simp add: receipt_string_def receipt_entry [OF assms] opt_str_read [OF assms(1)])

lemma receipt_json_roundtrip: "json_laws J \<Longrightarrow> receipt_from_json J (receipt_as_json J r) = r"
proof -
  assume l: "json_laws J"
  note entry = receipt_u64_entry [OF l, of _ _ r, unfolded receipt_entries_def list.set]
    receipt_string_entry [OF l, of _ _ r, unfolded receipt_entries_def list.set]
  show ?thesis
    unfolding receipt_from_json_def by (rule host_receipt.equality; simp only: host_receipt.simps; (rule entry, simp only: insert_iff simp_thms)?) simp
qed

section \<open>Recording\<close>

text \<open>Operations that only move a state up in an order: any sequence of them does.\<close>

locale monotone_ops =
  fixes le :: "'s \<Rightarrow> 's \<Rightarrow> bool"
    and run_op :: "'o \<Rightarrow> 's \<Rightarrow> 's"
  assumes le_refl: "le s s"
    and le_trans: "le s t \<Longrightarrow> le t u \<Longrightarrow> le s u"
    and op_le: "le s (run_op p s)"
begin

lemma ops_le: "le s (fold run_op ops s)"
proof (induction ops arbitrary: s)
  case (Cons p ops)
  then show ?case using le_trans [OF op_le [of s p]] by simp
qed (simp add: le_refl)

lemma ops_le_prefix: "le (fold run_op ops s) (fold run_op (ops @ later) s)"
  by (simp add: ops_le)

end

definition receipt_le :: "host_receipt \<Rightarrow> host_receipt \<Rightarrow> bool" where
  "receipt_le r q \<longleftrightarrow> hr_seen_total r \<le> hr_seen_total q \<and>
     hr_routing_mitm_total r \<le> hr_routing_mitm_total q \<and>
     hr_routing_passthrough_total r \<le> hr_routing_passthrough_total q \<and>
     hr_mitm_attempt_total r \<le> hr_mitm_attempt_total q \<and>
     hr_mitm_success_total r \<le> hr_mitm_success_total q \<and>
     hr_mitm_failure_total r \<le> hr_mitm_failure_total q \<and>
     hr_mitm_client_tls_reject_total r \<le> hr_mitm_client_tls_reject_total q \<and>
     hr_host_auto_pinned_total r \<le> hr_host_auto_pinned_total q \<and>
     hr_policy_set_cookie_would_strip_total r \<le> hr_policy_set_cookie_would_strip_total q \<and>
     hr_policy_set_cookie_stripped_total r \<le> hr_policy_set_cookie_stripped_total q \<and>
     hr_policy_set_cookie_headers_total r \<le> hr_policy_set_cookie_headers_total q \<and>
     hr_dns_blocked_total r \<le> hr_dns_blocked_total q \<and>
     hr_dns_report_only_total r \<le> hr_dns_report_only_total q \<and>
     hr_dns_cname_uncloaked_total r \<le> hr_dns_cname_uncloaked_total q \<and>
     hr_consent_enforcement_blocked_total r \<le> hr_consent_enforcement_blocked_total q \<and>
     hr_consent_enforcement_report_only_total r \<le> hr_consent_enforcement_report_only_total q \<and>
     hr_body_rewrite_total r \<le> hr_body_rewrite_total q \<and>
     hr_body_rewrite_report_only_total r \<le> hr_body_rewrite_report_only_total q \<and>
     hr_body_rewrite_skipped_total r \<le> hr_body_rewrite_skipped_total q \<and>
     hr_body_rewrite_removed_script_total r \<le> hr_body_rewrite_removed_script_total q \<and>
     hr_body_rewrite_removed_pixel_total r \<le> hr_body_rewrite_removed_pixel_total q \<and>
     hr_body_rewrite_removed_cosmetic_total r \<le> hr_body_rewrite_removed_cosmetic_total q \<and>
     hr_body_rewrite_bytes_saved_total r \<le> hr_body_rewrite_bytes_saved_total q \<and>
     hr_body_rewrite_removed_script_report_only_total r \<le> hr_body_rewrite_removed_script_report_only_total q \<and>
     hr_body_rewrite_removed_pixel_report_only_total r \<le> hr_body_rewrite_removed_pixel_report_only_total q \<and>
     hr_body_rewrite_removed_cosmetic_report_only_total r \<le> hr_body_rewrite_removed_cosmetic_report_only_total q \<and>
     hr_body_rewrite_bytes_saved_report_only_total r \<le> hr_body_rewrite_bytes_saved_report_only_total q \<and>
     hr_websocket_blocked_total r \<le> hr_websocket_blocked_total q \<and>
     hr_referer_spoofed_total r \<le> hr_referer_spoofed_total q \<and>
     hr_cert_pin_violation_total r \<le> hr_cert_pin_violation_total q \<and>
     hr_query_params_stripped_total r \<le> hr_query_params_stripped_total q \<and>
     hr_cache_headers_stripped_total r \<le> hr_cache_headers_stripped_total q"

definition store_le :: "receipt_store \<Rightarrow> receipt_store \<Rightarrow> bool" where
  "store_le s t \<longleftrightarrow> (\<forall>h r. rs_hosts s h = Some r \<longrightarrow> (\<exists>q. rs_hosts t h = Some q \<and> receipt_le r q))"

datatype receipt_op =
    OpRoute bytes bytes bytes bytes
  | OpMitmAttempt bytes | OpMitmSuccess bytes | OpMitmFailure bytes | OpClientTlsReject bytes
  | OpHostAutoPinned bytes | OpPolicySetCookie bytes bytes nat | OpDnsBlock bytes | OpDnsReportOnly bytes
  | OpDnsCnameUncloaked bytes | OpConsentEnforcement bytes bytes nat
  | OpBodyRewrite bytes bytes body_rewrite_details | OpBodyRewriteSkipped bytes | OpWebsocketBlocked bytes
  | OpRefererSpoofed bytes | OpCertPinViolation bytes | OpQueryParamsStripped bytes | OpCacheHeadersStripped bytes

fun apply_receipt_op :: "u64 \<times> receipt_op \<Rightarrow> receipt_store \<Rightarrow> receipt_store" where
  "apply_receipt_op (now, OpRoute flow host action reason) s = record_tls_routing_decision now flow host action reason s"
| "apply_receipt_op (now, OpMitmAttempt host) s = record_mitm_attempt now host s"
| "apply_receipt_op (now, OpMitmSuccess host) s = record_mitm_success now host s"
| "apply_receipt_op (now, OpMitmFailure host) s = record_mitm_failure now host s"
| "apply_receipt_op (now, OpClientTlsReject host) s = record_client_tls_reject now host s"
| "apply_receipt_op (now, OpHostAutoPinned host) s = record_host_auto_pinned now host s"
| "apply_receipt_op (now, OpPolicySetCookie host mode n) s = record_policy_set_cookie now host mode n s"
| "apply_receipt_op (now, OpDnsBlock host) s = record_dns_block now host s"
| "apply_receipt_op (now, OpDnsReportOnly host) s = record_dns_report_only now host s"
| "apply_receipt_op (now, OpDnsCnameUncloaked host) s = record_dns_cname_uncloaked now host s"
| "apply_receipt_op (now, OpConsentEnforcement host mode n) s = record_consent_enforcement now host mode n s"
| "apply_receipt_op (now, OpBodyRewrite host mode details) s = record_body_rewrite now host mode details s"
| "apply_receipt_op (now, OpBodyRewriteSkipped host) s = record_body_rewrite_skipped now host s"
| "apply_receipt_op (now, OpWebsocketBlocked host) s = record_websocket_blocked now host s"
| "apply_receipt_op (now, OpRefererSpoofed host) s = record_referer_spoofed now host s"
| "apply_receipt_op (now, OpCertPinViolation host) s = record_cert_pin_violation now host s"
| "apply_receipt_op (now, OpQueryParamsStripped host) s = record_query_params_stripped now host s"
| "apply_receipt_op (now, OpCacheHeadersStripped host) s = record_cache_headers_stripped now host s"

lemmas record_defs = record_mitm_attempt_def record_mitm_success_def record_mitm_failure_def
  record_client_tls_reject_def record_host_auto_pinned_def record_policy_set_cookie_def record_dns_block_def
  record_dns_report_only_def record_dns_cname_uncloaked_def record_consent_enforcement_def
  record_body_rewrite_def record_body_rewrite_skipped_def record_websocket_blocked_def
  record_referer_spoofed_def record_cert_pin_violation_def record_query_params_stripped_def
  record_cache_headers_stripped_def

lemma receipt_le_refl: "receipt_le r r"
  by (simp add: receipt_le_def)

lemma receipt_le_trans: "receipt_le r q \<Longrightarrow> receipt_le q p \<Longrightarrow> receipt_le r p"
  unfolding receipt_le_def by (elim conjE, intro conjI; erule (1) order_trans)

lemma store_le_update:
  assumes "\<And>r. receipt_le r (f r)"
  shows "store_le s (s\<lparr>rs_hosts := (rs_hosts s)(h \<mapsto> f (entry_or_default (rs_hosts s) h)), rs_dirty := b\<rparr>)"
  using assms by (auto simp: store_le_def entry_or_default_def receipt_le_refl)

lemma store_le_refl: "store_le s s"
  by (auto simp: store_le_def receipt_le_refl)

lemma inc_counter_le: "(\<And>r. receipt_le r ((f r)\<lparr>hr_last_seen_unix := now\<rparr>)) \<Longrightarrow> store_le s (inc_counter now h f s)"
  unfolding inc_counter_def Let_def
  using store_le_update [where f = "\<lambda>r. (f r)\<lparr>hr_last_seen_unix := now\<rparr>" and s = s and h = "normalize_host h" and b = True]
  by (simp add: store_le_refl)

lemma record_route_le: "store_le s (record_tls_routing_decision now flow h action reason s)"
  unfolding record_tls_routing_decision_def Let_def
  using store_le_update [where f = "touch now flow action reason" and s = s and h = "normalize_host h" and b = True]
  by (simp add: store_le_refl receipt_le_def touch_def sat_add_ge Let_def)

lemma apply_receipt_op_le: "store_le s (apply_receipt_op p s)"
proof (cases p)
  case (Pair now e)
  show ?thesis unfolding Pair
    by (cases e; simp only: apply_receipt_op.simps record_defs; (rule record_route_le)?;
        rule inc_counter_le; simp add: receipt_le_def sat_add_ge Let_def)
qed

interpretation receipts_mono: monotone_ops store_le apply_receipt_op
proof
  show "store_le s t \<Longrightarrow> store_le t u \<Longrightarrow> store_le s u" for s t u
    unfolding store_le_def using receipt_le_trans by blast
qed (simp_all add: store_le_refl apply_receipt_op_le)

interpretation receipts: host_keyed_store normalize_host "\<lambda>n. n \<noteq> []"
  "\<lambda>h m. rs_hosts (inc_counter now h f \<lparr>rs_path = p, rs_hosts = m, rs_dirty = b, rs_poisoned = False\<rparr>)"
  "\<lambda>m g. m (normalize_host g) \<noteq> None"
  for now f p b
  by unfold_locales (auto simp: inc_counter_def Let_def)

section \<open>Reports\<close>

definition sat_sum :: "(host_receipt \<Rightarrow> u64) \<Rightarrow> (bytes \<times> host_receipt) list \<Rightarrow> u64" where
  "sat_sum f hosts = fold (\<lambda>(_, r) a. sat_add a (f r)) hosts 0"

lemma unat_fold_sat_add:
  "unat (fold (\<lambda>(_, r) a. sat_add a (f r)) hosts a) = min (unat a + (\<Sum>x\<leftarrow>hosts. unat (f (snd x)))) (2 ^ 64 - 1)"
proof (induction hosts arbitrary: a)
  case Nil
  then show ?case using unat_less_u64 [of a] by simp
next
  case (Cons x hosts)
  then show ?case by (cases x) (simp add: unat_sat_add)
qed

lemma compliance_fold:
  "fold (\<lambda>(_, r) t. compliance_add t r) hosts t = \<lparr>
     ct_hosts = fold (\<lambda>(_, r) a. sat_add a ((\<lambda>_. 1) r)) hosts (ct_hosts t),
     ct_seen_total = fold (\<lambda>(_, r) a. sat_add a (hr_seen_total r)) hosts (ct_seen_total t),
     ct_routing_mitm_total = fold (\<lambda>(_, r) a. sat_add a (hr_routing_mitm_total r)) hosts (ct_routing_mitm_total t),
     ct_routing_passthrough_total = fold (\<lambda>(_, r) a. sat_add a (hr_routing_passthrough_total r)) hosts (ct_routing_passthrough_total t),
     ct_mitm_attempt_total = fold (\<lambda>(_, r) a. sat_add a (hr_mitm_attempt_total r)) hosts (ct_mitm_attempt_total t),
     ct_mitm_success_total = fold (\<lambda>(_, r) a. sat_add a (hr_mitm_success_total r)) hosts (ct_mitm_success_total t),
     ct_mitm_failure_total = fold (\<lambda>(_, r) a. sat_add a (hr_mitm_failure_total r)) hosts (ct_mitm_failure_total t),
     ct_mitm_client_tls_reject_total = fold (\<lambda>(_, r) a. sat_add a (hr_mitm_client_tls_reject_total r)) hosts (ct_mitm_client_tls_reject_total t),
     ct_host_auto_pinned_total = fold (\<lambda>(_, r) a. sat_add a (hr_host_auto_pinned_total r)) hosts (ct_host_auto_pinned_total t),
     ct_cookie_stripped_events_total = fold (\<lambda>(_, r) a. sat_add a (hr_policy_set_cookie_stripped_total r)) hosts (ct_cookie_stripped_events_total t),
     ct_cookie_report_only_events_total = fold (\<lambda>(_, r) a. sat_add a (hr_policy_set_cookie_would_strip_total r)) hosts (ct_cookie_report_only_events_total t),
     ct_set_cookie_headers_total = fold (\<lambda>(_, r) a. sat_add a (hr_policy_set_cookie_headers_total r)) hosts (ct_set_cookie_headers_total t),
     ct_dns_blocked_total = fold (\<lambda>(_, r) a. sat_add a (hr_dns_blocked_total r)) hosts (ct_dns_blocked_total t),
     ct_dns_report_only_total = fold (\<lambda>(_, r) a. sat_add a (hr_dns_report_only_total r)) hosts (ct_dns_report_only_total t),
     ct_dns_cname_uncloaked_total = fold (\<lambda>(_, r) a. sat_add a (hr_dns_cname_uncloaked_total r)) hosts (ct_dns_cname_uncloaked_total t),
     ct_consent_blocked_total = fold (\<lambda>(_, r) a. sat_add a (hr_consent_enforcement_blocked_total r)) hosts (ct_consent_blocked_total t),
     ct_consent_report_only_total = fold (\<lambda>(_, r) a. sat_add a (hr_consent_enforcement_report_only_total r)) hosts (ct_consent_report_only_total t),
     ct_body_rewrite_enforce_total = fold (\<lambda>(_, r) a. sat_add a (hr_body_rewrite_total r)) hosts (ct_body_rewrite_enforce_total t),
     ct_body_rewrite_report_only_total = fold (\<lambda>(_, r) a. sat_add a (hr_body_rewrite_report_only_total r)) hosts (ct_body_rewrite_report_only_total t),
     ct_body_rewrite_skipped_total = fold (\<lambda>(_, r) a. sat_add a (hr_body_rewrite_skipped_total r)) hosts (ct_body_rewrite_skipped_total t),
     ct_body_rewrite_removed_script_total = fold (\<lambda>(_, r) a. sat_add a (hr_body_rewrite_removed_script_total r)) hosts (ct_body_rewrite_removed_script_total t),
     ct_body_rewrite_removed_pixel_total = fold (\<lambda>(_, r) a. sat_add a (hr_body_rewrite_removed_pixel_total r)) hosts (ct_body_rewrite_removed_pixel_total t),
     ct_body_rewrite_removed_cosmetic_total = fold (\<lambda>(_, r) a. sat_add a (hr_body_rewrite_removed_cosmetic_total r)) hosts (ct_body_rewrite_removed_cosmetic_total t),
     ct_body_rewrite_bytes_saved_total = fold (\<lambda>(_, r) a. sat_add a (hr_body_rewrite_bytes_saved_total r)) hosts (ct_body_rewrite_bytes_saved_total t),
     ct_body_rewrite_removed_script_report_only_total = fold (\<lambda>(_, r) a. sat_add a (hr_body_rewrite_removed_script_report_only_total r)) hosts (ct_body_rewrite_removed_script_report_only_total t),
     ct_body_rewrite_removed_pixel_report_only_total = fold (\<lambda>(_, r) a. sat_add a (hr_body_rewrite_removed_pixel_report_only_total r)) hosts (ct_body_rewrite_removed_pixel_report_only_total t),
     ct_body_rewrite_removed_cosmetic_report_only_total = fold (\<lambda>(_, r) a. sat_add a (hr_body_rewrite_removed_cosmetic_report_only_total r)) hosts (ct_body_rewrite_removed_cosmetic_report_only_total t),
     ct_body_rewrite_bytes_saved_report_only_total = fold (\<lambda>(_, r) a. sat_add a (hr_body_rewrite_bytes_saved_report_only_total r)) hosts (ct_body_rewrite_bytes_saved_report_only_total t)\<rparr>"
proof (induction hosts arbitrary: t)
  case (Cons x hosts)
  obtain h r where x: "x = (h, r)" by (cases x)
  show ?case by (simp only: x fold_Cons o_apply split Cons.IH) (simp only: compliance_add_def compliance_totals.simps)
qed simp

fun unescape_html :: "bytes \<Rightarrow> bytes" where
  "unescape_html [] = []"
| "unescape_html (c # s) =
    (if prefix ''&amp;'' (c # s) then CHR ''&'' # unescape_html (drop 4 s)
     else if prefix ''&lt;'' (c # s) then CHR ''<'' # unescape_html (drop 3 s)
     else if prefix ''&gt;'' (c # s) then CHR ''>'' # unescape_html (drop 3 s)
     else if prefix ''&quot;'' (c # s) then CHR 0x22 # unescape_html (drop 5 s)
     else if prefix ''&#39;'' (c # s) then CHR 0x27 # unescape_html (drop 4 s)
     else c # unescape_html s)"

lemma unescape_char: "unescape_html (escape_char c @ s) = c # unescape_html s"
  by (simp add: escape_char_def)

section \<open>Flush and reload\<close>

lemma receipts_of_object_map:
  assumes "json_laws J" "distinct hs" "\<And>h. h \<in> set hs \<Longrightarrow> normalize_host h = h \<and> h \<noteq> []"
  shows "receipts_of_object J (map (\<lambda>h. (h, receipt_as_json J (f h))) hs) = (\<lambda>h. if h \<in> set hs then Some (f h) else None)"
proof -
  have "fold (\<lambda>(host, v) out. let normalized = normalize_host host in
      if normalized = [] then out else out(normalized \<mapsto> receipt_from_json J v))
      (map (\<lambda>h. (h, receipt_as_json J (f h))) hs) m = (\<lambda>h. if h \<in> set hs then Some (f h) else m h)" for m
    using assms(2,3) by (induction hs arbitrary: m) (auto simp: receipt_json_roundtrip [OF assms(1)] fun_eq_iff Let_def)
  then show ?thesis by (simp add: receipts_of_object_def)
qed

lemma root_keys_sorted: "sorted_wrt (<) [''generated_unix'', ''hosts'', ''version'']"
  by code_simp

lemma finite_prune: "finite (dom m) \<Longrightarrow> finite (dom (prune_stale_hosts now age m))"
  by (rule finite_subset [of _ "dom m"]) (auto simp: prune_stale_hosts_def Let_def split: option.splits if_splits)

lemma dom_prune: "dom (prune_stale_hosts now age m) \<subseteq> dom m"
  by (auto simp: prune_stale_hosts_def Let_def split: option.splits if_splits)

lemma flush_task_load:
  assumes "json_laws J" "finite (dom snap)" "\<And>h. h \<in> dom snap \<Longrightarrow> normalize_host h = h \<and> h \<noteq> []"
    and "p_ext path \<noteq> Some ''tmp''" "flush_task J env part 0 now d path snap = (d', Ok ())"
  shows "load_receipts J None d' path = Ok snap"
proof -
  let ?m = "map (\<lambda>h. (h, receipt_as_json J (the (snap h)))) (sorted_list_of_set (dom snap))"
  let ?root = "[(''generated_unix'', mk_u64 J now), (''hosts'', mk_object J ?m), (''version'', mk_u64 J 1)]"
  obtain t where t: "to_string_pretty J (mk_object J ?root) = Inr t"
    and r: "replace_file env d (with_extension ''tmp'' path) path t = (d', Ok ())"
    using assms(5) by (auto simp: flush_task_def persist_receipts_def hosts_json_def split: sum.splits option.splits)
  from replace_file_Ok [of env d "with_extension ''tmp'' path" path t] r
  have stored: "d' path = Some t" using with_extension_neq [OF assms(4)] by simp
  have "sorted_wrt (<) (map fst ?m)" by (simp add: o_def)
  then have "receipts_hosts_obj J (mk_object J ?root) = Some ?m"
    using root_keys_sorted by (simp add: receipts_hosts_obj_def json_lawsD [OF assms(1)])
  moreover have "receipts_of_object J ?m = snap"
    by (subst receipts_of_object_map [OF assms(1)]) (use assms(2,3) in \<open>auto simp: fun_eq_iff domIff\<close>)
  ultimately show ?thesis
    using t stored by (simp add: load_receipts_def parse_receipts_file_def read_to_string_def json_lawsD [OF assms(1)])
qed

text \<open>The last flush of the buffered writer is not checked: the receipts file is replaced by a
  truncated one and success is reported.\<close>

lemma persist_receipts_truncates:
  assumes "to_string_pretty J v = Inr text" "p_ext path \<noteq> Some ''tmp''"
  shows "persist_receipts J fs_all_ok part lost d path v =
    (d(path \<mapsto> take (length text - lost) text, with_extension ''tmp'' path := None), Ok ())"
proof -
  let ?x = "take (length text - lost) text" and ?t = "with_extension ''tmp'' path"
  have "fst (replace_file fs_all_ok d ?t path ?x) = d(path \<mapsto> ?x, ?t := None)"
    by (rule replace_file_Ok) (simp_all add: with_extension_neq [OF assms(2)])
  moreover have "snd (replace_file fs_all_ok d ?t path ?x) = Ok ()" by simp
  ultimately show ?thesis using assms(1) by (simp add: persist_receipts_def prod_eq_iff)
qed

text \<open>A flush clears the dirty flag before its task writes, and a failure of the task is only
  logged: the next flush has nothing to do, and the file keeps the old receipts.\<close>

lemma failed_flush_not_retried:
  assumes "flush_if_dirty now s = (s', Some snap, Ok True)"
  shows "flush_if_dirty later s' = (s', None, Ok False)"
  using assms by (auto simp: flush_if_dirty_def Let_def split: if_splits)

section \<open>Properties\<close>

text \<open>C30: receipts survive a restart: after a flush of the store whose write task succeeded and
  lost no bytes, loading the file gives every host whose last activity is within six hours,
  with all its counters, the last decision and its time, and no other host.\<close>
theorem receipts_flush_load_roundtrip:
  assumes "json_laws J" "finite (dom (rs_hosts s))" "p_ext (rs_path s) \<noteq> Some ''tmp''"
    and "\<And>h. h \<in> dom (rs_hosts s) \<Longrightarrow> normalize_host h = h \<and> h \<noteq> []"
    and "flush_if_dirty now s = (s', Some snap, Ok True)"
    and "flush_task J env part 0 now' d (rs_path s) snap = (d', Ok ())"
  shows "receipt_store_load J None d' (rs_path s) =
    Ok \<lparr>rs_path = rs_path s, rs_hosts = (\<lambda>h. case rs_hosts s h of None \<Rightarrow> None
         | Some r \<Rightarrow> if unat now \<le> unat (hr_last_seen_unix r) + 6 * 3600 then Some r else None),
       rs_dirty = False, rs_poisoned = False\<rparr>"
proof -
  have snap: "snap = prune_stale_hosts now (6 * 3600) (rs_hosts s)"
    using assms(5) by (auto simp: flush_if_dirty_def Let_def split: if_splits)
  have "load_receipts J None d' (rs_path s) = Ok snap"
  proof (rule flush_task_load [OF assms(1) _ _ assms(3,6)])
    show "finite (dom snap)" unfolding snap by (rule finite_prune [OF assms(2)])
    show "normalize_host h = h \<and> h \<noteq> []" if "h \<in> dom snap" for h
      using that assms(4) dom_prune unfolding snap by blast
  qed
  moreover have "sat_sub now (6 * 3600) \<le> l \<longleftrightarrow> unat now \<le> unat l + 6 * 3600" for l :: u64
    by (cases "now < 6 * 3600") (auto simp: sat_sub_def word_le_nat_alt word_less_nat_alt unat_sub)
  ultimately show ?thesis
    by (simp add: receipt_store_load_def snap prune_stale_hosts_def Let_def cong: option.case_cong)
qed

text \<open>No recording operation, in any order, on any hosts and at any times, ever lowers a
  counter of any receipt or drops a receipt: counters saturate and do not wrap.\<close>
theorem receipts_never_decrease:
  assumes "rs_hosts s h = Some r"
  shows "\<exists>q. rs_hosts (fold apply_receipt_op ops s) h = Some q \<and> receipt_le r q"
  using receipts_mono.ops_le [of s ops] assms by (simp add: store_le_def)

text \<open>The compliance totals are, for each of their 28 figures, the sum over all hosts of the
  receipts' counter, capped at the largest 64-bit value.\<close>
theorem compliance_totals_sums:
  "compliance_sum hosts = \<lparr>
     ct_hosts = sat_sum (\<lambda>_. 1) hosts,
     ct_seen_total = sat_sum hr_seen_total hosts,
     ct_routing_mitm_total = sat_sum hr_routing_mitm_total hosts,
     ct_routing_passthrough_total = sat_sum hr_routing_passthrough_total hosts,
     ct_mitm_attempt_total = sat_sum hr_mitm_attempt_total hosts,
     ct_mitm_success_total = sat_sum hr_mitm_success_total hosts,
     ct_mitm_failure_total = sat_sum hr_mitm_failure_total hosts,
     ct_mitm_client_tls_reject_total = sat_sum hr_mitm_client_tls_reject_total hosts,
     ct_host_auto_pinned_total = sat_sum hr_host_auto_pinned_total hosts,
     ct_cookie_stripped_events_total = sat_sum hr_policy_set_cookie_stripped_total hosts,
     ct_cookie_report_only_events_total = sat_sum hr_policy_set_cookie_would_strip_total hosts,
     ct_set_cookie_headers_total = sat_sum hr_policy_set_cookie_headers_total hosts,
     ct_dns_blocked_total = sat_sum hr_dns_blocked_total hosts,
     ct_dns_report_only_total = sat_sum hr_dns_report_only_total hosts,
     ct_dns_cname_uncloaked_total = sat_sum hr_dns_cname_uncloaked_total hosts,
     ct_consent_blocked_total = sat_sum hr_consent_enforcement_blocked_total hosts,
     ct_consent_report_only_total = sat_sum hr_consent_enforcement_report_only_total hosts,
     ct_body_rewrite_enforce_total = sat_sum hr_body_rewrite_total hosts,
     ct_body_rewrite_report_only_total = sat_sum hr_body_rewrite_report_only_total hosts,
     ct_body_rewrite_skipped_total = sat_sum hr_body_rewrite_skipped_total hosts,
     ct_body_rewrite_removed_script_total = sat_sum hr_body_rewrite_removed_script_total hosts,
     ct_body_rewrite_removed_pixel_total = sat_sum hr_body_rewrite_removed_pixel_total hosts,
     ct_body_rewrite_removed_cosmetic_total = sat_sum hr_body_rewrite_removed_cosmetic_total hosts,
     ct_body_rewrite_bytes_saved_total = sat_sum hr_body_rewrite_bytes_saved_total hosts,
     ct_body_rewrite_removed_script_report_only_total = sat_sum hr_body_rewrite_removed_script_report_only_total hosts,
     ct_body_rewrite_removed_pixel_report_only_total = sat_sum hr_body_rewrite_removed_pixel_report_only_total hosts,
     ct_body_rewrite_removed_cosmetic_report_only_total = sat_sum hr_body_rewrite_removed_cosmetic_report_only_total hosts,
     ct_body_rewrite_bytes_saved_report_only_total = sat_sum hr_body_rewrite_bytes_saved_report_only_total hosts\<rparr> \<and>
   (\<forall>f. unat (sat_sum f hosts) = min (\<Sum>x\<leftarrow>hosts. unat (f (snd x))) (2 ^ 64 - 1))"
proof (intro conjI allI)
  show "unat (sat_sum f hosts) = min (\<Sum>x\<leftarrow>hosts. unat (f (snd x))) (2 ^ 64 - 1)" for f
    using unat_fold_sat_add [of f hosts 0] by (simp add: sat_sum_def)
qed (simp only: compliance_sum_def compliance_fold sat_sum_def compliance_default_def compliance_totals.simps)

text \<open>Host names and reasons cannot inject markup into the HTML report: the escaped text has
  no angle bracket and no quote, and decoding its character references gives the text back.\<close>
theorem escape_html_safe:
  "set (escape_html s) \<inter> {CHR ''<'', CHR ''>'', CHR 0x22, CHR 0x27} = {} \<and> unescape_html (escape_html s) = s"
proof
  have "set (escape_char c) \<inter> {CHR ''<'', CHR ''>'', CHR 0x22, CHR 0x27} = {}" for c
    by (auto simp: escape_char_def)
  then show "set (escape_html s) \<inter> {CHR ''<'', CHR ''>'', CHR 0x22, CHR 0x27} = {}"
    by (force simp: escape_html_def)
  show "unescape_html (escape_html s) = s"
    by (induction s) (simp_all add: escape_html_def unescape_char)
qed

definition wit_receipt :: host_receipt where
  "wit_receipt = touch 1000 ''connect'' ''mitm'' ''policy'' host_receipt_default"

definition wit_receipts :: receipt_store where
  "wit_receipts = \<lparr>rs_path = \<lparr>p_dir = ''/r'', p_stem = ''receipts'', p_ext = Some ''json''\<rparr>,
     rs_hosts = [''a.com'' \<mapsto> wit_receipt], rs_dirty = True, rs_poisoned = False\<rparr>"

definition wit_root :: jval where
  "wit_root = JObj [(''generated_unix'', JNum 2000), (''hosts'', hosts_json (jdoc JNull) (rs_hosts wit_receipts)), (''version'', JNum 1)]"

lemma hosts_json_jdoc: "hosts_json (jdoc v) m = hosts_json (jdoc w) m"
  by (simp add: hosts_json_def receipt_as_json_def receipt_entries_def opt_str_def jdoc_def cong: option.case_cong)

lemma wit_flush: "flush_if_dirty 2000 wit_receipts = (wit_receipts\<lparr>rs_dirty := False\<rparr>, Some (rs_hosts wit_receipts), Ok True)"
proof -
  have "prune_stale_hosts 2000 (6 * 3600) (rs_hosts wit_receipts) = rs_hosts wit_receipts"
    by (auto simp: prune_stale_hosts_def sat_sub_def wit_receipts_def fun_eq_iff)
  then show ?thesis by (simp add: flush_if_dirty_def wit_receipts_def)
qed

theorem receipts_flush_load_roundtrip_witness:
  "receipt_store_load (jdoc wit_root) None
     (fst (flush_task (jdoc wit_root) fs_all_ok [] 0 2000 Map.empty (rs_path wit_receipts) (rs_hosts wit_receipts))) (rs_path wit_receipts)
   = Ok (wit_receipts\<lparr>rs_dirty := False\<rparr>)"
proof -
  let ?J = "jdoc wit_root"
  obtain d' where d': "flush_task ?J fs_all_ok [] 0 2000 Map.empty (rs_path wit_receipts) (rs_hosts wit_receipts) = (d', Ok ())"
  proof -
    have "to_string_pretty ?J (mk_object ?J [(''generated_unix'', mk_u64 ?J 2000), (''hosts'', hosts_json ?J (rs_hosts wit_receipts)), (''version'', mk_u64 ?J 1)]) = Inr ''{}''"
      using hosts_json_jdoc [of wit_root "rs_hosts wit_receipts" JNull] by (simp add: jdoc_def wit_root_def)
    then have "snd (flush_task ?J fs_all_ok [] 0 2000 Map.empty (rs_path wit_receipts) (rs_hosts wit_receipts)) = Ok ()"
      by (simp add: flush_task_def persist_receipts_def)
    then show ?thesis using that by (metis prod.collapse)
  qed
  have "receipt_store_load ?J None d' (rs_path wit_receipts) =
    Ok \<lparr>rs_path = rs_path wit_receipts, rs_hosts = (\<lambda>h. case rs_hosts wit_receipts h of None \<Rightarrow> None
         | Some r \<Rightarrow> if unat (2000 :: u64) \<le> unat (hr_last_seen_unix r) + 6 * 3600 then Some r else None),
       rs_dirty = False, rs_poisoned = False\<rparr>"
  proof (rule receipts_flush_load_roundtrip [OF json_laws_jdoc _ _ _ wit_flush d'])
    show "normalize_host h = h \<and> h \<noteq> []" if "h \<in> dom (rs_hosts wit_receipts)" for h
      using that by (auto simp: wit_receipts_def intro!: normalize_host_id simp: no_upper_def)
  qed (simp_all add: wit_receipts_def)
  moreover have "(\<lambda>h. case rs_hosts wit_receipts h of None \<Rightarrow> None
         | Some r \<Rightarrow> if unat (2000 :: u64) \<le> unat (hr_last_seen_unix r) + 6 * 3600 then Some r else None) = rs_hosts wit_receipts"
    by (auto simp: wit_receipts_def fun_eq_iff)
  ultimately show ?thesis using d' by (simp add: wit_receipts_def)
qed

theorem receipts_never_decrease_witness:
  "\<exists>q. rs_hosts (fold apply_receipt_op [(5, OpDnsBlock ''A.com.''), (6, OpMitmSuccess ''b.com'')] wit_receipts) ''a.com'' = Some q
     \<and> receipt_le wit_receipt q"
  by (rule receipts_never_decrease) (simp add: wit_receipts_def)

end
