(* ===== verification/Tally.thy ===== *)
theory Tally
  imports Receipts Metrics
begin

text \<open>
  The counters that the tasks of the engine share: the metrics, and the receipt store when there
  is one. Every event that the program counts goes to both, by \<open>tick\<close>.
\<close>

record tally =
  t_metrics :: metrics
  t_receipts :: "receipt_store option"

definition tick :: "(metrics \<Rightarrow> metrics) \<Rightarrow> (receipt_store \<Rightarrow> receipt_store) \<Rightarrow> tally \<Rightarrow> tally" where
  "tick f g t = \<lparr>t_metrics = f (t_metrics t), t_receipts = map_option g (t_receipts t)\<rparr>"

lemma tick_simps [simp]:
  "t_metrics (tick f g t) = f (t_metrics t)" "t_receipts (tick f g t) = map_option g (t_receipts t)"
  by (simp_all add: tick_def)

end
