(* ===== verification/Http1.thy ===== *)
theory Http1
  imports Policy Tally
begin

text \<open>
  The HTTP/1.1 helpers of \<^verbatim>\<open>src/mitm.rs\<close>: inspection and editing of header blocks and
  requests, incremental chunked decoding, and the body rewrite with its (de)compression. The
  streaming HTML rewriter of the crate \<^verbatim>\<open>lol_html\<close>, the codecs of \<^verbatim>\<open>flate2\<close> and
  \<^verbatim>\<open>brotli\<close>, and CSS validity are arguments.
\<close>

abbreviation lower_starts :: "bytes \<Rightarrow> bytes \<Rightarrow> bool" where
  "lower_starts line p \<equiv> prefix p (to_ascii_lowercase line)"

definition header_text_lines :: "bytes \<Rightarrow> bytes list" where
  "header_text_lines block = split_crlf (from_utf8_lossy block)"

definition nonempty_lines :: "bytes \<Rightarrow> bytes list" where
  "nonempty_lines block = filter (\<lambda>s. s \<noteq> []) (header_text_lines block)"

fun html_lines :: "bytes list \<Rightarrow> bool" where
  "html_lines [] = False"
| "html_lines (line # lines) =
    (case split_once CHR '':'' line of
       Some (key, value) \<Rightarrow> if eq_ignore_ascii_case (trim key) ''content-type''
         then prefix ''text/html'' (to_ascii_lowercase (trim value)) else html_lines lines
     | None \<Rightarrow> html_lines lines)"

definition response_is_html :: "bytes \<Rightarrow> bool" where
  "response_is_html header_block = html_lines (header_text_lines header_block)"

fun encoding_lines :: "bytes list \<Rightarrow> bytes option" where
  "encoding_lines [] = None"
| "encoding_lines (line # lines) =
    (if lower_starts line ''content-encoding:''
     then map_option (\<lambda>(_, v). to_ascii_lowercase (trim v)) (split_once CHR '':'' line)
     else encoding_lines lines)"

definition extract_content_encoding :: "bytes \<Rightarrow> bytes option" where
  "extract_content_encoding header_block = encoding_lines (header_text_lines header_block)"

fun length_lines :: "bytes list \<Rightarrow> nat option" where
  "length_lines [] = None"
| "length_lines (line # lines) =
    (if lower_starts line ''content-length:''
     then Option.bind (split_once CHR '':'' line) (\<lambda>(_, v). parse_usize (trim v))
     else length_lines lines)"

definition extract_content_length :: "bytes \<Rightarrow> nat option" where
  "extract_content_length header_block = length_lines (header_text_lines header_block)"

definition has_transfer_encoding_chunked :: "bytes \<Rightarrow> bool" where
  "has_transfer_encoding_chunked header_block =
    (let header_str = to_ascii_lowercase (from_utf8_lossy header_block) in
     str_contains header_str ''transfer-encoding:'' \<and> str_contains header_str ''chunked'')"

function decode_message_from :: "bytes \<Rightarrow> nat \<Rightarrow> bytes \<Rightarrow> (bytes \<times> nat) option" where
  "decode_message_from data pos acc =
    (case find_sub CRLF (drop pos data) of None \<Rightarrow> None
     | Some crlf \<Rightarrow>
    (case from_utf8 (take crlf (drop pos data)) of None \<Rightarrow> None
     | Some size_line \<Rightarrow>
    (case from_str_radix 16 usize_bound (trim (hd (split_on CHR '';'' size_line))) of None \<Rightarrow> None
     | Some chunk_size \<Rightarrow>
       let pos = pos + crlf + 2 in
       if chunk_size = 0 then
         (if pos + 2 > length data then None
          else if take 2 (drop pos data) = CRLF then Some (acc, pos + 2)
          else map_option (\<lambda>e. (acc, pos + e + 4)) (find_sub CRLF2 (drop pos data)))
       else
         let chunk_end = pos + chunk_size; crlf_end = chunk_end + 2 in
         if crlf_end \<ge> usize_bound then None
         else if crlf_end > length data then None
         else if take 2 (drop chunk_end data) \<noteq> CRLF then None
         else decode_message_from data crlf_end (acc @ take chunk_size (drop pos data)))))"
  by pat_completeness auto
termination
  by (relation "measure (\<lambda>(data, pos, acc). length data - pos)") (auto dest: find_sub_bound)

declare decode_message_from.simps [simp del]

definition try_decode_chunked_message :: "bytes \<Rightarrow> (bytes \<times> nat) option" where
  "try_decode_chunked_message data = decode_message_from data 0 []"

definition integrity_header :: "bytes \<Rightarrow> bool" where
  "integrity_header line \<longleftrightarrow> lower_starts line ''etag:'' \<or> lower_starts line ''digest:'' \<or>
     lower_starts line ''content-md5:'' \<or> lower_starts line ''accept-ranges:'' \<or> lower_starts line ''trailer:''"

definition strip_body_integrity_headers :: "bytes list \<Rightarrow> bytes list" where
  "strip_body_integrity_headers lines = filter (\<lambda>line. \<not> integrity_header line) lines"

definition content_length_line :: "nat \<Rightarrow> bytes" where
  "content_length_line n = ''Content-Length: '' @ show_nat n"

definition replace_chunked_with_content_length :: "bytes \<Rightarrow> nat \<Rightarrow> bytes" where
  "replace_chunked_with_content_length header_block body_len =
    (let lines = nonempty_lines header_block;
         lines = filter (\<lambda>line. \<not> lower_starts line ''transfer-encoding:'' \<and> \<not> lower_starts line ''content-length:'') lines;
         lines = strip_body_integrity_headers lines;
         lines = lines @ [content_length_line body_len]
     in join CRLF lines @ CRLF2)"

definition replace_content_length :: "bytes \<Rightarrow> nat \<Rightarrow> bytes" where
  "replace_content_length header_block new_length =
    (let lines = nonempty_lines header_block;
         lines = filter (\<lambda>line. \<not> lower_starts line ''content-length:'') lines;
         lines = strip_body_integrity_headers lines;
         lines = lines @ [content_length_line new_length]
     in join CRLF lines @ CRLF2)"

section \<open>Requests\<close>

definition header_named :: "bytes \<Rightarrow> bytes \<Rightarrow> bool" where
  "header_named name line = (case split_once CHR '':'' line of
     Some (key, _) \<Rightarrow> eq_ignore_ascii_case (trim key) name | None \<Rightarrow> False)"

definition inject_google_referer :: "bytes \<Rightarrow> bytes option" where
  "inject_google_referer buf = do {
     s \<leftarrow> from_utf8 buf;
     header_end \<leftarrow> find_sub CRLF2 s;
     let lines = filter (\<lambda>line. \<not> header_named ''referer'' line) (split_crlf (take header_end s));
     Some (join CRLF (lines @ [''Referer: https://www.google.com/'']) @ drop header_end s) }"

definition TRACKING_QUERY_PARAMS :: "bytes list" where
  "TRACKING_QUERY_PARAMS = [''fbclid'', ''gclid'', ''gbraid'', ''wbraid'', ''dclid'', ''utm_source'', ''utm_medium'',
     ''utm_campaign'', ''utm_term'', ''utm_content'', ''_ga'', ''_gl'', ''msclkid'', ''twclid'', ''li_fat_id'', ''mc_eid'']"

definition tracking_param :: "bytes \<Rightarrow> bool" where
  "tracking_param param = list_ex (\<lambda>t. eq_ignore_ascii_case t (hd (split_on CHR ''='' param))) TRACKING_QUERY_PARAMS"

definition strip_tracking_query_params :: "bytes \<Rightarrow> bytes option" where
  "strip_tracking_query_params buf = do {
     s \<leftarrow> from_utf8 buf;
     first_line_end \<leftarrow> find_sub CRLF s;
     let first_line = take first_line_end s; let rest = drop first_line_end s;
     space1 \<leftarrow> find_char CHR '' '' first_line;
     let after_method = drop (space1 + 1) first_line;
     space2 \<leftarrow> find_char CHR '' '' after_method;
     let uri = take space2 after_method; let http_version = drop space2 after_method;
     question \<leftarrow> find_char CHR ''?'' uri;
     let path = take question uri; let params = split_on CHR ''&'' (drop (question + 1) uri);
     let kept = filter (\<lambda>p. \<not> tracking_param p) params; let method = take space1 first_line;
     if \<not> list_ex tracking_param params then None
     else Some ((if kept = [] then method @ '' '' @ path @ http_version
                 else method @ '' '' @ path @ ''?'' @ join ''&'' kept @ http_version) @ rest) }"

definition strip_cache_tracking_headers :: "bytes list \<Rightarrow> bytes list" where
  "strip_cache_tracking_headers lines = filter (\<lambda>line. \<not> lower_starts line ''last-modified:'' \<and>
     \<not> lower_starts line ''x-cache:'' \<and> \<not> lower_starts line ''x-request-id:'') lines"

definition strip_cache_request_headers :: "bytes \<Rightarrow> bytes option" where
  "strip_cache_request_headers buf = do {
     s \<leftarrow> from_utf8 buf;
     header_end \<leftarrow> find_sub CRLF2 s;
     let lines = split_crlf (take header_end s);
     let kept = filter (\<lambda>line. \<not> header_named ''if-none-match'' line \<and> \<not> header_named ''if-modified-since'' line) lines;
     if length kept = length lines then None
     else Some (join CRLF kept @ drop header_end s) }"

definition websocket_line :: "bytes \<Rightarrow> bool" where
  "websocket_line line = (case split_once CHR '':'' line of
     Some (key, value) \<Rightarrow> eq_ignore_ascii_case (trim key) ''upgrade'' \<and> eq_ignore_ascii_case (trim value) ''websocket''
   | None \<Rightarrow> False)"

definition request_has_websocket_upgrade :: "bytes \<Rightarrow> bool" where
  "request_has_websocket_upgrade buf = (case from_utf8 buf of None \<Rightarrow> False
     | Some s \<Rightarrow> list_ex websocket_line (split_crlf s))"

section \<open>Body rewriting\<close>

definition MAX_COSMETIC_SELECTORS_PER_REWRITE :: nat where "MAX_COSMETIC_SELECTORS_PER_REWRITE = 1024"

text \<open>What an element handler does with the element it is called for, given its attributes. The
  HTML rewriter (crate \<^verbatim>\<open>lol_html\<close>) is a parameter: it takes the registered pairs of selector
  and handler and a body, and returns the output with the actions the handlers took, or an error.
  The compression crates are parameters too.\<close>

datatype removal = ScriptRemoved | PixelRemoved | CosmeticRemoved

datatype element_action = KeepElement | RemoveElement removal | PrependHtml bytes

type_synonym element_handler = "bytes \<times> ((bytes \<rightharpoonup> bytes) \<Rightarrow> element_action)"

record body_codec =
  gz_decode :: "bytes \<Rightarrow> bytes io_result"
  gz_encode :: "bytes \<Rightarrow> bytes io_result"
  deflate_decode :: "bytes \<Rightarrow> bytes io_result"
  deflate_encode :: "bytes \<Rightarrow> bytes io_result"
  br_decode :: "bytes \<Rightarrow> bytes io_result"
  br_encode :: "bytes \<Rightarrow> bytes io_result"

record html_env =
  css_ok :: "bytes \<Rightarrow> bool"
  html_engine :: "element_handler list \<Rightarrow> bytes \<Rightarrow> string + (bytes \<times> element_action list)"
  he_codec :: body_codec

definition parse_selector_cached :: "(bytes \<Rightarrow> bool) \<Rightarrow> bytes \<Rightarrow> string + bytes" where
  "parse_selector_cached css selector_str =
    (if css selector_str then Ok selector_str else Err (''invalid CSS selector '' @ in_quotes selector_str))"

definition script_handler :: "bytes list \<Rightarrow> (bytes \<rightharpoonup> bytes) \<Rightarrow> element_action" where
  "script_handler patterns attribute =
    (case attribute ''src'' of None \<Rightarrow> KeepElement
     | Some src \<Rightarrow> if list_ex (\<lambda>pat. str_contains src pat) patterns then RemoveElement ScriptRemoved else KeepElement)"

definition PIXEL_SELECTOR :: bytes where
  "PIXEL_SELECTOR = ''img[width='' @ [CHR 0x22] @ ''1'' @ [CHR 0x22] @ ''][height='' @ [CHR 0x22] @ ''1'' @ [CHR 0x22] @ '']''"

fun cosmetic_handlers :: "(bytes \<Rightarrow> bool) \<Rightarrow> nat \<Rightarrow> bytes list \<Rightarrow> string + element_handler list" where
  "cosmetic_handlers css added [] = Ok []"
| "cosmetic_handlers css added (sel # sels) =
    (if added \<ge> MAX_COSMETIC_SELECTORS_PER_REWRITE then Ok []
     else and_then (parse_selector_cached css sel) (\<lambda>s.
          and_then (cosmetic_handlers css (added + 1) sels) (\<lambda>hs.
          Ok ((s, \<lambda>_. RemoveElement CosmeticRemoved) # hs))))"

definition scroll_js :: bytes where
  "scroll_js = ''<script data-pe='' @ [CHR 0x22] @ ''1'' @ [CHR 0x22] @ ''>(function(){'' @
     ''function fix(){'' @
     ''var d=document.documentElement,b=document.body;'' @
     ''[d,b].forEach(function(el){if(!el)return;'' @
     ''var c=getComputedStyle(el);'' @
     ''if(c.overflow==='' @ [CHR 0x27] @ ''hidden'' @ [CHR 0x27] @ ''||c.overflow==='' @ [CHR 0x27] @ ''clip'' @ [CHR 0x27] @ '')el.style.setProperty('' @ [CHR 0x27] @ ''overflow'' @ [CHR 0x27] @ '','' @ [CHR 0x27] @ ''auto'' @ [CHR 0x27] @ '','' @ [CHR 0x27] @ ''important'' @ [CHR 0x27] @ '');'' @
     ''if(c.overflowY==='' @ [CHR 0x27] @ ''hidden'' @ [CHR 0x27] @ ''||c.overflowY==='' @ [CHR 0x27] @ ''clip'' @ [CHR 0x27] @ '')el.style.setProperty('' @ [CHR 0x27] @ ''overflow-y'' @ [CHR 0x27] @ '','' @ [CHR 0x27] @ ''auto'' @ [CHR 0x27] @ '','' @ [CHR 0x27] @ ''important'' @ [CHR 0x27] @ '');'' @
     ''if(c.position==='' @ [CHR 0x27] @ ''fixed'' @ [CHR 0x27] @ '')el.style.setProperty('' @ [CHR 0x27] @ ''position'' @ [CHR 0x27] @ '','' @ [CHR 0x27] @ ''static'' @ [CHR 0x27] @ '','' @ [CHR 0x27] @ ''important'' @ [CHR 0x27] @ '');'' @
     ''if(c.pointerEvents==='' @ [CHR 0x27] @ ''none'' @ [CHR 0x27] @ '')el.style.setProperty('' @ [CHR 0x27] @ ''pointer-events'' @ [CHR 0x27] @ '','' @ [CHR 0x27] @ ''auto'' @ [CHR 0x27] @ '','' @ [CHR 0x27] @ ''important'' @ [CHR 0x27] @ '');'' @
     ''el.style.removeProperty('' @ [CHR 0x27] @ ''touch-action'' @ [CHR 0x27] @ '');'' @
     ''});'' @
     ''if(b){'' @
     ''var overlays=b.querySelectorAll('' @ [CHR 0x27] @ ''div'' @ [CHR 0x27] @ '');'' @
     ''for(var i=0;i<overlays.length;i++){'' @
     ''var el=overlays[i];var c=getComputedStyle(el);'' @
     ''var z=parseInt(c.zIndex,10);'' @
     ''if(z>999999&&(c.position==='' @ [CHR 0x27] @ ''fixed'' @ [CHR 0x27] @ ''||c.position==='' @ [CHR 0x27] @ ''absolute'' @ [CHR 0x27] @ '')){'' @
     ''el.style.setProperty('' @ [CHR 0x27] @ ''display'' @ [CHR 0x27] @ '','' @ [CHR 0x27] @ ''none'' @ [CHR 0x27] @ '','' @ [CHR 0x27] @ ''important'' @ [CHR 0x27] @ '');'' @
     ''}}'' @
     ''}'' @
     ''}'' @
     ''var o=new MutationObserver(function(){fix()});'' @
     ''fix();'' @
     ''o.observe(document.documentElement,{attributes:true,attributeFilter:['' @ [CHR 0x27] @ ''style'' @ [CHR 0x27] @ '','' @ [CHR 0x27] @ ''class'' @ [CHR 0x27] @ ''],subtree:false,childList:true});'' @
     ''var bi=setInterval(function(){'' @
     ''if(document.body){'' @
     ''clearInterval(bi);fix();'' @
     ''o.observe(document.body,{attributes:true,attributeFilter:['' @ [CHR 0x27] @ ''style'' @ [CHR 0x27] @ '','' @ [CHR 0x27] @ ''class'' @ [CHR 0x27] @ ''],subtree:false,childList:true});'' @
     ''}},20);'' @
     ''setInterval(fix,800);'' @
     ''})()</script>''"

definition style_tag :: "bytes list \<Rightarrow> bytes" where
  "style_tag css_inject = scroll_js @ ''<style data-pe='' @ [CHR 0x22] @ ''1'' @ [CHR 0x22] @ ''>html,body{overflow:auto!important}'' @
     concat (map (\<lambda>s. s @ ''{display:none!important}'') css_inject) @ ''</style>''"

definition element_handlers :: "(bytes \<Rightarrow> bool) \<Rightarrow> body_rewrite_plan \<Rightarrow> string + element_handler list" where
  "element_handlers css plan =
    and_then (if manual_script_patterns plan \<noteq> [] \<or> filter_script_patterns plan \<noteq> []
       then and_then (parse_selector_cached css ''script[src]'') (\<lambda>sel.
            Ok [(sel, script_handler (manual_script_patterns plan @ filter_script_patterns plan))])
       else Ok []) (\<lambda>scripts.
    and_then (if strip_tracking_pixels plan
       then (case parse_selector_cached css PIXEL_SELECTOR of Inl e \<Rightarrow> Err (''pixel selector error: '' @ e)
             | Inr sel \<Rightarrow> Ok [(sel, \<lambda>_. RemoveElement PixelRemoved)])
       else Ok []) (\<lambda>pixels.
    and_then (cosmetic_handlers css 0
       (concat (domain_remove_selectors plan) @ manual_remove_selectors plan @ filter_remove_selectors plan)) (\<lambda>cosmetic.
    and_then (if cosmetic \<noteq> [] \<or> css_inject_selectors plan \<noteq> []
       then and_then (parse_selector_cached css ''head'') (\<lambda>sel.
            Ok [(sel, \<lambda>_. PrependHtml (style_tag (css_inject_selectors plan)))])
       else Ok []) (\<lambda>inject.
    Ok (scripts @ pixels @ cosmetic @ inject)))))"

definition removed_count :: "removal \<Rightarrow> element_action list \<Rightarrow> u64" where
  "removed_count r actions = of_nat (length (filter (\<lambda>a. a = RemoveElement r) actions))"

definition rewrite_html_body :: "html_env \<Rightarrow> bytes \<Rightarrow> body_rewrite_plan \<Rightarrow> string + (bytes \<times> body_rewrite_details)" where
  "rewrite_html_body env body plan =
    and_then (element_handlers (css_ok env) plan) (\<lambda>pairs.
    and_then (html_engine env pairs body) (\<lambda>(output, actions).
    Ok (output, \<lparr>removed_scripts = removed_count ScriptRemoved actions, removed_pixels = removed_count PixelRemoved actions,
       removed_cosmetic = removed_count CosmeticRemoved actions, bytes_saved = 0\<rparr>)))"

definition decompress_body :: "body_codec \<Rightarrow> bytes \<Rightarrow> bytes \<Rightarrow> bytes io_result" where
  "decompress_body c body encoding =
    (if encoding = ''gzip'' \<or> encoding = ''x-gzip'' then gz_decode c body
     else if encoding = ''deflate'' then deflate_decode c body
     else if encoding = ''br'' then br_decode c body
     else Ok body)"

definition compress_body :: "body_codec \<Rightarrow> bytes \<Rightarrow> bytes \<Rightarrow> bytes io_result" where
  "compress_body c body encoding =
    (if encoding = ''gzip'' \<or> encoding = ''x-gzip'' then gz_encode c body
     else if encoding = ''deflate'' then deflate_encode c body
     else if encoding = ''br'' then br_encode c body
     else Ok body)"

definition compressed :: "bytes option \<Rightarrow> bytes option" where
  "compressed enc = (case enc of Some e \<Rightarrow> if e \<in> {''gzip'', ''x-gzip'', ''deflate'', ''br''} then Some e else None | None \<Rightarrow> None)"

definition t_skipped :: "u64 \<Rightarrow> bytes \<Rightarrow> tally \<Rightarrow> tally" where
  "t_skipped now host = tick inc_body_rewrite_skipped_total (record_body_rewrite_skipped now host)"

definition t_rewritten :: "u64 \<Rightarrow> bytes \<Rightarrow> bytes \<Rightarrow> body_rewrite_details \<Rightarrow> tally \<Rightarrow> tally" where
  "t_rewritten now host mode details = tick inc_body_rewrite_total (record_body_rewrite now host mode details)"

definition attempt_body_rewrite_with_codec ::
  "html_env \<Rightarrow> u64 \<Rightarrow> bytes \<Rightarrow> body_rewrite_plan \<Rightarrow> bytes \<Rightarrow> bytes option \<Rightarrow>
   (bytes \<Rightarrow> bytes \<Rightarrow> bytes io_result) \<Rightarrow> (bytes \<Rightarrow> bytes \<Rightarrow> bytes io_result) \<Rightarrow> tally \<Rightarrow> bytes option \<times> tally" where
  "attempt_body_rewrite_with_codec env now body plan host content_encoding decompress compress t =
    (case (case compressed content_encoding of Some enc \<Rightarrow> decompress body enc | None \<Rightarrow> Ok body) of
       Inl e \<Rightarrow> (None, t_skipped now host t)
     | Inr html_bytes \<Rightarrow>
        (case rewrite_html_body env html_bytes plan of
           Inl e \<Rightarrow> (None, t_skipped now host t)
         | Inr (rewritten_html, details) \<Rightarrow>
            if bp_mode plan = ReportOnly then
              let details = (if content_encoding = None
                    then details\<lparr>bytes_saved := u64_of_usize (length body - length rewritten_html)\<rparr> else details)
              in (None, t_rewritten now host (mode_as_str (bp_mode plan)) details t)
            else
              (case (case compressed content_encoding of Some enc \<Rightarrow> compress rewritten_html enc | None \<Rightarrow> Ok rewritten_html) of
                 Inl e \<Rightarrow> (None, t_skipped now host t)
               | Inr final_body \<Rightarrow>
                  (Some final_body, t_rewritten now host (mode_as_str (bp_mode plan))
                     (details\<lparr>bytes_saved := u64_of_usize (length body - length final_body)\<rparr>) t))))"

definition attempt_body_rewrite ::
  "html_env \<Rightarrow> u64 \<Rightarrow> bytes \<Rightarrow> body_rewrite_plan \<Rightarrow> bytes \<Rightarrow> bytes option \<Rightarrow> tally \<Rightarrow> bytes option \<times> tally" where
  "attempt_body_rewrite env now body plan host content_encoding t =
    attempt_body_rewrite_with_codec env now body plan host content_encoding (decompress_body (he_codec env)) (compress_body (he_codec env)) t"

section \<open>UTF-8 and header lines\<close>

lemma utf8_step_append: "fst (utf8_step a s) \<Longrightarrow> utf8_step a (s @ t) = utf8_step a s"
  using utf8_step_take [of a s "drop (snd (utf8_step a s) - 1) s @ t"] by (simp flip: append_assoc)

lemma utf8_valid_append: "utf8_valid a \<Longrightarrow> utf8_valid (a @ b) = utf8_valid b"
proof (induction a rule: utf8_valid.induct)
  case (2 a s)
  then have v: "fst (utf8_step a s)" by simp
  have "snd (utf8_step a s) \<le> length (a # s)" using v by (rule utf8_step_le)
  then have "drop (snd (utf8_step a s)) (a # s @ b) = drop (snd (utf8_step a s)) (a # s) @ b"
    using drop_append [of "snd (utf8_step a s)" "a # s" b] by simp
  with 2 v utf8_step_append [OF v, of b] show ?case by simp
qed simp

lemma utf8_step_stop:
  "fst (utf8_step a (s @ c # b)) \<Longrightarrow> code c < 128 \<Longrightarrow> snd (utf8_step a (s @ c # b)) \<le> Suc (length s)"
  unfolding utf8_step_def cont_def lead3_def lead4_def
  by (cases s; cases "tl s"; cases "tl (tl s)") (simp_all split: if_split_asm)

lemma utf8_valid_before: "code c < 128 \<Longrightarrow> utf8_valid (a @ c # b) \<Longrightarrow> utf8_valid a"
proof (induction a rule: utf8_valid.induct)
  case (2 a s)
  let ?u = "utf8_step a (s @ c # b)"
  from 2 have v: "fst ?u" and r: "utf8_valid (drop (snd ?u) (a # s @ c # b))" by simp_all
  have k: "snd ?u \<le> Suc (length s)" by (rule utf8_step_stop [OF v 2(2)])
  have "utf8_step a s = ?u"
    using utf8_step_take [OF v, of "drop (snd ?u - 1) s"] k by simp
  moreover have "drop (snd ?u) (a # s @ c # b) = drop (snd ?u) (a # s) @ c # b"
    using drop_append [of "snd ?u" "a # s" "c # b"] k by simp
  ultimately show ?case using 2 v r by simp
qed simp

lemma utf8_valid_after: "code c < 128 \<Longrightarrow> utf8_valid (a @ c # b) \<Longrightarrow> utf8_valid b"
proof -
  assume c: "code c < 128" and v: "utf8_valid (a @ c # b)"
  then have "utf8_valid (c # b)" using utf8_valid_append [OF utf8_valid_before [OF c v], of "c # b"] by simp
  with c show ?thesis by simp
qed

lemma utf8_valid_join: "utf8_valid (join CRLF xs) \<longleftrightarrow> list_all utf8_valid xs"
proof (induction xs)
  case (Cons x xs)
  have "utf8_valid (x @ CR # LF # join CRLF xs) \<longleftrightarrow> utf8_valid x \<and> utf8_valid (join CRLF xs)"
    using utf8_valid_append [of x "CR # LF # join CRLF xs"] utf8_valid_before [of CR x "LF # join CRLF xs"] by auto
  with Cons show ?case by (auto simp: join_Cons)
qed simp

lemma join_snoc_empty: "xs \<noteq> [] \<Longrightarrow> join CRLF (xs @ [[], []]) = join CRLF xs @ CRLF2"
  by (induction xs) (auto simp: join_Cons)

lemma lines_of_block:
  assumes "xs \<noteq> []" "list_all utf8_valid xs" "list_all no_crlf xs"
  shows "header_text_lines (join CRLF xs @ CRLF2) = xs @ [[], []]"
proof -
  have "utf8_valid (join CRLF (xs @ [[], []]))" using assms(2) by (simp add: utf8_valid_join)
  moreover have "split_crlf (join CRLF (xs @ [[], []])) = xs @ [[], []]"
    by (rule split_crlf_join) (use assms(3) in simp_all)
  ultimately show ?thesis by (simp add: header_text_lines_def from_utf8_lossy_valid join_snoc_empty [OF assms(1)])
qed

lemma header_text_lines_pieces: "x \<in> set (header_text_lines block) \<Longrightarrow> utf8_valid x \<and> no_crlf x"
proof -
  assume x: "x \<in> set (header_text_lines block)"
  have "utf8_valid (join CRLF (header_text_lines block))"
    by (simp add: header_text_lines_def utf8_valid_lossy)
  with x have "utf8_valid x" by (simp only: utf8_valid_join list_all_iff)
  with x show ?thesis by (auto simp: header_text_lines_def intro: split_crlf_pieces)
qed

lemma show_nat_graphic: "graphic (show_nat n)"
  by (rule show_radix_graphic) simp_all

lemma graphic_no_CR: "graphic s \<Longrightarrow> CR \<notin> set s"
  by (auto simp: graphic_def list_all_iff)

lemma no_crlf_no_CR: "CR \<notin> set s \<Longrightarrow> no_crlf s"
  by (auto simp: no_crlf_iff dest: set_mono_sublist)

lemma content_length_line_ok: "utf8_valid (content_length_line n) \<and> no_crlf (content_length_line n) \<and>
    content_length_line n \<noteq> [] \<and> lower_starts (content_length_line n) ''content-length:'' \<and> \<not> integrity_header (content_length_line n)"
proof -
  have lower: "to_ascii_lowercase (content_length_line n) = ''content-length: '' @ to_ascii_lowercase (show_nat n)"
  proof -
    have "to_ascii_lowercase ''Content-Length: '' = ''content-length: ''" by code_simp
    then show ?thesis by (simp only: content_length_line_def to_ascii_lowercase_append)
  qed
  have "is_ascii (content_length_line n)"
    by (simp add: content_length_line_def graphic_ascii show_nat_graphic)
  moreover have "no_crlf (content_length_line n)"
    using graphic_no_CR [OF show_nat_graphic [of n]] by (intro no_crlf_no_CR) (simp add: content_length_line_def)
  ultimately show ?thesis by (simp add: lower integrity_header_def) (simp add: content_length_line_def)
qed

lemma content_length_line_value:
  assumes "n < 2 ^ 64"
  shows "Option.bind (split_once CHR '':'' (content_length_line n)) (\<lambda>(_, v). parse_usize (trim v)) = Some n"
proof -
  have "content_length_line n = ''Content-Length'' @ CHR '':'' # ('' '' @ show_nat n)"
    by (simp add: content_length_line_def)
  then have s: "split_once CHR '':'' (content_length_line n) = Some (''Content-Length'', '' '' @ show_nat n)"
    by (simp only: split_once_Some_iff) simp
  have g: "graphic (show_nat n)" by (rule show_nat_graphic)
  have "ws_len (CHR '' '' # show_nat n) = 1" by (cases "CHR '' '' # show_nat n" rule: ws_len.cases) (auto simp: ws1_def)
  then have "trim_start ('' '' @ show_nat n) = trim_start (show_nat n)" by (subst trim_start.simps) simp
  then have "trim ('' '' @ show_nat n) = show_nat n" using trim_graphic [OF g] by (simp add: trim_def)
  with s show ?thesis
    using from_str_radix_show [of 10 n usize_bound] assms by (simp add: parse_usize_def usize_bound_def)
qed

text \<open>Rebuilding a header block around a new body: some lines are kept, and a fresh
  Content-Length is the last line.\<close>

locale length_rebuilder =
  fixes rebuild :: "bytes \<Rightarrow> nat \<Rightarrow> bytes"
    and keep :: "bytes \<Rightarrow> bool"
  assumes rebuild_eq: "rebuild block n = join CRLF (filter keep (nonempty_lines block) @ [content_length_line n]) @ CRLF2"
    and keep_no_length: "keep l \<Longrightarrow> \<not> lower_starts l ''content-length:''"
begin

lemma lines: "header_text_lines (rebuild block n) = filter keep (nonempty_lines block) @ [content_length_line n, [], []]"
proof -
  let ?ls = "filter keep (nonempty_lines block) @ [content_length_line n]"
  have "list_all utf8_valid ?ls" "list_all no_crlf ?ls"
    using content_length_line_ok [of n] header_text_lines_pieces [of _ block]
    by (auto simp: list_all_iff nonempty_lines_def)
  then have "header_text_lines (join CRLF ?ls @ CRLF2) = ?ls @ [[], []]" by (intro lines_of_block) simp_all
  then show ?thesis by (simp add: rebuild_eq)
qed

lemma kept: "nonempty_lines (rebuild block n) = filter keep (nonempty_lines block) @ [content_length_line n]"
proof -
  have "filter (\<lambda>s. s \<noteq> []) (filter keep (nonempty_lines block)) = filter keep (nonempty_lines block)"
    by (rule filter_True) (auto simp: nonempty_lines_def)
  then show ?thesis using content_length_line_ok [of n] by (simp add: nonempty_lines_def [of "rebuild block n"] lines)
qed

lemma content_length: "n < 2 ^ 64 \<Longrightarrow> extract_content_length (rebuild block n) = Some n"
proof -
  assume n: "n < 2 ^ 64"
  have "length_lines (filter keep xs @ content_length_line n # ys) = Some n" for xs ys
    using content_length_line_ok [of n] content_length_line_value [OF n] keep_no_length by (induction xs) auto
  then show ?thesis by (simp add: extract_content_length_def lines)
qed

end

interpretation plain: length_rebuilder replace_content_length
  "\<lambda>l. \<not> lower_starts l ''content-length:'' \<and> \<not> integrity_header l"
  by unfold_locales (auto simp: replace_content_length_def strip_body_integrity_headers_def conj_commute)

interpretation dechunked: length_rebuilder replace_chunked_with_content_length
  "\<lambda>l. \<not> lower_starts l ''transfer-encoding:'' \<and> \<not> lower_starts l ''content-length:'' \<and> \<not> integrity_header l"
  by unfold_locales (auto simp: replace_chunked_with_content_length_def strip_body_integrity_headers_def conj_ac)

section \<open>Chunked messages\<close>

lemma find_sub_extend: "find_sub p s = Some n \<Longrightarrow> find_sub p (s @ t) = Some n"
proof (induction s arbitrary: n)
  case (Cons c s)
  show ?case
  proof (cases "prefix p (c # s)")
    case True
    then have "prefix p (c # s @ t)" by (metis append_Cons prefix_prefix)
    with True Cons.prems show ?thesis by simp
  next
    case False
    with Cons.prems obtain m where m: "find_sub p s = Some m" "n = Suc m" by auto
    from find_sub_bound [OF m(1)] have len: "length p \<le> length (c # s)" by simp
    have "\<not> prefix p (c # s @ t)"
    proof
      assume "prefix p (c # s @ t)"
      then have "prefix p ((c # s) @ t)" by simp
      with len have "prefix p (c # s)" by (meson prefixI prefix_length_prefix)
      with False show False ..
    qed
    with False m Cons.IH show ?thesis by simp
  qed
next
  case Nil
  then show ?case by (cases t) (simp_all split: if_splits)
qed

lemma decode_message_extend:
  "decode_message_from data pos acc = Some r \<Longrightarrow> decode_message_from (data @ t) pos acc = Some r \<and> snd r \<le> length data"
proof (induction data pos acc rule: decode_message_from.induct)
  case (1 data pos acc)
  obtain crlf where crlf: "find_sub CRLF (drop pos data) = Some crlf"
    using 1(2) by (subst (asm) decode_message_from.simps) (auto split: option.splits)
  have bound: "crlf + 2 \<le> length (drop pos data)" using find_sub_bound [OF crlf] by simp
  then have pos: "pos + crlf + 2 \<le> length data" and dp: "drop pos (data @ t) = drop pos data @ t"
    by simp_all
  have e: "find_sub CRLF (drop pos (data @ t)) = Some crlf" using find_sub_extend [OF crlf] dp by simp
  have tk: "take crlf (drop pos (data @ t)) = take crlf (drop pos data)" using bound dp by simp
  obtain line n where line: "from_utf8 (take crlf (drop pos data)) = Some line"
    and n: "from_str_radix 16 usize_bound (trim (hd (split_on CHR '';'' line))) = Some n"
    using 1(2) crlf by (subst (asm) decode_message_from.simps) (auto split: option.splits)
  note unfold = decode_message_from.simps [of data pos acc] decode_message_from.simps [of "data @ t" pos acc]
  show ?case
  proof (cases "n = 0")
    case True
    let ?p = "pos + crlf + 2"
    have d: "drop ?p (data @ t) = drop ?p data @ t" using pos by simp
    have le: "?p + 2 \<le> length data" and r: "r = (if take 2 (drop ?p data) = CRLF then (acc, ?p + 2)
        else (acc, ?p + the (find_sub CRLF2 (drop ?p data)) + 4))"
      and f: "take 2 (drop ?p data) \<noteq> CRLF \<Longrightarrow> find_sub CRLF2 (drop ?p data) \<noteq> None"
      using 1(2) crlf line n True by (auto simp: unfold Let_def split: if_splits)
    have same: "take 2 (drop ?p (data @ t)) = take 2 (drop ?p data)" using le d by simp
    show ?thesis
    proof (cases "take 2 (drop ?p data) = CRLF")
      case True
      with le same r show ?thesis using e tk line n \<open>n = 0\<close> by (simp add: unfold Let_def)
    next
      case False
      then obtain m where m: "find_sub CRLF2 (drop ?p data) = Some m" using f by auto
      have "m + 4 \<le> length (drop ?p data)" using find_sub_bound [OF m] by simp
      moreover have "find_sub CRLF2 (drop ?p (data @ t)) = Some m" using find_sub_extend [OF m] d by simp
      ultimately show ?thesis using False le same r m e tk line n \<open>n = 0\<close> by (simp add: unfold Let_def)
    qed
  next
    case False
    let ?ce = "pos + crlf + 2 + n"
    have c: "\<not> usize_bound \<le> ?ce + 2" "?ce + 2 \<le> length data" "take 2 (drop ?ce data) = CRLF"
      and rec: "decode_message_from data (?ce + 2) (acc @ take n (drop (pos + crlf + 2) data)) = Some r"
      using 1(2) crlf line n False by (auto simp: unfold Let_def split: if_splits)
    have "decode_message_from (data @ t) (?ce + 2) (acc @ take n (drop (pos + crlf + 2) data)) = Some r \<and> snd r \<le> length data"
      using 1(1) [OF crlf line n refl False refl refl] c rec by simp
    with c False e tk line n show ?thesis by (simp add: unfold Let_def)
  qed
qed

lemma decode_message_chunk:
  assumes "c \<noteq> []" "length (pre @ enc_chunk c @ rest) < usize_bound"
  shows "decode_message_from (pre @ enc_chunk c @ rest) (length pre) acc =
    decode_message_from (pre @ enc_chunk c @ rest) (length (pre @ enc_chunk c)) (acc @ c)"
proof -
  let ?h = "show_radix 16 (length c)"
  have len: "length c < usize_bound" using assms(2) by (simp add: enc_chunk_def)
  have f: "find_sub CRLF (?h @ CR # LF # x) = Some (length ?h)" for x
    using find_sub_CRLF_append [OF show_radix16_facts(1)] by simp
  show ?thesis
    using assms len
    by (subst decode_message_from.simps)
      (simp add: enc_chunk_def f show_radix16_facts from_str_radix_show Let_def add_ac)
qed

definition trailer_text :: "bytes list \<Rightarrow> bytes" where
  "trailer_text trailers = (if trailers = [] then CRLF else join CRLF trailers @ CRLF2)"

lemma decode_message_last:
  assumes "list_all header_line_ok trailers"
  shows "decode_message_from (pre @ ''0'' @ CRLF @ trailer_text trailers @ overflow) (length pre) acc =
    Some (acc, length (pre @ ''0'' @ CRLF @ trailer_text trailers))"
proof -
  have z: "show_radix 16 0 = ''0''" by code_simp
  have n: "from_str_radix 16 usize_bound (trim ''0'') = Some 0"
    using from_str_radix_show [of 16 0 usize_bound] z show_radix16_facts(3) [of 0] by (simp add: usize_bound_def)
  show ?thesis
  proof (cases trailers)
    case Nil
    then show ?thesis using n by (subst decode_message_from.simps) (simp add: trailer_text_def Let_def)
  next
    case (Cons l ls)
    have ok: "header_line_ok l" using assms Cons by simp
    have "\<exists>a b x. join CRLF trailers @ CRLF2 @ overflow = a # b # x \<and> [a, b] \<noteq> CRLF"
      using ok Cons by (cases l; cases "tl l"; cases "ls = []") (auto simp: header_line_ok_def join_Cons)
    then obtain a b x where x: "join CRLF trailers @ CRLF2 @ overflow = a # b # x" and ab: "[a, b] \<noteq> CRLF"
      by blast
    have "find_sub CRLF2 (a # b # x) = Some (length (join CRLF trailers))"
      using find_sub_header_block [of trailers overflow] assms Cons x by simp
    moreover have t: "trailer_text trailers @ overflow = a # b # x" using Cons x by (simp add: trailer_text_def)
    moreover have "length (trailer_text trailers) = length (join CRLF trailers) + 4" using Cons by (simp add: trailer_text_def)
    ultimately show ?thesis unfolding t
      using n ab by (subst decode_message_from.simps) (simp add: Let_def)
  qed
qed

lemma decode_message_enc:
  assumes "list_all (\<lambda>c. c \<noteq> []) cs" "list_all header_line_ok trailers"
    and "length (pre @ concat (map enc_chunk cs) @ ''0'' @ CRLF @ trailer_text trailers @ overflow) < usize_bound"
  shows "decode_message_from (pre @ concat (map enc_chunk cs) @ ''0'' @ CRLF @ trailer_text trailers @ overflow) (length pre) acc =
    Some (acc @ concat cs, length (pre @ concat (map enc_chunk cs) @ ''0'' @ CRLF @ trailer_text trailers))"
  using assms
proof (induction cs arbitrary: pre acc)
  case Nil
  then show ?case using decode_message_last [OF assms(2), of pre overflow acc] by simp
next
  case (Cons c cs)
  let ?rest = "concat (map enc_chunk cs) @ ''0'' @ CRLF @ trailer_text trailers @ overflow"
  have "decode_message_from (pre @ enc_chunk c @ ?rest) (length pre) acc =
      decode_message_from (pre @ enc_chunk c @ ?rest) (length (pre @ enc_chunk c)) (acc @ c)"
    by (rule decode_message_chunk) (use Cons.prems in simp_all)
  also have "\<dots> = Some (acc @ concat (c # cs), length (pre @ concat (map enc_chunk (c # cs)) @ ''0'' @ CRLF @ trailer_text trailers))"
    using Cons.IH [of "pre @ enc_chunk c" "acc @ c"] Cons.prems by simp
  finally show ?case by simp
qed

section \<open>Request editing\<close>

lemma split_at_header_end:
  assumes "ls \<noteq> []" "list_all header_line_ok ls" "utf8_valid (join CRLF ls @ CRLF2 @ body)"
  shows "from_utf8 (join CRLF ls @ CRLF2 @ body) = Some (join CRLF ls @ CRLF2 @ body)"
    "find_sub CRLF2 (join CRLF ls @ CRLF2 @ body) = Some (length (join CRLF ls))"
    "split_crlf (join CRLF ls) = ls"
proof -
  show "from_utf8 (join CRLF ls @ CRLF2 @ body) = Some (join CRLF ls @ CRLF2 @ body)"
    using assms(3) by (simp add: from_utf8_def)
  show "find_sub CRLF2 (join CRLF ls @ CRLF2 @ body) = Some (length (join CRLF ls))"
    by (rule find_sub_header_block [OF assms(1,2)])
  have "no_crlf l" if "header_line_ok l" for l
    using that set_mono_sublist [of CRLF l] by (auto simp: header_line_ok_def no_crlf_iff)
  then show "split_crlf (join CRLF ls) = ls"
    using assms(1,2) by (intro split_crlf_join) (auto simp: list_all_iff)
qed

lemma referer_line_named: "header_named ''referer'' ''Referer: https://www.google.com/''"
  by code_simp

definition query_text :: "bytes list \<Rightarrow> bytes" where
  "query_text params = (if params = [] then [] else ''?'' @ join ''&'' params)"

definition request_line_ok :: "bytes \<Rightarrow> bytes \<Rightarrow> bytes list \<Rightarrow> bytes \<Rightarrow> bool" where
  "request_line_ok method path params version \<longleftrightarrow>
     list_all (\<lambda>s. CHR '' '' \<notin> set s \<and> CR \<notin> set s) (method # path # params) \<and> CR \<notin> set version \<and>
     CHR ''?'' \<notin> set path \<and> list_all (\<lambda>p. CHR ''&'' \<notin> set p) params \<and> params \<noteq> []"

lemma set_join: "set (join sep xs) \<subseteq> \<Union> (set ` set xs) \<union> set sep"
proof (induction xs)
  case (Cons x xs)
  then show ?case by (auto simp: join_Cons)
qed simp

lemma take_length_append: "take (length a) (a @ b) = a"
  by simp

lemma drop_length_append: "drop (length a) (a @ b) = b"
  by simp

lemma find_char_in: "c \<notin> set a \<Longrightarrow> find_char c (a @ c # b) = Some (length a)"
  by (rule find_char_append)

section \<open>Properties\<close>

text \<open>C18: a rewritten response is framed correctly, whatever bytes the header block has: the new
  header block announces exactly the new body length, it keeps every other line in order, and
  no line that would contradict it remains (no second Content-Length, no digest or entity tag
  of the old body, and no Transfer-Encoding when the body was dechunked).\<close>
theorem rewritten_response_framing:
  assumes "n < 2 ^ 64"
  shows "extract_content_length (replace_content_length block n) = Some n \<and>
    nonempty_lines (replace_content_length block n) =
      filter (\<lambda>l. \<not> lower_starts l ''content-length:'' \<and> \<not> integrity_header l) (nonempty_lines block) @ [content_length_line n] \<and>
    extract_content_length (replace_chunked_with_content_length block n) = Some n \<and>
    nonempty_lines (replace_chunked_with_content_length block n) =
      filter (\<lambda>l. \<not> lower_starts l ''transfer-encoding:'' \<and> \<not> lower_starts l ''content-length:'' \<and> \<not> integrity_header l)
        (nonempty_lines block) @ [content_length_line n]"
  using plain.content_length [OF assms] plain.kept dechunked.content_length [OF assms] dechunked.kept by simp

theorem rewritten_response_framing_witness:
  "extract_content_length (replace_chunked_with_content_length (''HTTP/1.1 200 OK'' @ CRLF @ ''Transfer-Encoding: chunked'' @ CRLF2) 5) = Some 5"
  using rewritten_response_framing [of 5] by simp

text \<open>C19: incremental chunked decoding is exact: for a message of any non-empty chunks, any trailer
  lines and any bytes after it, the decoder returns the concatenated body and the length of the
  message, so that what follows is passed on, and it never completes early: on every proper
  prefix of the message it asks for more.\<close>
theorem chunked_message_exact:
  assumes "list_all (\<lambda>c. c \<noteq> []) cs" "list_all header_line_ok trailers"
    and "m = concat (map enc_chunk cs) @ ''0'' @ CRLF @ trailer_text trailers"
    and "length (m @ overflow) < 2 ^ 64"
  shows "try_decode_chunked_message (m @ overflow) = Some (concat cs, length m) \<and>
    (strict_prefix p m \<longrightarrow> try_decode_chunked_message p = None)"
proof (intro conjI impI)
  have enc: "try_decode_chunked_message (m @ x) = Some (concat cs, length m)" if "length (m @ x) < 2 ^ 64" for x
    using decode_message_enc [OF assms(1,2), of "[]" x "[]"] that
    by (simp add: try_decode_chunked_message_def assms(3) usize_bound_def)
  show "try_decode_chunked_message (m @ overflow) = Some (concat cs, length m)" by (rule enc [OF assms(4)])
  assume "strict_prefix p m"
  then obtain q where q: "m = p @ q" "q \<noteq> []" by (auto simp: strict_prefix_def prefix_def)
  show "try_decode_chunked_message p = None"
  proof (rule ccontr)
    assume "try_decode_chunked_message p \<noteq> None"
    then obtain r where r: "decode_message_from p 0 [] = Some r" by (auto simp: try_decode_chunked_message_def)
    from decode_message_extend [OF r, of q] q have "try_decode_chunked_message m = Some r" "snd r \<le> length p"
      by (simp_all add: try_decode_chunked_message_def)
    moreover have "try_decode_chunked_message m = Some (concat cs, length m)" using enc [of "[]"] assms(4) by simp
    ultimately show False using q by simp
  qed
qed

theorem chunked_message_exact_witness:
  "try_decode_chunked_message ((concat (map enc_chunk [''<p>'', ''hi'']) @ ''0'' @ CRLF @ trailer_text []) @ ''GET'') =
     Some (concat [''<p>'', ''hi''], length (concat (map enc_chunk [''<p>'', ''hi'']) @ ''0'' @ CRLF @ trailer_text []))"
proof -
  have "length ((concat (map enc_chunk [''<p>'', ''hi'']) @ ''0'' @ CRLF @ trailer_text []) @ ''GET'') = 23" by code_simp
  then show ?thesis
    using chunked_message_exact [of "[''<p>'', ''hi'']" "[]" _ "''GET''", OF _ _ refl] by simp
qed

text \<open>The request editors change only what they name. For a well-formed request, referer
  normalisation gives a request with the same lines but the referers, one search-engine
  referer at the end, and the same body; conditional cache headers are dropped and nothing
  else, and a request without any is left alone.\<close>
theorem request_header_edits:
  assumes "ls \<noteq> []" "list_all header_line_ok ls" "buf = join CRLF ls @ CRLF2 @ body" "utf8_valid buf"
  shows "inject_google_referer buf =
      Some (join CRLF (filter (\<lambda>l. \<not> header_named ''referer'' l) ls @ [''Referer: https://www.google.com/'']) @ CRLF2 @ body) \<and>
    strip_cache_request_headers buf =
      (if list_ex (\<lambda>l. header_named ''if-none-match'' l \<or> header_named ''if-modified-since'' l) ls
       then Some (join CRLF (filter (\<lambda>l. \<not> header_named ''if-none-match'' l \<and> \<not> header_named ''if-modified-since'' l) ls) @ CRLF2 @ body)
       else None)"
proof -
  note s = split_at_header_end [OF assms(1,2), of body]
  have v: "utf8_valid (join CRLF ls @ CRLF2 @ body)" using assms(3,4) by simp
  have "length (filter P ls) = length ls \<longleftrightarrow> \<not> list_ex (\<lambda>l. \<not> P l) ls" for P
    by (metis (mono_tags, lifting) filter_True length_filter_less less_irrefl list_ex_iff)
  then show ?thesis
    using s [OF v] by (simp add: assms(3) inject_google_referer_def strip_cache_request_headers_def Let_def)
qed

theorem request_header_edits_witness:
  "inject_google_referer (join CRLF [''GET / HTTP/1.1'', ''Host: a'', ''Referer: http://x/''] @ CRLF2 @ ''b'') =
     Some (join CRLF [''GET / HTTP/1.1'', ''Host: a'', ''Referer: https://www.google.com/''] @ CRLF2 @ ''b'')"
proof -
  let ?ls = "[''GET / HTTP/1.1'', ''Host: a'', ''Referer: http://x/'']"
  have f: "filter (\<lambda>l. \<not> header_named ''referer'' l) ?ls = [''GET / HTTP/1.1'', ''Host: a'']" by code_simp
  have ok: "list_all header_line_ok ?ls" by code_simp
  have v: "utf8_valid (join CRLF ?ls @ CRLF2 @ ''b'')" by (rule utf8_valid_ascii) code_simp
  show ?thesis using request_header_edits [OF _ ok refl v] unfolding f by simp
qed

text \<open>Tracking parameters are removed from the request target and nothing else changes: for a
  request line with a query, the other parameters stay in order, method, path, version and the
  rest of the request stay as they were, the question mark goes with the last parameter, and a
  request without tracking parameters is left alone.\<close>
theorem strip_tracking_query_spec:
  assumes "request_line_ok method path params version"
    and "buf = method @ '' '' @ path @ ''?'' @ join ''&'' params @ '' '' @ version @ CRLF @ rest" "utf8_valid buf"
  shows "strip_tracking_query_params buf =
    (if list_ex tracking_param params
     then Some (method @ '' '' @ path @ query_text (filter (\<lambda>p. \<not> tracking_param p) params) @ '' '' @ version @ CRLF @ rest)
     else None)"
proof -
  let ?q = "join ''&'' params"
  let ?line = "method @ '' '' @ path @ ''?'' @ ?q @ '' '' @ version"
  have m: "CHR '' '' \<notin> set method" "CR \<notin> set method" and p: "CHR '' '' \<notin> set path" "CR \<notin> set path" "CHR ''?'' \<notin> set path"
    and v: "CR \<notin> set version" using assms(1) by (auto simp: request_line_ok_def)
  have "set ?q \<subseteq> \<Union> (set ` set params) \<union> {CHR ''&''}" using set_join [of "''&''" params] by simp
  then have q: "CHR '' '' \<notin> set ?q" "CR \<notin> set ?q" using assms(1) by (auto simp: request_line_ok_def list_all_iff)
  have buf: "buf = ?line @ CRLF @ rest" by (simp add: assms(2))
  have "CR \<notin> set ?line" using m p q v by simp
  then have f: "find_sub CRLF buf = Some (length ?line)" unfolding buf by (rule find_sub_CRLF_append)
  have t: "take (length ?line) buf = ?line" "drop (length ?line) buf = CRLF @ rest"
    unfolding buf by (rule take_length_append, rule drop_length_append)
  have c1: "find_char CHR '' '' ?line = Some (length method)"
    using find_char_in [of "CHR '' ''" "method" "path @ ''?'' @ ?q @ '' '' @ version"] m by simp
  have d1: "drop (length method + 1) ?line = path @ ''?'' @ ?q @ '' '' @ version" "take (length method) ?line = method" by simp_all
  let ?uri = "path @ ''?'' @ ?q"
  have c2: "find_char CHR '' '' (path @ ''?'' @ ?q @ '' '' @ version) = Some (length ?uri)"
    using find_char_in [of "CHR '' ''" ?uri version] p q by simp
  have d2: "take (length ?uri) (path @ ''?'' @ ?q @ '' '' @ version) = ?uri"
    "drop (length ?uri) (path @ ''?'' @ ?q @ '' '' @ version) = '' '' @ version" by simp_all
  have c3: "find_char CHR ''?'' ?uri = Some (length path)" using find_char_in [of "CHR ''?''" path ?q] p by simp
  have d3: "take (length path) ?uri = path" "drop (length path + 1) ?uri = ?q" by simp_all
  have s: "split_on CHR ''&'' ?q = params" using assms(1) by (intro split_on_join) (auto simp: request_line_ok_def)
  have u: "from_utf8 buf = Some buf" using assms(3) by (simp add: from_utf8_def)
  show ?thesis
    unfolding strip_tracking_query_params_def u bind.bind_lunit f t Let_def c1 d1 c2 d2 c3 d3 s
    by (simp add: query_text_def)
qed

theorem strip_tracking_query_spec_witness:
  "strip_tracking_query_params (''GET'' @ '' '' @ ''/p'' @ ''?'' @ join ''&'' [''a=1'', ''UTM_Source=x''] @ '' '' @ ''HTTP/1.1'' @ CRLF @ ''x'')
   = Some (''GET'' @ '' '' @ ''/p'' @ query_text [''a=1''] @ '' '' @ ''HTTP/1.1'' @ CRLF @ ''x'')"
proof -
  have f: "filter (\<lambda>p. \<not> tracking_param p) [''a=1'', ''UTM_Source=x''] = [''a=1'']" "list_ex tracking_param [''a=1'', ''UTM_Source=x'']"
    by code_simp+
  have v: "utf8_valid (''GET'' @ '' '' @ ''/p'' @ ''?'' @ join ''&'' [''a=1'', ''UTM_Source=x''] @ '' '' @ ''HTTP/1.1'' @ CRLF @ ''x'')"
    by (rule utf8_valid_ascii) code_simp
  have r: "request_line_ok ''GET'' ''/p'' [''a=1'', ''UTM_Source=x''] ''HTTP/1.1''" by (simp add: request_line_ok_def)
  show ?thesis using strip_tracking_query_spec [OF r refl v] f by (simp only: if_True)
qed

text \<open>C21: every attempt to rewrite a body is counted exactly once, as rewritten or as skipped, and its
  outcome is one of three: a decoding, rewriting or encoding error, or report-only mode, sends the
  original; otherwise the client gets the rewritten body in the encoding of the original, so that
  decoding what is sent gives the rewriter's output. The hypothesis on the encoders is that their
  decoders invert them.\<close>
theorem body_rewrite_outcome:
  assumes "attempt_body_rewrite env now body plan host enc t = (r, t')"
    and "\<And>b c. gz_encode (he_codec env) b = Ok c \<Longrightarrow> gz_decode (he_codec env) c = Ok b"
    and "\<And>b c. deflate_encode (he_codec env) b = Ok c \<Longrightarrow> deflate_decode (he_codec env) c = Ok b"
    and "\<And>b c. br_encode (he_codec env) b = Ok c \<Longrightarrow> br_decode (he_codec env) c = Ok b"
  shows "(t_metrics t' = inc_body_rewrite_total (t_metrics t) \<or> t_metrics t' = inc_body_rewrite_skipped_total (t_metrics t)) \<and>
    (\<forall>sent. r = Some sent \<longrightarrow> bp_mode plan \<noteq> ReportOnly \<and> t_metrics t' = inc_body_rewrite_total (t_metrics t) \<and>
      (\<exists>html details out. decompress_body (he_codec env) body (case enc of None \<Rightarrow> [] | Some e \<Rightarrow> e) = Ok html \<and>
         rewrite_html_body env html plan = Ok (out, details) \<and>
         decompress_body (he_codec env) sent (case enc of None \<Rightarrow> [] | Some e \<Rightarrow> e) = Ok out))"
proof -
  have d: "(case compressed enc of Some e \<Rightarrow> decompress_body c b e | None \<Rightarrow> Ok b) =
      decompress_body c b (case enc of None \<Rightarrow> [] | Some e \<Rightarrow> e)"
    "(case compressed enc of Some e \<Rightarrow> compress_body c b e | None \<Rightarrow> Ok b) =
      compress_body c b (case enc of None \<Rightarrow> [] | Some e \<Rightarrow> e)" for c b
    by (auto simp: compressed_def decompress_body_def compress_body_def split: option.split)
  have inv: "compress_body (he_codec env) b e = Ok c \<Longrightarrow> decompress_body (he_codec env) c e = Ok b" for b c e
    using assms(2-4) by (auto simp: compress_body_def decompress_body_def split: if_splits)
  show ?thesis
    using assms(1) inv unfolding attempt_body_rewrite_def attempt_body_rewrite_with_codec_def d
    by (auto simp: t_skipped_def t_rewritten_def Let_def split: sum.splits prod.splits if_splits)
qed

definition wit_codec :: body_codec where
  "wit_codec = \<lparr>gz_decode = \<lambda>b. Ok (rev b), gz_encode = \<lambda>b. Ok (rev b), deflate_decode = Ok, deflate_encode = Ok, br_decode = Ok, br_encode = Ok\<rparr>"

definition wit_plan :: body_rewrite_plan where
  "wit_plan = \<lparr>bp_mode = Enforce, should_rewrite = True, manual_script_patterns = [''ads''], filter_script_patterns = [],
     manual_remove_selectors = [], filter_remove_selectors = [], domain_remove_selectors = [], css_inject_selectors = [],
     strip_tracking_pixels = False, max_body_bytes = 100, referer_spoof = False, query_param_strip = False\<rparr>"

definition wit_html :: html_env where
  "wit_html = \<lparr>css_ok = \<lambda>s. True, html_engine = \<lambda>hs b. Ok (''x'', map (\<lambda>(sel, h). h [''src'' \<mapsto> b]) hs), he_codec = wit_codec\<rparr>"

theorem body_rewrite_outcome_witness:
  "fst (attempt_body_rewrite wit_html 0 (rev ''//ads.js'') wit_plan ''h'' (Some ''gzip'') \<lparr>t_metrics = metrics_default, t_receipts = None\<rparr>) = Some ''x'' \<and>
   decompress_body wit_codec ''x'' ''gzip'' = Ok ''x''"
proof -
  let ?r = "attempt_body_rewrite wit_html 0 (rev ''//ads.js'') wit_plan ''h'' (Some ''gzip'') \<lparr>t_metrics = metrics_default, t_receipts = None\<rparr>"
  have f: "fst ?r = Some ''x''"
    by (simp add: attempt_body_rewrite_def attempt_body_rewrite_with_codec_def compressed_def decompress_body_def compress_body_def
        wit_html_def wit_codec_def wit_plan_def rewrite_html_body_def element_handlers_def parse_selector_cached_def Let_def)
  obtain t' where r: "?r = (Some ''x'', t')" using f by (cases ?r) simp
  have "he_codec wit_html = wit_codec" by (simp add: wit_html_def)
  with body_rewrite_outcome [OF r] obtain out where "decompress_body wit_codec ''x'' ''gzip'' = Ok out"
    by (auto simp: wit_codec_def)
  moreover from this have "out = ''x''" by (simp add: decompress_body_def wit_codec_def)
  ultimately show ?thesis using f by simp
qed

end
