(* ===== verification/Step_System.thy ===== *)
theory Step_System
  imports Main
begin

text \<open>
  Transition systems with an inductive invariant: the interface between the step relations of
  the concurrent and streaming components and the safety theorems about their runs.
\<close>

locale step_system =
  fixes init :: "'s \<Rightarrow> bool"
    and step :: "'s \<Rightarrow> 's \<Rightarrow> bool"
    and inv :: "'s \<Rightarrow> bool"
  assumes inv_init: "init s \<Longrightarrow> inv s"
    and inv_step: "inv s \<Longrightarrow> step s t \<Longrightarrow> inv t"
begin

lemma inv_steps: "step\<^sup>*\<^sup>* s t \<Longrightarrow> inv s \<Longrightarrow> inv t"
  by (induction rule: rtranclp_induct) (auto intro: inv_step)

lemma inv_run: "init s \<Longrightarrow> step\<^sup>*\<^sup>* s t \<Longrightarrow> inv t"
  by (blast intro: inv_steps inv_init)

text \<open>A relation between the first and the current state that every step extends holds along
  every run.\<close>

lemma run_relation:
  assumes "init s" "step\<^sup>*\<^sup>* s t" "R s s"
    and "\<And>u v. inv u \<Longrightarrow> R s u \<Longrightarrow> step u v \<Longrightarrow> R s v"
  shows "R s t"
  using assms(2)
proof (induction rule: rtranclp_induct)
  case base
  show ?case by (rule assms(3))
next
  case (step u v)
  then show ?case using assms(1,4) inv_run by blast
qed

end

end
