(* ===== verification/Mitm_Relay.thy ===== *)
theory Mitm_Relay
  imports Http1 Step_System
begin

text \<open>
  The relay of \<^verbatim>\<open>src/mitm.rs\<close>, \<open>relay_with_first_response_header_policy\<close>: two byte streams, a
  policy on the first request and the first response, and a body buffer. The loop's local
  variables are the record \<open>relay\<close>, with all bytes written so far to each side; one read from
  either side is one event. What varies from read to read (the policy engine, which other tasks
  reload, the clock) is the context of the event. Reads and writes may fail at any point: a
  failing event writes some prefix of what it would write and ends the relay.
\<close>

definition MAX_HTTP1_HEADER_BYTES :: nat where "MAX_HTTP1_HEADER_BYTES = 64 * 1024"

record relay_ctx =
  x_engine :: policy_engine
  x_host :: bytes
  x_source_ip :: "bytes option"
  x_now :: u64
  x_html :: html_env

record relay =
  client_closed :: bool
  upstream_closed :: bool
  first_response_filtered :: bool
  pending :: bytes
  first_request_checked :: bool
  buffering_body :: bool
  body_buffer :: bytes
  body_plan :: "body_rewrite_plan option"
  deferred_headers :: "bytes option"
  expected_body_len :: "nat option"
  buffered_content_encoding :: "bytes option"
  buffering_chunked :: bool
  r_tally :: tally
  to_client :: bytes
  to_upstream :: bytes
  client_shut :: bool
  upstream_shut :: bool
  r_result :: "unit io_result option"

definition relay_start :: "tally \<Rightarrow> relay" where
  "relay_start t = \<lparr>client_closed = False, upstream_closed = False, first_response_filtered = False, pending = [],
     first_request_checked = False, buffering_body = False, body_buffer = [], body_plan = None, deferred_headers = None,
     expected_body_len = None, buffered_content_encoding = None, buffering_chunked = False, r_tally = t,
     to_client = [], to_upstream = [], client_shut = False, upstream_shut = False, r_result = None\<rparr>"

definition send_client :: "bytes \<Rightarrow> relay \<Rightarrow> relay" where
  "send_client b s = s\<lparr>to_client := to_client s @ b\<rparr>"

definition send_upstream :: "bytes \<Rightarrow> relay \<Rightarrow> relay" where
  "send_upstream b s = s\<lparr>to_upstream := to_upstream s @ b\<rparr>"

definition count :: "(metrics \<Rightarrow> metrics) \<Rightarrow> (receipt_store \<Rightarrow> receipt_store) \<Rightarrow> relay \<Rightarrow> relay" where
  "count f g s = s\<lparr>r_tally := tick f g (r_tally s)\<rparr>"

definition WS_FORBIDDEN :: bytes where
  "WS_FORBIDDEN = ''HTTP/1.1 403 Forbidden'' @ CRLF @ ''Content-Length: 0'' @ CRLF @ ''Connection: close'' @ CRLF @ CRLF"

text \<open>The edits of the first request, each on the result of the one before.\<close>

definition edit_step :: "bool \<Rightarrow> (bytes \<Rightarrow> bytes option) \<Rightarrow> (relay \<Rightarrow> relay) \<Rightarrow> bytes \<Rightarrow> bytes option \<times> relay \<Rightarrow> bytes option \<times> relay" where
  "edit_step enabled edit bump chunk acc =
    (let (outgoing, s) = acc; src = (case outgoing of None \<Rightarrow> chunk | Some b \<Rightarrow> b) in
     if enabled then (case edit src of Some b \<Rightarrow> (Some b, bump s) | None \<Rightarrow> (outgoing, s)) else (outgoing, s))"

definition client_event :: "relay_ctx \<Rightarrow> bytes \<Rightarrow> relay \<Rightarrow> relay" where
  "client_event x chunk s =
    (if chunk = [] then s\<lparr>client_closed := True, upstream_shut := True\<rparr>
     else if first_request_checked s then send_upstream chunk s
     else
       let s = s\<lparr>first_request_checked := True\<rparr>;
           host = x_host x; now = x_now x;
           plan = plan_for_host_with_source_ip (x_engine x) host (x_source_ip x)
       in if sp_tracker_match plan \<and> sp_websocket_blocking_enabled plan \<and> request_has_websocket_upgrade chunk then
            (send_client WS_FORBIDDEN (count inc_websocket_blocked_total (record_websocket_blocked now host) s))\<lparr>r_result := Some (Ok ())\<rparr>
          else
            let bw = plan_for_body_rewrite (x_engine x) host;
                acc = edit_step (referer_spoof bw) inject_google_referer
                        (count inc_referer_spoofed_total (record_referer_spoofed now host)) chunk (None, s);
                acc = edit_step (query_param_strip bw) strip_tracking_query_params
                        (count inc_query_params_stripped_total (record_query_params_stripped now host)) chunk acc;
                (outgoing, s) = edit_step (sp_tracker_match plan) strip_cache_request_headers
                        (count inc_cache_headers_stripped_total (record_cache_headers_stripped now host)) chunk acc
            in send_upstream (case outgoing of Some modified \<Rightarrow> modified | None \<Rightarrow> chunk) s)"

definition rewrite_now :: "relay_ctx \<Rightarrow> body_rewrite_plan \<Rightarrow> bytes \<Rightarrow> relay \<Rightarrow> bytes option \<times> relay" where
  "rewrite_now x plan body s =
    (let (r, t) = attempt_body_rewrite (x_html x) (x_now x) body plan (x_host x) (buffered_content_encoding s) (r_tally s)
     in (r, s\<lparr>r_tally := t\<rparr>))"

definition take_headers :: "relay \<Rightarrow> bytes \<times> relay" where
  "take_headers s = (case deferred_headers s of None \<Rightarrow> [] | Some h \<Rightarrow> h, s\<lparr>deferred_headers := None\<rparr>)"

definition finish_chunked :: "relay_ctx \<Rightarrow> body_rewrite_plan \<Rightarrow> bytes \<Rightarrow> nat \<Rightarrow> relay \<Rightarrow> relay" where
  "finish_chunked x plan decoded consumed_len s0 =
    (let (headers, s) = take_headers s0;
         overflow = drop consumed_len (body_buffer s);
         (r, s) = rewrite_now x plan decoded s
     in case r of
          Some rewritten \<Rightarrow> send_client (replace_chunked_with_content_length headers (length rewritten) @ rewritten @ overflow) s
        | None \<Rightarrow> send_client (headers @ body_buffer s) s)"

definition finish_plain :: "relay_ctx \<Rightarrow> body_rewrite_plan \<Rightarrow> bytes \<Rightarrow> bytes \<Rightarrow> relay \<Rightarrow> relay" where
  "finish_plain x plan body overflow s0 =
    (let (headers, s) = take_headers s0;
         (r, s) = rewrite_now x plan body s
     in case r of
          Some rewritten \<Rightarrow> send_client (replace_content_length headers (length rewritten) @ rewritten @ overflow) s
        | None \<Rightarrow> send_client (headers @ body @ overflow) s)"

definition send_raw :: "relay \<Rightarrow> relay" where
  "send_raw s0 = (let (headers, s) = take_headers s0 in send_client (headers @ body_buffer s) s)"

definition upstream_eof :: "relay_ctx \<Rightarrow> relay \<Rightarrow> relay" where
  "upstream_eof x s =
    (let s = s\<lparr>upstream_closed := True\<rparr>;
         s = (if pending s \<noteq> [] then (send_client (pending s) s)\<lparr>pending := [], first_response_filtered := True\<rparr> else s);
         s = (if buffering_body s then
               (let s' = (case body_plan s of None \<Rightarrow> s
                    | Some plan \<Rightarrow>
                       let s = s\<lparr>body_plan := None\<rparr> in
                       if buffering_chunked s then
                         (case try_decode_chunked_message (body_buffer s) of
                            Some (decoded, consumed_len) \<Rightarrow> finish_chunked x plan decoded consumed_len s
                          | None \<Rightarrow> send_raw s)
                       else finish_plain x plan (body_buffer s) [] s)
                in s'\<lparr>buffering_body := False, buffering_chunked := False\<rparr>)
              else s)
     in s\<lparr>client_shut := True\<rparr>)"

definition upstream_body :: "relay_ctx \<Rightarrow> bytes \<Rightarrow> relay \<Rightarrow> relay" where
  "upstream_body x chunk s =
    (let s = s\<lparr>body_buffer := body_buffer s @ chunk\<rparr>;
         plan = the (body_plan s);
         at_limit = (length (body_buffer s) \<ge> max_body_bytes plan);
         at_content_length = (case expected_body_len s of None \<Rightarrow> False | Some cl \<Rightarrow> length (body_buffer s) \<ge> cl);
         chunked_parsed = (if buffering_chunked s \<and> \<not> at_limit then try_decode_chunked_message (body_buffer s) else None)
     in if at_limit \<and> chunked_parsed = None \<and> \<not> at_content_length then
          (send_raw (count inc_body_rewrite_skipped_total (record_body_rewrite_skipped (x_now x) (x_host x)) s))
            \<lparr>body_plan := None, buffering_body := False, buffering_chunked := False, first_response_filtered := True\<rparr>
        else case chunked_parsed of
          Some (decoded, consumed_len) \<Rightarrow>
            (finish_chunked x plan decoded consumed_len s)
              \<lparr>body_plan := None, buffering_body := False, buffering_chunked := False, first_response_filtered := True\<rparr>
        | None \<Rightarrow>
            if at_content_length then
              let cl = the (expected_body_len s) in
              (finish_plain x plan (take cl (body_buffer s)) (drop cl (body_buffer s)) s)
                \<lparr>body_plan := None, buffering_body := False, first_response_filtered := True\<rparr>
            else s)"

definition cookie_tick :: "relay_ctx \<Rightarrow> header_policy_outcome \<Rightarrow> relay \<Rightarrow> relay" where
  "cookie_tick x outcome s =
    (if report_only_hit outcome \<or> enforcement_applied outcome then
       let mode = (if enforcement_applied outcome then ''enforce'' else ''report_only'')
       in count (if ho_consent_enforcement_active outcome \<and> enforcement_applied outcome
                 then inc_consent_enforcement_blocked_total else id)
            (if ho_consent_enforcement_active outcome
             then record_consent_enforcement (x_now x) (x_host x) mode (set_cookie_count outcome)
             else record_policy_set_cookie (x_now x) (x_host x) mode (set_cookie_count outcome)) s
     else s)"

definition cache_strip :: "relay_ctx \<Rightarrow> header_policy_outcome \<Rightarrow> relay \<Rightarrow> bytes \<times> relay" where
  "cache_strip x outcome s =
    (if ho_tracker_match outcome then
       let lines = nonempty_lines (output_headers outcome);
           kept = strip_cache_tracking_headers lines
       in if length kept < length lines
          then (join CRLF kept @ CRLF2, count inc_cache_headers_stripped_total (record_cache_headers_stripped (x_now x) (x_host x)) s)
          else (output_headers outcome, s)
     else (output_headers outcome, s))"

definition encoding_ok :: "bytes option \<Rightarrow> bool" where
  "encoding_ok enc = (case enc of None \<Rightarrow> True
     | Some e \<Rightarrow> e \<in> {''identity'', ''gzip'', ''x-gzip'', ''deflate'', ''br''})"

definition after_headers :: "relay_ctx \<Rightarrow> bytes \<Rightarrow> bytes \<Rightarrow> relay \<Rightarrow> relay" where
  "after_headers x headers remainder s =
    (let bw = plan_for_body_rewrite (x_engine x) (x_host x);
         enc = extract_content_encoding headers
     in if should_rewrite bw \<and> response_is_html headers \<and> encoding_ok enc then
          let content_length = extract_content_length headers;
              is_chunked = has_transfer_encoding_chunked headers
          in if (case content_length of None \<Rightarrow> False | Some cl \<Rightarrow> cl > max_body_bytes bw) then
               send_client (headers @ remainder) (count inc_body_rewrite_skipped_total (record_body_rewrite_skipped (x_now x) (x_host x)) s)
             else s\<lparr>deferred_headers := Some headers, expected_body_len := (if is_chunked then None else content_length),
                    body_plan := Some bw, buffering_body := True, buffering_chunked := is_chunked,
                    buffered_content_encoding := enc, body_buffer := remainder\<rparr>
        else send_client (headers @ remainder) s)"

definition upstream_headers :: "relay_ctx \<Rightarrow> bytes \<Rightarrow> relay \<Rightarrow> relay" where
  "upstream_headers x chunk s =
    (let s = s\<lparr>pending := pending s @ chunk\<rparr> in
     if length (pending s) > MAX_HTTP1_HEADER_BYTES then
       (send_client (pending s) s)\<lparr>pending := [], first_response_filtered := True\<rparr>
     else case find_headers_end (pending s) of None \<Rightarrow> s
     | Some header_end \<Rightarrow>
        let header_block = take header_end (pending s); remainder = drop header_end (pending s);
            outcome = apply_http1_response_header_policy (x_engine x) (x_host x) header_block (x_source_ip x);
            s = cookie_tick x outcome s;
            (headers, s) = cache_strip x outcome s
        in (after_headers x headers remainder s)\<lparr>pending := [], first_response_filtered := True\<rparr>)"

definition upstream_event :: "relay_ctx \<Rightarrow> bytes \<Rightarrow> relay \<Rightarrow> relay" where
  "upstream_event x chunk s =
    (if chunk = [] then upstream_eof x s
     else if buffering_body s then upstream_body x chunk s
     else if first_response_filtered s then send_client chunk s
     else upstream_headers x chunk s)"

definition loop_end :: "relay \<Rightarrow> relay" where
  "loop_end s = (if client_closed s \<and> upstream_closed s \<and> r_result s = None then s\<lparr>r_result := Some (Ok ())\<rparr> else s)"

text \<open>The relay with the bytes each side has sent so far.\<close>

record relay_sys =
  rl :: relay
  got_client :: bytes
  got_upstream :: bytes

inductive relay_step :: "(relay_ctx \<Rightarrow> bool) \<Rightarrow> relay_sys \<Rightarrow> relay_sys \<Rightarrow> bool" for P :: "relay_ctx \<Rightarrow> bool" where
  client_read: "r_result (rl s) = None \<Longrightarrow> \<not> client_closed (rl s) \<Longrightarrow> P x \<Longrightarrow>
     relay_step P s (s\<lparr>rl := loop_end (client_event x chunk (rl s)), got_client := got_client s @ chunk\<rparr>)"
| upstream_read: "r_result (rl s) = None \<Longrightarrow> \<not> upstream_closed (rl s) \<Longrightarrow> P x \<Longrightarrow>
     relay_step P s (s\<lparr>rl := loop_end (upstream_event x chunk (rl s)), got_upstream := got_upstream s @ chunk\<rparr>)"
| client_failure: "r_result (rl s) = None \<Longrightarrow> \<not> client_closed (rl s) \<Longrightarrow> P x \<Longrightarrow> t = client_event x chunk (rl s) \<Longrightarrow>
     prefix (to_client (rl s)) c \<Longrightarrow> prefix c (to_client t) \<Longrightarrow> prefix (to_upstream (rl s)) u \<Longrightarrow> prefix u (to_upstream t) \<Longrightarrow>
     relay_step P s (s\<lparr>rl := (rl s)\<lparr>to_client := c, to_upstream := u, r_result := Some (Err e)\<rparr>, got_client := got_client s @ chunk\<rparr>)"
| upstream_failure: "r_result (rl s) = None \<Longrightarrow> \<not> upstream_closed (rl s) \<Longrightarrow> P x \<Longrightarrow> t = upstream_event x chunk (rl s) \<Longrightarrow>
     prefix (to_client (rl s)) c \<Longrightarrow> prefix c (to_client t) \<Longrightarrow>
     relay_step P s (s\<lparr>rl := (rl s)\<lparr>to_client := c, r_result := Some (Err e)\<rparr>, got_upstream := got_upstream s @ chunk\<rparr>)"

definition relay_init :: "relay_sys \<Rightarrow> bool" where
  "relay_init s \<longleftrightarrow> (\<exists>t. s = \<lparr>rl = relay_start t, got_client = [], got_upstream = []\<rparr>)"

section \<open>Transparency\<close>

lemma set_cookie_filter_tracker:
  "\<not> sp_tracker_match (plan_for_host_with_source_ip e host ip) \<Longrightarrow>
    \<not> sp_enable_http1_set_cookie_filter (plan_for_host_with_source_ip e host ip)"
  by (auto simp: plan_for_host_with_source_ip_def Let_def split: if_splits)

lemma headers_untouched:
  "\<not> sp_tracker_match (plan_for_host_with_source_ip e host ip) \<Longrightarrow>
    apply_http1_response_header_policy e host block ip = header_outcome_unchanged (plan_for_host_with_source_ip e host ip) block"
  by (simp add: apply_http1_response_header_policy_def set_cookie_filter_tracker)

lemma attempt_report_only:
  "bp_mode plan = ReportOnly \<Longrightarrow> fst (attempt_body_rewrite env now body plan host enc t) = None"
  by (simp add: attempt_body_rewrite_def attempt_body_rewrite_with_codec_def Let_def split: sum.splits prod.splits)

text \<open>A context in which the policy has nothing to enforce on this host: no tracker, no request edit,
  and body rewriting at most in report-only mode.\<close>

definition passive_ctx :: "relay_ctx \<Rightarrow> bool" where
  "passive_ctx x \<longleftrightarrow> \<not> sp_tracker_match (plan_for_host_with_source_ip (x_engine x) (x_host x) (x_source_ip x)) \<and>
     (let bw = plan_for_body_rewrite (x_engine x) (x_host x)
      in \<not> referer_spoof bw \<and> \<not> query_param_strip bw \<and> (should_rewrite bw \<longrightarrow> bp_mode bw = ReportOnly))"

text \<open>What has been read from upstream and not yet been written.\<close>

definition held :: "relay \<Rightarrow> bytes" where
  "held s = (if buffering_body s then (case deferred_headers s of None \<Rightarrow> [] | Some h \<Rightarrow> h) @ body_buffer s else pending s)"

definition relay_wf :: "relay \<Rightarrow> bool" where
  "relay_wf s \<longleftrightarrow> (first_response_filtered s \<longrightarrow> pending s = []) \<and>
     (buffering_body s \<longrightarrow> first_response_filtered s \<and> (\<exists>p. body_plan s = Some p \<and> bp_mode p = ReportOnly))"

lemmas relay_sends = send_client_def send_upstream_def count_def take_headers_def send_raw_def

lemma rewrite_now_report_only [simp]:
  "bp_mode plan = ReportOnly \<Longrightarrow> fst (rewrite_now x plan body s) = None"
  by (simp add: rewrite_now_def attempt_report_only case_prod_unfold)

lemma rewrite_now_state: "\<exists>t. snd (rewrite_now x plan body s) = s\<lparr>r_tally := t\<rparr>"
  by (auto simp: rewrite_now_def case_prod_unfold Let_def)

lemma finish_chunked_report_only:
  assumes "bp_mode plan = ReportOnly"
  shows "\<exists>t. finish_chunked x plan decoded n s =
    s\<lparr>deferred_headers := None, r_tally := t, to_client := to_client s @ (case deferred_headers s of None \<Rightarrow> [] | Some h \<Rightarrow> h) @ body_buffer s\<rparr>"
proof -
  obtain t where "snd (rewrite_now x plan decoded (s\<lparr>deferred_headers := None\<rparr>)) = s\<lparr>deferred_headers := None, r_tally := t\<rparr>"
    using rewrite_now_state by blast
  with assms show ?thesis
    by (intro exI [of _ t]) (simp add: finish_chunked_def take_headers_def case_prod_unfold send_client_def)
qed

lemma finish_plain_report_only:
  assumes "bp_mode plan = ReportOnly"
  shows "\<exists>t. finish_plain x plan body overflow s =
    s\<lparr>deferred_headers := None, r_tally := t, to_client := to_client s @ (case deferred_headers s of None \<Rightarrow> [] | Some h \<Rightarrow> h) @ body @ overflow\<rparr>"
proof -
  obtain t where "snd (rewrite_now x plan body (s\<lparr>deferred_headers := None\<rparr>)) = s\<lparr>deferred_headers := None, r_tally := t\<rparr>"
    using rewrite_now_state by blast
  with assms show ?thesis
    by (intro exI [of _ t]) (simp add: finish_plain_def take_headers_def case_prod_unfold send_client_def)
qed

text \<open>An upstream event of a passive relay only moves bytes from the held part to the client.\<close>

definition moved :: "bytes \<Rightarrow> relay \<Rightarrow> relay \<Rightarrow> bool" where
  "moved chunk s t \<longleftrightarrow> relay_wf t \<and> to_client t @ held t = to_client s @ held s @ chunk \<and> to_upstream t = to_upstream s \<and>
     r_result t = r_result s \<and> client_closed t = client_closed s"

lemma upstream_eof_moved:
  assumes "relay_wf s"
  shows "moved [] s (upstream_eof x s) \<and> upstream_closed (upstream_eof x s) \<and> held (upstream_eof x s) = []"
proof (cases "buffering_body s")
  case True
  with assms obtain p where p: "body_plan s = Some p" "bp_mode p = ReportOnly" and q: "pending s = []" "first_response_filtered s"
    by (auto simp: relay_wf_def)
  let ?s = "s\<lparr>upstream_closed := True, body_plan := None\<rparr>"
  obtain f where f: "\<And>n d. finish_chunked x p n d ?s = ?s\<lparr>deferred_headers := None, r_tally := f n d,
     to_client := to_client s @ (case deferred_headers s of None \<Rightarrow> [] | Some h \<Rightarrow> h) @ body_buffer s\<rparr>"
    using finish_chunked_report_only [OF p(2), of x _ _ ?s] by simp metis
  obtain g where g: "finish_plain x p (body_buffer s) [] ?s = ?s\<lparr>deferred_headers := None, r_tally := g,
     to_client := to_client s @ (case deferred_headers s of None \<Rightarrow> [] | Some h \<Rightarrow> h) @ body_buffer s\<rparr>"
    using finish_plain_report_only [OF p(2), of x "body_buffer s" "[]" ?s] by auto
  show ?thesis
    using True p q f g
    by (auto simp: upstream_eof_def moved_def held_def relay_wf_def relay_sends Let_def split: option.splits)
next
  case False
  with assms show ?thesis
    by (auto simp: upstream_eof_def moved_def held_def relay_wf_def relay_sends Let_def)
qed

text \<open>The four branches of the body phase.\<close>

lemma upstream_body_cases:
  assumes "body_plan s = Some p" "s' = s\<lparr>body_buffer := body_buffer s @ chunk\<rparr>"
  obtains
    (limit) "upstream_body x chunk s =
      (send_raw (count inc_body_rewrite_skipped_total (record_body_rewrite_skipped (x_now x) (x_host x)) s'))
        \<lparr>body_plan := None, buffering_body := False, buffering_chunked := False, first_response_filtered := True\<rparr>"
  | (chunked) d n where "try_decode_chunked_message (body_buffer s') = Some (d, n)"
      "upstream_body x chunk s = (finish_chunked x p d n s')
        \<lparr>body_plan := None, buffering_body := False, buffering_chunked := False, first_response_filtered := True\<rparr>"
  | (plain) cl where "cl \<le> length (body_buffer s')"
      "upstream_body x chunk s = (finish_plain x p (take cl (body_buffer s')) (drop cl (body_buffer s')) s')
        \<lparr>body_plan := None, buffering_body := False, first_response_filtered := True\<rparr>"
  | (wait) "upstream_body x chunk s = s'" "length (body_buffer s') < max_body_bytes p"
proof -
  let ?limit = "length (body_buffer s') \<ge> max_body_bytes p"
  let ?cl = "case expected_body_len s' of None \<Rightarrow> False | Some cl \<Rightarrow> length (body_buffer s') \<ge> cl"
  let ?dec = "if buffering_chunked s' \<and> \<not> ?limit then try_decode_chunked_message (body_buffer s') else None"
  have p: "body_plan s' = Some p" using assms by simp
  have u: "upstream_body x chunk s =
    (if ?limit \<and> ?dec = None \<and> \<not> ?cl then
          (send_raw (count inc_body_rewrite_skipped_total (record_body_rewrite_skipped (x_now x) (x_host x)) s'))
            \<lparr>body_plan := None, buffering_body := False, buffering_chunked := False, first_response_filtered := True\<rparr>
        else case ?dec of
          Some (decoded, consumed_len) \<Rightarrow>
            (finish_chunked x p decoded consumed_len s')
              \<lparr>body_plan := None, buffering_body := False, buffering_chunked := False, first_response_filtered := True\<rparr>
        | None \<Rightarrow>
            if ?cl then
              (finish_plain x p (take (the (expected_body_len s')) (body_buffer s')) (drop (the (expected_body_len s')) (body_buffer s')) s')
                \<lparr>body_plan := None, buffering_body := False, first_response_filtered := True\<rparr>
            else s')"
    unfolding upstream_body_def Let_def assms(2) [symmetric] p option.sel by (rule refl)
  show ?thesis
  proof (cases ?dec)
    case (Some dn)
    then have "try_decode_chunked_message (body_buffer s') = Some (fst dn, snd dn)" by (simp split: if_splits)
    then show ?thesis by (rule chunked) (use Some in \<open>simp add: u case_prod_unfold\<close>)
  next
    case None
    show ?thesis
    proof (cases ?cl)
      case True
      show ?thesis
        by (rule plain [of "the (expected_body_len s')"]) (use True None in \<open>auto simp: u split: option.splits\<close>)
    next
      case False
      show ?thesis
      proof (cases ?limit)
        case True
        show ?thesis by (rule limit) (use True False None in \<open>simp add: u\<close>)
      next
        case no_limit: False
        show ?thesis by (rule wait) (use no_limit False None in \<open>simp_all add: u\<close>)
      qed
    qed
  qed
qed

lemma upstream_body_moved:
  assumes "relay_wf s" "buffering_body s"
  shows "moved chunk s (upstream_body x chunk s) \<and> upstream_closed (upstream_body x chunk s) = upstream_closed s"
proof -
  from assms obtain p where p: "body_plan s = Some p" "bp_mode p = ReportOnly" and q: "pending s = []" "first_response_filtered s"
    by (auto simp: relay_wf_def)
  let ?s = "s\<lparr>body_buffer := body_buffer s @ chunk\<rparr>"
  show ?thesis
    using p(1) refl
  proof (cases rule: upstream_body_cases [where x = x and chunk = chunk and s' = ?s])
    case limit
    show ?thesis unfolding limit using assms(2) p q by (simp add: moved_def held_def relay_wf_def relay_sends)
  next
    case (chunked d n)
    from finish_chunked_report_only [OF p(2), of x d n ?s] obtain t where
      "finish_chunked x p d n ?s = ?s\<lparr>deferred_headers := None, r_tally := t,
         to_client := to_client s @ (case deferred_headers s of None \<Rightarrow> [] | Some h \<Rightarrow> h) @ body_buffer s @ chunk\<rparr>" by auto
    then show ?thesis unfolding chunked(2) using assms(2) p q by (simp add: moved_def held_def relay_wf_def)
  next
    case (plain cl)
    from finish_plain_report_only [OF p(2), of x "take cl (body_buffer ?s)" "drop cl (body_buffer ?s)" ?s] obtain t where
      "finish_plain x p (take cl (body_buffer ?s)) (drop cl (body_buffer ?s)) ?s = ?s\<lparr>deferred_headers := None, r_tally := t,
         to_client := to_client s @ (case deferred_headers s of None \<Rightarrow> [] | Some h \<Rightarrow> h) @ body_buffer s @ chunk\<rparr>"
      by (auto simp del: take_append drop_append)
    then show ?thesis unfolding plain(2) using assms(2) p q by (simp add: moved_def held_def relay_wf_def del: take_append drop_append)
  next
    case wait
    show ?thesis unfolding wait(1) using assms p q by (simp add: moved_def held_def relay_wf_def)
  qed
qed

lemma after_headers_moved:
  assumes "passive_ctx x" "relay_wf s" "\<not> buffering_body s"
  shows "moved [] (s\<lparr>pending := headers @ remainder\<rparr>)
     ((after_headers x headers remainder s)\<lparr>pending := [], first_response_filtered := True\<rparr>) \<and>
   upstream_closed (after_headers x headers remainder s) = upstream_closed s"
  using assms unfolding after_headers_def
  by (auto simp: passive_ctx_def moved_def held_def relay_wf_def relay_sends Let_def)

lemma upstream_headers_moved:
  assumes "passive_ctx x" "relay_wf s" "\<not> buffering_body s" "\<not> first_response_filtered s"
  shows "moved chunk s (upstream_headers x chunk s) \<and> upstream_closed (upstream_headers x chunk s) = upstream_closed s"
proof (cases "length (pending s @ chunk) > MAX_HTTP1_HEADER_BYTES \<or> find_headers_end (pending s @ chunk) = None")
  case True
  with assms show ?thesis
    by (auto simp: upstream_headers_def moved_def held_def relay_wf_def relay_sends Let_def)
next
  case False
  then obtain n where n: "find_headers_end (pending s @ chunk) = Some n" "\<not> length (pending s @ chunk) > MAX_HTTP1_HEADER_BYTES" by auto
  let ?b = "pending s @ chunk" and ?s = "s\<lparr>pending := pending s @ chunk\<rparr>"
  have wf: "relay_wf ?s" "\<not> buffering_body ?s" using assms by (auto simp: relay_wf_def)
  have "upstream_headers x chunk s = (after_headers x (take n ?b) (drop n ?b) ?s)\<lparr>pending := [], first_response_filtered := True\<rparr>"
    using n assms(1)
    by (simp add: upstream_headers_def Let_def passive_ctx_def headers_untouched header_outcome_unchanged_def cookie_tick_def cache_strip_def
        del: take_append drop_append)
  with after_headers_moved [OF assms(1) wf, of "take n ?b" "drop n ?b"] assms(3) show ?thesis
    by (simp add: moved_def held_def del: take_append drop_append)
qed

lemma upstream_event_moved:
  assumes "passive_ctx x" "relay_wf s"
  shows "moved chunk s (upstream_event x chunk s) \<and> (chunk = [] \<longrightarrow> upstream_closed (upstream_event x chunk s) \<and> held (upstream_event x chunk s) = []) \<and>
    (chunk \<noteq> [] \<longrightarrow> upstream_closed (upstream_event x chunk s) = upstream_closed s)"
proof -
  consider (eof) "chunk = []" | (body) "chunk \<noteq> []" "buffering_body s" | (pass) "chunk \<noteq> []" "\<not> buffering_body s" "first_response_filtered s"
    | (headers) "chunk \<noteq> []" "\<not> buffering_body s" "\<not> first_response_filtered s" by blast
  then show ?thesis
  proof cases
    case pass
    with assms show ?thesis by (auto simp: upstream_event_def moved_def held_def relay_wf_def relay_sends)
  qed (use assms upstream_eof_moved upstream_body_moved upstream_headers_moved in \<open>simp_all add: upstream_event_def\<close>)
qed

lemma client_event_passive:
  assumes "passive_ctx x"
  shows "\<exists>c r. client_event x chunk s = s\<lparr>client_closed := client_closed s \<or> chunk = [], upstream_shut := c,
     first_request_checked := r, to_upstream := to_upstream s @ chunk\<rparr>"
  using assms
  by (intro exI [of _ "upstream_shut (client_event x chunk s)"] exI [of _ "first_request_checked (client_event x chunk s)"])
    (simp add: client_event_def passive_ctx_def edit_step_def send_upstream_def Let_def)

definition relay_inv :: "relay_sys \<Rightarrow> bool" where
  "relay_inv s \<longleftrightarrow> relay_wf (rl s) \<and> prefix (to_upstream (rl s)) (got_client s) \<and> prefix (to_client (rl s)) (got_upstream s) \<and>
     ((\<forall>e. r_result (rl s) \<noteq> Some (Err e)) \<longrightarrow> to_upstream (rl s) = got_client s \<and>
        to_client (rl s) @ held (rl s) = got_upstream s \<and> (upstream_closed (rl s) \<longrightarrow> held (rl s) = [])) \<and>
     (r_result (rl s) = Some (Ok ()) \<longrightarrow> upstream_closed (rl s))"

lemma loop_end_simps [simp]:
  "relay_wf (loop_end s) = relay_wf s" "held (loop_end s) = held s" "to_client (loop_end s) = to_client s"
  "to_upstream (loop_end s) = to_upstream s" "upstream_closed (loop_end s) = upstream_closed s" "client_closed (loop_end s) = client_closed s"
  by (simp_all add: loop_end_def relay_wf_def held_def)

lemma loop_end_result: "r_result (loop_end s) = Some (Ok ()) \<Longrightarrow> r_result s = Some (Ok ()) \<or> upstream_closed s"
  by (auto simp: loop_end_def split: if_splits)

lemma relay_fields [simp]:
  "relay_wf (s\<lparr>client_closed := a, upstream_shut := c, first_request_checked := r, to_upstream := u\<rparr>) = relay_wf s"
  "relay_wf (s\<lparr>to_client := v, to_upstream := u, r_result := w\<rparr>) = relay_wf s"
  "relay_wf (s\<lparr>to_client := v, r_result := w\<rparr>) = relay_wf s"
  "held (s\<lparr>client_closed := a, upstream_shut := c, first_request_checked := r, to_upstream := u\<rparr>) = held s"
  by (simp_all add: relay_wf_def held_def)

lemma relay_inv_live:
  assumes "relay_wf r" "to_upstream r = gc" "to_client r @ held r = gu" "upstream_closed r \<Longrightarrow> held r = []"
    "r_result r = Some (Ok ()) \<Longrightarrow> upstream_closed r"
  shows "relay_inv \<lparr>rl = r, got_client = gc, got_upstream = gu\<rparr>"
  using assms by (simp add: relay_inv_def) (metis prefixI)

lemma relay_inv_failed:
  assumes "relay_wf r" "prefix (to_upstream r) gc" "prefix (to_client r) gu" "r_result r = Some (Err e)"
  shows "relay_inv \<lparr>rl = r, got_client = gc, got_upstream = gu\<rparr>"
  using assms by (simp add: relay_inv_def)

lemma relay_invD:
  assumes "relay_inv s" "r_result (rl s) = None"
  shows "relay_wf (rl s)" "to_upstream (rl s) = got_client s" "to_client (rl s) @ held (rl s) = got_upstream s"
    "upstream_closed (rl s) \<Longrightarrow> held (rl s) = []"
  using assms by (simp_all add: relay_inv_def)

lemma relay_sys_update:
  "s\<lparr>rl := r, got_client := c\<rparr> = \<lparr>rl = r, got_client = c, got_upstream = got_upstream s\<rparr>"
  "s\<lparr>rl := r, got_upstream := u\<rparr> = \<lparr>rl = r, got_client = got_client s, got_upstream = u\<rparr>"
  for s :: relay_sys
  by simp_all

lemma prefix_held: "to_client t @ held t = g \<Longrightarrow> prefix c (to_client t) \<Longrightarrow> prefix c g"
  by (metis prefixI prefix_order.trans)

lemma relay_inv_step:
  assumes "relay_inv s" "relay_step passive_ctx s t"
  shows "relay_inv t"
  using assms(2)
proof cases
  case (client_read x chunk)
  note I = relay_invD [OF assms(1) client_read(2)]
  from client_event_passive [OF client_read(4)] obtain c r where
    e: "client_event x chunk (rl s) = (rl s)\<lparr>client_closed := client_closed (rl s) \<or> chunk = [], upstream_shut := c,
     first_request_checked := r, to_upstream := to_upstream (rl s) @ chunk\<rparr>" by blast
  show ?thesis
    unfolding client_read(1) relay_sys_update
  proof (rule relay_inv_live)
    show "r_result (loop_end (client_event x chunk (rl s))) = Some (Ok ()) \<Longrightarrow> upstream_closed (loop_end (client_event x chunk (rl s)))"
      using loop_end_result [of "client_event x chunk (rl s)"] client_read(2) by (simp add: e)
  qed (use I in \<open>simp_all add: e\<close>)
next
  case (upstream_read x chunk)
  note I = relay_invD [OF assms(1) upstream_read(2)] and m = upstream_event_moved [OF upstream_read(4) relay_invD(1) [OF assms(1) upstream_read(2)], of chunk]
  show ?thesis
    unfolding upstream_read(1) relay_sys_update
  proof (rule relay_inv_live)
    show "to_client (loop_end (upstream_event x chunk (rl s))) @ held (loop_end (upstream_event x chunk (rl s))) = got_upstream s @ chunk"
      using m I(3) by (simp add: moved_def flip: append_assoc)
    show "r_result (loop_end (upstream_event x chunk (rl s))) = Some (Ok ()) \<Longrightarrow> upstream_closed (loop_end (upstream_event x chunk (rl s)))"
      using m upstream_read(2) by (auto simp: moved_def dest: loop_end_result)
  qed (use I m upstream_read(3) in \<open>auto simp: moved_def\<close>)
next
  case (client_failure x t' chunk c u e)
  note I = relay_invD [OF assms(1) client_failure(2)]
  have "to_client t' = to_client (rl s)" "to_upstream t' = got_client s @ chunk"
    using client_event_passive [OF client_failure(4), of chunk "rl s"] client_failure(5) I(2) by auto
  moreover have "prefix (to_client (rl s)) (got_upstream s)" using assms(1) by (simp add: relay_inv_def)
  ultimately have "prefix c (got_upstream s)" "prefix u (got_client s @ chunk)"
    using client_failure(7,9) by (simp_all add: prefix_order.trans)
  then show ?thesis
    unfolding client_failure(1) relay_sys_update
    by (intro relay_inv_failed) (use I in simp_all)
next
  case (upstream_failure x t' chunk c e)
  note I = relay_invD [OF assms(1) upstream_failure(2)] and m = upstream_event_moved [OF upstream_failure(4) relay_invD(1) [OF assms(1) upstream_failure(2)], of chunk]
  have "to_client t' @ held t' = got_upstream s @ chunk"
    unfolding upstream_failure(5) using m I(3) by (simp add: moved_def flip: append_assoc)
  then have "prefix c (got_upstream s @ chunk)" using upstream_failure(7) by (rule prefix_held)
  then show ?thesis
    unfolding upstream_failure(1) relay_sys_update
    by (intro relay_inv_failed) (use I in simp_all)
qed

interpretation quiet: step_system relay_init "relay_step passive_ctx" relay_inv
proof
  show "relay_init s \<Longrightarrow> relay_inv s" for s
    by (auto simp: relay_init_def relay_inv_def relay_start_def relay_wf_def held_def)
qed (rule relay_inv_step)

text \<open>C8: with a policy that has nothing to enforce on the host, the relay is transparent for every
  interleaving of reads and at every moment: what either side has been sent is a prefix of what
  the other side sent, and when the relay ends without an I/O error both streams have arrived
  completely, byte for byte. Report-only body rewriting buffers and counts but changes nothing.\<close>
theorem relay_transparent:
  assumes "relay_init s0" "(relay_step passive_ctx)\<^sup>*\<^sup>* s0 s"
  shows "prefix (to_upstream (rl s)) (got_client s) \<and> prefix (to_client (rl s)) (got_upstream s) \<and>
    (r_result (rl s) = Some (Ok ()) \<longrightarrow> to_upstream (rl s) = got_client s \<and> to_client (rl s) = got_upstream s)"
proof -
  have "relay_inv s" by (rule quiet.inv_run [OF assms])
  then show ?thesis by (auto simp: relay_inv_def)
qed

section \<open>Memory and panics\<close>

text \<open>Without any assumption on the policy: the header buffer stays within its limit, the body buffer
  within the limit of the plan it was filled under, and a body is only ever buffered under a plan.\<close>

definition buffers_ok :: "relay \<Rightarrow> bool" where
  "buffers_ok s \<longleftrightarrow> length (pending s) \<le> MAX_HTTP1_HEADER_BYTES \<and>
     (buffering_body s \<longrightarrow> (\<exists>p. body_plan s = Some p \<and> length (body_buffer s) \<le> max MAX_HTTP1_HEADER_BYTES (max_body_bytes p)))"

lemma rewrite_now_buffers [simp]:
  "pending (snd (rewrite_now x plan body s)) = pending s" "body_buffer (snd (rewrite_now x plan body s)) = body_buffer s"
  "buffering_body (snd (rewrite_now x plan body s)) = buffering_body s" "body_plan (snd (rewrite_now x plan body s)) = body_plan s"
  using rewrite_now_state [of x plan body s] by auto

lemma finish_pending [simp]:
  "pending (finish_chunked x plan d n s) = pending s" "pending (finish_plain x plan b o' s) = pending s" "pending (send_raw s) = pending s"
  by (simp_all add: finish_chunked_def finish_plain_def relay_sends case_prod_unfold Let_def split: option.split)

lemma client_event_buffers:
  "buffers_ok (client_event x chunk s) = buffers_ok s"
  by (simp add: client_event_def buffers_ok_def edit_step_def relay_sends Let_def split: option.split)

lemma upstream_eof_buffers: "pending (upstream_eof x s) = [] \<and> \<not> buffering_body (upstream_eof x s)"
  by (cases "pending s = []"; cases "buffering_body s"; cases "body_plan s"; cases "buffering_chunked s")
    (simp_all add: upstream_eof_def send_client_def Let_def split: option.split)

lemma upstream_body_buffers:
  assumes "buffers_ok s" "buffering_body s"
  shows "buffers_ok (upstream_body x chunk s)"
proof -
  from assms obtain p where p: "body_plan s = Some p" by (auto simp: buffers_ok_def)
  have "length (pending s) \<le> MAX_HTTP1_HEADER_BYTES" using assms(1) by (simp add: buffers_ok_def)
  then show ?thesis
    by (cases rule: upstream_body_cases [OF p refl, of x chunk]) (use p in \<open>simp_all add: buffers_ok_def count_def max_def\<close>)
qed

lemma after_headers_buffers:
  "length remainder \<le> MAX_HTTP1_HEADER_BYTES \<Longrightarrow> \<not> buffering_body s \<Longrightarrow>
    buffers_ok ((after_headers x headers remainder s)\<lparr>pending := [], first_response_filtered := True\<rparr>)"
  by (auto simp: after_headers_def buffers_ok_def relay_sends Let_def)

lemma tick_buffering [simp]:
  "buffering_body (cookie_tick x outcome s) = buffering_body s" "buffering_body (snd (cache_strip x outcome s)) = buffering_body s"
  by (simp_all add: cookie_tick_def cache_strip_def count_def Let_def)

lemma upstream_headers_buffers: "\<not> buffering_body s \<Longrightarrow> buffers_ok s \<Longrightarrow> buffers_ok (upstream_headers x chunk s)"
proof (cases "length (pending s @ chunk) > MAX_HTTP1_HEADER_BYTES \<or> find_headers_end (pending s @ chunk) = None")
  case False
  then obtain n where n: "find_headers_end (pending s @ chunk) = Some n" "length (pending s @ chunk) \<le> MAX_HTTP1_HEADER_BYTES" by auto
  then have "length (drop n (pending s @ chunk)) \<le> MAX_HTTP1_HEADER_BYTES" by simp
  moreover assume "\<not> buffering_body s"
  ultimately show ?thesis
    using n after_headers_buffers by (simp add: upstream_headers_def Let_def case_prod_unfold del: drop_append take_append)
qed (auto simp: upstream_headers_def buffers_ok_def relay_sends Let_def)

lemma buffers_step: "buffers_ok (rl s) \<Longrightarrow> relay_step P s t \<Longrightarrow> buffers_ok (rl t)"
proof (erule relay_step.cases)
  show "buffers_ok (rl t)" if "buffers_ok (rl s)" "s = s'" "t = s'\<lparr>rl := loop_end (upstream_event x chunk (rl s')), got_upstream := got_upstream s' @ chunk\<rparr>"
    for s' x chunk
    using that upstream_eof_buffers [of x "rl s"] upstream_body_buffers upstream_headers_buffers
    by (simp add: loop_end_def upstream_event_def) (auto simp: buffers_ok_def send_client_def)
qed (use client_event_buffers in \<open>auto simp: loop_end_def buffers_ok_def\<close>)

interpretation buffers: step_system relay_init "relay_step P" "\<lambda>s. buffers_ok (rl s)" for P
proof
  show "relay_init s \<Longrightarrow> buffers_ok (rl s)" for s by (auto simp: relay_init_def relay_start_def buffers_ok_def)
qed (rule buffers_step)

text \<open>C17: whatever the policy, the peers and the interleaving, the relay holds at most
  \<open>MAX_HTTP1_HEADER_BYTES\<close> of response header, and while it buffers a body it has a plan (the
  \<open>unwrap\<close> of the body phase does not panic) and holds at most the larger of that limit and the
  plan's \<open>max_body_bytes\<close>; a chunked body's consumed length never exceeds the buffer it is sliced from.\<close>
theorem relay_buffers_bounded:
  assumes "relay_init s0" "(relay_step P)\<^sup>*\<^sup>* s0 s"
  shows "length (pending (rl s)) \<le> 65536 \<and>
    (buffering_body (rl s) \<longrightarrow> (\<exists>p. body_plan (rl s) = Some p \<and> length (body_buffer (rl s)) \<le> max 65536 (max_body_bytes p))) \<and>
    (\<forall>d n. try_decode_chunked_message (body_buffer (rl s)) = Some (d, n) \<longrightarrow> n \<le> length (body_buffer (rl s)))"
proof -
  have "buffers_ok (rl s)" by (rule buffers.inv_run [OF assms])
  moreover have "n \<le> length b" if "try_decode_chunked_message b = Some (d, n)" for b d n
    using decode_message_extend [of b 0 "[]" "(d, n)"] that by (simp add: try_decode_chunked_message_def)
  ultimately show ?thesis by (auto simp: buffers_ok_def MAX_HTTP1_HEADER_BYTES_def)
qed

text \<open>A response that arrives complete in one read is held back: when its body qualifies for rewriting
  the relay writes nothing, however much of the body is already there, and looks at the body only at
  the next read.\<close>

lemma complete_response_held_back:
  assumes "should_rewrite (plan_for_body_rewrite (x_engine x) (x_host x))" "response_is_html headers"
    "encoding_ok (extract_content_encoding headers)" "extract_content_length headers = Some (length body)"
    "length body \<le> max_body_bytes (plan_for_body_rewrite (x_engine x) (x_host x))"
  shows "to_client (after_headers x headers body s) = to_client s \<and> buffering_body (after_headers x headers body s) \<and>
    body_buffer (after_headers x headers body s) = body"
  using assms by (simp add: after_headers_def Let_def)

section \<open>Witnesses\<close>

definition wit_ctx :: relay_ctx where
  "wit_ctx = \<lparr>x_engine = policy_engine_new Disabled, x_host = ''www.example'', x_source_ip = None, x_now = 0,
     x_html = \<lparr>css_ok = \<lambda>s. True, html_engine = \<lambda>h b. Inl [], he_codec = wit_codec\<rparr>\<rparr>"

definition wit_start :: relay_sys where
  "wit_start = \<lparr>rl = relay_start \<lparr>t_metrics = metrics_default, t_receipts = None\<rparr>, got_client = [], got_upstream = []\<rparr>"

definition client_does :: "bytes \<Rightarrow> relay_sys \<Rightarrow> relay_sys" where
  "client_does c s = s\<lparr>rl := loop_end (client_event wit_ctx c (rl s)), got_client := got_client s @ c\<rparr>"

definition upstream_does :: "bytes \<Rightarrow> relay_sys \<Rightarrow> relay_sys" where
  "upstream_does c s = s\<lparr>rl := loop_end (upstream_event wit_ctx c (rl s)), got_upstream := got_upstream s @ c\<rparr>"

lemma wit_passive: "passive_ctx wit_ctx"
  by (simp add: passive_ctx_def wit_ctx_def policy_engine_new_def default_for_mode_def plan_for_host_with_source_ip_def
      plan_for_body_rewrite_def Let_def)

lemma wit_client: "r_result (rl s) = None \<Longrightarrow> \<not> client_closed (rl s) \<Longrightarrow> relay_step passive_ctx s (client_does c s)"
  unfolding client_does_def by (rule client_read) (use wit_passive in simp_all)

lemma wit_upstream: "r_result (rl s) = None \<Longrightarrow> \<not> upstream_closed (rl s) \<Longrightarrow> relay_step passive_ctx s (upstream_does c s)"
  unfolding upstream_does_def by (rule upstream_read) (use wit_passive in simp_all)

lemma wit_run:
  defines "s1 \<equiv> client_does ''GET /'' wit_start"
  defines "s2 \<equiv> upstream_does ''HTTP/1.1 20'' s1"
  defines "s3 \<equiv> client_does [] s2"
  defines "s4 \<equiv> upstream_does [] s3"
  shows "(relay_step passive_ctx)\<^sup>*\<^sup>* wit_start s4" "r_result (rl s4) = Some (Ok ())" "got_upstream s4 = ''HTTP/1.1 20''"
    "(relay_step passive_ctx)\<^sup>*\<^sup>* wit_start s2" "pending (rl s2) = ''HTTP/1.1 20''"
proof -
  have x: "sp_tracker_match (plan_for_host_with_source_ip (x_engine wit_ctx) (x_host wit_ctx) (x_source_ip wit_ctx)) = False"
    "referer_spoof (plan_for_body_rewrite (x_engine wit_ctx) (x_host wit_ctx)) = False"
    "query_param_strip (plan_for_body_rewrite (x_engine wit_ctx) (x_host wit_ctx)) = False"
    using wit_passive by (simp_all add: passive_ctx_def Let_def)
  have f: "find_headers_end ''HTTP/1.1 20'' = None" by code_simp
  have 1: "rl s1 = (rl wit_start)\<lparr>first_request_checked := True, to_upstream := ''GET /''\<rparr>"
    by (simp add: s1_def client_does_def client_event_def x edit_step_def send_upstream_def loop_end_def wit_start_def relay_start_def Let_def)
  have 2: "rl s2 = (rl s1)\<lparr>pending := ''HTTP/1.1 20''\<rparr>"
    using 1 by (simp add: s2_def upstream_does_def upstream_event_def upstream_headers_def MAX_HTTP1_HEADER_BYTES_def f loop_end_def
        wit_start_def relay_start_def Let_def)
  have 3: "rl s3 = (rl s2)\<lparr>client_closed := True, upstream_shut := True\<rparr>"
    using 1 2 by (simp add: s3_def client_does_def client_event_def loop_end_def wit_start_def relay_start_def)
  have 4: "r_result (rl s4) = Some (Ok ())"
    using 1 2 3 by (simp add: s4_def upstream_does_def upstream_event_def upstream_eof_def send_client_def loop_end_def wit_start_def relay_start_def Let_def)
  have "relay_step passive_ctx wit_start s1" "relay_step passive_ctx s2 s3"
    unfolding s1_def s3_def by (rule wit_client; simp add: 1 2 wit_start_def relay_start_def)+
  moreover have "relay_step passive_ctx s1 s2" "relay_step passive_ctx s3 s4"
    unfolding s2_def s4_def by (rule wit_upstream; simp add: 1 2 3 wit_start_def relay_start_def)+
  ultimately show "(relay_step passive_ctx)\<^sup>*\<^sup>* wit_start s4" "(relay_step passive_ctx)\<^sup>*\<^sup>* wit_start s2"
    by (meson r_into_rtranclp rtranclp_trans)+
  show "r_result (rl s4) = Some (Ok ())" by (rule 4)
  show "got_upstream s4 = ''HTTP/1.1 20''"
    by (simp add: s4_def s3_def s2_def s1_def client_does_def upstream_does_def wit_start_def)
  show "pending (rl s2) = ''HTTP/1.1 20''" by (simp add: 2)
qed

theorem relay_transparent_witness:
  "to_client (rl (upstream_does [] (client_does [] (upstream_does ''HTTP/1.1 20'' (client_does ''GET /'' wit_start))))) = ''HTTP/1.1 20''"
proof -
  have "relay_init wit_start" by (auto simp: relay_init_def wit_start_def)
  from relay_transparent [OF this wit_run(1)] show ?thesis using wit_run(2,3) by simp
qed

theorem relay_buffers_bounded_witness:
  "pending (rl (upstream_does ''HTTP/1.1 20'' (client_does ''GET /'' wit_start))) = ''HTTP/1.1 20'' \<and>
   length (pending (rl (upstream_does ''HTTP/1.1 20'' (client_does ''GET /'' wit_start)))) \<le> 65536"
proof -
  have "relay_init wit_start" by (auto simp: relay_init_def wit_start_def)
  from relay_buffers_bounded [OF this wit_run(4)] show ?thesis using wit_run(5) by blast
qed

end
