(* ===== verification/Cert_Pin.thy ===== *)
theory Cert_Pin
  imports Host_Store Step_System
begin

text \<open>
  \<^verbatim>\<open>src/cert_pin.rs\<close>: trust-on-first-use certificate pins. \<open>check_and_update\<close> takes the lock
  twice: a read section decides, a write section updates or inserts after a second look.
  The two sections are separate definitions; \<open>check_and_update\<close> composes them for one
  thread, and the inductive relation \<open>cp_step\<close> interleaves the sections of any number of
  threads. The clock value and the answers of the file system are arguments.
\<close>

record cert_pin =
  fingerprints :: "bytes list"
  first_seen :: u64
  last_seen :: u64
  hit_count :: u64

datatype pin_check_result = FirstSeen | Match | Mismatch "bytes list" bytes

record cert_pin_db =
  cp_path :: path
  cp_pins :: "bytes \<rightharpoonup> cert_pin"
  cp_poisoned :: bool

text \<open>\<open>format!("{b:02x}")\<close> of every byte, joined with colons; the digest is the crate
  \<^verbatim>\<open>ring\<close>'s SHA-256, an argument.\<close>

definition hex2 :: "char \<Rightarrow> bytes" where
  "hex2 b = [digit_char (code b div 16), digit_char (code b mod 16)]"

definition cert_der_fingerprint :: "(bytes \<Rightarrow> bytes) \<Rightarrow> bytes \<Rightarrow> bytes" where
  "cert_der_fingerprint sha256 der = join '':'' (map hex2 (sha256 der))"

definition pin_to_json :: "'v json_api \<Rightarrow> cert_pin \<Rightarrow> 'v" where
  "pin_to_json J p = mk_object J
    [(''fingerprints'', mk_array J (map (mk_str J) (fingerprints p))),
     (''first_seen'', mk_u64 J (first_seen p)),
     (''hit_count'', mk_u64 J (hit_count p)),
     (''last_seen'', mk_u64 J (last_seen p))]"

definition get_u64_or_0 :: "'v json_api \<Rightarrow> (bytes \<times> 'v) list \<Rightarrow> bytes \<Rightarrow> u64" where
  "get_u64_or_0 J obj k = (case Option.bind (get obj k) (as_u64 J) of None \<Rightarrow> 0 | Some n \<Rightarrow> n)"

definition pin_from_json :: "'v json_api \<Rightarrow> 'v \<Rightarrow> cert_pin option" where
  "pin_from_json J val = do {
     obj \<leftarrow> as_object J val;
     fv \<leftarrow> get obj ''fingerprints'';
     arr \<leftarrow> as_array J fv;
     Some \<lparr>fingerprints = List.map_filter (as_str J) arr,
       first_seen = get_u64_or_0 J obj ''first_seen'',
       last_seen = get_u64_or_0 J obj ''last_seen'',
       hit_count = get_u64_or_0 J obj ''hit_count''\<rparr> }"

definition pins_persist ::
  "'v json_api \<Rightarrow> fs_outcome \<Rightarrow> disk \<Rightarrow> path \<Rightarrow> (bytes \<rightharpoonup> cert_pin) \<Rightarrow> disk \<times> unit io_result" where
  "pins_persist J env d path pins =
    (let m = map (\<lambda>host. (host, pin_to_json J (the (pins host)))) (sorted_list_of_set (dom pins)) in
     case to_string_pretty J (mk_object J m) of
       Inl e \<Rightarrow> (d, Err (IoError InvalidData (''failed to serialize cert pins: '' @ e)))
     | Inr json \<Rightarrow> replace_file env d (with_extension ''tmp'' path) path json)"

definition pins_of_object :: "'v json_api \<Rightarrow> (bytes \<times> 'v) list \<Rightarrow> (bytes \<rightharpoonup> cert_pin)" where
  "pins_of_object J obj = fold (\<lambda>(host, val) m. case pin_from_json J val of None \<Rightarrow> m
     | Some pin \<Rightarrow> m(host \<mapsto> pin)) obj Map.empty"

definition cert_pin_load :: "'v json_api \<Rightarrow> io_error option \<Rightarrow> disk \<Rightarrow> path \<Rightarrow> cert_pin_db io_result" where
  "cert_pin_load J o_read d path =
    and_then
      (if d path \<noteq> None then
         and_then (read_to_string o_read d path) (\<lambda>raw.
         case from_str J raw of
           Inl e \<Rightarrow> Err (IoError InvalidData (''invalid cert-pin JSON: '' @ e))
         | Inr parsed \<Rightarrow>
             and_then (ok_or (as_object J parsed) (IoError InvalidData ''cert-pin JSON must be an object''))
               (\<lambda>obj. Ok (pins_of_object J obj)))
       else Ok Map.empty)
      (\<lambda>pins. Ok \<lparr>cp_path = path, cp_pins = pins, cp_poisoned = False\<rparr>)"

text \<open>The section under the read lock: the answer, or which write section follows.\<close>

datatype cau_decision = Decided pin_check_result | GoHit | GoInsert

definition cau_read :: "cert_pin_db \<Rightarrow> bytes \<Rightarrow> bytes \<Rightarrow> cau_decision io_result" where
  "cau_read db normalized fingerprint =
    (if cp_poisoned db then Err (lock_error ''cert-pin'')
     else (case cp_pins db normalized of None \<Rightarrow> Ok GoInsert
       | Some pin \<Rightarrow> if fingerprint \<in> set (fingerprints pin) then Ok GoHit
           else Ok (Decided (Mismatch (fingerprints pin) fingerprint))))"

text \<open>The write section after a match: refresh the entry if it is there, persist.\<close>

definition cau_hit :: "'v json_api \<Rightarrow> fs_outcome \<Rightarrow> disk \<Rightarrow> cert_pin_db \<Rightarrow> u64 \<Rightarrow> bytes \<Rightarrow>
    disk \<times> cert_pin_db \<times> pin_check_result io_result" where
  "cau_hit J env d db now normalized =
    (if cp_poisoned db then (d, db, Err (lock_error ''cert-pin''))
     else
       let db' = (case cp_pins db normalized of None \<Rightarrow> db
             | Some pin \<Rightarrow> db\<lparr>cp_pins := (cp_pins db)(normalized \<mapsto>
                 pin\<lparr>last_seen := now, hit_count := sat_add (hit_count pin) 1\<rparr>)\<rparr>);
           (d', r) = pins_persist J env d (cp_path db') (cp_pins db')
       in (d', db', case r of Inl e \<Rightarrow> Err e | Inr _ \<Rightarrow> Ok Match))"

text \<open>The write section for an unknown host: look again, insert, persist.\<close>

definition cau_insert :: "'v json_api \<Rightarrow> fs_outcome \<Rightarrow> disk \<Rightarrow> cert_pin_db \<Rightarrow> u64 \<Rightarrow> bytes \<Rightarrow> bytes \<Rightarrow>
    disk \<times> cert_pin_db \<times> pin_check_result io_result" where
  "cau_insert J env d db now normalized fingerprint =
    (if cp_poisoned db then (d, db, Err (lock_error ''cert-pin''))
     else (case cp_pins db normalized of
       Some pin \<Rightarrow> (d, db, Ok (if fingerprint \<in> set (fingerprints pin) then Match
           else Mismatch (fingerprints pin) fingerprint))
     | None \<Rightarrow>
         let db' = db\<lparr>cp_pins := (cp_pins db)(normalized \<mapsto>
               \<lparr>fingerprints = [fingerprint], first_seen = now, last_seen = now, hit_count = 1\<rparr>)\<rparr>;
             (d', r) = pins_persist J env d (cp_path db') (cp_pins db')
         in (d', db', case r of Inl e \<Rightarrow> Err e | Inr _ \<Rightarrow> Ok FirstSeen)))"

definition check_and_update :: "'v json_api \<Rightarrow> fs_outcome \<Rightarrow> disk \<Rightarrow> cert_pin_db \<Rightarrow> u64 \<Rightarrow> bytes \<Rightarrow> bytes \<Rightarrow>
    disk \<times> cert_pin_db \<times> pin_check_result io_result" where
  "check_and_update J env d db now host fingerprint =
    (let normalized = normalize_host host in
     case cau_read db normalized fingerprint of
       Inl e \<Rightarrow> (d, db, Err e)
     | Inr (Decided r) \<Rightarrow> (d, db, Ok r)
     | Inr GoHit \<Rightarrow> cau_hit J env d db now normalized
     | Inr GoInsert \<Rightarrow> cau_insert J env d db now normalized fingerprint)"

definition add_fingerprint :: "'v json_api \<Rightarrow> fs_outcome \<Rightarrow> disk \<Rightarrow> cert_pin_db \<Rightarrow> u64 \<Rightarrow> bytes \<Rightarrow> bytes \<Rightarrow>
    disk \<times> cert_pin_db \<times> unit io_result" where
  "add_fingerprint J env d db now host fingerprint =
    (let normalized = normalize_host host in
     if cp_poisoned db then (d, db, Err (lock_error ''cert-pin''))
     else
       let entry = (case cp_pins db normalized of Some pin \<Rightarrow> pin
             | None \<Rightarrow> \<lparr>fingerprints = [], first_seen = now, last_seen = now, hit_count = 0\<rparr>);
           entry' = (if fingerprint \<in> set (fingerprints entry) then entry
             else entry\<lparr>fingerprints := fingerprints entry @ [fingerprint]\<rparr>);
           db' = db\<lparr>cp_pins := (cp_pins db)(normalized \<mapsto> entry'\<lparr>last_seen := now\<rparr>)\<rparr>;
           (d', r) = pins_persist J env d (cp_path db') (cp_pins db')
       in (d', db', r))"

definition cert_pin_len :: "cert_pin_db \<Rightarrow> nat io_result" where
  "cert_pin_len db = (if cp_poisoned db then Err (lock_error ''cert-pin'') else Ok (card (dom (cp_pins db))))"

section \<open>Interleaved checks\<close>

text \<open>A thread between its sections, the shared database and disk, and the answers given so
  far with the normalised host they are about.\<close>

datatype cp_thread = CpHit bytes | CpInsert bytes bytes

record cp_sys =
  sys_disk :: disk
  sys_db :: cert_pin_db
  sys_threads :: "nat \<rightharpoonup> cp_thread"
  sys_log :: "(bytes \<times> pin_check_result) list"

definition log_result :: "bytes \<Rightarrow> pin_check_result io_result \<Rightarrow> (bytes \<times> pin_check_result) list \<Rightarrow>
    (bytes \<times> pin_check_result) list" where
  "log_result h r l = (case r of Inl _ \<Rightarrow> l | Inr x \<Rightarrow> l @ [(h, x)])"

inductive cp_step :: "'v json_api \<Rightarrow> cp_sys \<Rightarrow> cp_sys \<Rightarrow> bool" for J :: "'v json_api" where
  read_decided: "sys_threads s t = None \<Longrightarrow> cau_read (sys_db s) (normalize_host h) fp = Ok (Decided r) \<Longrightarrow>
     cp_step J s (s\<lparr>sys_log := sys_log s @ [(normalize_host h, r)]\<rparr>)"
| read_hit: "sys_threads s t = None \<Longrightarrow> cau_read (sys_db s) (normalize_host h) fp = Ok GoHit \<Longrightarrow>
     cp_step J s (s\<lparr>sys_threads := (sys_threads s)(t \<mapsto> CpHit (normalize_host h))\<rparr>)"
| read_insert: "sys_threads s t = None \<Longrightarrow> cau_read (sys_db s) (normalize_host h) fp = Ok GoInsert \<Longrightarrow>
     cp_step J s (s\<lparr>sys_threads := (sys_threads s)(t \<mapsto> CpInsert (normalize_host h) fp)\<rparr>)"
| write_hit: "sys_threads s t = Some (CpHit h) \<Longrightarrow>
     cau_hit J env (sys_disk s) (sys_db s) now h = (d', db', r) \<Longrightarrow>
     cp_step J s (s\<lparr>sys_disk := d', sys_db := db', sys_threads := (sys_threads s)(t := None),
       sys_log := log_result h r (sys_log s)\<rparr>)"
| write_insert: "sys_threads s t = Some (CpInsert h fp) \<Longrightarrow>
     cau_insert J env (sys_disk s) (sys_db s) now h fp = (d', db', r) \<Longrightarrow>
     cp_step J s (s\<lparr>sys_disk := d', sys_db := db', sys_threads := (sys_threads s)(t := None),
       sys_log := log_result h r (sys_log s)\<rparr>)"
| rotate: "add_fingerprint J env (sys_disk s) (sys_db s) now h fp = (d', db', r) \<Longrightarrow>
     cp_step J s (s\<lparr>sys_disk := d', sys_db := db'\<rparr>)"

definition cp_init :: "cp_sys \<Rightarrow> bool" where
  "cp_init s \<longleftrightarrow> sys_log s = []"

definition first_seens :: "bytes \<Rightarrow> (bytes \<times> pin_check_result) list \<Rightarrow> nat" where
  "first_seens h l = length (filter (\<lambda>e. e = (h, FirstSeen)) l)"

definition cp_inv :: "cp_sys \<Rightarrow> bool" where
  "cp_inv s \<longleftrightarrow> (\<forall>h. first_seens h (sys_log s) \<le> 1 \<and>
     (cp_pins (sys_db s) h = None \<longrightarrow> first_seens h (sys_log s) = 0))"

section \<open>Lemmas\<close>

lemmas cau_defs = cau_read_def cau_hit_def cau_insert_def add_fingerprint_def Let_def

lemma cau_insert_FirstSeen:
  assumes "cau_insert J env d db now h fp = (d', db', Ok FirstSeen)"
  shows "cp_pins db h = None \<and> cp_pins db' h \<noteq> None"
  using assms by (auto simp: cau_defs split: if_splits option.splits prod.splits sum.splits)

lemma cau_hit_not_FirstSeen: "snd (snd (cau_hit J env d db now h)) \<noteq> Ok FirstSeen"
  by (auto simp: cau_defs split: prod.splits sum.splits)

text \<open>No operation removes a pin, and only \<open>add_fingerprint\<close> extends one: a pin that is there
  keeps its fingerprints and its first-seen time through every check.\<close>

definition pin_kept :: "bytes \<Rightarrow> cert_pin_db \<Rightarrow> cert_pin_db \<Rightarrow> bool" where
  "pin_kept h db db' \<longleftrightarrow> (\<forall>p. cp_pins db h = Some p \<longrightarrow>
     (\<exists>p'. cp_pins db' h = Some p' \<and> fingerprints p' = fingerprints p \<and> first_seen p' = first_seen p))"

lemma pin_kept_refl [simp]: "pin_kept h db db"
  by (simp add: pin_kept_def)

lemma pin_kept_trans: "pin_kept h a b \<Longrightarrow> pin_kept h b c \<Longrightarrow> pin_kept h a c"
  unfolding pin_kept_def by (metis (no_types, lifting))

lemma cau_hit_kept: "pin_kept h db (fst (snd (cau_hit J env d db now k)))"
  by (auto simp: pin_kept_def cau_defs split: prod.splits option.splits)

lemma cau_insert_kept: "pin_kept h db (fst (snd (cau_insert J env d db now k fp)))"
  by (auto simp: pin_kept_def cau_defs split: prod.splits option.splits)

lemma check_and_update_kept: "pin_kept h db (fst (snd (check_and_update J env d db now k fp)))"
  using cau_hit_kept cau_insert_kept
  by (auto simp: check_and_update_def Let_def split: sum.splits cau_decision.splits)

lemma cau_dom:
  "cp_pins db h \<noteq> None \<Longrightarrow> cp_pins (fst (snd (cau_hit J env d db now k))) h \<noteq> None"
  "cp_pins db h \<noteq> None \<Longrightarrow> cp_pins (fst (snd (cau_insert J env d db now k fp))) h \<noteq> None"
  "cp_pins db h \<noteq> None \<Longrightarrow> cp_pins (fst (snd (add_fingerprint J env d db now k fp))) h \<noteq> None"
  by (auto simp: cau_defs split: prod.splits option.splits)

lemma check_and_update_poisoned: "cp_poisoned (fst (snd (check_and_update J env d db now h fp))) = cp_poisoned db"
  by (auto simp: check_and_update_def cau_defs split: prod.splits option.splits sum.splits cau_decision.splits)

interpretation pin_db: host_keyed_store normalize_host "\<lambda>n. True"
  "\<lambda>h pins. cp_pins (fst (snd (check_and_update J env d \<lparr>cp_path = p, cp_pins = pins, cp_poisoned = False\<rparr> now h fp)))"
  "\<lambda>pins g. pins (normalize_host g) \<noteq> None"
  for J :: "'v json_api" and env d p now fp
  by unfold_locales
     (auto simp: check_and_update_def cau_defs split: prod.splits option.splits if_splits)

lemma first_seens_log:
  "first_seens h (log_result k r l) = first_seens h l + (if r = Ok FirstSeen \<and> k = h then 1 else 0)"
  by (auto simp: log_result_def first_seens_def split: sum.splits)

lemma first_seens_snoc:
  "first_seens h (l @ [(k, r)]) = first_seens h l + (if r = FirstSeen \<and> k = h then 1 else 0)"
  by (auto simp: first_seens_def)

lemma cp_inv_log:
  assumes inv: "cp_inv s" and dom: "\<And>h. cp_pins (sys_db s) h \<noteq> None \<Longrightarrow> cp_pins db' h \<noteq> None"
    and fs: "r = Ok FirstSeen \<Longrightarrow> cp_pins (sys_db s) k = None \<and> cp_pins db' k \<noteq> None"
  shows "cp_inv (s\<lparr>sys_disk := d', sys_db := db', sys_threads := t', sys_log := log_result k r (sys_log s)\<rparr>)"
proof -
  have "first_seens h (log_result k r (sys_log s)) \<le> 1 \<and>
    (cp_pins db' h = None \<longrightarrow> first_seens h (log_result k r (sys_log s)) = 0)" for h
    using inv fs dom [of h] by (cases "cp_pins (sys_db s) h") (auto simp: cp_inv_def first_seens_log)
  then show ?thesis by (simp add: cp_inv_def)
qed

lemma cp_inv_step:
  assumes "cp_step J s s'" "cp_inv s"
  shows "cp_inv s'"
  using assms
proof (induction rule: cp_step.induct)
  case (read_decided s t h fp r)
  then have "r \<noteq> FirstSeen" by (auto simp: cau_read_def split: if_splits option.splits)
  with read_decided show ?case by (simp add: cp_inv_def first_seens_snoc)
next
  case (read_hit s t h fp)
  then show ?case by (simp add: cp_inv_def)
next
  case (read_insert s t h fp)
  then show ?case by (simp add: cp_inv_def)
next
  case (write_hit s t h env now d' db' r)
  then have "r \<noteq> Ok FirstSeen" by (metis cau_hit_not_FirstSeen snd_conv)
  moreover have "cp_pins (sys_db s) g \<noteq> None \<Longrightarrow> cp_pins db' g \<noteq> None" for g
    using cau_dom(1) [of "sys_db s" g J env "sys_disk s" now h] write_hit by simp
  ultimately show ?case using write_hit by (auto intro!: cp_inv_log)
next
  case (write_insert s t h fp env now d' db' r)
  have "cp_pins (sys_db s) g \<noteq> None \<Longrightarrow> cp_pins db' g \<noteq> None" for g
    using cau_dom(2) [of "sys_db s" g J env "sys_disk s" now h fp] write_insert by simp
  moreover have "r = Ok FirstSeen \<Longrightarrow> cp_pins (sys_db s) h = None \<and> cp_pins db' h \<noteq> None"
    using write_insert cau_insert_FirstSeen by blast
  ultimately show ?case using write_insert by (auto intro!: cp_inv_log)
next
  case (rotate env s now h fp d' db' r)
  have "cp_pins (sys_db s) g \<noteq> None \<Longrightarrow> cp_pins db' g \<noteq> None" for g
    using cau_dom(3) [of "sys_db s" g J env "sys_disk s" now h fp] rotate by simp
  with rotate show ?case by (fastforce simp: cp_inv_def)
qed

lemma cp_inv_init: "cp_init s \<Longrightarrow> cp_inv s"
  by (simp add: cp_init_def cp_inv_def first_seens_def)

interpretation pin_sys: step_system cp_init "cp_step J" cp_inv for J :: "'v json_api"
  by unfold_locales (simp_all add: cp_inv_init cp_inv_step)

text \<open>C12: Trust on first use under concurrency: however the lock sections of any number of
  concurrent checks (and fingerprint additions) interleave, and whatever the file system
  answers, at most one check per host reports that the host was seen for the first time.
\<close>
theorem at_most_one_first_seen:
  assumes "cp_init s" "(cp_step J)\<^sup>*\<^sup>* s s'"
  shows "first_seens h (sys_log s') \<le> 1"
  using pin_sys.inv_run [OF assms] by (simp add: cp_inv_def)

definition wit_path :: path where
  "wit_path = \<lparr>p_dir = ''/tmp'', p_stem = ''pins'', p_ext = Some ''json''\<rparr>"

definition wit_pin :: cert_pin where
  "wit_pin = \<lparr>fingerprints = [''aa:bb''], first_seen = 7, last_seen = 7, hit_count = 1\<rparr>"

definition wit_json :: "jval json_api" where
  "wit_json = jdoc (JObj [(''a.com'', pin_to_json (jdoc JNull) wit_pin)])"

definition wit_db :: "(bytes \<rightharpoonup> cert_pin) \<Rightarrow> cert_pin_db" where
  "wit_db pins = \<lparr>cp_path = wit_path, cp_pins = pins, cp_poisoned = False\<rparr>"

lemma wit_to_json [simp]: "pin_to_json wit_json p = pin_to_json (jdoc JNull) p"
  by (simp add: wit_json_def pin_to_json_def jdoc_def)

lemma wit_norm [simp]: "normalize_host ''a.com'' = ''a.com''" "normalize_host ''A.com.'' = ''a.com''"
  by code_simp+

lemma wit_insert:
  "cau_insert wit_json fs_all_ok Map.empty (wit_db Map.empty) 7 ''a.com'' ''aa:bb'' =
     (fst (replace_file fs_all_ok Map.empty (with_extension ''tmp'' wit_path) wit_path ''{}''),
      wit_db [''a.com'' \<mapsto> wit_pin], Ok FirstSeen)"
proof -
  have p: "pins_persist wit_json fs_all_ok Map.empty wit_path [''a.com'' \<mapsto> wit_pin] =
    replace_file fs_all_ok Map.empty (with_extension ''tmp'' wit_path) wit_path ''{}''"
    by (simp add: pins_persist_def) (simp add: wit_json_def jdoc_def)
  obtain d' where r: "replace_file fs_all_ok Map.empty (with_extension ''tmp'' wit_path) wit_path ''{}'' = (d', Ok ())"
    by (metis prod.collapse replace_file_all_ok)
  show ?thesis using p r by (simp add: cau_insert_def wit_db_def wit_pin_def [symmetric])
qed

theorem at_most_one_first_seen_witness:
  "first_seens ''a.com'' [(''a.com'', FirstSeen)] \<le> 1"
proof -
  let ?s = "\<lparr>sys_disk = Map.empty, sys_db = wit_db Map.empty, sys_threads = Map.empty, sys_log = []\<rparr>"
  let ?t = "[0 \<mapsto> CpInsert ''a.com'' ''aa:bb''] :: nat \<rightharpoonup> cp_thread"
  let ?d = "fst (replace_file fs_all_ok Map.empty (with_extension ''tmp'' wit_path) wit_path ''{}'')"
  let ?u = "\<lparr>sys_disk = ?d, sys_db = wit_db [''a.com'' \<mapsto> wit_pin], sys_threads = Map.empty,
    sys_log = [(''a.com'', FirstSeen)]\<rparr>"
  have "cp_step wit_json ?s (?s\<lparr>sys_threads := ?t\<rparr>)"
    using cp_step.read_insert [of ?s 0 "''a.com''" "''aa:bb''" wit_json] by (simp add: cau_read_def wit_db_def)
  moreover have "cp_step wit_json (?s\<lparr>sys_threads := ?t\<rparr>) ?u"
    using cp_step.write_insert [of "?s\<lparr>sys_threads := ?t\<rparr>" 0 "''a.com''" "''aa:bb''" wit_json fs_all_ok 7]
    by (simp add: wit_insert log_result_def)
  ultimately have "(cp_step wit_json)\<^sup>*\<^sup>* ?s ?u"
    by (meson converse_rtranclp_into_rtranclp rtranclp.rtrancl_refl)
  from at_most_one_first_seen [OF _ this, of "''a.com''"] show ?thesis by (simp add: cp_init_def)
qed

text \<open>A sequence of checks by one thread, each with its own clock value and file-system
  answers.\<close>

definition run_checks :: "'v json_api \<Rightarrow> (fs_outcome \<times> u64 \<times> bytes \<times> bytes) list \<Rightarrow>
    disk \<times> cert_pin_db \<Rightarrow> disk \<times> cert_pin_db" where
  "run_checks J = fold (\<lambda>(env, now, h, fp) (d, db). let (d', db', _) = check_and_update J env d db now h fp in (d', db'))"

lemma run_checks_kept:
  "pin_kept h (snd st) (snd (run_checks J ops st)) \<and> cp_poisoned (snd (run_checks J ops st)) = cp_poisoned (snd st)"
proof (induction ops arbitrary: st)
  case (Cons x ops)
  obtain env now k fp where x: "x = (env, now, k, fp)" by (metis prod_cases4)
  obtain d db where st: "st = (d, db)" by (cases st)
  obtain d' db' r where c: "check_and_update J env d db now k fp = (d', db', r)" by (metis prod_cases3)
  have "run_checks J (x # ops) st = run_checks J ops (d', db')" by (simp add: run_checks_def x st c)
  moreover have "pin_kept h db db'" "cp_poisoned db' = cp_poisoned db"
    using check_and_update_kept [of h db J env d now k fp] check_and_update_poisoned [of J env d db now k fp] c by simp_all
  ultimately show ?case using Cons [of "(d', db')"] st by (auto intro: pin_kept_trans)
qed (simp add: run_checks_def)

text \<open>C6: the first certificate wins: once a check of a host answered \<open>FirstSeen\<close>, then after any
  sequence of further checks of any hosts, a check of that host (in any spelling with the
  same normal form) answers \<open>Mismatch\<close> with the first fingerprint for every other
  fingerprint, without changing the database, and never reports it as new.
\<close>
theorem first_certificate_wins:
  assumes "check_and_update J env d db now host fp = (d1, db1, Ok FirstSeen)"
    and "run_checks J ops (d1, db1) = (d2, db2)"
    and "normalize_host g = normalize_host host" "fp' \<noteq> fp"
  shows "check_and_update J env2 d2 db2 now2 g fp' = (d2, db2, Ok (Mismatch [fp] fp'))"
proof -
  have np: "\<not> cp_poisoned db" and new: "cp_pins db (normalize_host host) = None"
    using assms(1) by (auto simp: check_and_update_def cau_defs split: if_splits option.splits prod.splits sum.splits)
  then have db1: "\<exists>p. cp_pins db1 (normalize_host host) = Some p \<and> fingerprints p = [fp]" "\<not> cp_poisoned db1"
    using assms(1) by (auto simp: check_and_update_def cau_defs split: prod.splits sum.splits)
  then obtain p where "cp_pins db2 (normalize_host host) = Some p" "fingerprints p = [fp]" "\<not> cp_poisoned db2"
    using run_checks_kept [of "normalize_host host" "(d1, db1)" J ops] assms(2) by (auto simp: pin_kept_def)
  then show ?thesis using assms(3,4) by (simp add: check_and_update_def cau_read_def)
qed

theorem first_certificate_wins_witness:
  "snd (check_and_update wit_json fs_all_ok
      (fst (replace_file fs_all_ok Map.empty (with_extension ''tmp'' wit_path) wit_path ''{}''))
      (wit_db [''a.com'' \<mapsto> wit_pin]) 9 ''A.com.'' ''cc:dd'') =
     (wit_db [''a.com'' \<mapsto> wit_pin], Ok (Mismatch [''aa:bb''] ''cc:dd''))"
proof -
  let ?d = "fst (replace_file fs_all_ok Map.empty (with_extension ''tmp'' wit_path) wit_path ''{}'')"
  have first: "check_and_update wit_json fs_all_ok Map.empty (wit_db Map.empty) 7 ''a.com'' ''aa:bb'' =
    (?d, wit_db [''a.com'' \<mapsto> wit_pin], Ok FirstSeen)"
    using wit_insert by (simp add: check_and_update_def cau_read_def wit_db_def)
  have none: "run_checks wit_json [] (?d, wit_db [''a.com'' \<mapsto> wit_pin]) = (?d, wit_db [''a.com'' \<mapsto> wit_pin])"
    by (simp add: run_checks_def)
  have "check_and_update wit_json fs_all_ok ?d (wit_db [''a.com'' \<mapsto> wit_pin]) 9 ''A.com.'' ''cc:dd'' =
    (?d, wit_db [''a.com'' \<mapsto> wit_pin], Ok (Mismatch [''aa:bb''] ''cc:dd''))"
    by (rule first_certificate_wins [OF first none]) simp_all
  then show ?thesis by simp
qed

lemma pin_json_roundtrip: "json_laws J \<Longrightarrow> pin_from_json J (pin_to_json J p) = Some p"
proof -
  assume l: "json_laws J"
  have "List.map_filter (as_str J) (map (mk_str J) xs) = xs" for xs
    by (induction xs) (simp_all add: List.map_filter_def json_lawsD [OF l])
  moreover have "sorted_wrt (<) [''fingerprints'', ''first_seen'', ''hit_count'', ''last_seen'']" by code_simp
  ultimately show ?thesis
    by (simp add: pin_from_json_def pin_to_json_def get_u64_or_0_def json_lawsD [OF l])
qed

lemma pins_of_object_map:
  assumes "json_laws J" "distinct hs"
  shows "pins_of_object J (map (\<lambda>h. (h, pin_to_json J (f h))) hs) = (\<lambda>h. if h \<in> set hs then Some (f h) else None)"
proof -
  have "fold (\<lambda>(host, val) m. case pin_from_json J val of None \<Rightarrow> m | Some pin \<Rightarrow> m(host \<mapsto> pin))
      (map (\<lambda>h. (h, pin_to_json J (f h))) hs) m = (\<lambda>h. if h \<in> set hs then Some (f h) else m h)" for m
    using assms(2) by (induction hs arbitrary: m) (auto simp: pin_json_roundtrip [OF assms(1)] fun_eq_iff)
  then show ?thesis by (simp add: pins_of_object_def)
qed

text \<open>Pins survive a restart: when writing the pin file succeeded, loading it gives back every
  host with all its fingerprints, times and hit count.
\<close>
theorem pins_persist_load_roundtrip:
  assumes "json_laws J" "finite (dom pins)" "p_ext path \<noteq> Some ''tmp''"
    and "pins_persist J env d path pins = (d', Ok ())"
  shows "cert_pin_load J None d' path = Ok \<lparr>cp_path = path, cp_pins = pins, cp_poisoned = False\<rparr>"
proof -
  let ?m = "map (\<lambda>h. (h, pin_to_json J (the (pins h)))) (sorted_list_of_set (dom pins))"
  obtain t where t: "to_string_pretty J (mk_object J ?m) = Inr t"
    and r: "replace_file env d (with_extension ''tmp'' path) path t = (d', Ok ())"
    using assms(4) by (auto simp: pins_persist_def Let_def split: sum.splits)
  from replace_file_Ok [of env d "with_extension ''tmp'' path" path t] r
  have "d' path = Some t" using with_extension_neq [OF assms(3)] by simp
  moreover have "pins_of_object J ?m = pins"
    using assms(2) by (simp add: pins_of_object_map [OF assms(1)] fun_eq_iff domIff)
  moreover have "sorted_wrt (<) (map fst ?m)" by (simp add: o_def)
  ultimately show ?thesis
    using t by (simp add: cert_pin_load_def read_to_string_def json_lawsD [OF assms(1)])
qed

theorem pins_persist_load_roundtrip_witness:
  "cert_pin_load wit_json None (fst (pins_persist wit_json fs_all_ok Map.empty wit_path [''a.com'' \<mapsto> wit_pin])) wit_path
   = Ok (wit_db [''a.com'' \<mapsto> wit_pin])"
proof -
  obtain d' r where e: "pins_persist wit_json fs_all_ok Map.empty wit_path [''a.com'' \<mapsto> wit_pin] = (d', r)"
    by fastforce
  then have "r = Ok ()"
    by (simp add: pins_persist_def) (simp add: wit_json_def jdoc_def replace_file_def fs_all_ok_def)
  moreover have "json_laws wit_json" by (simp add: wit_json_def json_laws_jdoc)
  ultimately show ?thesis
    using pins_persist_load_roundtrip [of wit_json "[''a.com'' \<mapsto> wit_pin]" wit_path fs_all_ok Map.empty d'] e
    by (simp add: wit_path_def wit_db_def)
qed

end
