(* ===== verification/Mitm_Engine.thy ===== *)
theory Mitm_Engine
  imports Mitm_Relay Cert_Pin
begin

text \<open>
  The interception engine of \<^verbatim>\<open>src/mitm.rs\<close> around the relay: its errors, the certificate authority
  and its files, the cache and the log of leaf certificates, and \<open>intercept_tls_tunnel\<close>. Key and
  certificate generation (crates \<^verbatim>\<open>rcgen\<close>, \<^verbatim>\<open>ring\<close>) and the TLS handshakes (crate \<^verbatim>\<open>rustls\<close>) are
  parameters: what they answer is an argument of the operation that calls them. The messages of
  configuration errors leave out the paths that the code appends.
\<close>

datatype tls_profile = DefaultProfile | ChromeProfile

fun profile_as_str :: "tls_profile \<Rightarrow> bytes" where
  "profile_as_str DefaultProfile = ''default''"
| "profile_as_str ChromeProfile = ''chrome''"

datatype mitm_error =
    CertGeneration string
  | ClientTlsHandshake string
  | UpstreamConnect io_error
  | InvalidServerName bytes
  | UpstreamTlsHandshake string
  | RelayError io_error
  | CaConfig string
  | CaIo io_error

definition is_client_tls_handshake_failure :: "mitm_error \<Rightarrow> bool" where
  "is_client_tls_handshake_failure e \<longleftrightarrow> (case e of ClientTlsHandshake _ \<Rightarrow> True | _ \<Rightarrow> False)"

definition is_upstream_tls_handshake_failure :: "mitm_error \<Rightarrow> bool" where
  "is_upstream_tls_handshake_failure e \<longleftrightarrow> (case e of UpstreamTlsHandshake _ \<Rightarrow> True | _ \<Rightarrow> False)"

definition is_benign_peer_close :: "mitm_error \<Rightarrow> bool" where
  "is_benign_peer_close e \<longleftrightarrow>
    (case e of
       RelayError e \<Rightarrow> err_kind e \<in> {UnexpectedEof, ConnectionReset, BrokenPipe} \<or>
         str_contains (err_msg e) ''without sending TLS close_notify''
     | _ \<Rightarrow> False)"

section \<open>The certificate authority\<close>

record ca_files_config =
  ca_cert_path :: path
  ca_key_path :: path
  generate_if_missing :: bool

datatype ca_init_mode = LoadedFromFiles | GeneratedAndPersisted | GeneratedEphemeral

text \<open>Key pairs and certificates are values of the crate; \<open>kp_generate\<close> is the key pair that a
  generation in this run of the program gives, \<open>self_sign\<close> signs the root parameters with a key.\<close>

record ca_lib =
  kp_generate :: "string + bytes"
  kp_from_pem :: "bytes \<Rightarrow> string + bytes"
  kp_to_pem :: "bytes \<Rightarrow> bytes"
  self_sign :: "bytes \<Rightarrow> string + bytes"
  cert_to_pem :: "bytes \<Rightarrow> bytes"

record ca_fs =
  cf_read_cert :: "io_error option"
  cf_read_key :: "io_error option"
  cf_mkdir_cert :: "io_error option"
  cf_mkdir_key :: "io_error option"
  cf_write_cert :: "(io_error \<times> bytes option) option"
  cf_write_key :: "(io_error \<times> bytes option) option"

definition map_err :: "('e \<Rightarrow> 'f) \<Rightarrow> 'e + 'a \<Rightarrow> 'f + 'a" where
  "map_err f r = (case r of Inl e \<Rightarrow> Inl (f e) | Inr x \<Rightarrow> Inr x)"

lemma map_err_simps [simp]: "map_err f (Inl e) = Inl (f e)" "map_err f (Inr x) = Inr x"
  by (simp_all add: map_err_def)

definition generate_root_ca :: "ca_lib \<Rightarrow> mitm_error + (bytes \<times> bytes)" where
  "generate_root_ca L =
    and_then (map_err CertGeneration (kp_generate L)) (\<lambda>ca_key.
    and_then (map_err CertGeneration (self_sign L ca_key)) (\<lambda>ca_cert.
    Ok (ca_cert, ca_key)))"

definition persist_ca_files :: "ca_lib \<Rightarrow> ca_fs \<Rightarrow> disk \<Rightarrow> ca_files_config \<Rightarrow> bytes \<Rightarrow> bytes \<Rightarrow> disk \<times> (mitm_error + unit)" where
  "persist_ca_files L env d cfg ca_cert ca_key =
    (case cf_mkdir_cert env of Some e \<Rightarrow> (d, Err (CaIo e)) | None \<Rightarrow>
    (case cf_mkdir_key env of Some e \<Rightarrow> (d, Err (CaIo e)) | None \<Rightarrow>
    (case cf_write_cert env of Some (e, left) \<Rightarrow> (d(ca_cert_path cfg := left), Err (CaIo e)) | None \<Rightarrow>
      let d = d(ca_cert_path cfg \<mapsto> cert_to_pem L ca_cert) in
    (case cf_write_key env of Some (e, left) \<Rightarrow> (d(ca_key_path cfg := left), Err (CaIo e)) | None \<Rightarrow>
      (d(ca_key_path cfg \<mapsto> kp_to_pem L ca_key), Ok ())))))"

definition load_or_create_ca :: "ca_lib \<Rightarrow> ca_fs \<Rightarrow> disk \<Rightarrow> ca_files_config \<Rightarrow>
    disk \<times> (mitm_error + (bytes \<times> bytes \<times> bytes \<times> ca_init_mode))" where
  "load_or_create_ca L env d cfg =
    (let cert_exists = (d (ca_cert_path cfg) \<noteq> None); key_exists = (d (ca_key_path cfg) \<noteq> None) in
     if cert_exists \<and> key_exists then
        (d, and_then (map_err CaIo (read_to_string (cf_read_cert env) d (ca_cert_path cfg))) (\<lambda>cert_pem.
            and_then (map_err CaIo (read_to_string (cf_read_key env) d (ca_key_path cfg))) (\<lambda>key_pem.
            if \<not> str_contains cert_pem ''BEGIN CERTIFICATE'' then Err (CaConfig ''CA cert file does not look like PEM'')
            else and_then (map_err CaConfig (kp_from_pem L key_pem)) (\<lambda>ca_key.
            and_then (map_err CaConfig (self_sign L ca_key)) (\<lambda>ca_cert.
            Ok (ca_cert, ca_key, cert_pem, LoadedFromFiles))))))
     else if \<not> cert_exists \<and> \<not> key_exists then
       (if \<not> generate_if_missing cfg then (d, Err (CaConfig ''CA files missing and auto-generation disabled''))
        else (case generate_root_ca L of Inl e \<Rightarrow> (d, Err e)
          | Inr (ca_cert, ca_key) \<Rightarrow>
             (case persist_ca_files L env d cfg ca_cert ca_key of
                (d, Inl e) \<Rightarrow> (d, Err e)
              | (d, Inr _) \<Rightarrow> (d, Ok (ca_cert, ca_key, cert_to_pem L ca_cert, GeneratedAndPersisted)))))
     else (d, Err (CaConfig ''Partial CA file state detected (both cert and key are required)'')))"

definition export_ca_cert_pem :: "io_error option \<Rightarrow> (io_error \<times> bytes option) option \<Rightarrow> disk \<Rightarrow> bytes \<Rightarrow> path \<Rightarrow> disk \<times> (mitm_error + unit)" where
  "export_ca_cert_pem mkdir write d pem path =
    (case mkdir of Some e \<Rightarrow> (d, Err (CaIo e)) | None \<Rightarrow>
    (case write of Some (e, left) \<Rightarrow> (d(path := left), Err (CaIo e)) | None \<Rightarrow> (d(path \<mapsto> pem), Ok ())))"

section \<open>Leaf certificates\<close>

record leaf_cert =
  lf_subject :: bytes
  lf_der :: bytes
  lf_serial :: "bytes option"

record server_config =
  sc_leaf :: leaf_cert
  sc_alpn :: "bytes list"

record cert_log_entry =
  cl_ts :: u64
  cl_host :: bytes
  cl_serial_hex :: bytes
  cl_fingerprint :: bytes

text \<open>\<open>me_log\<close> is \<open>None\<close> when no log is configured.\<close>

record mitm_engine =
  me_cache :: "bytes \<rightharpoonup> server_config"
  me_cache_poisoned :: bool
  me_log :: "cert_log_entry list option"
  me_log_poisoned :: bool

definition mitm_engine_new :: "bool \<Rightarrow> mitm_engine" where
  "mitm_engine_new logging = \<lparr>me_cache = Map.empty, me_cache_poisoned = False,
     me_log = (if logging then Some [] else None), me_log_poisoned = False\<rparr>"

text \<open>What the outside gives to one certificate request: the clock, whether the log file takes a line,
  the digest, the issued leaf for a host name, and whether the TLS library takes the leaf.\<close>

record leaf_env =
  le_now :: u64
  le_log_ok :: bool
  le_sha256 :: "bytes \<Rightarrow> bytes"
  le_issue :: "bytes \<Rightarrow> string + leaf_cert"
  le_accept :: "leaf_cert \<Rightarrow> string + unit"

definition cert_log_record :: "leaf_env \<Rightarrow> bytes \<Rightarrow> bytes \<Rightarrow> bytes \<Rightarrow> mitm_engine \<Rightarrow> mitm_engine" where
  "cert_log_record env host serial_hex fingerprint s =
    (if me_log_poisoned s \<or> \<not> le_log_ok env then s
     else s\<lparr>me_log := map_option (\<lambda>l. l @ [\<lparr>cl_ts = le_now env, cl_host = host, cl_serial_hex = serial_hex, cl_fingerprint = fingerprint\<rparr>]) (me_log s)\<rparr>)"

definition cache_key :: "bytes \<Rightarrow> bool \<Rightarrow> bytes" where
  "cache_key normalized_host force_http1 = (if force_http1 then normalized_host @ ''|h1'' else normalized_host @ ''|h2h1'')"

definition alpn_for :: "bool \<Rightarrow> bytes list" where
  "alpn_for force_http1 = (if force_http1 then [''http/1.1''] else [''h2'', ''http/1.1''])"

definition leaf_fingerprint :: "(bytes \<Rightarrow> bytes) \<Rightarrow> leaf_cert \<Rightarrow> bytes" where
  "leaf_fingerprint sha256 leaf = join '':'' (map hex2 (sha256 (lf_der leaf)))"

definition server_config_for_host :: "leaf_env \<Rightarrow> bytes \<Rightarrow> bool \<Rightarrow> mitm_engine \<Rightarrow> (mitm_error + server_config) \<times> mitm_engine" where
  "server_config_for_host env target_host force_http1 s =
    (let normalized_host = to_ascii_lowercase (trim target_host) in
     if normalized_host = [] then (Err (CertGeneration ''empty target host''), s)
     else let key = cache_key normalized_host force_http1 in
     case (if me_cache_poisoned s then None else me_cache s key) of
       Some cfg \<Rightarrow> (Ok cfg, s)
     | None \<Rightarrow>
        (case le_issue env normalized_host of Inl e \<Rightarrow> (Err (CertGeneration e), s)
         | Inr leaf \<Rightarrow>
            let s = cert_log_record env normalized_host (case lf_serial leaf of Some n \<Rightarrow> n | None \<Rightarrow> ''auto'') (leaf_fingerprint (le_sha256 env) leaf) s
            in (case le_accept env leaf of Inl e \<Rightarrow> (Err (CertGeneration e), s)
                | Inr _ \<Rightarrow>
                   let cfg = \<lparr>sc_leaf = leaf, sc_alpn = alpn_for force_http1\<rparr>
                   in (Ok cfg, if me_cache_poisoned s then s else s\<lparr>me_cache := (me_cache s)(key \<mapsto> cfg)\<rparr>))))"

section \<open>Interception\<close>

datatype relay_kind = PolicyRelay | CopyRelay

text \<open>What happens to the client connection, in order.\<close>

datatype client_action = AcceptTls server_config | RunRelay relay_kind

record ('v) tunnel_env =
  te_json :: "'v json_api"
  te_connect :: "io_error option"
  te_server_name_ok :: bool
  te_upstream_tls :: "string + (bytes option \<times> bytes option)"
  te_fs :: fs_outcome
  te_leaf :: leaf_env
  te_client_tls :: "string + bytes option"
  te_relay :: "relay_kind \<Rightarrow> tally \<Rightarrow> unit io_result \<times> tally"

record mitm_world =
  mw_tally :: tally
  mw_disk :: disk
  mw_engine :: mitm_engine
  mw_pins :: "cert_pin_db option"

definition force_http1 :: "policy_engine \<Rightarrow> bytes \<Rightarrow> bytes option \<Rightarrow> bool" where
  "force_http1 e host source_ip =
    (let plan = plan_for_host_with_source_ip e host source_ip; body_plan = plan_for_body_rewrite e host;
         manual_rewrite_active = (strip_tracking_pixels body_plan \<or> manual_script_patterns body_plan \<noteq> [] \<or> manual_remove_selectors body_plan \<noteq> [])
     in sp_enable_http1_set_cookie_filter plan \<or> manual_rewrite_active)"

definition pin_check :: "'v tunnel_env \<Rightarrow> bytes \<Rightarrow> bytes option \<Rightarrow> mitm_world \<Rightarrow> mitm_world" where
  "pin_check env host leaf w =
    (case (mw_pins w, leaf) of
       (Some db, Some der) \<Rightarrow>
        let fingerprint = cert_der_fingerprint (le_sha256 (te_leaf env)) der;
            (d, db, r) = check_and_update (te_json env) (te_fs env) (mw_disk w) db (le_now (te_leaf env)) host fingerprint;
            w = w\<lparr>mw_disk := d, mw_pins := Some db\<rparr>
        in (case r of
              Inr (Mismatch expected got) \<Rightarrow>
                w\<lparr>mw_tally := tick inc_cert_pin_violation_total (record_cert_pin_violation (le_now (te_leaf env)) host) (mw_tally w)\<rparr>
            | _ \<Rightarrow> w)
     | _ \<Rightarrow> w)"

definition is_http1 :: "bytes option \<Rightarrow> bool" where
  "is_http1 alpn \<longleftrightarrow> alpn = None \<or> alpn = Some ''http/1.1''"

definition intercept_tls_tunnel :: "'v tunnel_env \<Rightarrow> policy_engine \<Rightarrow> bytes \<Rightarrow> bytes option \<Rightarrow> mitm_world \<Rightarrow>
    (mitm_error + unit) \<times> client_action list \<times> mitm_world" where
  "intercept_tls_tunnel env e host source_ip w =
    (let body_plan = plan_for_body_rewrite e host; force = force_http1 e host source_ip in
     case te_connect env of Some err \<Rightarrow> (Err (UpstreamConnect err), [], w)
     | None \<Rightarrow>
     if \<not> te_server_name_ok env then (Err (InvalidServerName host), [], w)
     else case te_upstream_tls env of Inl msg \<Rightarrow> (Err (UpstreamTlsHandshake msg), [], w)
     | Inr (leaf, upstream_alpn) \<Rightarrow>
        let w = pin_check env host leaf w;
            (cfg, s) = server_config_for_host (te_leaf env) host force (mw_engine w);
            w = w\<lparr>mw_engine := s\<rparr>
        in (case cfg of Inl err \<Rightarrow> (Err err, [], w)
            | Inr cfg \<Rightarrow>
               (case te_client_tls env of Inl msg \<Rightarrow> (Err (ClientTlsHandshake msg), [AcceptTls cfg], w)
                | Inr client_alpn \<Rightarrow>
                   let kind = (if force then PolicyRelay
                         else if is_http1 client_alpn \<and> is_http1 upstream_alpn \<and> should_rewrite body_plan then PolicyRelay else CopyRelay);
                       (r, t) = te_relay env kind (mw_tally w)
                   in (map_err RelayError r, [AcceptTls cfg, RunRelay kind], w\<lparr>mw_tally := t\<rparr>))))"

section \<open>Cached certificates\<close>

lemma cache_key_inj: "cache_key h f = cache_key h' f' \<Longrightarrow> h = h' \<and> f = f'"
  by (auto simp: cache_key_def split: if_splits dest: arg_cong [where f = rev])

definition cache_ok :: "mitm_engine \<Rightarrow> bool" where
  "cache_ok s \<longleftrightarrow> (\<forall>h f cfg. me_cache s (cache_key h f) = Some cfg \<longrightarrow> lf_subject (sc_leaf cfg) = h \<and> sc_alpn cfg = alpn_for f)"

text \<open>The issuer names the certificate after the host it is asked for.\<close>

definition issues_for_host :: "leaf_env \<Rightarrow> bool" where
  "issues_for_host env \<longleftrightarrow> (\<forall>h leaf. le_issue env h = Ok leaf \<longrightarrow> lf_subject leaf = h)"

lemma cert_log_record_cache [simp]:
  "me_cache (cert_log_record env h n fp s) = me_cache s" "me_cache_poisoned (cert_log_record env h n fp s) = me_cache_poisoned s"
  by (simp_all add: cert_log_record_def)

lemma server_config_cases:
  assumes "server_config_for_host env host f s = (r, s')" and "n = to_ascii_lowercase (trim host)"
  obtains (rejected) e where "r = Err e" "me_cache s' = me_cache s" "me_cache_poisoned s' = me_cache_poisoned s"
  | (hit) cfg where "r = Ok cfg" "s' = s" "\<not> me_cache_poisoned s" "me_cache s (cache_key n f) = Some cfg"
  | (fresh) leaf where "le_issue env n = Ok leaf" "r = Ok \<lparr>sc_leaf = leaf, sc_alpn = alpn_for f\<rparr>"
      "me_cache_poisoned s \<or> me_cache s (cache_key n f) = None"
      "me_cache s' = (if me_cache_poisoned s then me_cache s else (me_cache s)(cache_key n f \<mapsto> \<lparr>sc_leaf = leaf, sc_alpn = alpn_for f\<rparr>))"
      "me_cache_poisoned s' = me_cache_poisoned s"
proof -
  note a = assms(1) [unfolded server_config_for_host_def Let_def, folded assms(2)]
  show ?thesis
  proof (cases "if me_cache_poisoned s then None else me_cache s (cache_key n f)")
    case (Some cfg)
    show ?thesis
      by (cases "n = []") (use a Some in \<open>auto simp only: Some if_True if_False option.case prod.inject split: if_splits intro: rejected hit\<close>)
  next
    case None
    then have none: "me_cache_poisoned s \<or> me_cache s (cache_key n f) = None" by (auto split: if_splits)
    show ?thesis
    proof (cases "n = []")
      case True
      with a show ?thesis by (auto intro: rejected)
    next
      case False
      show ?thesis
      proof (cases "le_issue env n")
        case (Inl e)
        from a have "r = Err (CertGeneration e)" "s' = s" by (simp_all only: False None Inl if_False option.case sum.case prod.inject)
        then show ?thesis by (auto intro: rejected)
      next
        case (Inr leaf)
        note b = a [unfolded None option.case Inr sum.case, simplified False if_False]
        show ?thesis
        proof (cases "le_accept env leaf")
          case (Inl e)
          with b False show ?thesis by (auto intro: rejected)
        next
          case acc: (Inr u)
          from b False acc have r: "r = Ok \<lparr>sc_leaf = leaf, sc_alpn = alpn_for f\<rparr>" by (simp split: if_splits)
          show ?thesis by (rule fresh [OF Inr r none]) (use b False acc in \<open>auto split: if_splits\<close>)
        qed
      qed
    qed
  qed
qed

lemma server_config_ok:
  assumes "server_config_for_host env host f s = (r, s')" "n = to_ascii_lowercase (trim host)" "cache_ok s" "issues_for_host env"
  shows "cache_ok s' \<and> (\<forall>cfg. r = Ok cfg \<longrightarrow> lf_subject (sc_leaf cfg) = n \<and> sc_alpn cfg = alpn_for f)"
  using assms(1,2)
proof (cases rule: server_config_cases)
  case (fresh leaf)
  then have "lf_subject leaf = n" using assms(4) by (auto simp: issues_for_host_def)
  with fresh assms(3) show ?thesis by (auto simp: cache_ok_def dest: cache_key_inj split: if_splits)
qed (use assms(3) in \<open>auto simp: cache_ok_def\<close>)

text \<open>A run of certificate requests: their results in order and the engine after them.\<close>

fun serve_all :: "(leaf_env \<times> bytes \<times> bool) list \<Rightarrow> mitm_engine \<Rightarrow> ((bytes \<times> bool) \<times> (mitm_error + server_config)) list" where
  "serve_all [] s = []"
| "serve_all ((env, host, f) # reqs) s =
    (let (r, s) = server_config_for_host env host f s in ((to_ascii_lowercase (trim host), f), r) # serve_all reqs s)"

lemma serve_all_ok:
  assumes "cache_ok s" "\<forall>(env, host, f) \<in> set reqs. issues_for_host env" "((h, f), Ok cfg) \<in> set (serve_all reqs s)"
  shows "lf_subject (sc_leaf cfg) = h \<and> sc_alpn cfg = alpn_for f"
  using assms
proof (induction reqs arbitrary: s)
  case (Cons req reqs)
  obtain env host f' where req: "req = (env, host, f')" by (cases req)
  obtain r s' where r: "server_config_for_host env host f' s = (r, s')" by fastforce
  note ok = server_config_ok [OF r refl Cons.prems(1)]
  show ?case using Cons.IH [of s'] Cons.prems ok by (auto simp: req r)
qed simp

lemma serve_all_cached:
  assumes "\<not> me_cache_poisoned s" "me_cache s (cache_key h f) = Some cfg" "((h, f), Ok cfg') \<in> set (serve_all reqs s)"
  shows "cfg' = cfg"
  using assms
proof (induction reqs arbitrary: s)
  case (Cons req reqs)
  obtain env host f' where req: "req = (env, host, f')" by (cases req)
  obtain r s' where r: "server_config_for_host env host f' s = (r, s')" by fastforce
  let ?n = "to_ascii_lowercase (trim host)"
  from r refl have "\<not> me_cache_poisoned s' \<and> me_cache s' (cache_key h f) = Some cfg \<and> (h = ?n \<and> f = f' \<longrightarrow> (\<forall>c. r = Ok c \<longrightarrow> c = cfg))"
  proof (cases rule: server_config_cases)
    case (fresh leaf)
    then have "cache_key h f \<noteq> cache_key ?n f'" using Cons.prems(1,2) by auto
    with fresh Cons.prems(1,2) show ?thesis by auto
  qed (use Cons.prems(1,2) in auto)
  with Cons.IH [of s'] Cons.prems(3) show ?case by (auto simp: req r)
qed simp

lemma serve_all_same:
  assumes "\<not> me_cache_poisoned s" "i < j" "j < length reqs"
    "serve_all reqs s ! i = ((h, f), Ok a)" "serve_all reqs s ! j = ((h, f), Ok b)"
  shows "a = b"
  using assms
proof (induction reqs arbitrary: s i j)
  case (Cons req reqs)
  have len: "length (serve_all rs s) = length rs" for rs s
    by (induction rs arbitrary: s) (auto simp: case_prod_unfold Let_def)
  obtain env host f' where req: "req = (env, host, f')" by (cases req)
  obtain r s' where r: "server_config_for_host env host f' s = (r, s')" by fastforce
  from r refl have s': "\<not> me_cache_poisoned s' \<and> (\<forall>c. r = Ok c \<longrightarrow> me_cache s' (cache_key (to_ascii_lowercase (trim host)) f') = Some c)"
    by (cases rule: server_config_cases) (use Cons.prems(1) in auto)
  obtain j' where j: "j = Suc j'" using Cons.prems(2) by (cases j) auto
  have b: "((h, f), Ok b) \<in> set (serve_all reqs s')"
    using Cons.prems(3,5) nth_mem [of j' "serve_all reqs s'"] by (simp add: req r j len)
  show ?case
  proof (cases i)
    case 0
    with Cons.prems(4) have "r = Ok a" "h = to_ascii_lowercase (trim host)" "f = f'" by (auto simp: req r)
    with s' serve_all_cached [of s' h f a b reqs] b show ?thesis by simp
  next
    case (Suc i')
    with Cons.IH [of s' i' j'] Cons.prems s' show ?thesis by (simp add: req r j)
  qed
qed simp

text \<open>No client is ever served a certificate for another host. In every run of certificate requests,
  with an issuer that names each certificate after the host it is asked for, a served configuration
  carries a certificate for the requested host in lower case and the protocols of the request; and
  two requests for one host and protocol set get the same certificate, however many requests for
  other hosts come between them.\<close>
theorem served_certificates_match:
  assumes "\<forall>(env, host, f) \<in> set reqs. issues_for_host env"
    and "serve_all reqs (mitm_engine_new logging) ! j = ((h, f), Ok cfg)" "j < length (serve_all reqs (mitm_engine_new logging))"
  shows "lf_subject (sc_leaf cfg) = h \<and> sc_alpn cfg = (if f then [''http/1.1''] else [''h2'', ''http/1.1'']) \<and>
    (\<forall>i<j. \<forall>cfg'. serve_all reqs (mitm_engine_new logging) ! i = ((h, f), Ok cfg') \<longrightarrow> cfg' = cfg)"
proof -
  have s: "cache_ok (mitm_engine_new logging)" "\<not> me_cache_poisoned (mitm_engine_new logging)"
    by (simp_all add: cache_ok_def mitm_engine_new_def)
  have len: "length (serve_all rs s) = length rs" for rs s
    by (induction rs arbitrary: s) (auto simp: case_prod_unfold Let_def)
  have "((h, f), Ok cfg) \<in> set (serve_all reqs (mitm_engine_new logging))" using assms(2,3) nth_mem by metis
  from serve_all_ok [OF s(1) assms(1) this] have "lf_subject (sc_leaf cfg) = h" "sc_alpn cfg = alpn_for f" by simp_all
  moreover have "cfg' = cfg" if "i < j" "serve_all reqs (mitm_engine_new logging) ! i = ((h, f), Ok cfg')" for i cfg'
    using serve_all_same [OF s(2) that(1) _ that(2) assms(2)] assms(3) len by simp
  ultimately show ?thesis unfolding alpn_for_def by blast
qed

section \<open>The certificate authority across restarts\<close>

text \<open>What is relied on of the crate: a generated key survives its PEM form, and PEM texts are text with their marker.\<close>

definition ca_lib_laws :: "ca_lib \<Rightarrow> bool" where
  "ca_lib_laws L \<longleftrightarrow> (\<forall>k. kp_generate L = Ok k \<longrightarrow> kp_from_pem L (kp_to_pem L k) = Ok k \<and> utf8_valid (kp_to_pem L k)) \<and>
     (\<forall>c. str_contains (cert_to_pem L c) ''BEGIN CERTIFICATE'' \<and> utf8_valid (cert_to_pem L c))"

lemma persist_ca_files_Ok:
  assumes "persist_ca_files L env d cfg c k = (d', Ok u)"
  shows "d' = d(ca_cert_path cfg \<mapsto> cert_to_pem L c, ca_key_path cfg \<mapsto> kp_to_pem L k)"
  using assms by (auto simp: persist_ca_files_def Let_def split: option.splits)

lemma created_ca:
  assumes "load_or_create_ca L env d cfg = (d', Ok (c, k, pem, GeneratedAndPersisted))"
  shows "d' = d(ca_cert_path cfg \<mapsto> pem, ca_key_path cfg \<mapsto> kp_to_pem L k) \<and> pem = cert_to_pem L c \<and>
    d (ca_cert_path cfg) = None \<and> d (ca_key_path cfg) = None \<and> kp_generate L = Ok k"
proof -
  let ?loaded = "d (ca_cert_path cfg) \<noteq> None \<and> d (ca_key_path cfg) \<noteq> None"
  have "\<not> ?loaded" using assms by (auto simp: load_or_create_ca_def Let_def and_then_Inr_iff split: if_splits)
  then show ?thesis
    using assms persist_ca_files_Ok [of L env d cfg c k d' "()"]
    by (auto simp: load_or_create_ca_def generate_root_ca_def and_then_def map_err_def Let_def split: if_splits sum.splits prod.splits)
qed

text \<open>C29: the authority survives a restart: when a first start generates and persists it, a later start that
  can read both files has the same key and exports the same certificate text, so that clients who
  trust the exported certificate go on trusting; and a start never replaces files that exist.\<close>
theorem ca_survives_restart:
  assumes "ca_lib_laws L" "ca_cert_path cfg \<noteq> ca_key_path cfg"
    and "load_or_create_ca L env d cfg = (d', Ok (c, k, pem, GeneratedAndPersisted))"
    and "cf_read_cert env' = None" "cf_read_key env' = None" "self_sign L' k = Ok c'" "kp_from_pem L' = kp_from_pem L"
  shows "load_or_create_ca L' env' d' cfg = (d', Ok (c', k, pem, LoadedFromFiles)) \<and>
    d (ca_cert_path cfg) = None \<and> d (ca_key_path cfg) = None"
proof -
  note c = created_ca [OF assms(3)]
  have "load_or_create_ca L' env' d' cfg = (d', Ok (c', k, pem, LoadedFromFiles))"
    using assms c by (simp add: load_or_create_ca_def read_to_string_def ca_lib_laws_def)
  with c show ?thesis by simp
qed

text \<open>A first start whose key file cannot be written leaves the certificate file behind, and every later
  start fails: the two files are not written together.\<close>

lemma half_written_ca_stuck:
  assumes "cf_mkdir_cert env = None" "cf_mkdir_key env = None" "cf_write_cert env = None" "cf_write_key env = Some (e, None)"
    "ca_cert_path cfg \<noteq> ca_key_path cfg" "generate_root_ca L = Ok (c, k)" "d (ca_cert_path cfg) = None" "d (ca_key_path cfg) = None" "generate_if_missing cfg"
  shows "snd (load_or_create_ca L env d cfg) = Err (CaIo e) \<and>
    (\<exists>m. load_or_create_ca L' env' (fst (load_or_create_ca L env d cfg)) cfg = (fst (load_or_create_ca L env d cfg), Err (CaConfig m)))"
proof -
  have "load_or_create_ca L env d cfg = (d(ca_cert_path cfg \<mapsto> cert_to_pem L c, ca_key_path cfg := None), Err (CaIo e))"
    using assms by (simp add: load_or_create_ca_def persist_ca_files_def Let_def)
  then show ?thesis using assms(5) by (simp add: load_or_create_ca_def)
qed

text \<open>The certificate file of a loaded authority is only searched for a marker: it may belong to another
  key than the one that signs, and is exported all the same.\<close>

lemma loaded_ca_not_checked:
  assumes "d (ca_cert_path cfg) = Some pem" "d (ca_key_path cfg) = Some key_pem" "utf8_valid pem" "utf8_valid key_pem"
    "str_contains pem ''BEGIN CERTIFICATE''" "kp_from_pem L key_pem = Ok k" "self_sign L k = Ok c" "cf_read_cert env = None" "cf_read_key env = None"
  shows "load_or_create_ca L env d cfg = (d, Ok (c, k, pem, LoadedFromFiles))"
  using assms by (simp add: load_or_create_ca_def read_to_string_def)

section \<open>What interception does to the client\<close>

lemma intercept_upstream_failure:
  assumes "intercept_tls_tunnel env e host ip w = (Err err, acts, w')"
    "is_upstream_tls_handshake_failure err \<or> (\<exists>x. err = UpstreamConnect x) \<or> (\<exists>x. err = InvalidServerName x)"
  shows "acts = [] \<and> w' = w"
proof -
  have c: "\<exists>m. x = CertGeneration m" if "server_config_for_host (te_leaf env) host f s = (Err x, s')" for f s x s'
    using that by (auto simp: server_config_for_host_def Let_def split: if_splits option.splits sum.splits)
  show ?thesis
    using assms c unfolding intercept_tls_tunnel_def Let_def
    by (fastforce simp: is_upstream_tls_handshake_failure_def map_err_def split: option.splits if_splits sum.splits prod.splits)
qed

lemma intercept_relay_kind:
  assumes "intercept_tls_tunnel env e host ip w = (r, acts, w')" "RunRelay kind \<in> set acts"
  shows "kind = (if force_http1 e host ip \<or>
      (\<exists>calpn leaf ualpn. te_client_tls env = Ok calpn \<and> te_upstream_tls env = Ok (leaf, ualpn) \<and> is_http1 calpn \<and> is_http1 ualpn \<and>
         should_rewrite (plan_for_body_rewrite e host)) then PolicyRelay else CopyRelay)"
  using assms unfolding intercept_tls_tunnel_def Let_def
  by (auto split: option.splits if_splits sum.splits prod.splits)

section \<open>Witnesses\<close>

definition wit_leaf_env :: leaf_env where
  "wit_leaf_env = \<lparr>le_now = 1, le_log_ok = True, le_sha256 = \<lambda>b. b, le_issue = \<lambda>h. Ok \<lparr>lf_subject = h, lf_der = h, lf_serial = None\<rparr>, le_accept = \<lambda>l. Ok ()\<rparr>"

theorem served_certificates_match_witness:
  "map (\<lambda>(q, r). map_err (\<lambda>e. ()) r) (serve_all [(wit_leaf_env, ''A.example'', True), (wit_leaf_env, ''a.example '', True)] (mitm_engine_new True)) =
    replicate 2 (Ok \<lparr>sc_leaf = \<lparr>lf_subject = ''a.example'', lf_der = ''a.example'', lf_serial = None\<rparr>, sc_alpn = [''http/1.1'']\<rparr>)"
proof -
  let ?reqs = "[(wit_leaf_env, ''A.example'', True), (wit_leaf_env, ''a.example '', True)]"
  have h: "to_ascii_lowercase (trim ''A.example'') = ''a.example''" "to_ascii_lowercase (trim ''a.example '') = ''a.example''"
    by code_simp+
  let ?cfg = "\<lparr>sc_leaf = \<lparr>lf_subject = ''a.example'', lf_der = ''a.example'', lf_serial = None\<rparr>, sc_alpn = [''http/1.1'']\<rparr>"
  have "\<forall>(env, host, f) \<in> set ?reqs. issues_for_host env" by (simp add: issues_for_host_def wit_leaf_env_def)
  moreover have s: "serve_all ?reqs (mitm_engine_new True) = [((''a.example'', True), Ok ?cfg), ((''a.example'', True), Ok ?cfg)]"
    by (simp add: server_config_for_host_def h wit_leaf_env_def mitm_engine_new_def cert_log_record_def alpn_for_def cache_key_def Let_def)
  ultimately have "lf_subject (sc_leaf ?cfg) = ''a.example''"
    using served_certificates_match [of ?reqs True 1 "''a.example''" True ?cfg] by (metis One_nat_def length_Cons lessI list.size(3) nth_Cons_0 nth_Cons_Suc)
  then show ?thesis unfolding s by (simp add: numeral_2_eq_2)
qed

definition wit_ca :: ca_lib where
  "wit_ca = \<lparr>kp_generate = Ok ''k'', kp_from_pem = Ok, kp_to_pem = \<lambda>k. k, self_sign = \<lambda>k. Ok k,
     cert_to_pem = \<lambda>c. ''BEGIN CERTIFICATE''\<rparr>"

definition wit_ca_fs :: ca_fs where
  "wit_ca_fs = \<lparr>cf_read_cert = None, cf_read_key = None, cf_mkdir_cert = None, cf_mkdir_key = None, cf_write_cert = None, cf_write_key = None\<rparr>"

definition wit_ca_cfg :: ca_files_config where
  "wit_ca_cfg = \<lparr>ca_cert_path = \<lparr>p_dir = [], p_stem = ''cert'', p_ext = Some ''pem''\<rparr>,
     ca_key_path = \<lparr>p_dir = [], p_stem = ''key'', p_ext = Some ''pem''\<rparr>, generate_if_missing = True\<rparr>"

theorem ca_survives_restart_witness:
  "snd (load_or_create_ca wit_ca wit_ca_fs (fst (load_or_create_ca wit_ca wit_ca_fs Map.empty wit_ca_cfg)) wit_ca_cfg) =
     Ok (''k'', ''k'', ''BEGIN CERTIFICATE'', LoadedFromFiles)"
proof -
  have "utf8_valid ''BEGIN CERTIFICATE''" "str_contains ''BEGIN CERTIFICATE'' ''BEGIN CERTIFICATE''" "utf8_valid ''k''" by code_simp+
  then have L: "ca_lib_laws wit_ca" by (simp add: ca_lib_laws_def wit_ca_def)
  have g: "load_or_create_ca wit_ca wit_ca_fs Map.empty wit_ca_cfg =
      (fst (load_or_create_ca wit_ca wit_ca_fs Map.empty wit_ca_cfg), Ok (''k'', ''k'', ''BEGIN CERTIFICATE'', GeneratedAndPersisted))"
    by (simp add: load_or_create_ca_def generate_root_ca_def persist_ca_files_def wit_ca_def wit_ca_fs_def wit_ca_cfg_def Let_def)
  have "ca_cert_path wit_ca_cfg \<noteq> ca_key_path wit_ca_cfg" by (simp add: wit_ca_cfg_def)
  from ca_survives_restart [OF L this g, of wit_ca_fs wit_ca "''k''"] show ?thesis
    by (simp add: wit_ca_fs_def wit_ca_def)
qed

end
