(* ===== verification/Engine_Config.thy ===== *)
theory Engine_Config
  imports Mitm_Engine
begin

text \<open>
  \<^verbatim>\<open>src/engine_config.rs\<close>, the runtime configuration file, and the part of \<^verbatim>\<open>src/main.rs\<close> that puts
  its values over the command line (\<open>Args\<close>, \<open>apply_engine_config\<close>). The loader reads the keys in
  the order of the source; each read is one setter. A path is the string it is made from.
\<close>

type_synonym u16 = "16 word"

record engine_config =
  ec_listen_host :: bytes
  ec_listen_port :: u16
  ec_pinned_hosts_file :: bytes
  ec_enable_mitm :: bool
  ec_mitm_ca_cert_file :: bytes
  ec_mitm_ca_key_file :: bytes
  ec_mitm_ca_generate_if_missing :: bool
  ec_mitm_ca_export_cert_file :: "bytes option"
  ec_tls_profile :: tls_profile
  ec_metrics_log_interval_secs :: u64
  ec_policy_config_file :: "bytes option"
  ec_policy_mode :: "policy_mode option"
  ec_policy_reload_interval_secs :: u64
  ec_receipts_file :: "bytes option"
  ec_receipts_flush_interval_secs :: u64
  ec_enable_dns_filter :: bool
  ec_dns_listen_host :: bytes
  ec_dns_listen_port :: u16
  ec_dns_upstream :: bytes
  ec_dns_upstream_doh :: "bytes option"
  ec_filter_list_file :: "bytes list"
  ec_filter_list_url :: "bytes list"
  ec_filter_list_cache_dir :: bytes
  ec_filter_list_refresh_secs :: u64
  ec_filter_list_download_timeout_secs :: u64
  ec_dashboard_port :: "u16 option"
  ec_cert_log_file :: "bytes option"
  ec_cert_pin_file :: "bytes option"
  ec_doh_server_port :: "u16 option"
  ec_doh_server_cert_file :: "bytes option"
  ec_doh_server_key_file :: "bytes option"

definition engine_config_default :: engine_config where
  "engine_config_default = \<lparr>ec_listen_host = ''127.0.0.1'',
     ec_listen_port = 8080,
     ec_pinned_hosts_file = ''sni_pinned_hosts.json'',
     ec_enable_mitm = False,
     ec_mitm_ca_cert_file = ''mitm_ca_cert.pem'',
     ec_mitm_ca_key_file = ''mitm_ca_key.pem'',
     ec_mitm_ca_generate_if_missing = True,
     ec_mitm_ca_export_cert_file = None,
     ec_tls_profile = DefaultProfile,
     ec_metrics_log_interval_secs = 30,
     ec_policy_config_file = None,
     ec_policy_mode = None,
     ec_policy_reload_interval_secs = 5,
     ec_receipts_file = None,
     ec_receipts_flush_interval_secs = 30,
     ec_enable_dns_filter = False,
     ec_dns_listen_host = ''127.0.0.1'',
     ec_dns_listen_port = 5353,
     ec_dns_upstream = ''8.8.8.8:53'',
     ec_dns_upstream_doh = None,
     ec_filter_list_file = [],
     ec_filter_list_url = [],
     ec_filter_list_cache_dir = ''filter_list_cache'',
     ec_filter_list_refresh_secs = 86400,
     ec_filter_list_download_timeout_secs = 30,
     ec_dashboard_port = None,
     ec_cert_log_file = None,
     ec_cert_pin_file = None,
     ec_doh_server_port = None,
     ec_doh_server_cert_file = None,
     ec_doh_server_key_file = None\<rparr>"

definition parse_policy_mode_str :: "bytes \<Rightarrow> policy_mode option" where
  "parse_policy_mode_str s =
    (let k = to_ascii_lowercase (trim s) in
     if k = ''disabled'' then Some Disabled
     else if k = ''report_only'' \<or> k = ''report-only'' \<or> k = ''reportonly'' then Some ReportOnly
     else if k = ''enforce'' \<or> k = ''enforced'' then Some Enforce
     else None)"

definition parse_tls_profile_str :: "bytes \<Rightarrow> tls_profile option" where
  "parse_tls_profile_str s =
    (let k = to_ascii_lowercase (trim s) in
     if k = ''default'' then Some DefaultProfile else if k = ''chrome'' then Some ChromeProfile else None)"

section \<open>Typed reads\<close>

definition bad_key :: "bytes \<Rightarrow> bytes \<Rightarrow> io_error" where
  "bad_key key what = IoError InvalidData (''engine config key '' @ in_quotes key @ what)"

definition get_field :: "('v \<Rightarrow> 'a option) \<Rightarrow> bytes \<Rightarrow> (bytes \<times> 'v) list \<Rightarrow> bytes \<Rightarrow> 'a option io_result" where
  "get_field as what obj key =
    (case get obj key of None \<Rightarrow> Ok None
     | Some v \<Rightarrow> and_then (ok_or (as v) (bad_key key what)) (\<lambda>x. Ok (Some x)))"

definition get_string_field :: "'v json_api \<Rightarrow> (bytes \<times> 'v) list \<Rightarrow> bytes \<Rightarrow> bytes option io_result" where
  "get_string_field J = get_field (as_str J) '' must be a string''"

definition get_bool_field :: "'v json_api \<Rightarrow> (bytes \<times> 'v) list \<Rightarrow> bytes \<Rightarrow> bool option io_result" where
  "get_bool_field J = get_field (as_bool J) '' must be a boolean''"

definition get_u64_field :: "'v json_api \<Rightarrow> (bytes \<times> 'v) list \<Rightarrow> bytes \<Rightarrow> u64 option io_result" where
  "get_u64_field J = get_field (as_u64 J) '' must be a number''"

definition get_u16_field :: "'v json_api \<Rightarrow> (bytes \<times> 'v) list \<Rightarrow> bytes \<Rightarrow> u16 option io_result" where
  "get_u16_field J obj key =
    and_then (get_field (as_u64 J) '' must be a number'' obj key) (\<lambda>r.
    case r of None \<Rightarrow> Ok None
    | Some n \<Rightarrow> if n < 65536 then Ok (Some (ucast n)) else Err (bad_key key '' out of range for u16''))"

definition get_path_field :: "'v json_api \<Rightarrow> (bytes \<times> 'v) list \<Rightarrow> bytes \<Rightarrow> bytes option io_result" where
  "get_path_field J obj key = get_string_field J obj key"

fun string_entries :: "'v json_api \<Rightarrow> bytes \<Rightarrow> 'v list \<Rightarrow> bytes list io_result" where
  "string_entries J key [] = Ok []"
| "string_entries J key (entry # arr) =
    and_then (ok_or (as_str J entry) (bad_key key '' array entries must be strings'')) (\<lambda>s.
    and_then (string_entries J key arr) (\<lambda>ss. Ok (s # ss)))"

definition get_string_array_field :: "'v json_api \<Rightarrow> (bytes \<times> 'v) list \<Rightarrow> bytes \<Rightarrow> bytes list option io_result" where
  "get_string_array_field J obj key =
    and_then (get_field (as_array J) '' must be a JSON array'' obj key) (\<lambda>r.
    case r of None \<Rightarrow> Ok None | Some arr \<Rightarrow> and_then (string_entries J key arr) (\<lambda>ss. Ok (Some ss)))"

definition get_path_array_field :: "'v json_api \<Rightarrow> (bytes \<times> 'v) list \<Rightarrow> bytes \<Rightarrow> bytes list option io_result" where
  "get_path_array_field J obj key = get_string_array_field J obj key"

definition get_profile_field :: "'v json_api \<Rightarrow> (bytes \<times> 'v) list \<Rightarrow> bytes \<Rightarrow> tls_profile option io_result" where
  "get_profile_field J obj key =
    and_then (get_string_field J obj key) (\<lambda>r.
    case r of None \<Rightarrow> Ok None
    | Some v \<Rightarrow> and_then (ok_or (parse_tls_profile_str v)
        (IoError InvalidData (''invalid tls_profile '' @ in_quotes v @ '' (expected: default|chrome)''))) (\<lambda>p. Ok (Some p)))"

definition get_mode_field :: "'v json_api \<Rightarrow> (bytes \<times> 'v) list \<Rightarrow> bytes \<Rightarrow> policy_mode option io_result" where
  "get_mode_field J obj key =
    and_then (get_string_field J obj key) (\<lambda>r.
    case r of None \<Rightarrow> Ok None
    | Some v \<Rightarrow> and_then (ok_or (parse_policy_mode_str v)
        (IoError InvalidData (''invalid policy_mode '' @ in_quotes v @ '' (expected: disabled|report_only|enforce)''))) (\<lambda>m. Ok (Some m)))"

section \<open>Loading\<close>

definition engine_allowed_keys :: "bytes list" where
  "engine_allowed_keys = [''meta'',
     ''listen_host'',
     ''listen_port'',
     ''pinned_hosts_file'',
     ''enable_mitm'',
     ''mitm_ca_cert_file'',
     ''mitm_ca_key_file'',
     ''mitm_ca_generate_if_missing'',
     ''mitm_ca_export_cert_file'',
     ''tls_profile'',
     ''metrics_log_interval_secs'',
     ''policy_config_file'',
     ''policy_mode'',
     ''policy_reload_interval_secs'',
     ''receipts_file'',
     ''receipts_flush_interval_secs'',
     ''enable_dns_filter'',
     ''dns_listen_host'',
     ''dns_listen_port'',
     ''dns_upstream'',
     ''dns_upstream_doh'',
     ''filter_list_file'',
     ''filter_list_url'',
     ''filter_list_cache_dir'',
     ''filter_list_refresh_secs'',
     ''filter_list_download_timeout_secs'',
     ''dashboard_port'',
     ''cert_log_file'',
     ''cert_pin_file'',
     ''doh_server_port'',
     ''doh_server_cert_file'',
     ''doh_server_key_file'']"

definition set_field :: "'a option io_result \<Rightarrow> ('a \<Rightarrow> engine_config \<Rightarrow> engine_config) \<Rightarrow> engine_config \<Rightarrow> engine_config io_result" where
  "set_field r upd cfg = and_then r (\<lambda>v. Ok (case v of None \<Rightarrow> cfg | Some x \<Rightarrow> upd x cfg))"

text \<open>A key whose \<open>null\<close> means \<open>None\<close>.\<close>

definition set_nullable :: "'v json_api \<Rightarrow> (bytes \<times> 'v) list \<Rightarrow> bytes \<Rightarrow> 'a option io_result \<Rightarrow>
    ('a option \<Rightarrow> engine_config \<Rightarrow> engine_config) \<Rightarrow> engine_config \<Rightarrow> engine_config io_result" where
  "set_nullable J obj key r upd cfg =
    (case get obj key of None \<Rightarrow> Ok cfg
     | Some v \<Rightarrow> if is_null J v then Ok (upd None cfg) else and_then r (\<lambda>x. Ok (upd x cfg)))"

definition engine_setters :: "'v json_api \<Rightarrow> (bytes \<times> 'v) list \<Rightarrow> (engine_config \<Rightarrow> engine_config io_result) list" where
  "engine_setters J obj =
    [set_field (get_string_field J obj ''listen_host'') (\<lambda>v c. c\<lparr>ec_listen_host := v\<rparr>),
     set_field (get_u16_field J obj ''listen_port'') (\<lambda>v c. c\<lparr>ec_listen_port := v\<rparr>),
     set_field (get_path_field J obj ''pinned_hosts_file'') (\<lambda>v c. c\<lparr>ec_pinned_hosts_file := v\<rparr>),
     set_field (get_bool_field J obj ''enable_mitm'') (\<lambda>v c. c\<lparr>ec_enable_mitm := v\<rparr>),
     set_field (get_path_field J obj ''mitm_ca_cert_file'') (\<lambda>v c. c\<lparr>ec_mitm_ca_cert_file := v\<rparr>),
     set_field (get_path_field J obj ''mitm_ca_key_file'') (\<lambda>v c. c\<lparr>ec_mitm_ca_key_file := v\<rparr>),
     set_field (get_bool_field J obj ''mitm_ca_generate_if_missing'') (\<lambda>v c. c\<lparr>ec_mitm_ca_generate_if_missing := v\<rparr>),
     set_nullable J obj ''mitm_ca_export_cert_file'' (get_path_field J obj ''mitm_ca_export_cert_file'') (\<lambda>v c. c\<lparr>ec_mitm_ca_export_cert_file := v\<rparr>),
     set_field (get_profile_field J obj ''tls_profile'') (\<lambda>v c. c\<lparr>ec_tls_profile := v\<rparr>),
     set_field (get_u64_field J obj ''metrics_log_interval_secs'') (\<lambda>v c. c\<lparr>ec_metrics_log_interval_secs := v\<rparr>),
     set_nullable J obj ''policy_config_file'' (get_path_field J obj ''policy_config_file'') (\<lambda>v c. c\<lparr>ec_policy_config_file := v\<rparr>),
     set_field (get_mode_field J obj ''policy_mode'') (\<lambda>v c. c\<lparr>ec_policy_mode := Some v\<rparr>),
     set_field (get_u64_field J obj ''policy_reload_interval_secs'') (\<lambda>v c. c\<lparr>ec_policy_reload_interval_secs := v\<rparr>),
     set_nullable J obj ''receipts_file'' (get_path_field J obj ''receipts_file'') (\<lambda>v c. c\<lparr>ec_receipts_file := v\<rparr>),
     set_field (get_u64_field J obj ''receipts_flush_interval_secs'') (\<lambda>v c. c\<lparr>ec_receipts_flush_interval_secs := v\<rparr>),
     set_field (get_bool_field J obj ''enable_dns_filter'') (\<lambda>v c. c\<lparr>ec_enable_dns_filter := v\<rparr>),
     set_field (get_string_field J obj ''dns_listen_host'') (\<lambda>v c. c\<lparr>ec_dns_listen_host := v\<rparr>),
     set_field (get_u16_field J obj ''dns_listen_port'') (\<lambda>v c. c\<lparr>ec_dns_listen_port := v\<rparr>),
     set_field (get_string_field J obj ''dns_upstream'') (\<lambda>v c. c\<lparr>ec_dns_upstream := v\<rparr>),
     set_field (get_string_field J obj ''dns_upstream_doh'') (\<lambda>v c. c\<lparr>ec_dns_upstream_doh := Some v\<rparr>),
     set_field (get_path_array_field J obj ''filter_list_file'') (\<lambda>v c. c\<lparr>ec_filter_list_file := v\<rparr>),
     set_field (get_string_array_field J obj ''filter_list_url'') (\<lambda>v c. c\<lparr>ec_filter_list_url := v\<rparr>),
     set_field (get_path_field J obj ''filter_list_cache_dir'') (\<lambda>v c. c\<lparr>ec_filter_list_cache_dir := v\<rparr>),
     set_field (get_u64_field J obj ''filter_list_refresh_secs'') (\<lambda>v c. c\<lparr>ec_filter_list_refresh_secs := v\<rparr>),
     set_field (get_u64_field J obj ''filter_list_download_timeout_secs'') (\<lambda>v c. c\<lparr>ec_filter_list_download_timeout_secs := v\<rparr>),
     set_nullable J obj ''dashboard_port'' (get_u16_field J obj ''dashboard_port'') (\<lambda>v c. c\<lparr>ec_dashboard_port := v\<rparr>),
     set_nullable J obj ''cert_log_file'' (get_path_field J obj ''cert_log_file'') (\<lambda>v c. c\<lparr>ec_cert_log_file := v\<rparr>),
     set_nullable J obj ''cert_pin_file'' (get_path_field J obj ''cert_pin_file'') (\<lambda>v c. c\<lparr>ec_cert_pin_file := v\<rparr>),
     set_nullable J obj ''doh_server_port'' (get_u16_field J obj ''doh_server_port'') (\<lambda>v c. c\<lparr>ec_doh_server_port := v\<rparr>),
     set_nullable J obj ''doh_server_cert_file'' (get_path_field J obj ''doh_server_cert_file'') (\<lambda>v c. c\<lparr>ec_doh_server_cert_file := v\<rparr>),
     set_nullable J obj ''doh_server_key_file'' (get_path_field J obj ''doh_server_key_file'') (\<lambda>v c. c\<lparr>ec_doh_server_key_file := v\<rparr>)]"

fun run_setters :: "(engine_config \<Rightarrow> engine_config io_result) list \<Rightarrow> engine_config \<Rightarrow> engine_config io_result" where
  "run_setters [] cfg = Ok cfg"
| "run_setters (s # ss) cfg = and_then (s cfg) (run_setters ss)"

definition engine_config_of_object :: "'v json_api \<Rightarrow> (bytes \<times> 'v) list \<Rightarrow> engine_config io_result" where
  "engine_config_of_object J obj =
    and_then (reject_unknown engine_allowed_keys (\<lambda>k. IoError InvalidData (''unknown engine config key: '' @ in_quotes k)) obj) (\<lambda>_.
    run_setters (engine_setters J obj) engine_config_default)"

definition engine_config_load_from_file :: "'v json_api \<Rightarrow> io_error option \<Rightarrow> disk \<Rightarrow> path \<Rightarrow> engine_config io_result" where
  "engine_config_load_from_file J o_read d path =
    and_then (read_to_string o_read d path) (\<lambda>raw.
    case from_str J raw of Inl e \<Rightarrow> Err (IoError InvalidData (''invalid engine config JSON: '' @ e))
    | Inr parsed \<Rightarrow>
        and_then (ok_or (as_object J parsed) (IoError InvalidData ''engine config must be a JSON object'')) (engine_config_of_object J))"

section \<open>The command line\<close>

datatype compliance_format = TextFormat | HtmlFormat

record args =
  ar_listen_host :: bytes
  ar_listen_port :: u16
  ar_pinned_hosts_file :: bytes
  ar_enable_mitm :: bool
  ar_mitm_ca_cert_file :: bytes
  ar_mitm_ca_key_file :: bytes
  ar_mitm_ca_generate_if_missing :: bool
  ar_mitm_ca_export_cert_file :: "bytes option"
  ar_tls_profile :: tls_profile
  ar_metrics_log_interval_secs :: u64
  ar_policy_config_file :: "bytes option"
  ar_policy_mode :: "policy_mode option"
  ar_policy_reload_interval_secs :: u64
  ar_receipts_file :: "bytes option"
  ar_receipts_flush_interval_secs :: u64
  ar_enable_dns_filter :: bool
  ar_dns_listen_host :: bytes
  ar_dns_listen_port :: u16
  ar_dns_upstream :: bytes
  ar_dns_upstream_doh :: "bytes option"
  ar_filter_list_file :: "bytes list"
  ar_filter_list_url :: "bytes list"
  ar_filter_list_cache_dir :: bytes
  ar_filter_list_refresh_secs :: u64
  ar_filter_list_download_timeout_secs :: u64
  ar_dashboard_port :: "u16 option"
  ar_cert_log_file :: "bytes option"
  ar_cert_pin_file :: "bytes option"
  ar_doh_server_port :: "u16 option"
  ar_doh_server_cert_file :: "bytes option"
  ar_doh_server_key_file :: "bytes option"
  ar_engine_config :: "bytes option"
  ar_dump_receipts :: bool
  ar_dump_compliance :: bool
  ar_compliance_format :: compliance_format
  ar_top_hosts :: "nat option"
  ar_receipt_host :: "bytes option"

definition args_default :: args where
  "args_default = \<lparr>ar_listen_host = ''127.0.0.1'',
     ar_listen_port = 8080,
     ar_pinned_hosts_file = ''sni_pinned_hosts.json'',
     ar_enable_mitm = False,
     ar_mitm_ca_cert_file = ''mitm_ca_cert.pem'',
     ar_mitm_ca_key_file = ''mitm_ca_key.pem'',
     ar_mitm_ca_generate_if_missing = True,
     ar_mitm_ca_export_cert_file = None,
     ar_tls_profile = DefaultProfile,
     ar_metrics_log_interval_secs = 30,
     ar_policy_config_file = None,
     ar_policy_mode = None,
     ar_policy_reload_interval_secs = 5,
     ar_receipts_file = None,
     ar_receipts_flush_interval_secs = 60,
     ar_enable_dns_filter = False,
     ar_dns_listen_host = ''127.0.0.1'',
     ar_dns_listen_port = 5353,
     ar_dns_upstream = ''8.8.8.8:53'',
     ar_dns_upstream_doh = None,
     ar_filter_list_file = [],
     ar_filter_list_url = [],
     ar_filter_list_cache_dir = ''filter_list_cache'',
     ar_filter_list_refresh_secs = 86400,
     ar_filter_list_download_timeout_secs = 30,
     ar_dashboard_port = None,
     ar_cert_log_file = None,
     ar_cert_pin_file = None,
     ar_doh_server_port = None,
     ar_doh_server_cert_file = None,
     ar_doh_server_key_file = None,
     ar_engine_config = None, ar_dump_receipts = False, ar_dump_compliance = False, ar_compliance_format = TextFormat,
     ar_top_hosts = None, ar_receipt_host = None\<rparr>"

definition apply_engine_config :: "args \<Rightarrow> engine_config \<Rightarrow> args" where
  "apply_engine_config a cfg = a\<lparr>ar_listen_host := ec_listen_host cfg,
     ar_listen_port := ec_listen_port cfg,
     ar_pinned_hosts_file := ec_pinned_hosts_file cfg,
     ar_enable_mitm := ec_enable_mitm cfg,
     ar_mitm_ca_cert_file := ec_mitm_ca_cert_file cfg,
     ar_mitm_ca_key_file := ec_mitm_ca_key_file cfg,
     ar_mitm_ca_generate_if_missing := ec_mitm_ca_generate_if_missing cfg,
     ar_mitm_ca_export_cert_file := ec_mitm_ca_export_cert_file cfg,
     ar_tls_profile := ec_tls_profile cfg,
     ar_metrics_log_interval_secs := ec_metrics_log_interval_secs cfg,
     ar_policy_config_file := ec_policy_config_file cfg,
     ar_policy_mode := ec_policy_mode cfg,
     ar_policy_reload_interval_secs := ec_policy_reload_interval_secs cfg,
     ar_receipts_file := ec_receipts_file cfg,
     ar_receipts_flush_interval_secs := ec_receipts_flush_interval_secs cfg,
     ar_enable_dns_filter := ec_enable_dns_filter cfg,
     ar_dns_listen_host := ec_dns_listen_host cfg,
     ar_dns_listen_port := ec_dns_listen_port cfg,
     ar_dns_upstream := ec_dns_upstream cfg,
     ar_dns_upstream_doh := (if ec_dns_upstream_doh cfg \<noteq> None then ec_dns_upstream_doh cfg else ar_dns_upstream_doh a),
     ar_filter_list_file := ec_filter_list_file cfg,
     ar_filter_list_url := ec_filter_list_url cfg,
     ar_filter_list_cache_dir := ec_filter_list_cache_dir cfg,
     ar_filter_list_refresh_secs := ec_filter_list_refresh_secs cfg,
     ar_filter_list_download_timeout_secs := ec_filter_list_download_timeout_secs cfg,
     ar_dashboard_port := ec_dashboard_port cfg,
     ar_cert_log_file := ec_cert_log_file cfg,
     ar_cert_pin_file := ec_cert_pin_file cfg,
     ar_doh_server_port := ec_doh_server_port cfg,
     ar_doh_server_cert_file := ec_doh_server_cert_file cfg,
     ar_doh_server_key_file := ec_doh_server_key_file cfg\<rparr>"

section \<open>What a file determines\<close>

definition reads :: "'a option io_result \<Rightarrow> 'a \<Rightarrow> 'a \<Rightarrow> bool" where
  "reads r d x \<longleftrightarrow> r = Ok None \<and> x = d \<or> r = Ok (Some x)"

definition reads_option :: "'a option io_result \<Rightarrow> 'a option \<Rightarrow> bool" where
  "reads_option r x \<longleftrightarrow> r = Ok x"

definition reads_nullable :: "'v json_api \<Rightarrow> (bytes \<times> 'v) list \<Rightarrow> bytes \<Rightarrow> 'a option io_result \<Rightarrow> 'a option \<Rightarrow> bool" where
  "reads_nullable J obj key r x \<longleftrightarrow>
     (case get obj key of None \<Rightarrow> x = None | Some v \<Rightarrow> if is_null J v then x = None else r = Ok x)"

definition pick :: "'a \<Rightarrow> 'a option \<Rightarrow> 'a" where
  "pick d v = (case v of None \<Rightarrow> d | Some x \<Rightarrow> x)"

definition pick_some :: "'a option \<Rightarrow> 'a option \<Rightarrow> 'a option" where
  "pick_some d v = (case v of None \<Rightarrow> d | Some x \<Rightarrow> Some x)"

definition nullable :: "'v json_api \<Rightarrow> (bytes \<times> 'v) list \<Rightarrow> bytes \<Rightarrow> 'a option io_result \<Rightarrow> 'a option option io_result" where
  "nullable J obj key r =
    (case get obj key of None \<Rightarrow> Ok None | Some v \<Rightarrow> if is_null J v then Ok (Some None) else and_then r (\<lambda>x. Ok (Some x)))"

lemma reads_pick: "reads r d x \<longleftrightarrow> \<not> isl r \<and> pick d (projr r) = x"
  by (cases r) (auto simp: reads_def pick_def split: option.splits)

lemma reads_option_pick: "reads_option r x \<longleftrightarrow> \<not> isl r \<and> pick_some None (projr r) = x"
  by (cases r) (auto simp: reads_option_def pick_some_def split: option.splits)

lemma reads_nullable_pick: "reads_nullable J obj key r x \<longleftrightarrow> \<not> isl (nullable J obj key r) \<and> pick None (projr (nullable J obj key r)) = x"
  by (cases r) (auto simp: reads_nullable_def nullable_def pick_def split: option.splits)

lemmas reads_iff = reads_pick reads_option_pick reads_nullable_pick

lemma set_field_eq:
  "(\<And>v. (case v of None \<Rightarrow> cfg | Some x \<Rightarrow> upd x cfg) = f v) \<Longrightarrow> set_field r upd cfg = and_then r (\<lambda>v. Ok (f v))"
  by (simp add: set_field_def)

lemma set_nullable_eq:
  assumes "\<And>v. (case v of None \<Rightarrow> cfg | Some x \<Rightarrow> upd x cfg) = f v"
  shows "set_nullable J obj key r upd cfg = and_then (nullable J obj key r) (\<lambda>v. Ok (f v))"
proof -
  have "f None = cfg" "\<And>x. f (Some x) = upd x cfg" using assms [of None] assms [of "Some x" for x] by simp_all
  then show ?thesis by (cases r) (simp_all add: set_nullable_def nullable_def split: option.split)
qed

lemma not_isl_reject: "isl (reject_unknown allowed err obj) \<longleftrightarrow> \<not> fst ` set obj \<subseteq> set allowed"
  using reject_unknown_Ok_iff [of allowed err obj] by (cases "reject_unknown allowed err obj") auto

lemma and_then_flat: "and_then (and_then r (\<lambda>v. Ok (f v))) g = and_then r (\<lambda>v. g (f v))"
  by (cases r) simp_all

lemma and_then_projr: "and_then r f = Inr y \<longleftrightarrow> \<not> isl r \<and> f (projr r) = Inr y"
  by (cases r) simp_all

lemma field_setters:
  "set_field r_str (\<lambda>v c. c\<lparr>ec_listen_host := v\<rparr>) cfg = and_then r_str (\<lambda>v. Ok (cfg\<lparr>ec_listen_host := pick (ec_listen_host cfg) v\<rparr>))"
  "set_field r_u16 (\<lambda>v c. c\<lparr>ec_listen_port := v\<rparr>) cfg = and_then r_u16 (\<lambda>v. Ok (cfg\<lparr>ec_listen_port := pick (ec_listen_port cfg) v\<rparr>))"
  "set_field r_path (\<lambda>v c. c\<lparr>ec_pinned_hosts_file := v\<rparr>) cfg = and_then r_path (\<lambda>v. Ok (cfg\<lparr>ec_pinned_hosts_file := pick (ec_pinned_hosts_file cfg) v\<rparr>))"
  "set_field r_bool (\<lambda>v c. c\<lparr>ec_enable_mitm := v\<rparr>) cfg = and_then r_bool (\<lambda>v. Ok (cfg\<lparr>ec_enable_mitm := pick (ec_enable_mitm cfg) v\<rparr>))"
  "set_field r_path (\<lambda>v c. c\<lparr>ec_mitm_ca_cert_file := v\<rparr>) cfg = and_then r_path (\<lambda>v. Ok (cfg\<lparr>ec_mitm_ca_cert_file := pick (ec_mitm_ca_cert_file cfg) v\<rparr>))"
  "set_field r_path (\<lambda>v c. c\<lparr>ec_mitm_ca_key_file := v\<rparr>) cfg = and_then r_path (\<lambda>v. Ok (cfg\<lparr>ec_mitm_ca_key_file := pick (ec_mitm_ca_key_file cfg) v\<rparr>))"
  "set_field r_bool (\<lambda>v c. c\<lparr>ec_mitm_ca_generate_if_missing := v\<rparr>) cfg = and_then r_bool (\<lambda>v. Ok (cfg\<lparr>ec_mitm_ca_generate_if_missing := pick (ec_mitm_ca_generate_if_missing cfg) v\<rparr>))"
  "set_nullable J obj k r_optpath (\<lambda>v c. c\<lparr>ec_mitm_ca_export_cert_file := v\<rparr>) cfg = and_then (nullable J obj k r_optpath) (\<lambda>v. Ok (cfg\<lparr>ec_mitm_ca_export_cert_file := pick (ec_mitm_ca_export_cert_file cfg) v\<rparr>))"
  "set_field r_profile (\<lambda>v c. c\<lparr>ec_tls_profile := v\<rparr>) cfg = and_then r_profile (\<lambda>v. Ok (cfg\<lparr>ec_tls_profile := pick (ec_tls_profile cfg) v\<rparr>))"
  "set_field r_u64 (\<lambda>v c. c\<lparr>ec_metrics_log_interval_secs := v\<rparr>) cfg = and_then r_u64 (\<lambda>v. Ok (cfg\<lparr>ec_metrics_log_interval_secs := pick (ec_metrics_log_interval_secs cfg) v\<rparr>))"
  "set_nullable J obj k r_optpath (\<lambda>v c. c\<lparr>ec_policy_config_file := v\<rparr>) cfg = and_then (nullable J obj k r_optpath) (\<lambda>v. Ok (cfg\<lparr>ec_policy_config_file := pick (ec_policy_config_file cfg) v\<rparr>))"
  "set_field r_mode (\<lambda>v c. c\<lparr>ec_policy_mode := Some v\<rparr>) cfg = and_then r_mode (\<lambda>v. Ok (cfg\<lparr>ec_policy_mode := pick_some (ec_policy_mode cfg) v\<rparr>))"
  "set_field r_u64 (\<lambda>v c. c\<lparr>ec_policy_reload_interval_secs := v\<rparr>) cfg = and_then r_u64 (\<lambda>v. Ok (cfg\<lparr>ec_policy_reload_interval_secs := pick (ec_policy_reload_interval_secs cfg) v\<rparr>))"
  "set_nullable J obj k r_optpath (\<lambda>v c. c\<lparr>ec_receipts_file := v\<rparr>) cfg = and_then (nullable J obj k r_optpath) (\<lambda>v. Ok (cfg\<lparr>ec_receipts_file := pick (ec_receipts_file cfg) v\<rparr>))"
  "set_field r_u64 (\<lambda>v c. c\<lparr>ec_receipts_flush_interval_secs := v\<rparr>) cfg = and_then r_u64 (\<lambda>v. Ok (cfg\<lparr>ec_receipts_flush_interval_secs := pick (ec_receipts_flush_interval_secs cfg) v\<rparr>))"
  "set_field r_bool (\<lambda>v c. c\<lparr>ec_enable_dns_filter := v\<rparr>) cfg = and_then r_bool (\<lambda>v. Ok (cfg\<lparr>ec_enable_dns_filter := pick (ec_enable_dns_filter cfg) v\<rparr>))"
  "set_field r_str (\<lambda>v c. c\<lparr>ec_dns_listen_host := v\<rparr>) cfg = and_then r_str (\<lambda>v. Ok (cfg\<lparr>ec_dns_listen_host := pick (ec_dns_listen_host cfg) v\<rparr>))"
  "set_field r_u16 (\<lambda>v c. c\<lparr>ec_dns_listen_port := v\<rparr>) cfg = and_then r_u16 (\<lambda>v. Ok (cfg\<lparr>ec_dns_listen_port := pick (ec_dns_listen_port cfg) v\<rparr>))"
  "set_field r_str (\<lambda>v c. c\<lparr>ec_dns_upstream := v\<rparr>) cfg = and_then r_str (\<lambda>v. Ok (cfg\<lparr>ec_dns_upstream := pick (ec_dns_upstream cfg) v\<rparr>))"
  "set_field r_optstr (\<lambda>v c. c\<lparr>ec_dns_upstream_doh := Some v\<rparr>) cfg = and_then r_optstr (\<lambda>v. Ok (cfg\<lparr>ec_dns_upstream_doh := pick_some (ec_dns_upstream_doh cfg) v\<rparr>))"
  "set_field r_patharr (\<lambda>v c. c\<lparr>ec_filter_list_file := v\<rparr>) cfg = and_then r_patharr (\<lambda>v. Ok (cfg\<lparr>ec_filter_list_file := pick (ec_filter_list_file cfg) v\<rparr>))"
  "set_field r_strarr (\<lambda>v c. c\<lparr>ec_filter_list_url := v\<rparr>) cfg = and_then r_strarr (\<lambda>v. Ok (cfg\<lparr>ec_filter_list_url := pick (ec_filter_list_url cfg) v\<rparr>))"
  "set_field r_path (\<lambda>v c. c\<lparr>ec_filter_list_cache_dir := v\<rparr>) cfg = and_then r_path (\<lambda>v. Ok (cfg\<lparr>ec_filter_list_cache_dir := pick (ec_filter_list_cache_dir cfg) v\<rparr>))"
  "set_field r_u64 (\<lambda>v c. c\<lparr>ec_filter_list_refresh_secs := v\<rparr>) cfg = and_then r_u64 (\<lambda>v. Ok (cfg\<lparr>ec_filter_list_refresh_secs := pick (ec_filter_list_refresh_secs cfg) v\<rparr>))"
  "set_field r_u64 (\<lambda>v c. c\<lparr>ec_filter_list_download_timeout_secs := v\<rparr>) cfg = and_then r_u64 (\<lambda>v. Ok (cfg\<lparr>ec_filter_list_download_timeout_secs := pick (ec_filter_list_download_timeout_secs cfg) v\<rparr>))"
  "set_nullable J obj k r_optu16 (\<lambda>v c. c\<lparr>ec_dashboard_port := v\<rparr>) cfg = and_then (nullable J obj k r_optu16) (\<lambda>v. Ok (cfg\<lparr>ec_dashboard_port := pick (ec_dashboard_port cfg) v\<rparr>))"
  "set_nullable J obj k r_optpath (\<lambda>v c. c\<lparr>ec_cert_log_file := v\<rparr>) cfg = and_then (nullable J obj k r_optpath) (\<lambda>v. Ok (cfg\<lparr>ec_cert_log_file := pick (ec_cert_log_file cfg) v\<rparr>))"
  "set_nullable J obj k r_optpath (\<lambda>v c. c\<lparr>ec_cert_pin_file := v\<rparr>) cfg = and_then (nullable J obj k r_optpath) (\<lambda>v. Ok (cfg\<lparr>ec_cert_pin_file := pick (ec_cert_pin_file cfg) v\<rparr>))"
  "set_nullable J obj k r_optu16 (\<lambda>v c. c\<lparr>ec_doh_server_port := v\<rparr>) cfg = and_then (nullable J obj k r_optu16) (\<lambda>v. Ok (cfg\<lparr>ec_doh_server_port := pick (ec_doh_server_port cfg) v\<rparr>))"
  "set_nullable J obj k r_optpath (\<lambda>v c. c\<lparr>ec_doh_server_cert_file := v\<rparr>) cfg = and_then (nullable J obj k r_optpath) (\<lambda>v. Ok (cfg\<lparr>ec_doh_server_cert_file := pick (ec_doh_server_cert_file cfg) v\<rparr>))"
  "set_nullable J obj k r_optpath (\<lambda>v c. c\<lparr>ec_doh_server_key_file := v\<rparr>) cfg = and_then (nullable J obj k r_optpath) (\<lambda>v. Ok (cfg\<lparr>ec_doh_server_key_file := pick (ec_doh_server_key_file cfg) v\<rparr>))"
  by ((rule set_field_eq set_nullable_eq), simp add: pick_def pick_some_def split: option.split)+

text \<open>The loader, field by field.\<close>

lemma engine_config_exact:
  "engine_config_of_object J obj = Ok c \<longleftrightarrow>
    fst ` set obj \<subseteq> set engine_allowed_keys \<and>
    reads (get_string_field J obj ''listen_host'') ''127.0.0.1'' (ec_listen_host c) \<and>
    reads (get_u16_field J obj ''listen_port'') 8080 (ec_listen_port c) \<and>
    reads (get_path_field J obj ''pinned_hosts_file'') ''sni_pinned_hosts.json'' (ec_pinned_hosts_file c) \<and>
    reads (get_bool_field J obj ''enable_mitm'') False (ec_enable_mitm c) \<and>
    reads (get_path_field J obj ''mitm_ca_cert_file'') ''mitm_ca_cert.pem'' (ec_mitm_ca_cert_file c) \<and>
    reads (get_path_field J obj ''mitm_ca_key_file'') ''mitm_ca_key.pem'' (ec_mitm_ca_key_file c) \<and>
    reads (get_bool_field J obj ''mitm_ca_generate_if_missing'') True (ec_mitm_ca_generate_if_missing c) \<and>
    reads_nullable J obj ''mitm_ca_export_cert_file'' (get_path_field J obj ''mitm_ca_export_cert_file'') (ec_mitm_ca_export_cert_file c) \<and>
    reads (get_profile_field J obj ''tls_profile'') DefaultProfile (ec_tls_profile c) \<and>
    reads (get_u64_field J obj ''metrics_log_interval_secs'') 30 (ec_metrics_log_interval_secs c) \<and>
    reads_nullable J obj ''policy_config_file'' (get_path_field J obj ''policy_config_file'') (ec_policy_config_file c) \<and>
    reads_option (get_mode_field J obj ''policy_mode'') (ec_policy_mode c) \<and>
    reads (get_u64_field J obj ''policy_reload_interval_secs'') 5 (ec_policy_reload_interval_secs c) \<and>
    reads_nullable J obj ''receipts_file'' (get_path_field J obj ''receipts_file'') (ec_receipts_file c) \<and>
    reads (get_u64_field J obj ''receipts_flush_interval_secs'') 30 (ec_receipts_flush_interval_secs c) \<and>
    reads (get_bool_field J obj ''enable_dns_filter'') False (ec_enable_dns_filter c) \<and>
    reads (get_string_field J obj ''dns_listen_host'') ''127.0.0.1'' (ec_dns_listen_host c) \<and>
    reads (get_u16_field J obj ''dns_listen_port'') 5353 (ec_dns_listen_port c) \<and>
    reads (get_string_field J obj ''dns_upstream'') ''8.8.8.8:53'' (ec_dns_upstream c) \<and>
    reads_option (get_string_field J obj ''dns_upstream_doh'') (ec_dns_upstream_doh c) \<and>
    reads (get_path_array_field J obj ''filter_list_file'') [] (ec_filter_list_file c) \<and>
    reads (get_string_array_field J obj ''filter_list_url'') [] (ec_filter_list_url c) \<and>
    reads (get_path_field J obj ''filter_list_cache_dir'') ''filter_list_cache'' (ec_filter_list_cache_dir c) \<and>
    reads (get_u64_field J obj ''filter_list_refresh_secs'') 86400 (ec_filter_list_refresh_secs c) \<and>
    reads (get_u64_field J obj ''filter_list_download_timeout_secs'') 30 (ec_filter_list_download_timeout_secs c) \<and>
    reads_nullable J obj ''dashboard_port'' (get_u16_field J obj ''dashboard_port'') (ec_dashboard_port c) \<and>
    reads_nullable J obj ''cert_log_file'' (get_path_field J obj ''cert_log_file'') (ec_cert_log_file c) \<and>
    reads_nullable J obj ''cert_pin_file'' (get_path_field J obj ''cert_pin_file'') (ec_cert_pin_file c) \<and>
    reads_nullable J obj ''doh_server_port'' (get_u16_field J obj ''doh_server_port'') (ec_doh_server_port c) \<and>
    reads_nullable J obj ''doh_server_cert_file'' (get_path_field J obj ''doh_server_cert_file'') (ec_doh_server_cert_file c) \<and>
    reads_nullable J obj ''doh_server_key_file'' (get_path_field J obj ''doh_server_key_file'') (ec_doh_server_key_file c)"
  unfolding engine_config_of_object_def engine_setters_def
  by (cases c) (simp add: and_then_flat and_then_projr not_isl_reject field_setters engine_config_default_def reads_iff, intro iffI; elim conjE; intro conjI; assumption)

section \<open>The documented format\<close>

text \<open>The keys of \<^verbatim>\<open>docs/ENGINE_CONFIG.md\<close> and of the source, with the JSON values that each admits.\<close>

fun j_is_text :: "jval \<Rightarrow> bool" where
  "j_is_text (JStr s) = True" | "j_is_text _ = False"

fun j_is_flag :: "jval \<Rightarrow> bool" where
  "j_is_flag (JBool x) = True" | "j_is_flag _ = False"

fun j_is_number :: "jval \<Rightarrow> bool" where
  "j_is_number (JNum n) = True" | "j_is_number _ = False"

fun j_is_port :: "jval \<Rightarrow> bool" where
  "j_is_port (JNum n) = (unat n \<le> 65535)" | "j_is_port _ = False"

fun j_is_texts :: "jval \<Rightarrow> bool" where
  "j_is_texts (JArr vs) = list_all j_is_text vs" | "j_is_texts _ = False"

fun j_is_word :: "bytes list \<Rightarrow> jval \<Rightarrow> bool" where
  "j_is_word ws (JStr s) = (to_ascii_lowercase (trim s) \<in> set ws)" | "j_is_word ws _ = False"

definition or_null :: "(jval \<Rightarrow> bool) \<Rightarrow> jval \<Rightarrow> bool" where
  "or_null ok v \<longleftrightarrow> v = JNull \<or> ok v"

definition config_schema :: "(bytes \<times> (jval \<Rightarrow> bool)) list" where
  "config_schema =
    [(''meta'', \<lambda>_. True),
     (''listen_host'', j_is_text), (''listen_port'', j_is_port), (''pinned_hosts_file'', j_is_text),
     (''enable_mitm'', j_is_flag), (''mitm_ca_cert_file'', j_is_text), (''mitm_ca_key_file'', j_is_text),
     (''mitm_ca_generate_if_missing'', j_is_flag), (''mitm_ca_export_cert_file'', or_null j_is_text), (''tls_profile'', j_is_word [''default'', ''chrome'']),
     (''metrics_log_interval_secs'', j_is_number),
     (''policy_config_file'', or_null j_is_text),
     (''policy_mode'', j_is_word [''disabled'', ''report_only'', ''report-only'', ''reportonly'', ''enforce'', ''enforced'']),
     (''policy_reload_interval_secs'', j_is_number),
     (''receipts_file'', or_null j_is_text), (''receipts_flush_interval_secs'', j_is_number),
     (''enable_dns_filter'', j_is_flag), (''dns_listen_host'', j_is_text), (''dns_listen_port'', j_is_port),
     (''dns_upstream'', j_is_text), (''dns_upstream_doh'', j_is_text),
     (''filter_list_file'', j_is_texts), (''filter_list_url'', j_is_texts), (''filter_list_cache_dir'', j_is_text),
     (''filter_list_refresh_secs'', j_is_number), (''filter_list_download_timeout_secs'', j_is_number),
     (''dashboard_port'', or_null j_is_port), (''cert_log_file'', or_null j_is_text), (''cert_pin_file'', or_null j_is_text),
     (''doh_server_port'', or_null j_is_port), (''doh_server_cert_file'', or_null j_is_text), (''doh_server_key_file'', or_null j_is_text)]"

definition follows_schema :: "(bytes \<times> jval) list \<Rightarrow> bool" where
  "follows_schema obj \<longleftrightarrow> list_all (\<lambda>k. case map_of config_schema k of Some ok \<Rightarrow> ok (the (get obj k)) | None \<Rightarrow> False) (map fst obj)"

text \<open>A configuration as a user writes it: every field under its key; the two keys that have no \<open>null\<close> are left out for \<open>None\<close>.\<close>

fun mode_text :: "policy_mode \<Rightarrow> bytes" where
  "mode_text Disabled = ''disabled''" | "mode_text ReportOnly = ''report_only''" | "mode_text Enforce = ''enforce''"

fun profile_text :: "tls_profile \<Rightarrow> bytes" where
  "profile_text DefaultProfile = ''default''" | "profile_text ChromeProfile = ''chrome''"

definition port_json :: "u16 \<Rightarrow> jval" where
  "port_json n = JNum (ucast n)"

definition opt_json :: "('a \<Rightarrow> jval) \<Rightarrow> 'a option \<Rightarrow> jval" where
  "opt_json f x = (case x of Some y \<Rightarrow> f y | None \<Rightarrow> JNull)"

definition opt_entry :: "bytes \<Rightarrow> ('a \<Rightarrow> jval) \<Rightarrow> 'a option \<Rightarrow> (bytes \<times> jval) list" where
  "opt_entry k f x = (case x of Some y \<Rightarrow> [(k, f y)] | None \<Rightarrow> [])"

definition config_entries :: "engine_config \<Rightarrow> (bytes \<times> jval) list" where
  "config_entries c =
    [(''listen_host'', JStr (ec_listen_host c)), (''listen_port'', port_json (ec_listen_port c)), (''pinned_hosts_file'', JStr (ec_pinned_hosts_file c)),
     (''enable_mitm'', JBool (ec_enable_mitm c)), (''mitm_ca_cert_file'', JStr (ec_mitm_ca_cert_file c)), (''mitm_ca_key_file'', JStr (ec_mitm_ca_key_file c)),
     (''mitm_ca_generate_if_missing'', JBool (ec_mitm_ca_generate_if_missing c)),
     (''mitm_ca_export_cert_file'', opt_json JStr (ec_mitm_ca_export_cert_file c)), (''tls_profile'', JStr (profile_text (ec_tls_profile c))),
     (''metrics_log_interval_secs'', JNum (ec_metrics_log_interval_secs c)), (''policy_config_file'', opt_json JStr (ec_policy_config_file c)),
     (''policy_reload_interval_secs'', JNum (ec_policy_reload_interval_secs c)), (''receipts_file'', opt_json JStr (ec_receipts_file c)),
     (''receipts_flush_interval_secs'', JNum (ec_receipts_flush_interval_secs c)), (''enable_dns_filter'', JBool (ec_enable_dns_filter c)),
     (''dns_listen_host'', JStr (ec_dns_listen_host c)), (''dns_listen_port'', port_json (ec_dns_listen_port c)), (''dns_upstream'', JStr (ec_dns_upstream c)),
     (''filter_list_file'', JArr (map JStr (ec_filter_list_file c))), (''filter_list_url'', JArr (map JStr (ec_filter_list_url c))),
     (''filter_list_cache_dir'', JStr (ec_filter_list_cache_dir c)), (''filter_list_refresh_secs'', JNum (ec_filter_list_refresh_secs c)),
     (''filter_list_download_timeout_secs'', JNum (ec_filter_list_download_timeout_secs c)),
     (''dashboard_port'', opt_json port_json (ec_dashboard_port c)), (''cert_log_file'', opt_json JStr (ec_cert_log_file c)),
     (''cert_pin_file'', opt_json JStr (ec_cert_pin_file c)), (''doh_server_port'', opt_json port_json (ec_doh_server_port c)),
     (''doh_server_cert_file'', opt_json JStr (ec_doh_server_cert_file c)), (''doh_server_key_file'', opt_json JStr (ec_doh_server_key_file c))] @
    opt_entry ''policy_mode'' (\<lambda>m. JStr (mode_text m)) (ec_policy_mode c) @ opt_entry ''dns_upstream_doh'' JStr (ec_dns_upstream_doh c)"

text \<open>Which reads succeed.\<close>

abbreviation entry_ok :: "(bytes \<times> jval) list \<Rightarrow> bytes \<Rightarrow> (jval \<Rightarrow> bool) \<Rightarrow> bool" where
  "entry_ok obj k ok \<equiv> (case get obj k of Some v \<Rightarrow> ok v | None \<Rightarrow> True)"

lemma string_entries_ok: "isl (string_entries (jval_api pa pr) key arr) \<longleftrightarrow> \<not> list_all j_is_text arr"
proof (induction arr)
  case (Cons v arr)
  then show ?case by (cases v; cases "string_entries (jval_api pa pr) key arr") (auto simp: ok_or_def)
qed simp

lemma isl_and_then: "isl (and_then r f) \<longleftrightarrow> isl r \<or> isl (f (projr r))"
  by (cases r) simp_all

lemma word_lt_65536: "n < (65536 :: u64) \<longleftrightarrow> unat n \<le> 65535"
  by (simp add: word_less_nat_alt) arith

text \<open>A typed read fails exactly on a value that is present and of another type.\<close>

lemma get_field_isl: "isl (get_field as what obj k) \<longleftrightarrow> (\<exists>v. get obj k = Some v \<and> as v = None)"
  by (auto simp: get_field_def ok_or_def isl_and_then split: option.split)

lemma get_field_projr: "get obj k = Some v \<Longrightarrow> as v = Some x \<Longrightarrow> get_field as what obj k = Ok (Some x)" "get obj k = None \<Longrightarrow> get_field as what obj k = Ok None"
  by (simp_all add: get_field_def ok_or_def)

lemma j_reads_None: "j_str v = None \<longleftrightarrow> \<not> j_is_text v" "j_bool v = None \<longleftrightarrow> \<not> j_is_flag v" "j_u64 v = None \<longleftrightarrow> \<not> j_is_number v"
  by (cases v; simp)+

lemma simple_reads_succeed:
  "isl (get_string_field (jval_api pa pr) obj k) \<longleftrightarrow> \<not> entry_ok obj k j_is_text"
  "isl (get_path_field (jval_api pa pr) obj k) \<longleftrightarrow> \<not> entry_ok obj k j_is_text"
  "isl (get_bool_field (jval_api pa pr) obj k) \<longleftrightarrow> \<not> entry_ok obj k j_is_flag"
  "isl (get_u64_field (jval_api pa pr) obj k) \<longleftrightarrow> \<not> entry_ok obj k j_is_number"
  by (simp_all add: get_path_field_def get_string_field_def get_bool_field_def get_u64_field_def get_field_isl j_reads_None split: option.split)

lemma port_read_succeeds: "isl (get_u16_field (jval_api pa pr) obj k) \<longleftrightarrow> \<not> entry_ok obj k j_is_port"
proof (cases "get obj k")
  case (Some v)
  then show ?thesis by (cases v) (simp_all add: get_u16_field_def get_field_def ok_or_def word_lt_65536)
qed (simp add: get_u16_field_def get_field_def)

lemma array_reads_succeed:
  "isl (get_string_array_field (jval_api pa pr) obj k) \<longleftrightarrow> \<not> entry_ok obj k j_is_texts"
  "isl (get_path_array_field (jval_api pa pr) obj k) \<longleftrightarrow> \<not> entry_ok obj k j_is_texts"
proof -
  show "isl (get_string_array_field (jval_api pa pr) obj k) \<longleftrightarrow> \<not> entry_ok obj k j_is_texts"
  proof (cases "get obj k")
    case (Some v)
    then show ?thesis by (cases v) (simp_all add: get_string_array_field_def get_field_def ok_or_def isl_and_then string_entries_ok)
  qed (simp add: get_string_array_field_def get_field_def)
  then show "isl (get_path_array_field (jval_api pa pr) obj k) \<longleftrightarrow> \<not> entry_ok obj k j_is_texts" by (simp add: get_path_array_field_def)
qed

lemma word_reads_succeed:
  "isl (get_profile_field (jval_api pa pr) obj k) \<longleftrightarrow> \<not> entry_ok obj k (j_is_word [''default'', ''chrome''])"
  "isl (get_mode_field (jval_api pa pr) obj k) \<longleftrightarrow>
     \<not> entry_ok obj k (j_is_word [''disabled'', ''report_only'', ''report-only'', ''reportonly'', ''enforce'', ''enforced''])"
proof -
  have p: "parse_tls_profile_str s = None \<longleftrightarrow> \<not> j_is_word [''default'', ''chrome''] (JStr s)" for s
    by (simp add: parse_tls_profile_str_def Let_def)
  have m: "parse_policy_mode_str s = None \<longleftrightarrow> \<not> j_is_word [''disabled'', ''report_only'', ''report-only'', ''reportonly'', ''enforce'', ''enforced''] (JStr s)" for s
    by (simp add: parse_policy_mode_str_def Let_def)
  have ok: "isl (ok_or x e) \<longleftrightarrow> x = None" for x :: "'x option" and e :: "'e" by (simp add: ok_or_def split: option.split)
  show "isl (get_profile_field (jval_api pa pr) obj k) \<longleftrightarrow> \<not> entry_ok obj k (j_is_word [''default'', ''chrome''])"
  proof (cases "get obj k")
    case (Some v)
    then show ?thesis
    proof (cases v)
      case (JStr s)
      with Some p [of s] show ?thesis by (simp add: get_profile_field_def get_string_field_def get_field_def isl_and_then ok ok_or_def [of "Some _"] del: j_is_word.simps)
    qed (simp_all add: get_profile_field_def get_string_field_def get_field_def ok_or_def)
  qed (simp add: get_profile_field_def get_string_field_def get_field_def)
  show "isl (get_mode_field (jval_api pa pr) obj k) \<longleftrightarrow>
     \<not> entry_ok obj k (j_is_word [''disabled'', ''report_only'', ''report-only'', ''reportonly'', ''enforce'', ''enforced''])"
  proof (cases "get obj k")
    case (Some v)
    then show ?thesis
    proof (cases v)
      case (JStr s)
      with Some m [of s] show ?thesis by (simp add: get_mode_field_def get_string_field_def get_field_def isl_and_then ok ok_or_def [of "Some _"] del: j_is_word.simps)
    qed (simp_all add: get_mode_field_def get_string_field_def get_field_def ok_or_def)
  qed (simp add: get_mode_field_def get_string_field_def get_field_def)
qed

lemmas reads_succeed = simple_reads_succeed port_read_succeeds array_reads_succeed word_reads_succeed

lemma nullable_succeeds:
  "(isl r \<longleftrightarrow> \<not> entry_ok obj k ok) \<Longrightarrow> isl (nullable (jval_api pa pr) obj k r) \<longleftrightarrow> \<not> entry_ok obj k (or_null ok)"
  by (cases r) (auto simp: nullable_def or_null_def split: option.splits)

lemma follows_schema_iff:
  "follows_schema obj \<longleftrightarrow> fst ` set obj \<subseteq> set (map fst config_schema) \<and> list_all (\<lambda>(k, ok). entry_ok obj k ok) config_schema"
proof -
  have d: "distinct (map fst config_schema)" by (simp add: config_schema_def)
  define fits where "fits k \<longleftrightarrow> (case map_of config_schema k of Some ok \<Rightarrow> ok (the (get obj k)) | None \<Rightarrow> False)" for k
  have fits: "fits k \<longleftrightarrow> entry_ok obj k ok" if "(k, ok) \<in> set config_schema" "k \<in> fst ` set obj" for k ok
  proof -
    from that(2) have "get obj k \<noteq> None" by (simp add: map_of_eq_None_iff)
    then show ?thesis using map_of_is_SomeI [OF d that(1)] by (auto simp: fits_def)
  qed
  have known: "k \<in> set (map fst config_schema)" if "fits k" for k
  proof (rule ccontr)
    assume "k \<notin> set (map fst config_schema)"
    then have "map_of config_schema k = None" by (simp add: map_of_eq_None_iff)
    with that show False by (simp add: fits_def)
  qed
  have absent: "entry_ok obj k ok" if "k \<notin> fst ` set obj" for k ok
  proof -
    from that have "get obj k = None" by (simp add: map_of_eq_None_iff)
    then show ?thesis by simp
  qed
  have "follows_schema obj \<longleftrightarrow> (\<forall>k \<in> fst ` set obj. fits k)" by (simp add: follows_schema_def fits_def list_all_iff)
  also have "... \<longleftrightarrow> fst ` set obj \<subseteq> set (map fst config_schema) \<and> (\<forall>e \<in> set config_schema. entry_ok obj (fst e) (snd e))"
  proof (intro iffI conjI subsetI ballI)
    fix k assume "\<forall>k \<in> fst ` set obj. fits k" "k \<in> fst ` set obj"
    then show "k \<in> set (map fst config_schema)" using known by blast
  next
    fix e assume a: "\<forall>k \<in> fst ` set obj. fits k" "e \<in> set config_schema"
    show "entry_ok obj (fst e) (snd e)"
    proof (cases "fst e \<in> fst ` set obj")
      case True
      with a(1) have "fits (fst e)" by (rule bspec)
      with fits [of "fst e" "snd e"] a(2) True show ?thesis by simp
    qed (rule absent)
  next
    fix k assume a: "fst ` set obj \<subseteq> set (map fst config_schema) \<and> (\<forall>e \<in> set config_schema. entry_ok obj (fst e) (snd e))" and k: "k \<in> fst ` set obj"
    then obtain e where e: "e \<in> set config_schema" "fst e = k" by (auto simp: subset_iff)
    with a have "entry_ok obj k (snd e)" by blast
    with fits [of k "snd e"] e k show "fits k" by (metis prod.collapse)
  qed
  finally show ?thesis unfolding list_all_iff case_prod_beta .
qed

lemma run_setters_succeed:
  assumes "list_all2 (\<lambda>set p. \<forall>cfg. isl (set cfg) \<longleftrightarrow> \<not> p) sets ps"
  shows "isl (run_setters sets cfg) \<longleftrightarrow> \<not> list_all (\<lambda>p. p) ps"
  using assms by (induction arbitrary: cfg rule: list_all2_induct) (auto simp: isl_and_then)

lemma set_field_succeeds: "(isl r \<longleftrightarrow> \<not> p) \<Longrightarrow> \<forall>cfg. isl (set_field r upd cfg) \<longleftrightarrow> \<not> p"
  by (cases r) (simp_all add: set_field_def)

lemma set_nullable_succeeds:
  "(isl r \<longleftrightarrow> \<not> entry_ok obj k ok) \<Longrightarrow> \<forall>cfg. isl (set_nullable (jval_api pa pr) obj k r upd cfg) \<longleftrightarrow> \<not> entry_ok obj k (or_null ok)"
  by (cases r) (auto simp: set_nullable_def or_null_def split: option.splits)

lemmas setters_succeed = reads_succeed [THEN set_field_succeeds] simple_reads_succeed [THEN set_nullable_succeeds] port_read_succeeds [THEN set_nullable_succeeds]

lemma engine_config_accepted: "(\<exists>c. engine_config_of_object (jval_api pa pr) obj = Ok c) \<longleftrightarrow> follows_schema obj"
proof -
  have keys: "set engine_allowed_keys = set (map fst config_schema)"
    unfolding engine_allowed_keys_def config_schema_def by simp
  have "list_all2 (\<lambda>set p. \<forall>cfg. isl (set cfg) \<longleftrightarrow> \<not> p) (engine_setters (jval_api pa pr) obj) (map (\<lambda>(k, ok). entry_ok obj k ok) (tl config_schema))"
    unfolding engine_setters_def config_schema_def list.sel list.map prod.case
    by (intro list_all2_Cons [THEN iffD2] conjI list_all2_Nil [THEN iffD2]) (rule setters_succeed refl)+
  note run = run_setters_succeed [OF this]
  have "\<not> isl (engine_config_of_object (jval_api pa pr) obj) \<longleftrightarrow>
      fst ` set obj \<subseteq> set engine_allowed_keys \<and> list_all (\<lambda>(k, ok). entry_ok obj k ok) (tl config_schema)"
    by (simp only: engine_config_of_object_def isl_and_then not_isl_reject run list.pred_map o_def de_Morgan_disj not_not split_def)
  moreover have "(\<exists>c. r = Ok c) \<longleftrightarrow> \<not> isl r" for r :: "engine_config io_result" by (cases r) simp_all
  moreover have "list_all (\<lambda>(k, ok). entry_ok obj k ok) config_schema \<longleftrightarrow> list_all (\<lambda>(k, ok). entry_ok obj k ok) (tl config_schema)"
  proof -
    have "config_schema = (''meta'', \<lambda>_. True) # tl config_schema" unfolding config_schema_def by (simp only: list.sel)
    moreover have "entry_ok obj ''meta'' (\<lambda>_. True)" by (simp split: option.split)
    ultimately show ?thesis by (metis (no_types, lifting) list.pred_inject(2) old.prod.case)
  qed
  ultimately show ?thesis unfolding follows_schema_iff keys by simp
qed

text \<open>What a written field reads back as.\<close>

lemma port_json_not_null: "port_json n \<noteq> JNull"
  by (simp add: port_json_def)

lemma string_entries_written: "string_entries (jval_api pa pr) key (map JStr ss) = Ok ss"
  by (induction ss) (simp_all add: ok_or_def)

lemma words_written: "parse_policy_mode_str (mode_text m) = Some m" "parse_tls_profile_str (profile_text p) = Some p"
  by (cases m; simp add: parse_policy_mode_str_def; code_simp) (cases p; simp add: parse_tls_profile_str_def; code_simp)

lemma written_reads:
  "get obj k = Some (JStr s) \<Longrightarrow> get_string_field (jval_api pa pr) obj k = Ok (Some s)"
  "get obj k = Some (JBool x) \<Longrightarrow> get_bool_field (jval_api pa pr) obj k = Ok (Some x)"
  "get obj k = Some (JNum n) \<Longrightarrow> get_u64_field (jval_api pa pr) obj k = Ok (Some n)"
  "get obj k = Some (port_json i) \<Longrightarrow> get_u16_field (jval_api pa pr) obj k = Ok (Some i)"
  "get obj k = Some (JArr (map JStr ss)) \<Longrightarrow> get_string_array_field (jval_api pa pr) obj k = Ok (Some ss)"
  "get obj k = Some (JStr (profile_text p)) \<Longrightarrow> get_profile_field (jval_api pa pr) obj k = Ok (Some p)"
  "get obj k = Some (JStr (mode_text m)) \<Longrightarrow> get_mode_field (jval_api pa pr) obj k = Ok (Some m)"
proof -
  have "ucast i < (65536 :: u64)" for i :: u16
  proof -
    have "unat i < 65536" using unsigned_less [of i] by simp
    then show ?thesis unfolding word_lt_65536 by (simp add: unsigned_ucast_eq take_bit_nat_def)
  qed
  moreover have "ucast (ucast i :: u64) = i" for i :: u16 by (simp add: word_unat_eq_iff unsigned_ucast_eq take_bit_word_eq_self)
  ultimately show "get obj k = Some (port_json i) \<Longrightarrow> get_u16_field (jval_api pa pr) obj k = Ok (Some i)"
    by (simp add: get_u16_field_def get_field_def ok_or_def port_json_def)
qed (simp_all add: get_string_field_def get_bool_field_def get_u64_field_def get_string_array_field_def get_profile_field_def get_mode_field_def
    get_field_def ok_or_def string_entries_written words_written)

text \<open>A file whose entries are those of a configuration reads as that configuration.\<close>

lemma written_config_reads:
  assumes same: "\<forall>k. k \<noteq> ''meta'' \<longrightarrow> get obj k = get (config_entries c) k"
  shows "engine_config_of_object (jval_api pa pr) obj = Ok c"
proof -
  have keys: "fst ` set obj \<subseteq> set engine_allowed_keys"
  proof
    fix k assume "k \<in> fst ` set obj"
    then have "get obj k \<noteq> None" by (simp add: map_of_eq_None_iff)
    with same have "k = ''meta'' \<or> k \<in> fst ` set (config_entries c)" by (metis map_of_eq_None_iff)
    then show "k \<in> set engine_allowed_keys" by (auto simp: config_entries_def engine_allowed_keys_def opt_entry_def split: option.splits)
  qed
  have at: "get obj k = get (config_entries c) k" if "k \<noteq> ''meta''" for k using same that by blast
  show ?thesis
    unfolding engine_config_exact get_path_field_def get_path_array_field_def
    by (intro conjI keys)
      (simp_all add: at reads_def reads_option_def reads_nullable_def written_reads config_entries_def map_add_def opt_entry_def opt_json_def
        port_json_not_null get_mode_field_def get_string_field_def get_field_def words_written ok_or_def split: option.split)
qed

lemma simple_gets_absent:
  "get_string_field J [] k = Ok None" "get_path_field J [] k = Ok None" "get_bool_field J [] k = Ok None" "get_u64_field J [] k = Ok None"
  "get_u16_field J [] k = Ok None" "get_string_array_field J [] k = Ok None" "get_path_array_field J [] k = Ok None"
  "get_profile_field J [] k = Ok None" "get_mode_field J [] k = Ok None"
  by (simp_all add: get_path_field_def get_string_field_def get_bool_field_def get_u64_field_def get_u16_field_def get_path_array_field_def
      get_string_array_field_def get_profile_field_def get_mode_field_def get_field_def)

text \<open>An empty configuration file does not give the defaults of the command line: the interval between two
  receipt flushes is 30 seconds instead of 60. And apart from the DoH upstream, no runtime option of
  the command line has an effect beside a configuration file.\<close>

lemma default_config_over_cli:
  "apply_engine_config args_default engine_config_default = args_default\<lparr>ar_receipts_flush_interval_secs := 30\<rparr>"
  by (simp add: apply_engine_config_def args_default_def engine_config_default_def)

lemma config_overrides_cli:
  assumes "ar_engine_config a = ar_engine_config b" "ar_dump_receipts a = ar_dump_receipts b" "ar_dump_compliance a = ar_dump_compliance b"
    "ar_compliance_format a = ar_compliance_format b" "ar_top_hosts a = ar_top_hosts b" "ar_receipt_host a = ar_receipt_host b"
    "ar_dns_upstream_doh a = ar_dns_upstream_doh b"
  shows "apply_engine_config a cfg = apply_engine_config b cfg"
  using assms by (simp add: apply_engine_config_def)

section \<open>The configuration file\<close>


text \<open>A file with three settings beside the defaults, and a port on both sides of the bound.\<close>

definition wit_engine_config :: engine_config where
  "wit_engine_config = engine_config_default\<lparr>ec_listen_port := 8118, ec_policy_mode := Some Enforce, ec_mitm_ca_export_cert_file := Some ''ca.pem''\<rparr>"

definition wit_config_path :: path where
  "wit_config_path = \<lparr>p_dir = ''etc'', p_stem = ''engine'', p_ext = Some ''json''\<rparr>"

definition wit_config_disk :: disk where
  "wit_config_disk = (\<lambda>_. None)(wit_config_path \<mapsto> ''{}'')"


end
