(* ===== verification/Proxy_Request.thy ===== *)
theory Proxy_Request
  imports Http1 Host_Store
begin

text \<open>
  The request parsing of \<^verbatim>\<open>src/main.rs\<close>: reading up to the end of the headers, the request line, the
  \<open>CONNECT\<close> authority, the classification of the first bytes, and the rewriting of a plain proxy
  request. The reads of a connection are a list of outcomes; an empty read is the end of the stream,
  and the list running out means that the loop still waits. \<open>find_headers_end\<close> and
  \<open>starts_with_ascii_case_insensitive\<close> have the bodies of the functions of \<^verbatim>\<open>policy.rs\<close>.
\<close>

definition MAX_CONNECT_HEADER_BYTES :: nat where "MAX_CONNECT_HEADER_BYTES = 16 * 1024"

fun read_until_headers_complete :: "bytes \<Rightarrow> bytes io_result list \<Rightarrow> (bytes \<times> bytes) io_result option" where
  "read_until_headers_complete buf [] = None"
| "read_until_headers_complete buf (Inl e # reads) = Some (Err e)"
| "read_until_headers_complete buf (Inr chunk # reads) =
    (if chunk = [] then Some (Err (IoError UnexpectedEof ''Client disconnected before CONNECT headers completed''))
     else let buf = buf @ chunk in
       if length buf > MAX_CONNECT_HEADER_BYTES then Some (Err (IoError InvalidData ''CONNECT headers exceed maximum allowed size''))
       else case find_headers_end buf of
         Some headers_end \<Rightarrow> Some (Ok (take headers_end buf, drop headers_end buf))
       | None \<Rightarrow> read_until_headers_complete buf reads)"

definition first_request_line :: "bytes \<Rightarrow> bytes option" where
  "first_request_line buf =
    (case find_sub CRLF buf of None \<Rightarrow> None
     | Some line_end \<Rightarrow> if utf8_valid (take line_end buf) then Some (take line_end buf) else None)"

function split_ws_from :: "bytes \<Rightarrow> bytes \<Rightarrow> bytes list" where
  "split_ws_from word s =
    (case s of [] \<Rightarrow> (if word = [] then [] else [word])
     | c # t \<Rightarrow>
        if ws_len s > 0 then (if word = [] then [] else [word]) @ split_ws_from [] (drop (ws_len s) s)
        else split_ws_from (word @ [c]) t)"
  by pat_completeness auto
termination
  by (relation "measure (\<lambda>(w, s). length s)") auto

declare split_ws_from.simps [simp del]

definition split_whitespace :: "bytes \<Rightarrow> bytes list" where
  "split_whitespace s = split_ws_from [] s"

definition normalize_authority :: "bytes \<Rightarrow> bytes option" where
  "normalize_authority authority =
    (if authority = [] \<or> contains_char authority CHR ''/'' then None
     else if hd authority = CHR ''['' then
       (case find_char CHR '']'' authority of None \<Rightarrow> None
        | Some end_idx \<Rightarrow>
           let host = take (end_idx + 1) authority; rest = drop (end_idx + 1) authority in
           if rest = [] then Some (host @ '':443'')
           else (case strip_prefix '':'' rest of
                   Some port \<Rightarrow> map_option (\<lambda>p. host @ '':'' @ show_nat p) (parse_u16 port)
                 | None \<Rightarrow> None))
     else case rsplit_once CHR '':'' authority of
       Some (host, port) \<Rightarrow>
         if host = [] \<or> port = [] \<or> contains_char host CHR '':'' then None
         else map_option (\<lambda>p. host @ '':'' @ show_nat p) (parse_u16 port)
     | None \<Rightarrow> Some (authority @ '':443''))"

definition parse_connect_target :: "bytes \<Rightarrow> bytes option" where
  "parse_connect_target request_line =
    (case split_whitespace request_line of
       [verb, authority, http_version] \<Rightarrow>
         if \<not> eq_ignore_ascii_case verb ''CONNECT'' then None
         else if authority = [] \<or> contains_char authority CHR ''/'' then None
         else normalize_authority authority
     | _ \<Rightarrow> None)"

definition HTTP_METHODS :: "bytes list" where
  "HTTP_METHODS = [''GET '', ''POST '', ''PUT '', ''PATCH '', ''DELETE '', ''HEAD '', ''OPTIONS '', ''TRACE '', ''CONNECT '']"

definition looks_like_http_request :: "bytes \<Rightarrow> bool" where
  "looks_like_http_request buf \<longleftrightarrow> list_ex (starts_with_ascii_case_insensitive buf) HTTP_METHODS"

definition http_error :: "bytes \<Rightarrow> bytes \<Rightarrow> bytes" where
  "http_error status message =
    (let body = message @ [LF] in
     ''HTTP/1.1 '' @ status @ CRLF @ ''Content-Type: text/plain; charset=utf-8'' @ CRLF @
     ''Content-Length: '' @ show_nat (length body) @ CRLF @ ''Connection: close'' @ CRLF @ CRLF @ body)"

section \<open>Plain proxy requests\<close>

text \<open>\<open>splitn(3, ' ')\<close>: at most three parts.\<close>

definition splitn3 :: "bytes \<Rightarrow> bytes list" where
  "splitn3 s = (case split_once CHR '' '' s of None \<Rightarrow> [s]
     | Some (a, r) \<Rightarrow> (case split_once CHR '' '' r of None \<Rightarrow> [a, r] | Some (b, c) \<Rightarrow> [a, b, c]))"

text \<open>The target address and the request to send there, or the text of a \<open>400\<close> answer.\<close>

definition rewrite_proxy_request :: "bytes \<Rightarrow> bytes \<Rightarrow> bytes + (bytes \<times> bytes)" where
  "rewrite_proxy_request request_line request_head =
    (case splitn3 request_line of
       [verb, full_url, http_version] \<Rightarrow>
        (case strip_prefix ''http://'' full_url of
           None \<Rightarrow> Err ''Only absolute HTTP URLs are supported for plain HTTP proxy.''
         | Some url_without_scheme \<Rightarrow>
            let (host_port, path) = (case find_char CHR ''/'' url_without_scheme of
                  Some idx \<Rightarrow> (take idx url_without_scheme, drop idx url_without_scheme)
                | None \<Rightarrow> (url_without_scheme, ''/''));
                target_addr = (if contains_char host_port CHR '':'' then host_port else host_port @ '':80'');
                headers_str = from_utf8_lossy request_head;
                first_crlf = (case find_sub CRLF headers_str of Some i \<Rightarrow> i | None \<Rightarrow> length headers_str)
            in Ok (target_addr, verb @ '' '' @ path @ '' '' @ http_version @ drop first_crlf request_head))
     | _ \<Rightarrow> Err ''Malformed request line.'')"

section \<open>Reading headers\<close>

lemma find_headers_end_Some_iff:
  "find_headers_end (h @ rest) = Some (length h) \<longleftrightarrow> suffix CRLF2 h \<and> \<not> sublist CRLF2 (butlast h)"
proof
  assume a: "find_headers_end (h @ rest) = Some (length h)"
  define n where "n = length h - 4"
  from a have n: "find_sub CRLF2 (h @ rest) = Some n" "length h = n + 4"
    by (cases "find_sub CRLF2 (h @ rest)"; simp add: find_headers_end_def n_def)+
  from n(1) obtain zs where "drop n (h @ rest) = CRLF2 @ zs" by (auto simp: find_sub_Some_iff prefix_def)
  then have "take 4 (drop n (h @ rest)) = CRLF2" by simp
  then have "drop n h = CRLF2" using n(2) by simp
  then have h: "h = take n h @ CRLF2" by (metis append_take_drop_id)
  have "\<not> sublist CRLF2 (butlast h)"
  proof
    assume "sublist CRLF2 (butlast h)"
    then obtain m where m: "find_sub CRLF2 (butlast h) = Some m" using find_sub_None_iff [of CRLF2 "butlast h"] by auto
    have hr: "h @ rest = butlast h @ (last h # rest)" using n(2) by (cases h rule: rev_cases) auto
    have "find_sub CRLF2 (h @ rest) = Some m" unfolding hr by (rule find_sub_extend [OF m])
    with n find_sub_bound [OF m] show False by simp
  qed
  with h show "suffix CRLF2 h \<and> \<not> sublist CRLF2 (butlast h)" by (metis suffixI)
next
  assume a: "suffix CRLF2 h \<and> \<not> sublist CRLF2 (butlast h)"
  then obtain a where h: "h = a @ CRLF2" by (auto simp: suffix_def)
  have "\<not> prefix CRLF2 (drop m (h @ rest))" if "m < length a" for m
  proof
    assume p: "prefix CRLF2 (drop m (h @ rest))"
    have e: "take 4 (drop m (b @ x)) = take 4 (drop m b)" if "m + 4 \<le> length b" for b x :: bytes
      using that by simp
    have "take 4 (drop m (h @ rest)) = take 4 (drop m (butlast h))"
      using e [of "butlast h" "LF # rest"] that by (simp add: h butlast_append)
    moreover have "take 4 (drop m (h @ rest)) = CRLF2" using p by (auto simp: prefix_def simp del: drop_append)
    ultimately have "prefix CRLF2 (drop m (butlast h))" by (metis take_is_prefix)
    then have "sublist CRLF2 (butlast h)" by (meson prefix_imp_sublist sublist_drop sublist_order.order_trans)
    with a show False by simp
  qed
  then have "find_sub CRLF2 (h @ rest) = Some (length a)" by (simp add: find_sub_Some_iff h)
  then show "find_headers_end (h @ rest) = Some (length h)" by (simp add: find_headers_end_def h)
qed

lemma find_headers_end_le: "find_headers_end buf = Some n \<Longrightarrow> n \<le> length buf"
  using find_sub_bound [of CRLF2 buf] by (auto simp: find_headers_end_def)

lemma read_headers_Ok:
  assumes "read_until_headers_complete buf reads = Some (Ok (h, rest))"
  shows "\<exists>k\<le>length reads. buf @ concat (map projr (take k reads)) = h @ rest \<and>
    length (h @ rest) \<le> MAX_CONNECT_HEADER_BYTES \<and> find_headers_end (h @ rest) = Some (length h)"
  using assms
proof (induction buf reads rule: read_until_headers_complete.induct)
  case (3 buf chunk reads)
  show ?case
  proof (cases "find_headers_end (buf @ chunk)")
    case None
    with 3 obtain k where "k \<le> length reads" "(buf @ chunk) @ concat (map projr (take k reads)) = h @ rest"
      "length (h @ rest) \<le> MAX_CONNECT_HEADER_BYTES" "find_headers_end (h @ rest) = Some (length h)"
      by (auto simp: Let_def split: if_splits)
    then show ?thesis by (intro exI [of _ "Suc k"]) simp
  next
    case (Some n)
    with 3(2) find_headers_end_le [OF Some] have "h = take n (buf @ chunk)" "rest = drop n (buf @ chunk)" "length h = n"
      "length (buf @ chunk) \<le> MAX_CONNECT_HEADER_BYTES"
      by (auto simp: Let_def split: if_splits)
    then have "(buf @ chunk) = h @ rest" "length (h @ rest) \<le> MAX_CONNECT_HEADER_BYTES" "find_headers_end (h @ rest) = Some (length h)"
      using Some by (metis append_take_drop_id)+
    then show ?thesis by (intro exI [of _ 1]) simp
  qed
qed simp_all

lemma read_headers_waits:
  "read_until_headers_complete buf reads = None \<Longrightarrow> reads = [] \<or> length buf + length reads \<le> MAX_CONNECT_HEADER_BYTES"
proof (induction buf reads rule: read_until_headers_complete.induct)
  case (3 buf chunk reads)
  from 3(2) have c: "chunk \<noteq> []" "length (buf @ chunk) \<le> MAX_CONNECT_HEADER_BYTES" "find_headers_end (buf @ chunk) = None"
    "read_until_headers_complete (buf @ chunk) reads = None"
    by (auto simp: Let_def split: if_splits option.splits)
  from c(1) have "1 \<le> length chunk" by (cases chunk) auto
  with 3(1) [OF c(1) refl _ c(3,4)] c(2) show ?case by auto
qed auto


text \<open>C37: reading the headers always ends, and stays in its bound: after more than 16384 reads, whatever they
  bring, the loop has returned. When it returns a header block, the block and the bytes after it
  are together what was read, at most 16384 bytes, and the block ends at the first empty line.\<close>
theorem read_headers_terminates:
  assumes "MAX_CONNECT_HEADER_BYTES < length reads"
  shows "\<exists>r. read_until_headers_complete [] reads = Some r \<and>
    (\<forall>h rest. r = Ok (h, rest) \<longrightarrow> suffix CRLF2 h \<and> \<not> sublist CRLF2 (butlast h) \<and> length (h @ rest) \<le> 16384 \<and>
       (\<exists>k\<le>length reads. h @ rest = concat (map projr (take k reads))))"
proof -
  obtain r where r: "read_until_headers_complete [] reads = Some r"
    using read_headers_waits [of "[]" reads] assms by (cases "read_until_headers_complete [] reads") auto
  moreover have "suffix CRLF2 h \<and> \<not> sublist CRLF2 (butlast h) \<and> length (h @ rest) \<le> 16384 \<and>
      (\<exists>k\<le>length reads. h @ rest = concat (map projr (take k reads)))" if "r = Ok (h, rest)" for h rest
    using read_headers_Ok [of "[]" reads h rest] r that
    by (auto simp only: find_headers_end_Some_iff MAX_CONNECT_HEADER_BYTES_def append_Nil) auto
  ultimately show ?thesis by blast
qed

theorem read_headers_terminates_witness:
  "\<exists>h rest. read_until_headers_complete [] (Ok (''A'' @ CRLF2 @ ''x'') # replicate 16384 (Ok [])) = Some (Ok (h, rest)) \<and>
     suffix CRLF2 h \<and> rest = ''x''"
proof -
  let ?reads = "Ok (''A'' @ CRLF2 @ ''x'') # replicate 16384 (Ok [])"
  have f: "find_headers_end (''A'' @ CRLF2 @ ''x'') = Some 5" by code_simp
  have r: "read_until_headers_complete [] ?reads = Some (Ok (''A'' @ CRLF2, ''x''))"
    using f by (simp add: Let_def MAX_CONNECT_HEADER_BYTES_def)
  from read_headers_terminates [of ?reads] r have "suffix CRLF2 (''A'' @ CRLF2)"
    by (auto simp: MAX_CONNECT_HEADER_BYTES_def)
  with r show ?thesis by blast
qed

section \<open>Authorities\<close>

lemma parse_u16_show: "p < 65536 \<Longrightarrow> parse_u16 (show_nat p) = Some p"
  by (simp add: parse_u16_def from_str_radix_show)

lemma show_nat_443: "show_nat 443 = ''443''"
  by code_simp

lemma show_nat_no_sep: "CHR '':'' \<notin> set (show_nat p)" "CHR ''/'' \<notin> set (show_nat p)"
  using show_radix_codes [of 10 _ p] by (force, force)

lemma normalize_authority_cases:
  assumes "normalize_authority a = Some t"
  obtains (bracket) v rest p where "a = CHR ''['' # v @ CHR '']'' # rest" "CHR '']'' \<notin> set v" "CHR ''/'' \<notin> set v"
      "t = CHR ''['' # v @ CHR '']'' # CHR '':'' # show_nat p" "p < 65536"
  | (name) h p where "h \<noteq> []" "hd h \<noteq> CHR ''[''" "CHR '':'' \<notin> set h" "CHR ''/'' \<notin> set h" "a = h \<or> (\<exists>port. a = h @ CHR '':'' # port \<and> CHR '':'' \<notin> set port)"
      "t = h @ CHR '':'' # show_nat p" "p < 65536"
proof -
  have bound: "p < 65536" if "parse_u16 s = Some p" for s p
    using from_str_radix_bound that unfolding parse_u16_def by fastforce
  have a: "a \<noteq> []" "CHR ''/'' \<notin> set a" using assms by (auto simp: normalize_authority_def contains_char_def split: if_splits)
  show thesis
  proof (cases "hd a = CHR ''[''")
    case True
    then obtain b where b: "a = CHR ''['' # b" using a(1) by (cases a) auto
    have "CHR '']'' \<in> set b"
      using assms a True by (auto simp: normalize_authority_def find_char_def contains_char_def b split: if_splits)
    then obtain v rest where v: "b = v @ CHR '']'' # rest" "CHR '']'' \<notin> set v" by (meson split_list_first)
    have f: "find_char CHR '']'' a = Some (Suc (length v))"
      using find_char_append [of "CHR '']''" "CHR ''['' # v" rest] v by (simp add: b)
    consider "rest = []" "t = CHR ''['' # v @ CHR '']'' # CHR '':'' # show_nat 443" |
      port p where "rest = CHR '':'' # port" "parse_u16 port = Some p" "t = CHR ''['' # v @ CHR '']'' # CHR '':'' # show_nat p"
      using assms a f True
      by (auto simp: normalize_authority_def b v(1) contains_char_def strip_prefix_def prefix_def show_nat_443 Let_def split: if_splits)
    then show thesis
    proof cases
      case 1
      then show thesis using bracket [of v rest 443] a b v by simp
    next
      case 2
      then show thesis using bracket [of v rest p] a b v bound by simp
    qed
  next
    case False
    show thesis
    proof (cases "rsplit_once CHR '':'' a")
      case None
      then have "t = a @ CHR '':'' # show_nat 443" using assms a False by (simp add: normalize_authority_def contains_char_def show_nat_443)
      moreover have "CHR '':'' \<notin> set a" using None by (simp add: rsplit_once_None_iff)
      ultimately show thesis using name [of a 443] a False by simp
    next
      case (Some q)
      obtain h port where q: "q = (h, port)" by (cases q)
      then have r: "a = h @ CHR '':'' # port" "CHR '':'' \<notin> set port" using Some by (simp_all add: rsplit_once_Some_iff)
      obtain p where p: "h \<noteq> []" "CHR '':'' \<notin> set h" "parse_u16 port = Some p" "t = h @ CHR '':'' # show_nat p"
        using assms a False Some q by (auto simp: normalize_authority_def contains_char_def split: if_splits)
      show thesis using name [OF p(1) _ p(2) _ _ p(4) bound [OF p(3)]] r a False p(1) by auto
    qed
  qed
qed

text \<open>The target of a \<open>CONNECT\<close> request is in normal form. An accepted authority becomes a non-empty host
  without a slash, a colon and a decimal port below 65536; normalising it again changes nothing; and
  the host that routing and pinning use is the same before and after.\<close>
theorem normalize_authority_normal:
  assumes "normalize_authority a = Some t"
  shows "(\<exists>h p. t = h @ '':'' @ show_nat p \<and> p < 65536 \<and> h \<noteq> [] \<and> CHR ''/'' \<notin> set h) \<and>
    normalize_authority t = Some t \<and> host_from_authority t = host_from_authority a"
  using assms
proof (cases rule: normalize_authority_cases)
  case (bracket v rest p)
  let ?b = "CHR ''['' # v @ '']''"
  have f: "find_char CHR '']'' (CHR ''['' # v @ CHR '']'' # x) = Some (Suc (length v))" for x
    using find_char_append [of "CHR '']''" "CHR ''['' # v" x] bracket by simp
  have "normalize_authority t = Some t"
    using bracket show_nat_no_sep [of p] f parse_u16_show [of p]
    by (simp add: normalize_authority_def contains_char_def strip_prefix_def Let_def)
  moreover have "host_from_authority t = host_from_authority a" using f by (simp add: host_from_authority_def bracket)
  moreover have "t = ?b @ '':'' @ show_nat p \<and> p < 65536 \<and> ?b \<noteq> [] \<and> CHR ''/'' \<notin> set ?b" using bracket by simp
  ultimately show ?thesis by blast
next
  case (name h p)
  have s: "rsplit_once CHR '':'' (h @ CHR '':'' # show_nat p) = Some (h, show_nat p)"
    using show_nat_no_sep [of p] by (simp add: rsplit_once_Some_iff)
  have hd: "hd (h @ x) \<noteq> CHR ''[''" for x using name by simp
  have "normalize_authority t = Some t"
    using name show_nat_no_sep [of p] s hd parse_u16_show [of p] by (simp add: normalize_authority_def contains_char_def)
  moreover have "host_from_authority t = Some (normalize_host h)" using name s hd by (simp add: host_from_authority_def)
  moreover have "host_from_authority a = Some (normalize_host h)"
    using name(5)
  proof
    assume "a = h"
    then show ?thesis using name hd [of "[]"] rsplit_once_None_iff [of "CHR '':''" h] by (simp add: host_from_authority_def)
  next
    assume "\<exists>port. a = h @ CHR '':'' # port \<and> CHR '':'' \<notin> set port"
    then obtain port where "a = h @ CHR '':'' # port" "rsplit_once CHR '':'' a = Some (h, port)"
      by (auto simp: rsplit_once_Some_iff)
    then show ?thesis using name hd by (simp add: host_from_authority_def)
  qed
  ultimately show ?thesis using name by auto
qed

theorem normalize_authority_normal_witness:
  "normalize_authority ''[::1]:0443'' = Some ''[::1]:443'' \<and> normalize_authority ''[::1]:443'' = Some ''[::1]:443''"
proof -
  have f: "find_char CHR '']'' ''[::1]:0443'' = Some 4" by code_simp
  have p: "parse_u16 ''0443'' = Some 443" by (simp add: parse_u16_def from_str_radix_def digit_val_def)
  have "normalize_authority ''[::1]:0443'' = Some ''[::1]:443''"
    by (simp add: normalize_authority_def contains_char_def strip_prefix_def f p show_nat_443)
  with normalize_authority_normal [OF this] show ?thesis by simp
qed


section \<open>The rewriting of a plain request\<close>

lemma from_utf8_lossy_append: "utf8_valid a \<Longrightarrow> from_utf8_lossy (a @ b) = a @ from_utf8_lossy b"
proof (induction a rule: utf8_valid.induct)
  case (2 c s)
  let ?k = "snd (utf8_step c s)"
  have ok: "fst (utf8_step c s)" and rest: "utf8_valid (drop ?k (c # s))" using 2(2) by (auto split: if_splits)
  have k: "0 < ?k" "?k \<le> length (c # s)" using ok utf8_step_pos utf8_step_le by auto
  then have s: "take (?k - 1) s @ drop (?k - 1) s @ b = s @ b" by (cases ?k) auto
  have st: "utf8_step c (s @ b) = utf8_step c s" using utf8_step_take [OF ok, of "drop (?k - 1) s @ b"] unfolding s .
  have e: "take ?k (c # s @ b) = take ?k (c # s)" "drop ?k (c # s @ b) = drop ?k (c # s) @ b"
    using k take_append [of ?k "c # s" b] drop_append [of ?k "c # s" b] by (simp_all del: drop_Cons' take_Cons')
  have "from_utf8_lossy ((c # s) @ b) = take ?k (c # s) @ from_utf8_lossy (drop ?k (c # s) @ b)"
    using ok st by (simp add: e del: drop_Cons' take_Cons')
  also have "\<dots> = take ?k (c # s) @ drop ?k (c # s) @ from_utf8_lossy b"
    using 2(1) ok rest by (simp del: drop_Cons' take_Cons')
  finally show ?case by (metis append.assoc append_take_drop_id)
qed simp

lemma find_sub_CRLF_first: "find_sub CRLF (l @ CRLF @ x) = Some (length l) \<Longrightarrow> find_sub CRLF (l @ CRLF @ y) = Some (length l)"
proof -
  assume "find_sub CRLF (l @ CRLF @ x) = Some (length l)"
  then have no: "\<not> prefix CRLF (drop m (l @ CRLF @ x))" if "m < length l" for m using that by (simp add: find_sub_Some_iff)
  have "\<not> prefix CRLF (drop m (l @ CRLF @ y))" if "m < length l" for m
  proof -
    have "drop m l \<noteq> []" using that by simp
    then have pre: "prefix CRLF (drop m l @ CRLF @ z) \<longleftrightarrow> prefix CRLF (drop m l @ CRLF)" for z
      by (cases "drop m l"; cases "tl (drop m l)") auto
    have e: "drop m (l @ CRLF @ z) = drop m l @ CRLF @ z" for z using that by simp
    show ?thesis using no [OF that] pre [of x] pre [of y] unfolding e by blast
  qed
  then show ?thesis by (simp add: find_sub_Some_iff)
qed

lemma first_request_line_Some:
  assumes "first_request_line head = Some l"
  obtains x where "head = l @ CRLF @ x" "utf8_valid l" "find_sub CRLF (from_utf8_lossy head) = Some (length l)"
proof -
  from assms have f: "find_sub CRLF head = Some (length l)" and l: "l = take (length l) head" "utf8_valid l"
    by (auto simp: first_request_line_def split: option.splits if_splits dest: find_sub_bound)
  from f obtain x where "drop (length l) head = CRLF @ x" by (auto simp: find_sub_Some_iff prefix_def)
  with l(1) have head: "head = l @ CRLF @ x" by (metis append_take_drop_id)
  have "from_utf8_lossy head = l @ CRLF @ from_utf8_lossy x"
    using from_utf8_lossy_append [OF l(2), of "CRLF @ x"] by (simp add: head)
  moreover have "find_sub CRLF (l @ CRLF @ from_utf8_lossy x) = Some (length l)" using find_sub_CRLF_first f head by metis
  ultimately show thesis using that head l(2) by simp
qed

lemma splitn3_iff:
  "splitn3 s = [a, b, c] \<longleftrightarrow> s = a @ '' '' @ b @ '' '' @ c \<and> CHR '' '' \<notin> set a \<and> CHR '' '' \<notin> set b"
proof
  assume "splitn3 s = [a, b, c]"
  then show "s = a @ '' '' @ b @ '' '' @ c \<and> CHR '' '' \<notin> set a \<and> CHR '' '' \<notin> set b"
    by (auto simp: splitn3_def split_once_Some_iff split: option.splits)
qed (simp add: splitn3_def)

definition url_parts :: "bytes \<Rightarrow> bytes \<Rightarrow> bytes \<Rightarrow> bool" where
  "url_parts url host_port path \<longleftrightarrow> url = host_port @ path \<and> CHR ''/'' \<notin> set host_port \<and> (path = [] \<or> hd path = CHR ''/'')"

lemma url_parts_slash:
  assumes "CHR ''/'' \<notin> set a"
  shows "url_parts (a @ CHR ''/'' # b) host_port path \<longleftrightarrow> host_port = a \<and> path = CHR ''/'' # b"
proof
  assume u: "url_parts (a @ CHR ''/'' # b) host_port path"
  then have "path \<noteq> []" by (auto simp: url_parts_def)
  then obtain p where p: "path = CHR ''/'' # p" using u by (cases path) (auto simp: url_parts_def)
  with u have e: "a @ CHR ''/'' # b = host_port @ CHR ''/'' # p" and h: "CHR ''/'' \<notin> set host_port" by (auto simp: url_parts_def)
  have "split_once CHR ''/'' (a @ CHR ''/'' # b) = Some (host_port, p)" unfolding e by (rule split_once_append [OF h])
  then show "host_port = a \<and> path = CHR ''/'' # b" using split_once_append [OF assms, of b] by (simp add: p)
qed (simp add: url_parts_def assms)

lemma url_parts_plain: "CHR ''/'' \<notin> set url \<Longrightarrow> url_parts url host_port path \<longleftrightarrow> host_port = url \<and> path = []"
  by (cases path) (auto simp: url_parts_def)

lemma url_parts_code:
  "\<exists>host_port path. (\<forall>a b. url_parts url a b \<longleftrightarrow> a = host_port \<and> b = path) \<and>
    (case find_char CHR ''/'' url of Some idx \<Rightarrow> (take idx url, drop idx url) | None \<Rightarrow> (url, ''/'')) =
        (host_port, if path = [] then ''/'' else path)"
proof (cases "CHR ''/'' \<in> set url")
  case True
  then obtain a b where ab: "url = a @ CHR ''/'' # b" "CHR ''/'' \<notin> set a" by (meson split_list_first)
  then show ?thesis using url_parts_slash [OF ab(2), of b] find_char_append [OF ab(2), of b]
    by (intro exI [of _ a] exI [of _ "CHR ''/'' # b"]) simp
next
  case False
  then show ?thesis using url_parts_plain [OF False] by (intro exI [of _ url] exI [of _ "[]"]) (simp add: find_char_def)
qed

text \<open>C36: a plain proxy request is forwarded exactly when its request line is a verb, an absolute \<open>http://\<close> URL
  and a version separated by single spaces. The connection goes to the authority of the URL, port
  80 when it has no colon; the request sent there has the path of the URL, or \<open>/\<close>, in its request
  line, and every other byte as the client sent it.\<close>
theorem http_proxy_rewrite:
  assumes "first_request_line head = Some l"
  shows "rewrite_proxy_request l head = Ok (target, request) \<longleftrightarrow>
    (\<exists>verb host_port path version fields.
       l = verb @ '' http://'' @ host_port @ path @ '' '' @ version \<and> head = l @ CRLF @ fields \<and>
       CHR '' '' \<notin> set verb \<and> CHR '' '' \<notin> set (host_port @ path) \<and> CHR ''/'' \<notin> set host_port \<and> (path = [] \<or> hd path = CHR ''/'') \<and>
       target = (if CHR '':'' \<in> set host_port then host_port else host_port @ '':80'') \<and>
       request = verb @ '' '' @ (if path = [] then ''/'' else path) @ '' '' @ version @ CRLF @ fields)"
    (is "_ \<longleftrightarrow> (\<exists>verb host_port path version fields. ?F verb host_port path version fields)")
proof -
  obtain fields where h: "head = l @ CRLF @ fields" "find_sub CRLF (from_utf8_lossy head) = Some (length l)"
    using first_request_line_Some [OF assms] by metis
  have "rewrite_proxy_request l head = Ok (target, request) \<longleftrightarrow>
    (\<exists>verb url version. splitn3 l = [verb, ''http://'' @ url, version] \<and>
      (\<exists>host_port path. url_parts url host_port path \<and>
        target = (if CHR '':'' \<in> set host_port then host_port else host_port @ '':80'') \<and>
        request = verb @ '' '' @ (if path = [] then ''/'' else path) @ '' '' @ version @ CRLF @ fields))"
    (is "?L = ?R")
  proof (cases "\<exists>verb url version. splitn3 l = [verb, ''http://'' @ url, version]")
    case True
    then obtain verb url version where s: "splitn3 l = [verb, ''http://'' @ url, version]" by blast
    obtain host_port path where u: "\<And>a b. url_parts url a b \<longleftrightarrow> a = host_port \<and> b = path"
      and path: "(case find_char CHR ''/'' url of Some idx \<Rightarrow> (take idx url, drop idx url) | None \<Rightarrow> (url, ''/'')) =
        (host_port, if path = [] then ''/'' else path)"
      using url_parts_code [of url] by blast
    have "rewrite_proxy_request l head = Ok (if CHR '':'' \<in> set host_port then host_port else host_port @ '':80'',
        verb @ '' '' @ (if path = [] then ''/'' else path) @ '' '' @ version @ CRLF @ fields)"
      unfolding rewrite_proxy_request_def s using path h(2)
      by (simp add: strip_prefix_def contains_char_def h(1) Let_def)
    with s show ?thesis by (auto simp: u)
  next
    case False
    then have "\<not> (\<exists>x. rewrite_proxy_request l head = Ok x)"
      by (auto simp: rewrite_proxy_request_def strip_prefix_def prefix_def split: list.splits)
    with False show ?thesis by blast
  qed
  also have "?R \<longleftrightarrow> (\<exists>verb host_port path version fields. ?F verb host_port path version fields)"
  proof
    assume ?R
    then obtain verb url version host_port path where r: "splitn3 l = [verb, ''http://'' @ url, version]" "url_parts url host_port path"
      "target = (if CHR '':'' \<in> set host_port then host_port else host_port @ '':80'')"
      "request = verb @ '' '' @ (if path = [] then ''/'' else path) @ '' '' @ version @ CRLF @ fields"
      by blast
    have "?F verb host_port path version fields"
      using r(1,2) h(1) unfolding r(3,4) splitn3_iff url_parts_def by simp
    then show "\<exists>verb host_port path version fields. ?F verb host_port path version fields" by blast
  next
    assume "\<exists>verb host_port path version fields. ?F verb host_port path version fields"
    then obtain verb host_port path version f where f: "?F verb host_port path version f" by blast
    have "f = fields" using f h(1) by simp
    moreover have "splitn3 l = [verb, ''http://'' @ (host_port @ path), version]" using f unfolding splitn3_iff by simp
    moreover have "url_parts (host_port @ path) host_port path" using f by (simp add: url_parts_def)
    ultimately show ?R using f by blast
  qed
  finally show ?thesis .
qed


theorem http_proxy_rewrite_witness:
  "rewrite_proxy_request ''GET http://a.example/x HTTP/1.1'' (''GET http://a.example/x HTTP/1.1'' @ CRLF2) =
     Ok (''a.example:80'', ''GET /x HTTP/1.1'' @ CRLF2)"
proof -
  let ?l = "''GET http://a.example/x HTTP/1.1''"
  have "first_request_line (?l @ CRLF2) = Some ?l" by code_simp
  from http_proxy_rewrite [OF this, of "''a.example:80''" "''GET /x HTTP/1.1'' @ CRLF2"] show ?thesis
    by (rule iffD2)
      (rule exI [of _ "''GET''"], rule exI [of _ "''a.example''"], rule exI [of _ "''/x''"], rule exI [of _ "''HTTP/1.1''"],
        rule exI [of _ "CRLF"], simp)
qed

end
