(* ===== verification/Tls_Parser.thy ===== *)
theory Tls_Parser
  imports Rust_Text
begin

text \<open>
  \<^verbatim>\<open>src/tls_parser.rs\<close>: the bounds-checked cursor and the SNI extraction from a TLS
  ClientHello. The cursor is a record of the buffer and the position; each read returns the
  value and the advanced cursor, or \<open>None\<close>. The abstract view of a cursor is the list of
  bytes it has not read (\<open>rest\<close>); the parser refines a parser on such lists, on which the
  round trip with a ClientHello encoder is proved.
\<close>

record parser =
  buffer :: bytes
  pos :: nat

definition parser_new :: "bytes \<Rightarrow> parser" where
  "parser_new b = \<lparr>buffer = b, pos = 0\<rparr>"

definition remaining :: "parser \<Rightarrow> nat" where
  "remaining p = length (buffer p) - pos p"

definition read_u8 :: "parser \<Rightarrow> (nat \<times> parser) option" where
  "read_u8 p = (if pos p < length (buffer p)
     then Some (code (buffer p ! pos p), p\<lparr>pos := pos p + 1\<rparr>) else None)"

definition read_u16 :: "parser \<Rightarrow> (nat \<times> parser) option" where
  "read_u16 p = (if remaining p \<ge> 2
     then Some (code (buffer p ! pos p) * 256 + code (buffer p ! (pos p + 1)), p\<lparr>pos := pos p + 2\<rparr>)
     else None)"

definition skip :: "nat \<Rightarrow> parser \<Rightarrow> parser option" where
  "skip n p = (if remaining p \<ge> n then Some (p\<lparr>pos := pos p + n\<rparr>) else None)"

definition read_slice :: "nat \<Rightarrow> parser \<Rightarrow> (bytes \<times> parser) option" where
  "read_slice n p = (if remaining p \<ge> n
     then Some (take n (drop (pos p) (buffer p)), p\<lparr>pos := pos p + n\<rparr>) else None)"

function sni_name_loop :: "parser \<Rightarrow> bytes option" where
  "sni_name_loop p = (if remaining p > 0 then
     (case read_u8 p of None \<Rightarrow> None | Some (name_type, p1) \<Rightarrow>
     (case read_u16 p1 of None \<Rightarrow> None | Some (name_len, p2) \<Rightarrow>
     (case read_slice name_len p2 of None \<Rightarrow> None | Some (name_bytes, p3) \<Rightarrow>
        if name_type = 0 then from_utf8 name_bytes else sni_name_loop p3)))
     else None)"
  by pat_completeness auto
termination
  by (relation "measure remaining")
     (auto simp: read_u8_def read_u16_def read_slice_def remaining_def split: if_splits)

definition parse_sni_extension :: "bytes \<Rightarrow> bytes option" where
  "parse_sni_extension data =
    (case read_u16 (parser_new data) of None \<Rightarrow> None
     | Some (list_len, p) \<Rightarrow> if list_len \<noteq> remaining p then None else sni_name_loop p)"

function extension_loop :: "parser \<Rightarrow> bytes option" where
  "extension_loop p = (if remaining p \<ge> 4 then
     (case read_u16 p of None \<Rightarrow> None | Some (ext_type, p1) \<Rightarrow>
     (case read_u16 p1 of None \<Rightarrow> None | Some (ext_len, p2) \<Rightarrow>
     (case read_slice ext_len p2 of None \<Rightarrow> None | Some (ext_data, p3) \<Rightarrow>
        if ext_type = 0 then parse_sni_extension ext_data else extension_loop p3)))
     else None)"
  by pat_completeness auto
termination
  by (relation "measure remaining")
     (auto simp: read_u16_def read_slice_def remaining_def split: if_splits)

declare sni_name_loop.simps [simp del] extension_loop.simps [simp del]

definition parse_sni :: "bytes \<Rightarrow> bytes option" where
  "parse_sni buf = do {
     (record_type, p) \<leftarrow> read_u8 (parser_new buf);
     if record_type \<noteq> 0x16 then None else do {
     p \<leftarrow> skip 2 p;
     p \<leftarrow> skip 2 p;
     (handshake_type, p) \<leftarrow> read_u8 p;
     if handshake_type \<noteq> 0x01 then None else do {
     p \<leftarrow> skip 3 p;
     p \<leftarrow> skip 2 p;
     p \<leftarrow> skip 32 p;
     (session_id_len, p) \<leftarrow> read_u8 p;
     p \<leftarrow> skip session_id_len p;
     (cipher_suites_len, p) \<leftarrow> read_u16 p;
     p \<leftarrow> skip cipher_suites_len p;
     (compression_len, p) \<leftarrow> read_u8 p;
     p \<leftarrow> skip compression_len p;
     if remaining p < 2 then None else do {
     (extensions_len, p) \<leftarrow> read_u16 p;
     (ext_bytes, _) \<leftarrow> read_slice extensions_len p;
     extension_loop (parser_new ext_bytes) }}}}"

section \<open>The abstract parser on the unread bytes\<close>

definition rest :: "parser \<Rightarrow> bytes" where
  "rest p = drop (pos p) (buffer p)"

fun take_u8 :: "bytes \<Rightarrow> (nat \<times> bytes) option" where
  "take_u8 (a # s) = Some (code a, s)"
| "take_u8 [] = None"

fun take_u16 :: "bytes \<Rightarrow> (nat \<times> bytes) option" where
  "take_u16 (a # b # s) = Some (code a * 256 + code b, s)"
| "take_u16 _ = None"

definition take_n :: "nat \<Rightarrow> bytes \<Rightarrow> (bytes \<times> bytes) option" where
  "take_n n s = (if n \<le> length s then Some (take n s, drop n s) else None)"

lemma take_u16_Some: "take_u16 s = Some (v, r) \<Longrightarrow> length s = length r + 2"
  by (cases s rule: take_u16.cases) auto

lemma take_u8_Some: "take_u8 s = Some (v, r) \<Longrightarrow> length s = length r + 1"
  by (cases s) auto

lemma take_n_Some: "take_n n s = Some (d, r) \<Longrightarrow> s = d @ r \<and> length d = n"
  by (auto simp: take_n_def split: if_splits)

function spec_names :: "bytes \<Rightarrow> bytes option" where
  "spec_names s = (if s = [] then None else
     (case take_u8 s of None \<Rightarrow> None | Some (t, s1) \<Rightarrow>
     (case take_u16 s1 of None \<Rightarrow> None | Some (l, s2) \<Rightarrow>
     (case take_n l s2 of None \<Rightarrow> None | Some (name, s3) \<Rightarrow>
        if t = 0 then from_utf8 name else spec_names s3))))"
  by pat_completeness auto
termination
  by (relation "measure length") (auto dest!: take_u8_Some take_u16_Some take_n_Some)

definition spec_sni_extension :: "bytes \<Rightarrow> bytes option" where
  "spec_sni_extension d = (case take_u16 d of None \<Rightarrow> None
     | Some (l, s) \<Rightarrow> if l \<noteq> length s then None else spec_names s)"

function spec_extensions :: "bytes \<Rightarrow> bytes option" where
  "spec_extensions s = (if length s < 4 then None else
     (case take_u16 s of None \<Rightarrow> None | Some (t, s1) \<Rightarrow>
     (case take_u16 s1 of None \<Rightarrow> None | Some (l, s2) \<Rightarrow>
     (case take_n l s2 of None \<Rightarrow> None | Some (d, s3) \<Rightarrow>
        if t = 0 then spec_sni_extension d else spec_extensions s3))))"
  by pat_completeness auto
termination
  by (relation "measure length") (auto dest!: take_u16_Some take_n_Some)

declare spec_names.simps [simp del] spec_extensions.simps [simp del]

lemma length_rest: "remaining p = length (rest p)"
  by (simp add: remaining_def rest_def)

lemma rest_new [simp]: "rest (parser_new b) = b"
  by (simp add: rest_def parser_new_def)

lemma rest_advance: "rest (p\<lparr>pos := pos p + n\<rparr>) = drop n (rest p)"
  by (simp add: rest_def add.commute)

lemma read_u8_refines: "map_option (apsnd rest) (read_u8 p) = take_u8 (rest p)"
proof (cases "pos p < length (buffer p)")
  case True
  then have "rest p = buffer p ! pos p # drop (Suc (pos p)) (buffer p)"
    by (simp add: rest_def Cons_nth_drop_Suc)
  with True show ?thesis by (simp add: read_u8_def rest_def)
qed (simp add: read_u8_def rest_def)

lemma read_u16_refines: "map_option (apsnd rest) (read_u16 p) = take_u16 (rest p)"
proof (cases "remaining p \<ge> 2")
  case True
  then have "rest p = buffer p ! pos p # buffer p ! Suc (pos p) # drop (Suc (Suc (pos p))) (buffer p)"
    by (simp add: rest_def remaining_def Cons_nth_drop_Suc)
  with True show ?thesis by (simp add: read_u16_def rest_def)
next
  case False
  then show ?thesis
    by (cases "rest p" rule: take_u16.cases) (auto simp: read_u16_def length_rest)
qed

lemma skip_refines: "map_option rest (skip n p) = map_option snd (take_n n (rest p))"
  by (simp add: skip_def take_n_def length_rest rest_advance)

lemma read_slice_refines: "map_option (apsnd rest) (read_slice n p) = take_n n (rest p)"
  by (simp add: read_slice_def take_n_def length_rest rest_advance) (simp add: rest_def)

text \<open>Refinement rules in the shape of the \<open>?\<close> chains: one read on the cursor against one
  step on the unread bytes, the continuations related by \<open>rest\<close>.\<close>

lemma case_u8_eq:
  assumes "s = rest p" "\<And>v q. read_u8 p = Some (v, q) \<Longrightarrow> F v q = G v (rest q)"
  shows "(case read_u8 p of None \<Rightarrow> None | Some (v, q) \<Rightarrow> F v q) =
         (case take_u8 s of None \<Rightarrow> None | Some (v, r) \<Rightarrow> G v r)"
  using read_u8_refines [of p, symmetric] assms by (cases "read_u8 p") auto

lemma case_u16_eq:
  assumes "s = rest p" "\<And>v q. read_u16 p = Some (v, q) \<Longrightarrow> F v q = G v (rest q)"
  shows "(case read_u16 p of None \<Rightarrow> None | Some (v, q) \<Rightarrow> F v q) =
         (case take_u16 s of None \<Rightarrow> None | Some (v, r) \<Rightarrow> G v r)"
  using read_u16_refines [of p, symmetric] assms by (cases "read_u16 p") auto

lemma case_slice_eq:
  assumes "s = rest p" "\<And>d q. read_slice n p = Some (d, q) \<Longrightarrow> F d q = G d (rest q)"
  shows "(case read_slice n p of None \<Rightarrow> None | Some (d, q) \<Rightarrow> F d q) =
         (case take_n n s of None \<Rightarrow> None | Some (d, r) \<Rightarrow> G d r)"
  using read_slice_refines [of n p, symmetric] assms by (cases "read_slice n p") auto

lemma bind_u8_eq:
  assumes "s = rest p" "\<And>v q. F v q = G v (rest q)"
  shows "Option.bind (read_u8 p) (\<lambda>(v, q). F v q) = Option.bind (take_u8 s) (\<lambda>(v, r). G v r)"
  using read_u8_refines [of p, symmetric] assms by (cases "read_u8 p") auto

lemma bind_u16_eq:
  assumes "s = rest p" "\<And>v q. F v q = G v (rest q)"
  shows "Option.bind (read_u16 p) (\<lambda>(v, q). F v q) = Option.bind (take_u16 s) (\<lambda>(v, r). G v r)"
  using read_u16_refines [of p, symmetric] assms by (cases "read_u16 p") auto

lemma bind_slice_eq:
  assumes "s = rest p" "\<And>d q. F d q = G d (rest q)"
  shows "Option.bind (read_slice n p) (\<lambda>(d, q). F d q) = Option.bind (take_n n s) (\<lambda>(d, r). G d r)"
  using read_slice_refines [of n p, symmetric] assms by (cases "read_slice n p") auto

lemma bind_skip_eq:
  assumes "s = rest p" "\<And>q. F q = G (rest q)"
  shows "Option.bind (skip n p) F = Option.bind (take_n n s) (\<lambda>(_, r). G r)"
  using skip_refines [of n p] assms by (cases "skip n p"; cases "take_n n s") auto

lemma if_None_eq: "b = c \<Longrightarrow> X = Y \<Longrightarrow> (if b then None else X) = (if c then None else Y)"
  by simp

lemma sni_name_loop_refines: "sni_name_loop p = spec_names (rest p)"
proof (induction p rule: sni_name_loop.induct)
  case (1 p)
  show ?case
  proof (cases "remaining p > 0")
    case True
    then have "rest p \<noteq> []" by (simp add: length_rest)
    then show ?thesis
      unfolding sni_name_loop.simps [of p] spec_names.simps [of "rest p"] using True
      by (simp add: 1 cong: if_cong, intro case_u8_eq case_u16_eq case_slice_eq refl) (simp add: 1 True)
  next
    case False
    then show ?thesis by (simp add: sni_name_loop.simps [of p] spec_names.simps [of "[]"] length_rest)
  qed
qed

lemma parse_sni_extension_refines: "parse_sni_extension d = spec_sni_extension d"
  unfolding parse_sni_extension_def spec_sni_extension_def
  by (intro case_u16_eq) (simp_all add: length_rest sni_name_loop_refines)

lemma extension_loop_refines: "extension_loop p = spec_extensions (rest p)"
proof (induction p rule: extension_loop.induct)
  case (1 p)
  show ?case
  proof (cases "remaining p \<ge> 4")
    case True
    then have "\<not> length (rest p) < 4" by (simp add: length_rest)
    then show ?thesis
      unfolding extension_loop.simps [of p] spec_extensions.simps [of "rest p"] using True
      by (simp, intro case_u16_eq case_slice_eq refl) (simp add: 1 parse_sni_extension_refines)
  next
    case False
    then show ?thesis by (simp add: extension_loop.simps [of p] spec_extensions.simps [of "rest p"] length_rest)
  qed
qed

definition spec_sni :: "bytes \<Rightarrow> bytes option" where
  "spec_sni s = do {
     (record_type, s) \<leftarrow> take_u8 s;
     if record_type \<noteq> 0x16 then None else do {
     (_, s) \<leftarrow> take_n 2 s;
     (_, s) \<leftarrow> take_n 2 s;
     (handshake_type, s) \<leftarrow> take_u8 s;
     if handshake_type \<noteq> 0x01 then None else do {
     (_, s) \<leftarrow> take_n 3 s;
     (_, s) \<leftarrow> take_n 2 s;
     (_, s) \<leftarrow> take_n 32 s;
     (session_id_len, s) \<leftarrow> take_u8 s;
     (_, s) \<leftarrow> take_n session_id_len s;
     (cipher_suites_len, s) \<leftarrow> take_u16 s;
     (_, s) \<leftarrow> take_n cipher_suites_len s;
     (compression_len, s) \<leftarrow> take_u8 s;
     (_, s) \<leftarrow> take_n compression_len s;
     if length s < 2 then None else do {
     (extensions_len, s) \<leftarrow> take_u16 s;
     (ext_bytes, _) \<leftarrow> take_n extensions_len s;
     spec_extensions ext_bytes }}}}"

lemma parse_sni_spec: "parse_sni buf = spec_sni buf"
  unfolding parse_sni_def spec_sni_def
  by (intro bind_u8_eq bind_u16_eq bind_slice_eq bind_skip_eq if_None_eq)
     (simp_all add: length_rest extension_loop_refines)

section \<open>Properties\<close>

lemma take_u8_append: "take_u8 s = Some (v, r) \<Longrightarrow> take_u8 (s @ t) = Some (v, r @ t)"
  by (cases s) auto

lemma take_u16_append: "take_u16 s = Some (v, r) \<Longrightarrow> take_u16 (s @ t) = Some (v, r @ t)"
  by (cases s rule: take_u16.cases) auto

lemma take_n_append: "take_n n s = Some (d, r) \<Longrightarrow> take_n n (s @ t) = Some (d, r @ t)"
  by (auto simp: take_n_def split: if_splits)

lemma take_u8_suffix: "take_u8 s = Some (v, r) \<Longrightarrow> suffix r s"
  by (cases s) (auto simp: suffix_ConsI)

lemma take_u16_suffix: "take_u16 s = Some (v, r) \<Longrightarrow> suffix r s"
  by (cases s rule: take_u16.cases) (auto simp: suffix_ConsI)

text \<open>Parsers whose success does not change when bytes are appended to the input.\<close>

definition extendable :: "(bytes \<Rightarrow> 'a option) \<Rightarrow> bool" where
  "extendable f \<longleftrightarrow> (\<forall>s t n. f s = Some n \<longrightarrow> f (s @ t) = Some n)"

lemma extendable_u8:
  "(\<And>v. extendable (F v)) \<Longrightarrow> extendable (\<lambda>s. Option.bind (take_u8 s) (\<lambda>(v, r). F v r))"
  unfolding extendable_def by (auto simp: bind_eq_Some_conv) (blast dest: take_u8_append)

lemma extendable_u16:
  "(\<And>v. extendable (F v)) \<Longrightarrow> extendable (\<lambda>s. Option.bind (take_u16 s) (\<lambda>(v, r). F v r))"
  unfolding extendable_def by (auto simp: bind_eq_Some_conv) (blast dest: take_u16_append)

lemma extendable_n:
  "(\<And>d. extendable (F d)) \<Longrightarrow> extendable (\<lambda>s. Option.bind (take_n n s) (\<lambda>(d, r). F d r))"
  unfolding extendable_def by (auto simp: bind_eq_Some_conv) (blast dest: take_n_append)

lemma extendable_const: "extendable (\<lambda>s. c)"
  by (simp add: extendable_def)

lemma extendable_if: "extendable F \<Longrightarrow> extendable (\<lambda>s. if b then None else F s)"
  by (cases b) (simp_all add: extendable_const)

lemma extendable_if_length: "extendable F \<Longrightarrow> extendable (\<lambda>s. if length s < k then None else F s)"
  unfolding extendable_def by (auto split: if_splits)

lemma spec_sni_extendable: "extendable spec_sni"
  unfolding spec_sni_def
  by (intro extendable_u8 extendable_u16 extendable_n extendable_if_length extendable_if extendable_const)

lemma spec_names_sublist: "spec_names s = Some n \<Longrightarrow> sublist n s \<and> utf8_valid n"
proof (induction s rule: spec_names.induct)
  case (1 s)
  from 1(2) obtain t s1 l s2 d s3 where
    c: "take_u8 s = Some (t, s1)" "take_u16 s1 = Some (l, s2)" "take_n l s2 = Some (d, s3)"
    and r: "(if t = 0 then from_utf8 d else spec_names s3) = Some n" and ne: "s \<noteq> []"
    by (subst (asm) spec_names.simps) (auto split: if_splits option.splits prod.splits)
  have "suffix s2 s" using take_u8_suffix [OF c(1)] take_u16_suffix [OF c(2)] by (rule suffix_order.trans [rotated])
  then have s: "\<exists>x. s = x @ d @ s3" using take_n_Some [OF c(3)] by (auto simp: suffix_def)
  show ?case
  proof (cases "t = 0")
    case True
    with r s show ?thesis by (auto simp: from_utf8_Some_iff)
  next
    case False
    with r have "spec_names s3 = Some n" by simp
    with 1(1) ne c False have "sublist n s3 \<and> utf8_valid n" by blast
    moreover have "sublist s3 s" using s by (metis append.assoc sublist_append_leftI)
    ultimately show ?thesis by (blast intro: sublist_order.order.trans)
  qed
qed

text \<open>A ClientHello as RFC 8446 and RFC 6066 lay it out, the lengths in big-endian.\<close>

definition u16_be :: "nat \<Rightarrow> bytes" where
  "u16_be n = [char_of (n div 256), char_of (n mod 256)]"

definition enc_ext :: "nat \<times> bytes \<Rightarrow> bytes" where
  "enc_ext e = u16_be (fst e) @ u16_be (length (snd e)) @ snd e"

definition enc_sni :: "bytes \<Rightarrow> bytes" where
  "enc_sni name = u16_be (length name + 3) @ [CHR 0x00] @ u16_be (length name) @ name"

record client_hello =
  ch_record_version :: bytes
  ch_record_length :: bytes
  ch_handshake_length :: bytes
  ch_legacy_version :: bytes
  ch_random :: bytes
  ch_session_id :: bytes
  ch_cipher_suites :: bytes
  ch_compression :: bytes
  ch_extensions :: bytes

definition wf_client_hello :: "client_hello \<Rightarrow> bool" where
  "wf_client_hello h \<longleftrightarrow> length (ch_record_version h) = 2 \<and> length (ch_record_length h) = 2 \<and>
     length (ch_handshake_length h) = 3 \<and> length (ch_legacy_version h) = 2 \<and>
     length (ch_random h) = 32 \<and> length (ch_session_id h) < 256 \<and>
     length (ch_cipher_suites h) < 65536 \<and> length (ch_compression h) < 256 \<and>
     length (ch_extensions h) < 65536"

definition enc_client_hello :: "client_hello \<Rightarrow> bytes" where
  "enc_client_hello h =
     [CHR 0x16] @ ch_record_version h @ ch_record_length h @
     [CHR 0x01] @ ch_handshake_length h @ ch_legacy_version h @ ch_random h @
     [char_of (length (ch_session_id h))] @ ch_session_id h @
     u16_be (length (ch_cipher_suites h)) @ ch_cipher_suites h @
     [char_of (length (ch_compression h))] @ ch_compression h @
     u16_be (length (ch_extensions h)) @ ch_extensions h"

lemma take_u16_be [simp]: "n < 65536 \<Longrightarrow> take_u16 (u16_be n @ s) = Some (n, s)"
  by (simp add: u16_be_def)

lemma take_n_exact [simp]: "length d = n \<Longrightarrow> take_n n (d @ s) = Some (d, s)"
  by (simp add: take_n_def)

lemma take_n_all [simp]: "length d = n \<Longrightarrow> take_n n d = Some (d, [])"
  by (simp add: take_n_def)

lemma length_u16_be [simp]: "length (u16_be n) = 2"
  by (simp add: u16_be_def)

lemma spec_sni_extension_enc:
  assumes "length name + 3 < 65536"
  shows "spec_sni_extension (enc_sni name) = from_utf8 name"
  using assms by (simp add: spec_sni_extension_def enc_sni_def spec_names.simps)

lemma spec_extensions_step:
  assumes "t < 65536" "length d < 65536"
  shows "spec_extensions (enc_ext (t, d) @ s) = (if t = 0 then spec_sni_extension d else spec_extensions s)"
  using assms by (subst spec_extensions.simps) (simp add: enc_ext_def)

lemma spec_extensions_enc:
  assumes "list_all (\<lambda>e. fst e \<noteq> 0 \<and> fst e < 65536 \<and> length (snd e) < 65536) pre"
    and "length name + 5 < 65536"
  shows "spec_extensions (concat (map enc_ext pre) @ enc_ext (0, enc_sni name) @ post) = from_utf8 name"
  using assms
proof (induction pre)
  case Nil
  have "length (enc_sni name) = length name + 5" by (simp add: enc_sni_def)
  with Nil show ?case by (simp add: spec_extensions_step spec_sni_extension_enc)
next
  case (Cons e pre)
  then show ?case by (cases e) (simp add: spec_extensions_step)
qed

lemma spec_sni_enc:
  "wf_client_hello h \<Longrightarrow> spec_sni (enc_client_hello h) = spec_extensions (ch_extensions h)"
  by (simp add: spec_sni_def enc_client_hello_def wf_client_hello_def)

text \<open>C13: For every well-formed ClientHello whose extension block holds, after any extensions of
  other types and before any further bytes, a server_name extension with one host_name
  entry, \<open>parse_sni\<close> returns exactly that name (\<open>None\<close> if it is not UTF-8), whatever bytes
  follow the message.
\<close>
theorem parse_sni_roundtrip:
  assumes "wf_client_hello h"
    and "ch_extensions h = concat (map enc_ext pre) @ enc_ext (0, enc_sni name) @ post"
    and "list_all (\<lambda>e. fst e \<noteq> 0 \<and> fst e < 65536 \<and> length (snd e) < 65536) pre"
    and "utf8_valid name"
  shows "parse_sni (enc_client_hello h @ trailing) = Some name"
proof -
  have "length name + 5 < 65536"
    using assms(1,2) by (simp add: wf_client_hello_def enc_ext_def enc_sni_def)
  then have "spec_sni (enc_client_hello h) = Some name"
    using assms by (simp add: spec_sni_enc spec_extensions_enc from_utf8_def)
  then show ?thesis
    using spec_sni_extendable by (simp add: parse_sni_spec extendable_def)
qed

theorem parse_sni_roundtrip_witness:
  "parse_sni (enc_client_hello \<lparr>ch_record_version = [CHR 0x03, CHR 0x01], ch_record_length = [CHR 0x00, CHR 0xC2],
     ch_handshake_length = [CHR 0x00, CHR 0x00, CHR 0xBE], ch_legacy_version = [CHR 0x03, CHR 0x03],
     ch_random = replicate 32 (CHR 0x07), ch_session_id = [], ch_cipher_suites = [CHR 0x13, CHR 0x01],
     ch_compression = [CHR 0x00],
     ch_extensions = enc_ext (10, [CHR 0x01]) @ enc_ext (0, enc_sni ''google.com'')\<rparr> @ ''x'')
   = Some ''google.com''"
  by (rule parse_sni_roundtrip [where pre = "[(10, [CHR 0x01])]" and post = "[]"])
     (simp_all add: wf_client_hello_def enc_ext_def enc_sni_def u16_be_def)

lemma spec_extensions_sublist: "spec_extensions s = Some n \<Longrightarrow> sublist n s \<and> utf8_valid n"
proof (induction s rule: spec_extensions.induct)
  case (1 s)
  from 1(2) obtain t s1 l s2 d s3 where
    c: "take_u16 s = Some (t, s1)" "take_u16 s1 = Some (l, s2)" "take_n l s2 = Some (d, s3)"
    and r: "(if t = 0 then spec_sni_extension d else spec_extensions s3) = Some n" and ge: "\<not> length s < 4"
    by (subst (asm) spec_extensions.simps) (auto split: if_splits option.splits prod.splits)
  have "suffix s2 s" using take_u16_suffix [OF c(1)] take_u16_suffix [OF c(2)] by (rule suffix_order.trans [rotated])
  then obtain x where s: "s = x @ d @ s3" using take_n_Some [OF c(3)] by (auto simp: suffix_def)
  show ?case
  proof (cases "t = 0")
    case True
    with r obtain l' d' where "take_u16 d = Some (l', d')" "spec_names d' = Some n"
      by (auto simp: spec_sni_extension_def split: option.splits if_splits)
    then have "sublist n d \<and> utf8_valid n"
      by (meson spec_names_sublist sublist_order.order.trans suffix_imp_sublist take_u16_suffix)
    moreover have "sublist d s" using s by auto
    ultimately show ?thesis by (blast intro: sublist_order.order.trans)
  next
    case False
    with r have "spec_extensions s3 = Some n" by simp
    with 1(1) ge c False have "sublist n s3 \<and> utf8_valid n" by blast
    moreover have "sublist s3 s" using s by (metis append.assoc sublist_append_leftI)
    ultimately show ?thesis by (blast intro: sublist_order.order.trans)
  qed
qed

text \<open>A parser on the unread bytes whose result lies inside them.\<close>

definition inside :: "(bytes \<Rightarrow> bytes option) \<Rightarrow> bool" where
  "inside f \<longleftrightarrow> (\<forall>s n. f s = Some n \<longrightarrow> sublist n s \<and> utf8_valid n)"

lemma insideI: "(\<And>s n. f s = Some n \<Longrightarrow> sublist n s \<and> utf8_valid n) \<Longrightarrow> inside f"
  by (simp add: inside_def)

lemma inside_suffixI:
  assumes "f s = Some n" "inside f" "suffix s s'"
  shows "sublist n s' \<and> utf8_valid n"
  using assms by (meson inside_def sublist_order.order.trans suffix_imp_sublist)

lemma inside_u8: "(\<And>v. inside (F v)) \<Longrightarrow> inside (\<lambda>s. Option.bind (take_u8 s) (\<lambda>(v, r). F v r))"
  by (rule insideI) (auto simp: bind_eq_Some_conv dest: inside_suffixI [OF _ _ take_u8_suffix])

lemma inside_u16: "(\<And>v. inside (F v)) \<Longrightarrow> inside (\<lambda>s. Option.bind (take_u16 s) (\<lambda>(v, r). F v r))"
  by (rule insideI) (auto simp: bind_eq_Some_conv dest: inside_suffixI [OF _ _ take_u16_suffix])

lemma take_n_suffix: "take_n n s = Some (d, r) \<Longrightarrow> suffix r s"
  by (auto dest: take_n_Some simp: suffix_def)

lemma inside_n: "(\<And>d. inside (F d)) \<Longrightarrow> inside (\<lambda>s. Option.bind (take_n n s) (\<lambda>(d, r). F d r))"
  by (rule insideI) (auto simp: bind_eq_Some_conv dest: inside_suffixI [OF _ _ take_n_suffix])

lemma inside_if: "inside F \<Longrightarrow> inside (\<lambda>s. if b s then None else F s)"
  by (auto simp: inside_def split: if_splits)

lemma inside_slice: "inside F \<Longrightarrow> inside (\<lambda>s. Option.bind (take_n n s) (\<lambda>(d, _). F d))"
  unfolding inside_def
  by (auto simp: bind_eq_Some_conv dest!: take_n_Some) (metis sublist_append_rightI sublist_order.order.trans)

lemma spec_sni_inside: "inside spec_sni"
  unfolding spec_sni_def
  by (intro inside_u8 inside_u16 inside_if inside_slice inside_n)
     (simp_all add: inside_def spec_extensions_sublist)

text \<open>Whatever bytes arrive, a name returned by \<open>parse_sni\<close> is a contiguous part of the
  buffer and valid UTF-8: no length field can make the parser read past the data.
\<close>
theorem parse_sni_inside_buffer:
  "parse_sni buf = Some name \<Longrightarrow> sublist name buf \<and> utf8_valid name"
  using spec_sni_inside by (simp add: parse_sni_spec inside_def)

theorem parse_sni_inside_buffer_witness:
  "sublist ''a.b'' (enc_client_hello \<lparr>ch_record_version = [CHR 0x03, CHR 0x01], ch_record_length = [CHR 0x00, CHR 0x00],
     ch_handshake_length = [CHR 0x00, CHR 0x00, CHR 0x00], ch_legacy_version = [CHR 0x03, CHR 0x03],
     ch_random = replicate 32 (CHR 0x07), ch_session_id = [], ch_cipher_suites = [CHR 0x13, CHR 0x01],
     ch_compression = [CHR 0x00], ch_extensions = enc_ext (0, enc_sni ''a.b'')\<rparr>)"
  by (rule parse_sni_inside_buffer [THEN conjunct1])
     (simp add: parse_sni_spec spec_sni_enc wf_client_hello_def enc_ext_def enc_sni_def u16_be_def
        spec_extensions.simps spec_sni_extension_def spec_names.simps take_n_def)


text \<open>C14: the cursor parser refines its specification on lists of bytes: on every input, \<open>parse_sni\<close> with its
  positions and bounds checks gives exactly what the parser that consumes the bytes from the front
  gives, so no index arithmetic of the code can go wrong.\<close>
theorem parse_sni_refines: "parse_sni buf = spec_sni buf"
  by (rule parse_sni_spec)

end
