(* ===== verification/Proxy_Main.thy ===== *)
theory Proxy_Main
  imports Proxy_Request Mitm_Engine Tls_Parser
begin

text \<open>
  The connection handlers of \<^verbatim>\<open>src/main.rs\<close>: classification of the first bytes, the routing of TLS
  connections, interception with its fallback and automatic pinning, \<open>CONNECT\<close> tunnels and plain
  proxy requests. A handler is an action on the state that connections share; it gives an outcome,
  the network events of the connection in order, and the new state. A handler that waits for more
  bytes of the client than the environment holds is \<open>Waiting\<close>. The answers of the network, the
  clock and the file system are the connection's environment.
\<close>

definition MAX_PEEK_BYTES :: nat where "MAX_PEEK_BYTES = 8192"

definition AUTO_PIN_GRACE_PERIOD_SECS :: nat where "AUTO_PIN_GRACE_PERIOD_SECS = 60"

datatype tls_routing_decision = AttemptMitm | Passthrough

fun as_action :: "tls_routing_decision \<Rightarrow> bytes" where
  "as_action AttemptMitm = ''mitm''"
| "as_action Passthrough = ''passthrough''"

definition decide_tls_routing :: "bool \<Rightarrow> bool \<Rightarrow> tls_routing_decision" where
  "decide_tls_routing host_is_pinned mitm_enabled = (if \<not> host_is_pinned \<and> mitm_enabled then AttemptMitm else Passthrough)"

definition can_attempt_connect_mitm :: "bool \<Rightarrow> bool \<Rightarrow> bool \<Rightarrow> bool" where
  "can_attempt_connect_mitm host_is_pinned mitm_enabled has_early_tunnel_bytes \<longleftrightarrow>
    \<not> has_early_tunnel_bytes \<and> decide_tls_routing host_is_pinned mitm_enabled = AttemptMitm"

section \<open>Actions\<close>

text \<open>The events of a connection: bytes written to the client, a connection attempt to an address, bytes
  written to the server, the two-way copy between client and server until it ends, and the
  actions of an interception.\<close>

datatype net_event =
    ToClient bytes
  | ConnectTo bytes
  | ToServer bytes
  | Splice bytes
  | Tls client_action

record 'v conn_env =
  ce_json :: "'v json_api"
  ce_now :: u64
  ce_mono :: nat
  ce_client_ip :: bytes
  ce_peek :: "bytes io_result"
  ce_reads :: "bytes io_result list"
  ce_client_write :: "bytes \<Rightarrow> io_error option"
  ce_server_write :: "bytes \<Rightarrow> io_error option"
  ce_connect :: "bytes \<Rightarrow> io_error option"
  ce_tunnel :: "'v tunnel_env"
  ce_pin_fs :: fs_outcome

record proxy_world =
  pw_mitm :: mitm_world
  pw_pinned :: pinned_hosts

datatype 'a outcome = Finished 'a | Failed io_error | Waiting

type_synonym 'a action = "proxy_world \<Rightarrow> 'a outcome \<times> net_event list \<times> proxy_world"

definition ret :: "'a \<Rightarrow> 'a action" where
  "ret x w = (Finished x, [], w)"

definition fail :: "io_error \<Rightarrow> 'a action" where
  "fail e w = (Failed e, [], w)"

definition act_bind :: "'a action \<Rightarrow> ('a \<Rightarrow> 'b action) \<Rightarrow> 'b action" where
  "act_bind m f w =
    (case m w of
       (Finished x, ev, w) \<Rightarrow> (let (r, ev', w) = f x w in (r, ev @ ev', w))
     | (Failed e, ev, w) \<Rightarrow> (Failed e, ev, w)
     | (Waiting, ev, w) \<Rightarrow> (Waiting, ev, w))"

definition lift_io :: "'a io_result \<Rightarrow> 'a action" where
  "lift_io r = (case r of Inl e \<Rightarrow> fail e | Inr x \<Rightarrow> ret x)"

definition tally_act :: "(metrics \<Rightarrow> metrics) \<Rightarrow> (receipt_store \<Rightarrow> receipt_store) \<Rightarrow> unit action" where
  "tally_act f g w = (Finished (), [], w\<lparr>pw_mitm := (pw_mitm w)\<lparr>mw_tally := tick f g (mw_tally (pw_mitm w))\<rparr>\<rparr>)"

definition write_client :: "'v conn_env \<Rightarrow> bytes \<Rightarrow> unit action" where
  "write_client env b w = (case ce_client_write env b of Some e \<Rightarrow> Failed e | None \<Rightarrow> Finished (), [ToClient b], w)"

definition write_server :: "'v conn_env \<Rightarrow> bytes \<Rightarrow> unit action" where
  "write_server env b w = (case ce_server_write env b of Some e \<Rightarrow> Failed e | None \<Rightarrow> Finished (), [ToServer b], w)"

definition tcp_connect :: "'v conn_env \<Rightarrow> bytes \<Rightarrow> io_error option action" where
  "tcp_connect env target w = (Finished (ce_connect env target), [ConnectTo target], w)"

text \<open>The result of the copy is only logged.\<close>

definition copy_bidirectional :: "bytes \<Rightarrow> unit action" where
  "copy_bidirectional target w = (Finished (), [Splice target], w)"

definition read_headers :: "'v conn_env \<Rightarrow> (bytes \<times> bytes) action" where
  "read_headers env w = (case read_until_headers_complete [] (ce_reads env) of
     None \<Rightarrow> (Waiting, [], w) | Some r \<Rightarrow> lift_io r w)"

definition host_pinned :: "bytes \<Rightarrow> bool action" where
  "host_pinned host w = lift_io (pinned_contains (pw_pinned w) host) w"

definition send_http_error :: "'v conn_env \<Rightarrow> bytes \<Rightarrow> bytes \<Rightarrow> unit action" where
  "send_http_error env status message = write_client env (http_error status message)"

definition log_tls_routing_decision :: "'v conn_env \<Rightarrow> bytes \<Rightarrow> bytes \<Rightarrow> tls_routing_decision \<Rightarrow> bytes \<Rightarrow> unit action" where
  "log_tls_routing_decision env flow host decision reason =
    tally_act id (record_tls_routing_decision (ce_now env) flow host (as_action decision) reason)"

definition pin_host_after_tls_rejection :: "'v conn_env \<Rightarrow> bytes \<Rightarrow> bool action" where
  "pin_host_after_tls_rejection env host w =
    (let (d, ph, r) = add_and_persist (ce_json env) (ce_pin_fs env) (mw_disk (pw_mitm w)) (pw_pinned w) host
     in lift_io r (w\<lparr>pw_mitm := (pw_mitm w)\<lparr>mw_disk := d\<rparr>, pw_pinned := ph\<rparr>))"

section \<open>Handlers\<close>

definition tunnel :: "'v conn_env \<Rightarrow> bytes \<Rightarrow> bytes option \<Rightarrow> unit action" where
  "tunnel env target_addr initial_client_bytes =
    act_bind (tally_act inc_passthrough_tunnel_total id) (\<lambda>_.
    act_bind (tcp_connect env target_addr) (\<lambda>r.
    case r of Some e \<Rightarrow> fail e
    | None \<Rightarrow>
       act_bind (case initial_client_bytes of Some buf \<Rightarrow> if buf \<noteq> [] then write_server env buf else ret () | None \<Rightarrow> ret ()) (\<lambda>_.
       copy_bidirectional target_addr)))"

definition intercept :: "'v conn_env \<Rightarrow> policy_engine \<Rightarrow> bytes \<Rightarrow> (mitm_error + unit) action" where
  "intercept env e host w =
    (let (r, acts, mw) = intercept_tls_tunnel (ce_tunnel env) e host (Some (ce_client_ip env)) (pw_mitm w)
     in (Finished r, map Tls acts, w\<lparr>pw_mitm := mw\<rparr>))"

definition auto_pin :: "'v conn_env \<Rightarrow> bytes \<Rightarrow> unit action" where
  "auto_pin env host w =
    (if in_grace_period (pw_pinned w) (ce_mono env) (AUTO_PIN_GRACE_PERIOD_SECS * 1000000000) then ret () w
     else act_bind (pin_host_after_tls_rejection env host) (\<lambda>added.
       if added then tally_act inc_host_auto_pinned_total (record_host_auto_pinned (ce_now env) host) else ret ()) w)"

definition run_mitm_intercept :: "'v conn_env \<Rightarrow> policy_engine \<Rightarrow> bytes \<Rightarrow> bytes \<Rightarrow> unit action" where
  "run_mitm_intercept env e target_addr host =
    (let _ = on_mitm_session_start e host in
     act_bind (tally_act inc_mitm_attempt_total (record_mitm_attempt (ce_now env) host)) (\<lambda>_.
     act_bind (intercept env e host) (\<lambda>r.
     case r of
       Inr _ \<Rightarrow> tally_act inc_mitm_success_total (record_mitm_success (ce_now env) host)
     | Inl err \<Rightarrow>
        if is_benign_peer_close err then tally_act inc_mitm_success_total (record_mitm_success (ce_now env) host)
        else if is_upstream_tls_handshake_failure err then
          act_bind (auto_pin env host) (\<lambda>_.
          act_bind (tally_act inc_passthrough_tunnel_total id) (\<lambda>_.
          tunnel env target_addr None))
        else
          act_bind (tally_act inc_mitm_failure_total (record_mitm_failure (ce_now env) host)) (\<lambda>_.
          if is_client_tls_handshake_failure err then
            act_bind (tally_act inc_mitm_client_tls_reject_total (record_client_tls_reject (ce_now env) host)) (\<lambda>_.
            auto_pin env host)
          else ret ()))))"

definition handle_http_proxy :: "'v conn_env \<Rightarrow> unit action" where
  "handle_http_proxy env =
    act_bind (read_headers env) (\<lambda>(request_head, body_after_headers).
    case first_request_line request_head of
      None \<Rightarrow> fail (IoError InvalidData ''Malformed HTTP proxy request'')
    | Some request_line \<Rightarrow>
       (case rewrite_proxy_request request_line request_head of
          Inl message \<Rightarrow> send_http_error env ''400 Bad Request'' message
        | Inr (target_addr, rewritten_request) \<Rightarrow>
           act_bind (tcp_connect env target_addr) (\<lambda>r.
           case r of
             Some _ \<Rightarrow> send_http_error env ''502 Bad Gateway'' ''Failed to connect to upstream target.''
           | None \<Rightarrow>
              act_bind (write_server env rewritten_request) (\<lambda>_.
              act_bind (if body_after_headers \<noteq> [] then write_server env body_after_headers else ret ()) (\<lambda>_.
              copy_bidirectional target_addr)))))"

definition CONNECT_OK :: bytes where
  "CONNECT_OK = ''HTTP/1.1 200 Connection established'' @ CRLF @ ''Proxy-Agent: privacy-engine-rust/0.1'' @ CRLF @ CRLF"

definition connect_decision :: "bool \<Rightarrow> bool \<Rightarrow> bool \<Rightarrow> tls_routing_decision \<times> bytes" where
  "connect_decision host_is_pinned mitm has_early_tunnel_bytes =
    (let decision = decide_tls_routing host_is_pinned mitm;
         reason = (if host_is_pinned then ''host_is_pinned'' else if mitm then ''host_not_pinned_and_mitm_enabled'' else ''mitm_disabled'')
     in if decision = AttemptMitm \<and> has_early_tunnel_bytes then (Passthrough, ''early_tunnel_bytes'') else (decision, reason))"

definition connect_passthrough :: "'v conn_env \<Rightarrow> bytes \<Rightarrow> bytes \<Rightarrow> unit action" where
  "connect_passthrough env target_addr buffered_after_headers =
    act_bind (tally_act inc_passthrough_tunnel_total id) (\<lambda>_.
    act_bind (tcp_connect env target_addr) (\<lambda>r.
    case r of
      Some _ \<Rightarrow> send_http_error env ''502 Bad Gateway'' ''Failed to connect to upstream target.''
    | None \<Rightarrow>
       act_bind (write_client env CONNECT_OK) (\<lambda>_.
       act_bind (if buffered_after_headers \<noteq> [] then write_server env buffered_after_headers else ret ()) (\<lambda>_.
       copy_bidirectional target_addr))))"

definition handle_connect_tunnel :: "'v conn_env \<Rightarrow> bool \<Rightarrow> policy_engine \<Rightarrow> unit action" where
  "handle_connect_tunnel env mitm e =
    act_bind (read_headers env) (\<lambda>(request_head, buffered_after_headers).
    case first_request_line request_head of
      None \<Rightarrow> fail (IoError InvalidData ''Malformed CONNECT request: missing request line'')
    | Some request_line \<Rightarrow>
    (case parse_connect_target request_line of
      None \<Rightarrow> fail (IoError InvalidData (''Malformed CONNECT request line: '' @ request_line))
    | Some target_addr \<Rightarrow>
       let has_early_tunnel_bytes = (buffered_after_headers \<noteq> []) in
       (case host_from_authority target_addr of
          None \<Rightarrow> connect_passthrough env target_addr buffered_after_headers
        | Some host \<Rightarrow>
           act_bind (host_pinned host) (\<lambda>host_is_pinned.
           let (decision, reason) = connect_decision host_is_pinned mitm has_early_tunnel_bytes in
           act_bind (log_tls_routing_decision env ''connect'' host decision reason) (\<lambda>_.
           if mitm \<and> can_attempt_connect_mitm host_is_pinned True has_early_tunnel_bytes then
             act_bind (write_client env CONNECT_OK) (\<lambda>_. run_mitm_intercept env e target_addr host)
           else connect_passthrough env target_addr buffered_after_headers)))))"

definition handle_transparent :: "'v conn_env \<Rightarrow> bool \<Rightarrow> policy_engine \<Rightarrow> bytes \<Rightarrow> unit action" where
  "handle_transparent env mitm e sni =
    (let target_addr = sni @ '':443''; normalized_sni = to_ascii_lowercase sni in
     act_bind (host_pinned normalized_sni) (\<lambda>host_is_pinned.
     let decision = decide_tls_routing host_is_pinned mitm in
     case decision of
       AttemptMitm \<Rightarrow>
         act_bind (log_tls_routing_decision env ''transparent'' normalized_sni decision ''host_not_pinned_and_mitm_enabled'') (\<lambda>_.
         run_mitm_intercept env e target_addr normalized_sni)
     | Passthrough \<Rightarrow>
         act_bind (log_tls_routing_decision env ''transparent'' normalized_sni decision
            (if host_is_pinned then ''host_is_pinned'' else ''mitm_disabled'')) (\<lambda>_.
         tunnel env target_addr None)))"

definition handle_connection :: "'v conn_env \<Rightarrow> bool \<Rightarrow> policy_engine \<Rightarrow> unit action" where
  "handle_connection env mitm e =
    act_bind (lift_io (ce_peek env)) (\<lambda>bytes.
    let peeked = take MAX_PEEK_BYTES bytes in
    if peeked = [] then ret ()
    else if starts_with_ascii_case_insensitive peeked ''CONNECT '' then handle_connect_tunnel env mitm e
    else case parse_sni peeked of
      Some sni \<Rightarrow> handle_transparent env mitm e sni
    | None \<Rightarrow> if looks_like_http_request peeked then handle_http_proxy env else ret ())"

definition accept_connection :: "'v conn_env \<Rightarrow> bool \<Rightarrow> policy_engine \<Rightarrow> unit action" where
  "accept_connection env mitm e = act_bind (tally_act inc_connection_total id) (\<lambda>_. handle_connection env mitm e)"


section \<open>Running actions\<close>

lemma act_bind_ret [simp]: "act_bind (ret x) f w = f x w"
  by (simp add: act_bind_def ret_def case_prod_unfold)

lemma act_bind_fail [simp]: "act_bind (fail e) f w = (Failed e, [], w)"
  by (simp add: act_bind_def fail_def)

lemma act_bind_lift_io: "act_bind (lift_io r) f w = (case r of Inl e \<Rightarrow> (Failed e, [], w) | Inr x \<Rightarrow> f x w)"
  by (cases r) (simp_all add: lift_io_def)

lemma act_bind_host_pinned:
  "act_bind (host_pinned h) f w = (case pinned_contains (pw_pinned w) h of Inl e \<Rightarrow> (Failed e, [], w) | Inr b \<Rightarrow> f b w)"
  by (cases "pinned_contains (pw_pinned w) h") (simp_all add: act_bind_def host_pinned_def lift_io_def fail_def ret_def case_prod_unfold)

lemma act_bind_read_headers:
  "act_bind (read_headers env) f w = (case read_until_headers_complete [] (ce_reads env) of
     None \<Rightarrow> (Waiting, [], w) | Some (Inl e) \<Rightarrow> (Failed e, [], w) | Some (Inr x) \<Rightarrow> f x w)"
  by (auto simp: act_bind_def read_headers_def lift_io_def fail_def ret_def case_prod_unfold split: option.splits sum.splits)

definition tallied :: "(metrics \<Rightarrow> metrics) \<Rightarrow> (receipt_store \<Rightarrow> receipt_store) \<Rightarrow> proxy_world \<Rightarrow> proxy_world" where
  "tallied f g w = w\<lparr>pw_mitm := (pw_mitm w)\<lparr>mw_tally := tick f g (mw_tally (pw_mitm w))\<rparr>\<rparr>"

lemma tally_act_run: "tally_act f g w = (Finished (), [], tallied f g w)"
  by (simp add: tally_act_def tallied_def)

lemma act_bind_tally [simp]: "act_bind (tally_act f g) k w = k () (tallied f g w)"
  by (simp add: act_bind_def tally_act_run case_prod_unfold)

lemma tallied_frame [simp]:
  "pw_pinned (tallied f g w) = pw_pinned w" "mw_disk (pw_mitm (tallied f g w)) = mw_disk (pw_mitm w)"
  "mw_engine (pw_mitm (tallied f g w)) = mw_engine (pw_mitm w)" "mw_pins (pw_mitm (tallied f g w)) = mw_pins (pw_mitm w)"
  "mw_tally (pw_mitm (tallied f g w)) = tick f g (mw_tally (pw_mitm w))"
  by (simp_all add: tallied_def)

text \<open>What an action may do: a relation between the states before and after, and a predicate on its events.\<close>

definition keeps :: "(proxy_world \<Rightarrow> proxy_world \<Rightarrow> bool) \<Rightarrow> (net_event \<Rightarrow> bool) \<Rightarrow> 'a action \<Rightarrow> bool" where
  "keeps R E m \<longleftrightarrow> (\<forall>w r ev w'. m w = (r, ev, w') \<longrightarrow> R w w' \<and> (\<forall>x \<in> set ev. E x))"

lemma keepsI: "(\<And>w r ev w'. m w = (r, ev, w') \<Longrightarrow> R w w' \<and> (\<forall>x \<in> set ev. E x)) \<Longrightarrow> keeps R E m"
  by (simp add: keeps_def)

lemma keepsD: "keeps R E m \<Longrightarrow> m w = (r, ev, w') \<Longrightarrow> R w w' \<and> (\<forall>x \<in> set ev. E x)"
  unfolding keeps_def by blast

locale action_frame =
  fixes R :: "proxy_world \<Rightarrow> proxy_world \<Rightarrow> bool"
  assumes frame_refl: "R w w"
    and frame_trans: "R u v \<Longrightarrow> R v w \<Longrightarrow> R u w"
    and frame_tally: "R w (tallied f g w)"
begin

lemma keeps_bind: "keeps R E m \<Longrightarrow> (\<And>x. keeps R E (f x)) \<Longrightarrow> keeps R E (act_bind m f)"
proof (rule keepsI)
  fix w r ev w'
  assume m: "keeps R E m" and f: "\<And>x. keeps R E (f x)" and run: "act_bind m f w = (r, ev, w')"
  obtain r1 ev1 w1 where m1: "m w = (r1, ev1, w1)" by (cases "m w") auto
  note R1 = keepsD [OF m m1]
  show "R w w' \<and> (\<forall>x \<in> set ev. E x)"
  proof (cases r1)
    case (Finished x)
    obtain r2 ev2 w2 where f1: "f x w1 = (r2, ev2, w2)" by (cases "f x w1") auto
    have "ev = ev1 @ ev2 \<and> w' = w2" using run by (simp add: act_bind_def m1 f1 Finished)
    with R1 keepsD [OF f f1] frame_trans show ?thesis by auto
  qed (use run R1 in \<open>auto simp: act_bind_def m1\<close>)
qed

lemma keeps_ret: "keeps R E (ret x)" and keeps_fail: "keeps R E (fail e)"
  by (auto simp: keeps_def ret_def fail_def frame_refl)

lemma keeps_lift_io: "keeps R E (lift_io r)"
  by (cases r) (auto simp: lift_io_def intro: keeps_ret keeps_fail)

lemma keeps_tally: "keeps R E (tally_act f g)"
  by (auto simp: keeps_def tally_act_run frame_tally)

lemma keeps_write_client: "(\<And>b. E (ToClient b)) \<Longrightarrow> keeps R E (write_client env b)"
  and keeps_write_server: "(\<And>b. E (ToServer b)) \<Longrightarrow> keeps R E (write_server env b)"
  and keeps_connect: "(\<And>b. E (ConnectTo b)) \<Longrightarrow> keeps R E (tcp_connect env t)"
  and keeps_copy: "(\<And>b. E (Splice b)) \<Longrightarrow> keeps R E (copy_bidirectional t)"
  by (auto simp: keeps_def write_client_def write_server_def tcp_connect_def copy_bidirectional_def frame_refl)

lemma keeps_host_pinned: "keeps R E (host_pinned h)"
  unfolding host_pinned_def by (rule keepsI) (erule keepsD [OF keeps_lift_io])

lemma keeps_read_headers: "keeps R E (read_headers env)"
proof (rule keepsI)
  fix w r ev w'
  assume run: "read_headers env w = (r, ev, w')"
  show "R w w' \<and> (\<forall>x \<in> set ev. E x)"
  proof (cases "read_until_headers_complete [] (ce_reads env)")
    case (Some x)
    with run have "lift_io x w = (r, ev, w')" by (simp add: read_headers_def)
    then show ?thesis by (rule keepsD [OF keeps_lift_io])
  qed (use run in \<open>simp add: read_headers_def frame_refl\<close>)
qed

lemma keeps_option: "(\<And>y. x = Some y \<Longrightarrow> keeps R E (s y)) \<Longrightarrow> (x = None \<Longrightarrow> keeps R E n) \<Longrightarrow> keeps R E (case x of Some y \<Rightarrow> s y | None \<Rightarrow> n)"
  by (cases x) auto

lemma keeps_if: "(b \<Longrightarrow> keeps R E m) \<Longrightarrow> (\<not> b \<Longrightarrow> keeps R E n) \<Longrightarrow> keeps R E (if b then m else n)"
  by simp

lemmas keeps_intros = keeps_bind keeps_ret keeps_fail keeps_lift_io keeps_tally keeps_write_client keeps_write_server keeps_connect
  keeps_copy keeps_host_pinned keeps_read_headers keeps_option keeps_if

lemma keeps_tunnel:
  "(\<And>b. E (ToServer b)) \<Longrightarrow> (\<And>b. E (ConnectTo b)) \<Longrightarrow> (\<And>b. E (Splice b)) \<Longrightarrow> keeps R E (tunnel env t i)"
  unfolding tunnel_def by (intro keeps_intros) simp_all

lemma keeps_connect_passthrough:
  "(\<And>b. E (ToClient b)) \<Longrightarrow> (\<And>b. E (ToServer b)) \<Longrightarrow> (\<And>b. E (ConnectTo b)) \<Longrightarrow> (\<And>b. E (Splice b)) \<Longrightarrow>
     keeps R E (connect_passthrough env t b)"
  unfolding connect_passthrough_def send_http_error_def by (intro keeps_intros) simp_all

lemma keeps_http_proxy:
  assumes "\<And>b. E (ToClient b)" "\<And>b. E (ToServer b)" "\<And>b. E (ConnectTo b)" "\<And>b. E (Splice b)"
  shows "keeps R E (handle_http_proxy env)"
proof -
  have "keeps R E (case rewrite_proxy_request l h of Inl m \<Rightarrow> f m | Inr (t, q) \<Rightarrow> g t q)"
    if "\<And>m. keeps R E (f m)" "\<And>t q. keeps R E (g t q)" for l h f g
    using that by (cases "rewrite_proxy_request l h") auto
  then show ?thesis
    unfolding handle_http_proxy_def send_http_error_def case_prod_unfold
    by (intro keeps_intros assms) (auto intro!: keeps_intros assms split: sum.split)
qed

end


definition same_tls :: "proxy_world \<Rightarrow> proxy_world \<Rightarrow> bool" where
  "same_tls w w' \<longleftrightarrow> pw_pinned w' = pw_pinned w \<and> mw_engine (pw_mitm w') = mw_engine (pw_mitm w) \<and>
     mw_pins (pw_mitm w') = mw_pins (pw_mitm w) \<and> mw_disk (pw_mitm w') = mw_disk (pw_mitm w)"

interpretation untouched: action_frame same_tls
  by unfold_locales (simp_all add: same_tls_def)

definition pins_grow :: "proxy_world \<Rightarrow> proxy_world \<Rightarrow> bool" where
  "pins_grow w w' \<longleftrightarrow> ph_hosts (pw_pinned w) \<subseteq> ph_hosts (pw_pinned w') \<and> ph_path (pw_pinned w') = ph_path (pw_pinned w) \<and>
     ph_poisoned (pw_pinned w') = ph_poisoned (pw_pinned w) \<and> ph_created_at (pw_pinned w') = ph_created_at (pw_pinned w)"

interpretation growing: action_frame pins_grow
  by unfold_locales (auto simp: pins_grow_def)

section \<open>Which connections are intercepted\<close>

definition no_tls :: "net_event \<Rightarrow> bool" where
  "no_tls x \<longleftrightarrow> (case x of Tls _ \<Rightarrow> False | _ \<Rightarrow> True)"

lemma no_tls_simps [simp]:
  "no_tls (ToClient b)" "no_tls (ToServer b)" "no_tls (ConnectTo b)" "no_tls (Splice b)" "\<not> no_tls (Tls a)"
  by (simp_all add: no_tls_def)

lemmas quiet_handlers =
  untouched.keeps_tunnel [where E = no_tls, simplified]
  untouched.keeps_connect_passthrough [where E = no_tls, simplified]
  untouched.keeps_http_proxy [where E = no_tls, simplified]

text \<open>The host that a connection asks for: the authority of its \<open>CONNECT\<close> request, or its server name.\<close>

definition connect_request :: "'v conn_env \<Rightarrow> (bytes \<times> bytes) option" where
  "connect_request env =
    (case read_until_headers_complete [] (ce_reads env) of
       Some (Inr (head, early)) \<Rightarrow>
         map_option (\<lambda>t. (t, early)) (Option.bind (first_request_line head) parse_connect_target)
     | _ \<Rightarrow> None)"

definition requested_host :: "'v conn_env \<Rightarrow> bytes option" where
  "requested_host env =
    (case ce_peek env of Inl _ \<Rightarrow> None
     | Inr b \<Rightarrow>
        let peeked = take MAX_PEEK_BYTES b in
        if peeked = [] then None
        else if starts_with_ascii_case_insensitive peeked ''CONNECT '' then
          Option.bind (connect_request env) (\<lambda>(t, early). host_from_authority t)
        else map_option to_ascii_lowercase (parse_sni peeked))"

lemma connect_tunnel_run:
  "handle_connect_tunnel env mitm e w =
    (case connect_request env of
       None \<Rightarrow> (case read_until_headers_complete [] (ce_reads env) of
           None \<Rightarrow> (Waiting, [], w)
         | Some (Inl x) \<Rightarrow> (Failed x, [], w)
         | Some (Inr (head, early)) \<Rightarrow> (Failed (IoError InvalidData (case first_request_line head of
               None \<Rightarrow> ''Malformed CONNECT request: missing request line'' | Some l \<Rightarrow> ''Malformed CONNECT request line: '' @ l)), [], w))
     | Some (t, early) \<Rightarrow>
        (case host_from_authority t of None \<Rightarrow> connect_passthrough env t early w
         | Some host \<Rightarrow>
           (case pinned_contains (pw_pinned w) host of Inl x \<Rightarrow> (Failed x, [], w)
            | Inr pinned \<Rightarrow>
               let (decision, reason) = connect_decision pinned mitm (early \<noteq> []);
                   w = tallied id (record_tls_routing_decision (ce_now env) ''connect'' host (as_action decision) reason) w
               in if mitm \<and> \<not> pinned \<and> early = [] then act_bind (write_client env CONNECT_OK) (\<lambda>_. run_mitm_intercept env e t host) w
                  else connect_passthrough env t early w)))"
  unfolding handle_connect_tunnel_def act_bind_read_headers connect_request_def log_tls_routing_decision_def
  by (auto simp: act_bind_host_pinned fail_def can_attempt_connect_mitm_def decide_tls_routing_def Let_def
      split: option.splits sum.splits prod.splits)

lemma transparent_run:
  "handle_transparent env mitm e sni w =
    (case pinned_contains (pw_pinned w) (to_ascii_lowercase sni) of Inl x \<Rightarrow> (Failed x, [], w)
     | Inr pinned \<Rightarrow>
        if mitm \<and> \<not> pinned then
          run_mitm_intercept env e (sni @ '':443'') (to_ascii_lowercase sni)
            (tallied id (record_tls_routing_decision (ce_now env) ''transparent'' (to_ascii_lowercase sni) ''mitm'' ''host_not_pinned_and_mitm_enabled'') w)
        else tunnel env (sni @ '':443'') None
            (tallied id (record_tls_routing_decision (ce_now env) ''transparent'' (to_ascii_lowercase sni) ''passthrough''
               (if pinned then ''host_is_pinned'' else ''mitm_disabled'')) w))"
  unfolding handle_transparent_def log_tls_routing_decision_def Let_def act_bind_host_pinned
  by (auto simp: decide_tls_routing_def split: sum.splits)

lemma connection_run:
  "handle_connection env mitm e w =
    (case ce_peek env of Inl x \<Rightarrow> (Failed x, [], w)
     | Inr b \<Rightarrow>
        let peeked = take MAX_PEEK_BYTES b in
        if peeked = [] then ret () w
        else if starts_with_ascii_case_insensitive peeked ''CONNECT '' then handle_connect_tunnel env mitm e w
        else (case parse_sni peeked of Some sni \<Rightarrow> handle_transparent env mitm e sni w
              | None \<Rightarrow> if looks_like_http_request peeked then handle_http_proxy env w else ret () w))"
  by (simp add: handle_connection_def act_bind_lift_io Let_def split: sum.split option.split)

lemma same_tls_tallied: "same_tls (tallied f g w) w' \<Longrightarrow> same_tls w w'"
  by (simp add: same_tls_def)

lemma quiet_transparent:
  assumes "handle_transparent env mitm e sni w = (r, ev, w')"
    and "\<not> mitm \<or> pinned_contains (pw_pinned w) (to_ascii_lowercase sni) \<noteq> Ok False"
  shows "same_tls w w' \<and> (\<forall>x \<in> set ev. no_tls x)"
proof (cases "pinned_contains (pw_pinned w) (to_ascii_lowercase sni)")
  case (Inl x)
  then show ?thesis using assms by (simp add: transparent_run untouched.frame_refl)
next
  case (Inr pinned)
  then have "\<exists>g. tunnel env (sni @ '':443'') None (tallied id g w) = (r, ev, w')"
    using assms by (auto simp: transparent_run)
  then show ?thesis using keepsD [OF quiet_handlers(1)] same_tls_tallied by metis
qed

lemma quiet_connect_tunnel:
  assumes "handle_connect_tunnel env mitm e w = (r, ev, w')"
    and "mitm \<Longrightarrow> connect_request env = Some (t, []) \<Longrightarrow> host_from_authority t = Some h \<Longrightarrow> pinned_contains (pw_pinned w) h \<noteq> Ok False"
    and "connect_request env = Some (t, early)" "host_from_authority t = Some h"
  shows "same_tls w w' \<and> (\<forall>x \<in> set ev. no_tls x)"
proof (cases "pinned_contains (pw_pinned w) h")
  case (Inl x)
  then show ?thesis using assms by (simp add: connect_tunnel_run untouched.frame_refl)
next
  case (Inr pinned)
  obtain decision reason where d: "connect_decision pinned mitm (early \<noteq> []) = (decision, reason)" by fastforce
  have "\<not> (mitm \<and> \<not> pinned \<and> early = [])" using assms(2-4) Inr by auto
  then have "connect_passthrough env t early (tallied id (record_tls_routing_decision (ce_now env) ''connect'' h (as_action decision) reason) w) = (r, ev, w')"
    using assms(1,3,4) Inr d by (auto simp: connect_tunnel_run Let_def split: if_splits)
  from keepsD [OF quiet_handlers(2) this] show ?thesis by (blast intro: same_tls_tallied)
qed

definition must_not_intercept :: "'v conn_env \<Rightarrow> bool \<Rightarrow> pinned_hosts \<Rightarrow> bool" where
  "must_not_intercept env mitm ph \<longleftrightarrow> \<not> mitm \<or> (case requested_host env of None \<Rightarrow> True | Some h \<Rightarrow> pinned_contains ph h \<noteq> Ok False)"

lemma accept_quiet:
  assumes "accept_connection env mitm e w = (r, ev, w')" and "must_not_intercept env mitm (pw_pinned w)"
  shows "same_tls w w' \<and> (\<forall>x \<in> set ev. no_tls x)"
proof -
  let ?w = "tallied inc_connection_total id w"
  from assms(1) have run: "handle_connection env mitm e ?w = (r, ev, w')" by (simp add: accept_connection_def)
  have "same_tls ?w w' \<and> (\<forall>x \<in> set ev. no_tls x)"
  proof (cases "ce_peek env")
    case (Inl x)
    with run show ?thesis by (simp add: connection_run untouched.frame_refl)
  next
    case (Inr b)
    let ?p = "take MAX_PEEK_BYTES b"
    note run = run [unfolded connection_run Inr, simplified Let_def sum.case]
    consider (none) "ret () ?w = (r, ev, w')" | (http) "handle_http_proxy env ?w = (r, ev, w')"
      | (con) "handle_connect_tunnel env mitm e ?w = (r, ev, w')" "?p \<noteq> []" "starts_with_ascii_case_insensitive ?p ''CONNECT ''"
      | (tls) sni where "handle_transparent env mitm e sni ?w = (r, ev, w')" "?p \<noteq> []" "\<not> starts_with_ascii_case_insensitive ?p ''CONNECT ''"
          "parse_sni ?p = Some sni"
      using run by (cases "parse_sni ?p") (simp_all split: if_splits)
    then show ?thesis
    proof cases
      case none
      then show ?thesis by (rule keepsD [OF untouched.keeps_ret])
    next
      case http
      then show ?thesis by (rule keepsD [OF quiet_handlers(3)])
    next
      case con
      show ?thesis
      proof (cases "\<exists>t early h. connect_request env = Some (t, early) \<and> host_from_authority t = Some h")
        case True
        then obtain t early h where t: "connect_request env = Some (t, early)" "host_from_authority t = Some h" by blast
        then have "requested_host env = Some h" using con Inr by (simp add: requested_host_def)
        with assms(2) [unfolded must_not_intercept_def] show ?thesis by (intro quiet_connect_tunnel [OF con(1) _ t]) auto
      next
        case False
        then have "same_tls ?w w' \<and> ev = [] \<or> (\<exists>t early. connect_passthrough env t early ?w = (r, ev, w'))"
          using con(1) untouched.frame_refl by (auto simp: connect_tunnel_run split: option.splits sum.splits prod.splits)
        then show ?thesis using keepsD [OF quiet_handlers(2)] by fastforce
      qed
    next
      case tls
      then have "requested_host env = Some (to_ascii_lowercase sni)" using Inr by (simp add: requested_host_def)
      with assms(2) [unfolded must_not_intercept_def] show ?thesis by (intro quiet_transparent [OF tls(1)]) auto
    qed
  qed
  then show ?thesis by (blast intro: same_tls_tallied)
qed

text \<open>C1: a connection is intercepted only when interception is on, it names a host, and that host is not
  pinned. In every other case (interception off, pinned host, poisoned pin store, unreadable or
  plain traffic) no TLS handshake is made with the client, no certificate is issued, and the pins,
  the certificate pins and the disk stay as they are.\<close>
theorem intercepted_only_unpinned:
  assumes "accept_connection env mitm e w = (r, ev, w')"
    and "\<not> mitm \<or> requested_host env = None \<or> pinned_contains (pw_pinned w) (the (requested_host env)) \<noteq> Ok False"
  shows "(\<forall>a. Tls a \<notin> set ev) \<and> pw_pinned w' = pw_pinned w \<and> mw_engine (pw_mitm w') = mw_engine (pw_mitm w) \<and>
    mw_pins (pw_mitm w') = mw_pins (pw_mitm w) \<and> mw_disk (pw_mitm w') = mw_disk (pw_mitm w)"
proof -
  have "must_not_intercept env mitm (pw_pinned w)" using assms(2) by (auto simp: must_not_intercept_def split: option.split)
  from accept_quiet [OF assms(1) this] show ?thesis by (auto simp: same_tls_def)
qed


section \<open>Tunnels\<close>

text \<open>C15: a \<open>CONNECT\<close> that is not intercepted (its host is pinned, interception is off, or it brought bytes of
  the tunnel with it) is connected first and answered after that: on success the client gets the
  200 answer, the bytes that came with the request are the first that the server sees, and the rest is
  copied both ways; on failure the client gets the 502 answer. It is counted as one passthrough
  tunnel.\<close>
theorem connect_passthrough_trace:
  assumes "ce_peek env = Ok b" "starts_with_ascii_case_insensitive (take MAX_PEEK_BYTES b) ''CONNECT ''"
    and "connect_request env = Some (t, early)" "host_from_authority t = Some h" "pinned_contains (pw_pinned w) h = Ok pinned"
    and "pinned \<or> \<not> mitm \<or> early \<noteq> []" "\<forall>x. ce_client_write env x = None" "\<forall>x. ce_server_write env x = None"
  shows "\<exists>w'. accept_connection env mitm e w =
     (Finished (),
      if ce_connect env t = None then [ConnectTo t, ToClient CONNECT_OK] @ (if early = [] then [] else [ToServer early]) @ [Splice t]
      else [ConnectTo t, ToClient (http_error ''502 Bad Gateway'' ''Failed to connect to upstream target.'')],
      w') \<and>
    m_passthrough_tunnel_total (t_metrics (mw_tally (pw_mitm w'))) = m_passthrough_tunnel_total (t_metrics (mw_tally (pw_mitm w))) + 1"
proof -
  have ne: "take MAX_PEEK_BYTES b \<noteq> []" using assms(2) by (auto simp: starts_with_ascii_case_insensitive_def)
  obtain decision reason where d: "connect_decision pinned mitm (early \<noteq> []) = (decision, reason)" by fastforce
  let ?w1 = "tallied inc_connection_total id w"
  let ?w2 = "tallied id (record_tls_routing_decision (ce_now env) ''connect'' h (as_action decision) reason) ?w1"
  let ?w3 = "tallied inc_passthrough_tunnel_total id ?w2"
  have run: "accept_connection env mitm e w = connect_passthrough env t early ?w2"
    using assms(1-6) ne d by (auto simp: accept_connection_def connection_run connect_tunnel_run Let_def)
  have "connect_passthrough env t early ?w2 = (Finished (),
      if ce_connect env t = None then [ConnectTo t, ToClient CONNECT_OK] @ (if early = [] then [] else [ToServer early]) @ [Splice t]
      else [ConnectTo t, ToClient (http_error ''502 Bad Gateway'' ''Failed to connect to upstream target.'')], ?w3)"
    using assms(7,8)
    by (auto simp: connect_passthrough_def send_http_error_def act_bind_def tcp_connect_def write_client_def write_server_def
        copy_bidirectional_def ret_def tally_act_run)
  then show ?thesis unfolding run by (simp add: inc_passthrough_tunnel_total_def inc_connection_total_def)
qed

section \<open>Every connection is served\<close>

definition returns :: "'a action \<Rightarrow> bool" where
  "returns m \<longleftrightarrow> (\<forall>w. fst (m w) \<noteq> Waiting)"

lemma returns_bind: "returns m \<Longrightarrow> (\<And>x. returns (f x)) \<Longrightarrow> returns (act_bind m f)"
  unfolding returns_def
proof
  fix w
  assume m: "\<forall>w. fst (m w) \<noteq> Waiting" and f: "\<And>x. \<forall>w. fst (f x w) \<noteq> Waiting"
  obtain r1 ev1 w1 where m1: "m w = (r1, ev1, w1)" by (cases "m w") auto
  show "fst (act_bind m f w) \<noteq> Waiting"
    using spec [OF m, of w] f by (cases r1) (auto simp: act_bind_def m1 case_prod_unfold Let_def)
qed

lemma returns_prims:
  "returns (ret x)" "returns (fail x2)" "returns (tally_act f g)" "returns (write_client env b)" "returns (write_server env b)"
  "returns (tcp_connect env t)" "returns (copy_bidirectional t)" "returns (intercept env e h)"
  by (simp_all add: returns_def ret_def fail_def tally_act_def write_client_def write_server_def tcp_connect_def copy_bidirectional_def
      intercept_def case_prod_unfold Let_def split: option.split)

lemma returns_lift_io: "returns (lift_io r)"
  using returns_prims(1,2) by (cases r) (auto simp: lift_io_def)

lemma returns_state: "returns (host_pinned h)" "returns (pin_host_after_tls_rejection env h)"
  using returns_lift_io by (auto simp: returns_def host_pinned_def pin_host_after_tls_rejection_def case_prod_unfold Let_def)

lemma returns_read_headers: "MAX_CONNECT_HEADER_BYTES < length (ce_reads env) \<Longrightarrow> returns (read_headers env)"
  using read_headers_waits [of "[]" "ce_reads env"] returns_lift_io
  by (cases "read_until_headers_complete [] (ce_reads env)") (auto simp: returns_def read_headers_def)

lemma returns_option: "(\<And>y. returns (s y)) \<Longrightarrow> returns n \<Longrightarrow> returns (case x of Some y \<Rightarrow> s y | None \<Rightarrow> n)"
  and returns_if: "returns a \<Longrightarrow> returns b \<Longrightarrow> returns (if c then a else b)"
  and returns_prod: "(\<And>a b. returns (k a b)) \<Longrightarrow> returns (case q of (a, b) \<Rightarrow> k a b)"
  by (cases x; cases c; cases q; simp)+

lemma returns_sum: "(\<And>y. returns (s y)) \<Longrightarrow> (\<And>y. returns (n y)) \<Longrightarrow> returns (case x of Inl y \<Rightarrow> s y | Inr y \<Rightarrow> n y)"
  and returns_decision: "returns a \<Longrightarrow> returns b \<Longrightarrow> returns (case d of AttemptMitm \<Rightarrow> a | Passthrough \<Rightarrow> b)"
  by (cases x; cases d; simp)+

lemmas returns_intros = returns_bind returns_prims returns_lift_io returns_state returns_option returns_if returns_prod returns_sum returns_decision

lemma returns_auto_pin: "returns (auto_pin env host)"
proof -
  have "returns (act_bind (pin_host_after_tls_rejection env host) (\<lambda>added.
       if added then tally_act inc_host_auto_pinned_total (record_host_auto_pinned (ce_now env) host) else ret ()))"
    by (intro returns_intros)
  then show ?thesis unfolding returns_def auto_pin_def by (auto simp: ret_def)
qed

lemma returns_handlers:
  "returns (tunnel env t i)" "returns (connect_passthrough env t b)" "returns (run_mitm_intercept env e t h)"
  "returns (handle_transparent env mitm e sni)"
proof -
  show t: "returns (tunnel env t i)" for t i unfolding tunnel_def by (intro returns_intros)
  show "returns (connect_passthrough env t b)" unfolding connect_passthrough_def send_http_error_def by (intro returns_intros)
  show m: "returns (run_mitm_intercept env e t h)" for t h
    unfolding run_mitm_intercept_def Let_def by (intro returns_intros returns_auto_pin t)
  show "returns (handle_transparent env mitm e sni)"
    unfolding handle_transparent_def log_tls_routing_decision_def Let_def by (intro returns_intros t m)
qed

text \<open>No client can hold a connection handler in its header loop for ever: after 16385 reads, of whatever
  content, the handler has finished or failed.\<close>
theorem connection_always_served:
  assumes "length (ce_reads env) > 16384"
  shows "\<exists>r. (r = Finished () \<or> (\<exists>x. r = Failed x)) \<and> fst (accept_connection env mitm e w) = r"
proof -
  have "MAX_CONNECT_HEADER_BYTES < length (ce_reads env)" using assms by (simp add: MAX_CONNECT_HEADER_BYTES_def)
  note read = returns_read_headers [OF this]
  have "returns (handle_connect_tunnel env mitm e)" "returns (handle_http_proxy env)"
    unfolding handle_connect_tunnel_def handle_http_proxy_def send_http_error_def log_tls_routing_decision_def Let_def
    by (intro returns_intros read returns_handlers)+
  then have "returns (accept_connection env mitm e)"
    unfolding accept_connection_def handle_connection_def Let_def by (intro returns_intros returns_handlers)
  then show ?thesis by (cases "fst (accept_connection env mitm e w)") (auto simp: returns_def)
qed


section \<open>Counting interceptions\<close>

text \<open>The counters of the routing code. The relay counts other events only.\<close>

definition routing_counters :: "tally \<Rightarrow> u64 list" where
  "routing_counters t = (let m = t_metrics t in
     [m_mitm_attempt_total m, m_mitm_success_total m, m_mitm_failure_total m, m_mitm_client_tls_reject_total m,
      m_host_auto_pinned_total m, m_passthrough_tunnel_total m])"

lemma routing_counters_other [simp]:
  "routing_counters (tick inc_websocket_blocked_total g t) = routing_counters t"
  "routing_counters (tick inc_referer_spoofed_total g t) = routing_counters t"
  "routing_counters (tick inc_query_params_stripped_total g t) = routing_counters t"
  "routing_counters (tick inc_cache_headers_stripped_total g t) = routing_counters t"
  "routing_counters (tick inc_body_rewrite_skipped_total g t) = routing_counters t"
  "routing_counters (tick inc_body_rewrite_total g t) = routing_counters t"
  "routing_counters (tick inc_consent_enforcement_blocked_total g t) = routing_counters t"
  "routing_counters (tick inc_cert_pin_violation_total g t) = routing_counters t"
  "routing_counters (tick id g t) = routing_counters t"
  by (simp_all add: routing_counters_def Let_def inc_websocket_blocked_total_def inc_referer_spoofed_total_def inc_query_params_stripped_total_def
      inc_cache_headers_stripped_total_def inc_body_rewrite_skipped_total_def inc_body_rewrite_total_def
      inc_consent_enforcement_blocked_total_def inc_cert_pin_violation_total_def)

lemma rewrite_counters: "routing_counters (snd (attempt_body_rewrite env now body plan host enc t)) = routing_counters t"
  by (simp add: attempt_body_rewrite_def attempt_body_rewrite_with_codec_def t_skipped_def t_rewritten_def Let_def
      split: sum.split prod.split)

lemma rewrite_now_counters [simp]: "routing_counters (r_tally (snd (rewrite_now x plan body s))) = routing_counters (r_tally s)"
  using rewrite_counters by (simp add: rewrite_now_def case_prod_unfold Let_def)

lemma finish_counters [simp]:
  "routing_counters (r_tally (finish_chunked x plan d n s)) = routing_counters (r_tally s)"
  "routing_counters (r_tally (finish_plain x plan b ov s)) = routing_counters (r_tally s)"
  "routing_counters (r_tally (send_raw s)) = routing_counters (r_tally s)"
  by (simp_all add: finish_chunked_def finish_plain_def send_raw_def take_headers_def case_prod_unfold Let_def send_client_def split: option.split)

lemma client_event_counters: "routing_counters (r_tally (client_event x chunk s)) = routing_counters (r_tally s)"
proof -
  have edit: "routing_counters (r_tally (snd (edit_step b f bump chunk acc))) = routing_counters (r_tally (snd acc))"
    if "\<And>s. routing_counters (r_tally (bump s)) = routing_counters (r_tally s)" for b f bump acc
    using that by (simp add: edit_step_def case_prod_unfold Let_def split: option.split)
  show ?thesis
    by (simp add: client_event_def send_upstream_def send_client_def count_def case_prod_unfold Let_def edit)
qed

lemma upstream_event_counters: "routing_counters (r_tally (upstream_event x chunk s)) = routing_counters (r_tally s)"
proof -
  have "routing_counters (r_tally (upstream_eof x s)) = routing_counters (r_tally s)"
    by (auto simp: upstream_eof_def send_client_def Let_def split: option.split)
  moreover have "routing_counters (r_tally (upstream_body x chunk s)) = routing_counters (r_tally s)"
    by (auto simp: upstream_body_def count_def Let_def split: option.split)
  moreover have "routing_counters (r_tally (after_headers x h rm u)) = routing_counters (r_tally u)" for h rm u
    by (simp add: after_headers_def send_client_def count_def Let_def)
  moreover have "routing_counters (r_tally (cookie_tick x oc u)) = routing_counters (r_tally u)"
    "routing_counters (r_tally (snd (cache_strip x oc u))) = routing_counters (r_tally u)" for oc u
    by (simp_all add: cookie_tick_def cache_strip_def count_def Let_def)
  ultimately show ?thesis
    by (simp add: upstream_event_def upstream_headers_def send_client_def Let_def case_prod_unfold split: option.split)
qed

interpretation uncounted: step_system "\<lambda>s. relay_init s \<and> routing_counters (r_tally (rl s)) = c" "relay_step P"
  "\<lambda>s. routing_counters (r_tally (rl s)) = c" for c P
proof unfold_locales
  fix s t
  assume c: "routing_counters (r_tally (rl s)) = c" and "relay_step P s t"
  from this(2) show "routing_counters (r_tally (rl t)) = c"
    by cases (use c in \<open>simp_all add: loop_end_def client_event_counters upstream_event_counters\<close>)
qed simp

text \<open>What interception relies on of its relay, and the model of the relay gives.\<close>

definition relay_keeps_routing :: "'v tunnel_env \<Rightarrow> bool" where
  "relay_keeps_routing env \<longleftrightarrow> (\<forall>kind t. routing_counters (snd (te_relay env kind t)) = routing_counters t)"

lemma relay_run_keeps_routing:
  assumes "(relay_step P)\<^sup>*\<^sup>* \<lparr>rl = relay_start t, got_client = [], got_upstream = []\<rparr> s"
  shows "routing_counters (r_tally (rl s)) = routing_counters t"
  using uncounted.inv_run [OF _ assms] by (simp add: relay_init_def relay_start_def)

lemma intercept_counters:
  assumes "relay_keeps_routing env" "intercept_tls_tunnel env e host ip w = (res, acts, w')"
  shows "routing_counters (mw_tally w') = routing_counters (mw_tally w)"
proof -
  have pin: "routing_counters (mw_tally (pin_check env host leaf u)) = routing_counters (mw_tally u)" for leaf u
    by (simp add: pin_check_def case_prod_unfold Let_def split: option.split sum.split pin_check_result.split)
  show ?thesis
    using assms pin unfolding intercept_tls_tunnel_def Let_def relay_keeps_routing_def
    by (auto split: option.splits if_splits sum.splits prod.splits) (metis snd_conv)+
qed


definition after_intercept :: "'v conn_env \<Rightarrow> bytes \<Rightarrow> bytes \<Rightarrow> mitm_error + unit \<Rightarrow> unit action" where
  "after_intercept env t host res =
    (case res of
       Inr _ \<Rightarrow> tally_act inc_mitm_success_total (record_mitm_success (ce_now env) host)
     | Inl err \<Rightarrow>
        if is_benign_peer_close err then tally_act inc_mitm_success_total (record_mitm_success (ce_now env) host)
        else if is_upstream_tls_handshake_failure err then
          act_bind (auto_pin env host) (\<lambda>_. act_bind (tally_act inc_passthrough_tunnel_total id) (\<lambda>_. tunnel env t None))
        else
          act_bind (tally_act inc_mitm_failure_total (record_mitm_failure (ce_now env) host)) (\<lambda>_.
          if is_client_tls_handshake_failure err then
            act_bind (tally_act inc_mitm_client_tls_reject_total (record_client_tls_reject (ce_now env) host)) (\<lambda>_. auto_pin env host)
          else ret ()))"

lemma run_mitm_intercept_run:
  assumes "intercept_tls_tunnel (ce_tunnel env) e host (Some (ce_client_ip env))
      (pw_mitm (tallied inc_mitm_attempt_total (record_mitm_attempt (ce_now env) host) w)) = (res, acts, mw)"
    and "run_mitm_intercept env e t host w = (r, ev, w')"
  obtains ev' where "after_intercept env t host res (w\<lparr>pw_mitm := mw\<rparr>) = (r, ev', w')" "ev = map Tls acts @ ev'"
proof -
  have w: "(tallied f g w)\<lparr>pw_mitm := mw\<rparr> = w\<lparr>pw_mitm := mw\<rparr>" for f g by (simp add: tallied_def)
  obtain r1 ev1 w1 where a: "after_intercept env t host res (w\<lparr>pw_mitm := mw\<rparr>) = (r1, ev1, w1)" by (metis prod_cases3)
  have "r = r1 \<and> ev = map Tls acts @ ev1 \<and> w' = w1"
    using assms(2) unfolding run_mitm_intercept_def after_intercept_def [symmetric]
    by (simp add: act_bind_def [of "intercept env e host"] intercept_def assms(1) a w)
  with a that show thesis by simp
qed

text \<open>What an automatic pin changes: the pin set and its file, and the counters of the pin; and when it fails.\<close>

definition pin_error :: "'v conn_env \<Rightarrow> bytes \<Rightarrow> disk \<Rightarrow> pinned_hosts \<Rightarrow> io_error option" where
  "pin_error env host d ph =
    (if in_grace_period ph (ce_mono env) (AUTO_PIN_GRACE_PERIOD_SECS * 1000000000) then None
     else case add_and_persist (ce_json env) (ce_pin_fs env) d ph host of (_, _, Inl x) \<Rightarrow> Some x | _ \<Rightarrow> None)"

lemma auto_pin_effect:
  assumes "auto_pin env host w = (r, ev, w')"
  shows "ev = [] \<and> r = (case pin_error env host (mw_disk (pw_mitm w)) (pw_pinned w) of None \<Rightarrow> Finished () | Some x \<Rightarrow> Failed x) \<and>
    (\<exists>n. routing_counters (mw_tally (pw_mitm w')) = (routing_counters (mw_tally (pw_mitm w)))[4 := n])"
proof -
  have same: "\<exists>n. routing_counters t = (routing_counters t)[4 := n]" for t
    by (intro exI [of _ "m_host_auto_pinned_total (t_metrics t)"]) (simp add: routing_counters_def Let_def)
  have inc: "routing_counters (tick inc_host_auto_pinned_total g t) = (routing_counters t)[4 := m_host_auto_pinned_total (t_metrics t) + 1]" for g t
    by (simp add: routing_counters_def Let_def inc_host_auto_pinned_total_def)
  obtain d ph b where add: "add_and_persist (ce_json env) (ce_pin_fs env) (mw_disk (pw_mitm w)) (pw_pinned w) host = (d, ph, b)"
    by (metis prod_cases3)
  show ?thesis
    using assms same inc
    by (cases b)
      (auto simp: auto_pin_def pin_error_def ret_def act_bind_def pin_host_after_tls_rejection_def add lift_io_def fail_def tally_act_run Let_def
        split: if_splits)
qed

lemma routing_counters_tick:
  "routing_counters (tick inc_mitm_attempt_total g t) = (routing_counters t)[0 := routing_counters t ! 0 + 1]"
  "routing_counters (tick inc_mitm_success_total g t) = (routing_counters t)[1 := routing_counters t ! 1 + 1]"
  "routing_counters (tick inc_mitm_failure_total g t) = (routing_counters t)[2 := routing_counters t ! 2 + 1]"
  "routing_counters (tick inc_mitm_client_tls_reject_total g t) = (routing_counters t)[3 := routing_counters t ! 3 + 1]"
  "routing_counters (tick inc_passthrough_tunnel_total g t) = (routing_counters t)[5 := routing_counters t ! 5 + 1]"
  by (simp_all add: routing_counters_def Let_def inc_mitm_attempt_total_def inc_mitm_success_total_def inc_mitm_failure_total_def
      inc_mitm_client_tls_reject_total_def inc_passthrough_tunnel_total_def)

lemma length_routing_counters [simp]: "length (routing_counters t) = 6"
  by (simp add: routing_counters_def Let_def)

lemma tunnel_effect:
  "tunnel env t None w = (case ce_connect env t of None \<Rightarrow> Finished () | Some x \<Rightarrow> Failed x,
     ConnectTo t # (if ce_connect env t = None then [Splice t] else []), tallied inc_passthrough_tunnel_total id w)"
  by (simp add: tunnel_def act_bind_def [of "tcp_connect env t"] tcp_connect_def fail_def copy_bidirectional_def split: option.split)

definition success_of :: "mitm_error + unit \<Rightarrow> bool" where
  "success_of res \<longleftrightarrow> (case res of Inr _ \<Rightarrow> True | Inl err \<Rightarrow> is_benign_peer_close err)"

definition fallback_of :: "mitm_error + unit \<Rightarrow> bool" where
  "fallback_of res \<longleftrightarrow> (case res of Inr _ \<Rightarrow> False | Inl err \<Rightarrow> is_upstream_tls_handshake_failure err)"

lemma not_success_and_fallback: "\<not> (success_of res \<and> fallback_of res)"
  by (auto simp: success_of_def fallback_of_def is_benign_peer_close_def is_upstream_tls_handshake_failure_def split: sum.splits mitm_error.splits)

text \<open>The outcome of an attempt, counter by counter. The fallback needs the pin to be saved, outside the grace period.\<close>

lemma after_intercept_counters:
  assumes "after_intercept env t host res w = (r, ev, w')"
  defines "c \<equiv> routing_counters (mw_tally (pw_mitm w))" and "c' \<equiv> routing_counters (mw_tally (pw_mitm w'))"
    and "err \<equiv> pin_error env host (mw_disk (pw_mitm w)) (pw_pinned w)"
  shows "c' ! 0 = c ! 0 \<and> c' ! 1 = c ! 1 + (if success_of res then 1 else 0) \<and>
    c' ! 2 = c ! 2 + (if success_of res \<or> fallback_of res then 0 else 1) \<and>
    c' ! 5 = c ! 5 + (if fallback_of res \<and> err = None then 2 else 0) \<and>
    ev = (if fallback_of res \<and> err = None then ConnectTo t # (if ce_connect env t = None then [Splice t] else []) else []) \<and>
    (fallback_of res \<longrightarrow> r = (case err of Some x \<Rightarrow> Failed x | None \<Rightarrow> (case ce_connect env t of Some x \<Rightarrow> Failed x | None \<Rightarrow> Finished ())))"
proof (cases "success_of res")
  case True
  then have "tally_act inc_mitm_success_total (record_mitm_success (ce_now env) host) w = (r, ev, w')"
    using assms(1) by (auto simp: after_intercept_def success_of_def split: sum.splits)
  then show ?thesis using True not_success_and_fallback [of res] by (auto simp: c_def c'_def tally_act_run routing_counters_tick)
next
  case False
  then obtain e where e: "res = Err e" "\<not> is_benign_peer_close e" by (auto simp: success_of_def split: sum.splits)
  show ?thesis
  proof (cases "is_upstream_tls_handshake_failure e")
    case True
    obtain r1 ev1 w1 where p: "auto_pin env host w = (r1, ev1, w1)" by (metis prod_cases3)
    from auto_pin_effect [OF p] obtain n where n: "ev1 = []" "routing_counters (mw_tally (pw_mitm w1)) = c[4 := n]"
      "r1 = (case err of None \<Rightarrow> Finished () | Some x \<Rightarrow> Failed x)" by (auto simp: c_def err_def)
    with assms(1) p True e False show ?thesis
      by (cases err) (auto simp: after_intercept_def act_bind_def [of "auto_pin env host"] tunnel_effect c_def c'_def routing_counters_tick fallback_of_def split: option.split)
  next
    case no: False
    let ?w1 = "tallied inc_mitm_failure_total (record_mitm_failure (ce_now env) host) w"
    show ?thesis
    proof (cases "is_client_tls_handshake_failure e")
      case True
      let ?w2 = "tallied inc_mitm_client_tls_reject_total (record_client_tls_reject (ce_now env) host) ?w1"
      have "auto_pin env host ?w2 = (r, ev, w')" using assms(1) e no True by (simp add: after_intercept_def)
      from auto_pin_effect [OF this] obtain n where "ev = []" "c' = (routing_counters (mw_tally (pw_mitm ?w2)))[4 := n]" by (auto simp: c'_def)
      then show ?thesis using e no False by (simp add: c_def routing_counters_tick fallback_of_def)
    next
      case notls: False
      then show ?thesis
        using assms(1) e no False by (auto simp: after_intercept_def ret_def c_def c'_def routing_counters_tick fallback_of_def)
    qed
  qed
qed

text \<open>C16: interception attempts are accounted for. Each run counts one attempt, and has one of four outcomes. A relay that ended well, or that
  the peer closed, is counted as a success; an error other than a failed upstream handshake is counted as a failure. After a failed upstream handshake
  the run connects to the target and passes the bytes through, which is counted as two passthrough tunnels and neither as success nor as failure, provided
  that the host is in the grace period or its pin was saved; when saving the pin fails, the run ends with that error, nothing is connected
  and none of the three outcomes is counted. Nothing else is connected or counted as a tunnel.\<close>
theorem mitm_attempt_accounting:
  assumes "relay_keeps_routing (ce_tunnel env)"
    and "intercept_tls_tunnel (ce_tunnel env) e host (Some (ce_client_ip env))
      (pw_mitm (tallied inc_mitm_attempt_total (record_mitm_attempt (ce_now env) host) w)) = (res, acts, mw)"
    and "run_mitm_intercept env e t host w = (r, ev, w')"
  defines "m \<equiv> t_metrics (mw_tally (pw_mitm w))" and "m' \<equiv> t_metrics (mw_tally (pw_mitm w'))"
    and "succeeded \<equiv> (case res of Inr _ \<Rightarrow> True | Inl x \<Rightarrow> is_benign_peer_close x)"
    and "upstream_failed \<equiv> (case res of Inr _ \<Rightarrow> False | Inl x \<Rightarrow> is_upstream_tls_handshake_failure x)"
    and "pinning \<equiv> (if in_grace_period (pw_pinned w) (ce_mono env) (AUTO_PIN_GRACE_PERIOD_SECS * 1000000000) then None
      else case add_and_persist (ce_json env) (ce_pin_fs env) (mw_disk mw) (pw_pinned w) host of (_, _, Inl x) \<Rightarrow> Some x | _ \<Rightarrow> None)"
  shows "m_mitm_attempt_total m' = m_mitm_attempt_total m + 1 \<and> \<not> (succeeded \<and> upstream_failed) \<and>
    m_mitm_success_total m' = m_mitm_success_total m + (if succeeded then 1 else 0) \<and>
    m_mitm_failure_total m' = m_mitm_failure_total m + (if succeeded \<or> upstream_failed then 0 else 1) \<and>
    m_passthrough_tunnel_total m' = m_passthrough_tunnel_total m + (if upstream_failed \<and> pinning = None then 2 else 0) \<and>
    ev = map Tls acts @ (if upstream_failed \<and> pinning = None then ConnectTo t # (if ce_connect env t = None then [Splice t] else []) else []) \<and>
    (upstream_failed \<longrightarrow> r = (case pinning of Some x \<Rightarrow> Failed x | None \<Rightarrow> (case ce_connect env t of Some x \<Rightarrow> Failed x | None \<Rightarrow> Finished ())))"
proof -
  have o: "success_of res = succeeded" "fallback_of res = upstream_failed" "pin_error env host (mw_disk mw) (pw_pinned w) = pinning"
    by (simp_all add: success_of_def fallback_of_def pin_error_def succeeded_def upstream_failed_def pinning_def)
  from run_mitm_intercept_run [OF assms(2,3)] obtain ev' where
    run: "after_intercept env t host res (w\<lparr>pw_mitm := mw\<rparr>) = (r, ev', w')" and ev: "ev = map Tls acts @ ev'" by blast
  have "routing_counters (mw_tally mw) = (routing_counters (mw_tally (pw_mitm w)))[0 := m_mitm_attempt_total m + 1]"
    using intercept_counters [OF assms(1,2)] by (simp add: routing_counters_tick) (simp add: routing_counters_def m_def Let_def)
  with after_intercept_counters [OF run] show ?thesis
    using not_success_and_fallback [of res] unfolding ev by (simp add: o routing_counters_def m_def m'_def Let_def)
qed

section \<open>Connections that are intercepted\<close>

definition same_certs :: "proxy_world \<Rightarrow> proxy_world \<Rightarrow> bool" where
  "same_certs w w' \<longleftrightarrow> mw_engine (pw_mitm w') = mw_engine (pw_mitm w) \<and> mw_pins (pw_mitm w') = mw_pins (pw_mitm w)"

interpretation certs: action_frame same_certs
  by unfold_locales (simp_all add: same_certs_def)

lemma pin_keeps_certs: "keeps same_certs E (pin_host_after_tls_rejection env host)"
  by (rule keepsI) (auto simp: pin_host_after_tls_rejection_def lift_io_def ret_def fail_def same_certs_def Let_def split: prod.splits sum.splits)

lemma auto_pin_keeps_certs: "keeps same_certs E (auto_pin env host)"
proof -
  have "keeps same_certs E (act_bind (pin_host_after_tls_rejection env host) (\<lambda>added.
       if added then tally_act inc_host_auto_pinned_total (record_host_auto_pinned (ce_now env) host) else ret ()))"
    by (intro certs.keeps_bind pin_keeps_certs) (auto intro: certs.keeps_intros)
  then show ?thesis unfolding keeps_def auto_pin_def by (simp add: ret_def certs.frame_refl)
qed

lemma after_intercept_keeps_certs: "keeps same_certs no_tls (after_intercept env t host res)"
proof -
  have "keeps same_certs no_tls (tunnel env t None)" by (rule certs.keeps_tunnel) simp_all
  then show ?thesis
    unfolding after_intercept_def by (cases res) (auto intro!: certs.keeps_intros auto_pin_keeps_certs)
qed

lemma accept_intercept:
  assumes "accept_connection env mitm e w = (r, ev, w')" and "\<not> must_not_intercept env mitm (pw_pinned w)"
  obtains h where "requested_host env = Some h" "pinned_contains (pw_pinned w) h = Ok False"
    "(same_tls w w' \<and> (\<forall>x \<in> set ev. no_tls x)) \<or>
     (\<exists>t w1 ev1 pre. run_mitm_intercept env e t h w1 = (r, ev1, w') \<and> same_tls w w1 \<and> ev = pre @ ev1 \<and> (\<forall>x \<in> set pre. no_tls x))"
proof -
  from assms(2) obtain h where h: "mitm" "requested_host env = Some h" "pinned_contains (pw_pinned w) h = Ok False"
    by (auto simp: must_not_intercept_def split: option.splits)
  then obtain b where b: "ce_peek env = Ok b" by (auto simp: requested_host_def split: sum.splits)
  let ?p = "take MAX_PEEK_BYTES b" and ?w1 = "tallied inc_connection_total id w"
  have ne: "?p \<noteq> []" using h(2) b by (auto simp: requested_host_def Let_def split: if_splits)
  show thesis
  proof (cases "starts_with_ascii_case_insensitive ?p ''CONNECT ''")
    case True
    then obtain t early where t: "connect_request env = Some (t, early)" "host_from_authority t = Some h"
      using h(2) b ne by (auto simp: requested_host_def Let_def split: Option.bind_splits)
    obtain decision reason where d: "connect_decision False mitm (early \<noteq> []) = (decision, reason)" by fastforce
    let ?w2 = "tallied id (record_tls_routing_decision (ce_now env) ''connect'' h (as_action decision) reason) ?w1"
    have w2: "same_tls w ?w2" by (simp add: same_tls_def)
    have run: "(if early = [] then act_bind (write_client env CONNECT_OK) (\<lambda>_. run_mitm_intercept env e t h) ?w2
        else connect_passthrough env t early ?w2) = (r, ev, w')"
      using assms(1) True b ne h(1,3) t d by (auto simp: accept_connection_def connection_run connect_tunnel_run Let_def split: if_splits)
    show thesis
    proof (cases "early = []")
      case True
      show thesis
      proof (cases "ce_client_write env CONNECT_OK")
        case None
        obtain r3 ev3 w3 where m: "run_mitm_intercept env e t h ?w2 = (r3, ev3, w3)" by (metis prod_cases3)
        with run True None have "r = r3 \<and> ev = [ToClient CONNECT_OK] @ ev3 \<and> w' = w3"
          by (simp add: act_bind_def write_client_def)
        then have "run_mitm_intercept env e t h ?w2 = (r, ev3, w') \<and> same_tls w ?w2 \<and> ev = [ToClient CONNECT_OK] @ ev3 \<and>
            (\<forall>x \<in> set [ToClient CONNECT_OK]. no_tls x)" using m w2 by simp
        then show thesis using that [OF h(2,3)] by blast
      next
        case (Some x)
        with run True have "ev = [ToClient CONNECT_OK]" "w' = ?w2" by (auto simp: act_bind_def write_client_def)
        then show thesis using that [OF h(2,3)] w2 by simp
      qed
    next
      case False
      with run have "connect_passthrough env t early ?w2 = (r, ev, w')" by simp
      from keepsD [OF quiet_handlers(2) this] w2 untouched.frame_trans have "same_tls w w' \<and> (\<forall>x \<in> set ev. no_tls x)" by blast
      then show thesis using that [OF h(2,3)] by simp
    qed
  next
    case False
    then obtain sni where sni: "parse_sni ?p = Some sni" "h = to_ascii_lowercase sni" using h(2) b ne by (auto simp: requested_host_def Let_def)
    let ?w2 = "tallied id (record_tls_routing_decision (ce_now env) ''transparent'' h ''mitm'' ''host_not_pinned_and_mitm_enabled'') ?w1"
    have "run_mitm_intercept env e (sni @ '':443'') h ?w2 = (r, ev, w')"
      using assms(1) False b ne h(1,3) sni by (simp add: accept_connection_def connection_run transparent_run)
    then have "run_mitm_intercept env e (sni @ '':443'') h ?w2 = (r, ev, w') \<and> same_tls w ?w2 \<and> ev = [] @ ev \<and> (\<forall>x \<in> set []. no_tls x)"
      by (simp add: same_tls_def)
    then show thesis using that [OF h(2,3)] by blast
  qed
qed

lemma intercept_certificate:
  assumes "intercept_tls_tunnel env e host ip w = (res, acts, w')" "cache_ok (mw_engine w)" "issues_for_host (te_leaf env)"
  shows "cache_ok (mw_engine w') \<and> (\<forall>cfg. AcceptTls cfg \<in> set acts \<longrightarrow> lf_subject (sc_leaf cfg) = to_ascii_lowercase (trim host))"
proof -
  have pin: "mw_engine (pin_check env host leaf u) = mw_engine u" for leaf u
    by (simp add: pin_check_def case_prod_unfold Let_def split: option.split sum.split pin_check_result.split)
  obtain cfg s where s: "server_config_for_host (te_leaf env) host (force_http1 e host ip) (mw_engine w) = (cfg, s)" by fastforce
  have ok: "cache_ok s" "\<And>c. cfg = Ok c \<Longrightarrow> lf_subject (sc_leaf c) = to_ascii_lowercase (trim host)"
    using server_config_ok [OF s refl assms(2,3)] by auto
  show ?thesis
    using assms(1,2) ok pin s unfolding intercept_tls_tunnel_def Let_def
    by (auto split: option.splits if_splits sum.splits prod.splits)
qed

lemma run_mitm_certificate:
  assumes "run_mitm_intercept env e t host w = (r, ev, w')" "cache_ok (mw_engine (pw_mitm w))" "issues_for_host (te_leaf (ce_tunnel env))"
  shows "cache_ok (mw_engine (pw_mitm w')) \<and> (\<forall>cfg. Tls (AcceptTls cfg) \<in> set ev \<longrightarrow> lf_subject (sc_leaf cfg) = to_ascii_lowercase (trim host))"
proof -
  obtain res acts mw where i: "intercept_tls_tunnel (ce_tunnel env) e host (Some (ce_client_ip env))
      (pw_mitm (tallied inc_mitm_attempt_total (record_mitm_attempt (ce_now env) host) w)) = (res, acts, mw)" by (metis prod_cases3)
  from run_mitm_intercept_run [OF i assms(1)] obtain ev' where
    a: "after_intercept env t host res (w\<lparr>pw_mitm := mw\<rparr>) = (r, ev', w')" "ev = map Tls acts @ ev'" by blast
  have "cache_ok (mw_engine (pw_mitm w'))" "Tls x \<notin> set ev'" for x
    using keepsD [OF after_intercept_keeps_certs a(1)] intercept_certificate [OF i _ assms(3)] assms(2) by (auto simp: same_certs_def)
  then show ?thesis using intercept_certificate [OF i _ assms(3)] assms(2) a(2) by auto
qed

lemma accept_certificate:
  assumes "accept_connection env mitm e w = (r, ev, w')" "cache_ok (mw_engine (pw_mitm w))" "issues_for_host (te_leaf (ce_tunnel env))"
  shows "cache_ok (mw_engine (pw_mitm w')) \<and>
    (\<forall>cfg. Tls (AcceptTls cfg) \<in> set ev \<longrightarrow> mitm \<and> (\<exists>h. requested_host env = Some h \<and> pinned_contains (pw_pinned w) h = Ok False \<and>
       lf_subject (sc_leaf cfg) = to_ascii_lowercase (trim h)))"
proof (cases "must_not_intercept env mitm (pw_pinned w)")
  case True
  then show ?thesis using accept_quiet [OF assms(1) True] assms(2) by (auto simp: same_tls_def)
next
  case False
  then have "mitm" by (simp add: must_not_intercept_def)
  from assms(1) False show ?thesis
  proof (rule accept_intercept)
    fix h
    assume h: "requested_host env = Some h" "pinned_contains (pw_pinned w) h = Ok False"
      "(same_tls w w' \<and> (\<forall>x \<in> set ev. no_tls x)) \<or>
       (\<exists>t w1 ev1 pre. run_mitm_intercept env e t h w1 = (r, ev1, w') \<and> same_tls w w1 \<and> ev = pre @ ev1 \<and> (\<forall>x \<in> set pre. no_tls x))"
    from h(3) show ?thesis
    proof
      assume "same_tls w w' \<and> (\<forall>x \<in> set ev. no_tls x)"
      then show ?thesis using assms(2) by (auto simp: same_tls_def)
    next
      assume "\<exists>t w1 ev1 pre. run_mitm_intercept env e t h w1 = (r, ev1, w') \<and> same_tls w w1 \<and> ev = pre @ ev1 \<and> (\<forall>x \<in> set pre. no_tls x)"
      then obtain t w1 ev1 pre where m: "run_mitm_intercept env e t h w1 = (r, ev1, w')" "same_tls w w1" "ev = pre @ ev1" "\<forall>x \<in> set pre. no_tls x"
        by blast
      have "cache_ok (mw_engine (pw_mitm w1))" using m(2) assms(2) by (simp add: same_tls_def)
      from run_mitm_certificate [OF m(1) this assms(3)] show ?thesis using h(1,2) m(3,4) \<open>mitm\<close> by auto
    qed
  qed
qed


section \<open>Pins only grow, and last\<close>

lemma pin_grows: "keeps pins_grow E (pin_host_after_tls_rejection env host)"
proof (rule keepsI)
  fix w r ev w'
  assume run: "pin_host_after_tls_rejection env host w = (r, ev, w')"
  let ?a = "add_and_persist (ce_json env) (ce_pin_fs env) (mw_disk (pw_mitm w)) (pw_pinned w) host"
  have "pw_pinned w' = fst (snd ?a)" "ev = []"
    using run by (auto simp: pin_host_after_tls_rejection_def lift_io_def ret_def fail_def Let_def split: prod.splits sum.splits)
  then show "pins_grow w w' \<and> (\<forall>x \<in> set ev. E x)"
    by (auto simp: pins_grow_def add_and_persist_hosts add_and_persist_frame)
qed

lemma auto_pin_grows: "keeps pins_grow E (auto_pin env host)"
proof -
  have "keeps pins_grow E (act_bind (pin_host_after_tls_rejection env host) (\<lambda>added.
       if added then tally_act inc_host_auto_pinned_total (record_host_auto_pinned (ce_now env) host) else ret ()))"
    by (intro growing.keeps_bind pin_grows) (auto intro: growing.keeps_intros)
  then show ?thesis unfolding keeps_def auto_pin_def by (simp add: ret_def growing.frame_refl)
qed

lemma run_mitm_grows: "run_mitm_intercept env e t host w = (r, ev, w') \<Longrightarrow> pins_grow w w'"
proof -
  assume run: "run_mitm_intercept env e t host w = (r, ev, w')"
  obtain res acts mw where i: "intercept_tls_tunnel (ce_tunnel env) e host (Some (ce_client_ip env))
      (pw_mitm (tallied inc_mitm_attempt_total (record_mitm_attempt (ce_now env) host) w)) = (res, acts, mw)" by (metis prod_cases3)
  from run_mitm_intercept_run [OF i run] obtain ev' where a: "after_intercept env t host res (w\<lparr>pw_mitm := mw\<rparr>) = (r, ev', w')" by blast
  have "keeps pins_grow (\<lambda>_. True) (tunnel env t None)" by (rule growing.keeps_tunnel) simp_all
  then have "keeps pins_grow (\<lambda>_. True) (after_intercept env t host res)"
    unfolding after_intercept_def by (cases res) (auto intro!: growing.keeps_intros auto_pin_grows)
  from keepsD [OF this a] show "pins_grow w w'" by (simp add: pins_grow_def)
qed

lemma accept_grows:
  assumes "accept_connection env mitm e w = (r, ev, w')"
  shows "pins_grow w w'"
proof (cases "must_not_intercept env mitm (pw_pinned w)")
  case True
  then show ?thesis using accept_quiet [OF assms True] by (simp add: same_tls_def pins_grow_def)
next
  case False
  with assms show ?thesis
  proof (rule accept_intercept)
    fix h
    assume "(same_tls w w' \<and> (\<forall>x \<in> set ev. no_tls x)) \<or>
       (\<exists>t w1 ev1 pre. run_mitm_intercept env e t h w1 = (r, ev1, w') \<and> same_tls w w1 \<and> ev = pre @ ev1 \<and> (\<forall>x \<in> set pre. no_tls x))"
    then show ?thesis using run_mitm_grows by (fastforce simp: same_tls_def pins_grow_def)
  qed
qed

lemma pinned_monotone: "pins_grow w w' \<Longrightarrow> pinned_contains (pw_pinned w) h = Ok True \<Longrightarrow> pinned_contains (pw_pinned w') h = Ok True"
  by (auto simp: pins_grow_def pinned_contains_def Let_def split: if_splits)

text \<open>Connections one after the other: the events of each, and the state at the end.\<close>

fun serve_connections :: "bool \<Rightarrow> ('v conn_env \<times> policy_engine) list \<Rightarrow> proxy_world \<Rightarrow> net_event list list \<times> proxy_world" where
  "serve_connections mitm [] w = ([], w)"
| "serve_connections mitm ((env, e) # conns) w =
    (let (r, ev, w) = accept_connection env mitm e w; (evs, w) = serve_connections mitm conns w in (ev # evs, w))"

lemma serve_connections_pinned:
  assumes "\<And>g. normalize_host g = n \<Longrightarrow> pinned_contains (pw_pinned w) g = Ok True"
    and "i < length conns" "requested_host (fst (conns ! i)) = Some h" "normalize_host h = n"
  shows "Tls a \<notin> set (fst (serve_connections mitm conns w) ! i)"
  using assms
proof (induction conns arbitrary: w i)
  case (Cons c conns)
  obtain env e where c: "c = (env, e)" by (cases c)
  obtain r ev w' where run: "accept_connection env mitm e w = (r, ev, w')" by (metis prod_cases3)
  obtain evs w2 where s: "serve_connections mitm conns w' = (evs, w2)" by fastforce
  show ?case
  proof (cases i)
    case 0
    have "must_not_intercept env mitm (pw_pinned w)"
      using Cons.prems(1) [OF Cons.prems(4)] Cons.prems(3) 0 by (simp add: must_not_intercept_def c)
    from accept_quiet [OF run this] show ?thesis using 0 by (auto simp: c run s)
  next
    case (Suc j)
    have "pinned_contains (pw_pinned w') g = Ok True" if "normalize_host g = n" for g
      using pinned_monotone [OF accept_grows [OF run] Cons.prems(1) [OF that]] .
    with Cons.IH [of w' j] Cons.prems(2-4) Suc show ?thesis by (simp add: c run s)
  qed
qed simp

lemma serve_connections_certificate:
  assumes "cache_ok (mw_engine (pw_mitm w))" "\<forall>(env, e) \<in> set conns. issues_for_host (te_leaf (ce_tunnel env))"
    and "i < length conns" "Tls (AcceptTls cfg) \<in> set (fst (serve_connections mitm conns w) ! i)"
  shows "mitm \<and> (\<exists>h. requested_host (fst (conns ! i)) = Some h \<and> lf_subject (sc_leaf cfg) = to_ascii_lowercase (trim h) \<and>
    pinned_contains (pw_pinned w) h \<noteq> Ok True)"
  using assms
proof (induction conns arbitrary: w i)
  case (Cons c conns)
  obtain env e where c: "c = (env, e)" by (cases c)
  obtain r ev w' where run: "accept_connection env mitm e w = (r, ev, w')" by (metis prod_cases3)
  obtain evs w2 where s: "serve_connections mitm conns w' = (evs, w2)" by fastforce
  have issue: "issues_for_host (te_leaf (ce_tunnel env))" using Cons.prems(2) by (simp add: c)
  note cert = accept_certificate [OF run Cons.prems(1) issue]
  show ?case
  proof (cases i)
    case 0
    with cert Cons.prems(4) show ?thesis by (fastforce simp: c run s)
  next
    case (Suc j)
    have "\<exists>h. requested_host (fst (conns ! j)) = Some h \<and> lf_subject (sc_leaf cfg) = to_ascii_lowercase (trim h) \<and>
        pinned_contains (pw_pinned w') h \<noteq> Ok True" "mitm"
      using Cons.IH [of w' j] cert Cons.prems(2-4) Suc by (auto simp: c run s)
    then show ?thesis using pinned_monotone [OF accept_grows [OF run]] Suc by auto
  qed
qed simp

lemma auto_pin_persists:
  assumes "auto_pin env host w = (Finished (), ev, w')"
    and "\<not> in_grace_period (pw_pinned w) (ce_mono env) (AUTO_PIN_GRACE_PERIOD_SECS * 1000000000)"
    and "pinned_contains (pw_pinned w) host = Ok False" "normalize_host host \<noteq> []"
    and "json_laws (ce_json env)" "pins_wf (pw_pinned w)" "p_ext (ph_path (pw_pinned w)) \<noteq> Some ''tmp''"
    and "\<forall>h \<in> insert (normalize_host host) (ph_hosts (pw_pinned w)). normalize_host h = h"
  shows "ph_hosts (pw_pinned w') = insert (normalize_host host) (ph_hosts (pw_pinned w)) \<and> \<not> ph_poisoned (pw_pinned w') \<and>
    load_pinned_hosts (ce_json env) None (mw_disk (pw_mitm w')) (ph_path (pw_pinned w)) = Ok (ph_hosts (pw_pinned w'))"
proof -
  let ?S = "insert (normalize_host host) (ph_hosts (pw_pinned w))"
  let ?p = "persist_pinned_hosts (ce_json env) (ce_pin_fs env) (mw_disk (pw_mitm w)) (ph_path (pw_pinned w)) ?S"
  have n: "normalize_host host \<notin> ph_hosts (pw_pinned w)" "\<not> ph_poisoned (pw_pinned w)"
    using assms(3) by (auto simp: pinned_contains_def Let_def split: if_splits)
  obtain d b where p: "?p = (d, b)" by fastforce
  have add: "add_and_persist (ce_json env) (ce_pin_fs env) (mw_disk (pw_mitm w)) (pw_pinned w) host =
      (d, (pw_pinned w)\<lparr>ph_hosts := ?S\<rparr>, case b of Inl e \<Rightarrow> Err e | Inr _ \<Rightarrow> Ok True)"
    using n assms(4) p by (simp add: add_and_persist_def)
  obtain u where b: "b = Ok u"
    using assms(1,2) by (cases b) (auto simp: auto_pin_def act_bind_def pin_host_after_tls_rejection_def add lift_io_def fail_def)
  have w': "pw_pinned w' = (pw_pinned w)\<lparr>ph_hosts := ?S\<rparr>" "mw_disk (pw_mitm w') = d"
    using assms(1,2) by (auto simp: auto_pin_def act_bind_def pin_host_after_tls_rejection_def add b lift_io_def ret_def tally_act_run)
  have "load_pinned_hosts (ce_json env) None d (ph_path (pw_pinned w)) = Ok (normalize_host ` ?S - {[]})"
    using persist_then_load [OF assms(5) _ assms(7), of ?S] assms(6) p b by (simp add: pins_wf_def)
  moreover have "normalize_host ` ?S - {[]} = ?S" using assms(4,6,8) by (force simp: pins_wf_def)
  ultimately show ?thesis using w' n(2) by simp
qed

lemma rejection_pins:
  assumes "intercept_tls_tunnel (ce_tunnel env) e host (Some (ce_client_ip env))
      (pw_mitm (tallied inc_mitm_attempt_total (record_mitm_attempt (ce_now env) host) w)) = (Err err, acts, mw)"
    and "is_client_tls_handshake_failure err \<or> is_upstream_tls_handshake_failure err"
    and "run_mitm_intercept env e t host w = (Finished (), ev, w')"
  obtains w1 ev1 w2 where "auto_pin env host w1 = (Finished (), ev1, w2)" "pw_pinned w1 = pw_pinned w" "same_tls w2 w'"
proof -
  have nb: "\<not> is_benign_peer_close err"
    using assms(2) by (cases err) (auto simp: is_benign_peer_close_def is_client_tls_handshake_failure_def is_upstream_tls_handshake_failure_def)
  from run_mitm_intercept_run [OF assms(1,3)] obtain ev' where
    a: "after_intercept env t host (Err err) (w\<lparr>pw_mitm := mw\<rparr>) = (Finished (), ev', w')" by blast
  show thesis
  proof (cases "is_upstream_tls_handshake_failure err")
    case True
    obtain r1 ev1 w2 where p: "auto_pin env host (w\<lparr>pw_mitm := mw\<rparr>) = (r1, ev1, w2)" by (metis prod_cases3)
    with a nb True have "r1 = Finished ()" "same_tls w2 w'"
      by (cases r1; auto simp: after_intercept_def act_bind_def [of "auto_pin env host"] tunnel_effect same_tls_def)+
    then show thesis using that [of "w\<lparr>pw_mitm := mw\<rparr>" ev1 w2] p by simp
  next
    case False
    then have "\<exists>w1. auto_pin env host w1 = (Finished (), ev', w') \<and> pw_pinned w1 = pw_pinned w"
      using a nb assms(2) by (auto simp: after_intercept_def)
    then show thesis using that untouched.frame_refl by blast
  qed
qed


section \<open>Witnesses\<close>

definition wit_tunnel :: "jval tunnel_env" where
  "wit_tunnel = \<lparr>te_json = jdoc JNull, te_connect = None, te_server_name_ok = True, te_upstream_tls = Ok (None, None), te_fs = fs_all_ok,
     te_leaf = wit_leaf_env, te_client_tls = Err ''unknown certificate authority'', te_relay = \<lambda>kind t. (Ok (), t)\<rparr>"

definition wit_head :: bytes where
  "wit_head = ''CONNECT bank.com HTTP/1.1'' @ CRLF2"

definition wit_conn :: "jval conn_env" where
  "wit_conn = \<lparr>ce_json = jdoc JNull, ce_now = 1, ce_mono = 1000000000000, ce_client_ip = ''10.0.0.9'', ce_peek = Ok wit_head, ce_reads = [Ok wit_head],
     ce_client_write = \<lambda>_. None, ce_server_write = \<lambda>_. None, ce_connect = \<lambda>_. None, ce_tunnel = wit_tunnel, ce_pin_fs = fs_all_ok\<rparr>"

definition wit_world :: "bytes set \<Rightarrow> proxy_world" where
  "wit_world hosts = \<lparr>pw_mitm = \<lparr>mw_tally = \<lparr>t_metrics = metrics_default, t_receipts = None\<rparr>, mw_disk = Map.empty,
       mw_engine = mitm_engine_new False, mw_pins = None\<rparr>,
     pw_pinned = \<lparr>ph_path = \<lparr>p_dir = [], p_stem = ''pins'', p_ext = Some ''json''\<rparr>, ph_hosts = hosts, ph_poisoned = False, ph_created_at = 0\<rparr>\<rparr>"

lemma wit_bank: "normalize_host ''bank.com'' = ''bank.com''" "to_ascii_lowercase (trim ''bank.com'') = ''bank.com''"
  by code_simp+

lemma wit_request:
  "connect_request wit_conn = Some (''bank.com:443'', [])" "host_from_authority ''bank.com:443'' = Some ''bank.com''"
  "starts_with_ascii_case_insensitive (take MAX_PEEK_BYTES wit_head) ''CONNECT ''" "take MAX_PEEK_BYTES wit_head \<noteq> []"
proof -
  have e: "find_headers_end wit_head = Some 29" and l: "first_request_line wit_head = Some ''CONNECT bank.com HTTP/1.1''"
    and p: "parse_connect_target ''CONNECT bank.com HTTP/1.1'' = Some ''bank.com:443''" and len: "length wit_head = 29"
    by (code_simp, code_simp, code_simp, code_simp)
  have r: "read_until_headers_complete [] (ce_reads wit_conn) = Some (Ok (wit_head, []))"
    using e len by (simp add: wit_conn_def MAX_CONNECT_HEADER_BYTES_def Let_def) (simp add: wit_head_def)
  then show "connect_request wit_conn = Some (''bank.com:443'', [])" using l p by (simp add: connect_request_def)
  show "host_from_authority ''bank.com:443'' = Some ''bank.com''" by code_simp
  have "take MAX_PEEK_BYTES wit_head = wit_head" using len by (simp add: MAX_PEEK_BYTES_def)
  moreover have "starts_with_ascii_case_insensitive wit_head ''CONNECT ''" by code_simp
  ultimately show "starts_with_ascii_case_insensitive (take MAX_PEEK_BYTES wit_head) ''CONNECT ''" "take MAX_PEEK_BYTES wit_head \<noteq> []"
    using len by auto
qed

lemma wit_requested_host: "requested_host wit_conn = Some ''bank.com''"
  using wit_request by (simp add: requested_host_def) (simp add: wit_conn_def)

lemma wit_pinned: "pinned_contains (pw_pinned (wit_world hosts)) ''bank.com'' = Ok (''bank.com'' \<in> hosts)"
  by (simp add: wit_world_def pinned_contains_def wit_bank)

theorem intercepted_only_unpinned_witness:
  "\<forall>a. Tls a \<notin> set (fst (snd (accept_connection wit_conn True (policy_engine_new Enforce) (wit_world {''bank.com''}))))"
proof -
  obtain r ev w' where run: "accept_connection wit_conn True (policy_engine_new Enforce) (wit_world {''bank.com''}) = (r, ev, w')"
    by (metis prod_cases3)
  from intercepted_only_unpinned [OF this] show ?thesis by (simp add: wit_requested_host wit_pinned run)
qed

theorem connect_passthrough_trace_witness:
  "fst (snd (accept_connection wit_conn True (policy_engine_new Enforce) (wit_world {''bank.com''}))) =
     [ConnectTo ''bank.com:443'', ToClient CONNECT_OK, Splice ''bank.com:443'']"
proof -
  have c: "ce_peek wit_conn = Ok wit_head" "\<forall>x. ce_client_write wit_conn x = None" "\<forall>x. ce_server_write wit_conn x = None"
    "ce_connect wit_conn ''bank.com:443'' = None" by (simp_all add: wit_conn_def)
  have p: "pinned_contains (pw_pinned (wit_world {''bank.com''})) ''bank.com'' = Ok True" by (simp add: wit_pinned)
  from connect_passthrough_trace [OF c(1) wit_request(3) wit_request(1,2) p _ c(2,3), of True "policy_engine_new Enforce"]
  show ?thesis by (auto simp: c(4))
qed

theorem connection_always_served_witness:
  "fst (accept_connection (wit_conn\<lparr>ce_reads := replicate 16385 (Ok ''A'')\<rparr>) False (policy_engine_new Enforce) (wit_world {})) \<noteq> Waiting"
proof -
  let ?env = "wit_conn\<lparr>ce_reads := replicate 16385 (Ok ''A'')\<rparr>"
  have "length (ce_reads ?env) > 16384" by simp
  from connection_always_served [OF this, of False "policy_engine_new Enforce" "wit_world {}"] show ?thesis by auto
qed

lemma wit_intercept_any:
  assumes "mw_engine mw0 = mitm_engine_new False" "mw_pins mw0 = None"
  shows "\<exists>mw. intercept_tls_tunnel (ce_tunnel wit_conn) e ''bank.com'' ip mw0 =
     (Err (ClientTlsHandshake ''unknown certificate authority''), [AcceptTls \<lparr>sc_leaf = \<lparr>lf_subject = ''bank.com'', lf_der = ''bank.com'', lf_serial = None\<rparr>,
        sc_alpn = alpn_for (force_http1 e ''bank.com'' ip)\<rparr>], mw)"
proof -
  let ?h = "force_http1 e ''bank.com'' ip"
  have "\<exists>s. server_config_for_host wit_leaf_env ''bank.com'' ?h (mitm_engine_new False) =
      (Ok \<lparr>sc_leaf = \<lparr>lf_subject = ''bank.com'', lf_der = ''bank.com'', lf_serial = None\<rparr>, sc_alpn = alpn_for ?h\<rparr>, s)"
    by (simp add: server_config_for_host_def wit_bank wit_leaf_env_def mitm_engine_new_def cert_log_record_def Let_def)
  then obtain s where s: "server_config_for_host wit_leaf_env ''bank.com'' ?h (mitm_engine_new False) =
      (Ok \<lparr>sc_leaf = \<lparr>lf_subject = ''bank.com'', lf_der = ''bank.com'', lf_serial = None\<rparr>, sc_alpn = alpn_for ?h\<rparr>, s)" ..
  show ?thesis
    by (simp add: intercept_tls_tunnel_def wit_conn_def wit_tunnel_def pin_check_def assms s Let_def)
qed

lemma wit_intercept:
  "\<exists>acts mw. intercept_tls_tunnel (ce_tunnel wit_conn) e ''bank.com'' ip (pw_mitm (tallied f g (wit_world hosts))) =
     (Err (ClientTlsHandshake ''unknown certificate authority''), acts, mw)"
  using wit_intercept_any [of "pw_mitm (tallied f g (wit_world hosts))" e ip] by (auto simp: wit_world_def tallied_def)

theorem mitm_attempt_accounting_witness:
  "let m = t_metrics (mw_tally (pw_mitm (snd (snd (run_mitm_intercept wit_conn (policy_engine_new Enforce) ''bank.com:443'' ''bank.com'' (wit_world {}))))))
   in m_mitm_attempt_total m = 1 \<and> m_mitm_success_total m = 0 \<and> m_mitm_failure_total m = 1"
proof -
  let ?w = "wit_world {}"
  obtain acts mw where i: "intercept_tls_tunnel (ce_tunnel wit_conn) (policy_engine_new Enforce) ''bank.com'' (Some (ce_client_ip wit_conn))
      (pw_mitm (tallied inc_mitm_attempt_total (record_mitm_attempt (ce_now wit_conn) ''bank.com'') ?w)) =
      (Err (ClientTlsHandshake ''unknown certificate authority''), acts, mw)"
    using wit_intercept by blast
  obtain r ev w' where run: "run_mitm_intercept wit_conn (policy_engine_new Enforce) ''bank.com:443'' ''bank.com'' ?w = (r, ev, w')"
    by (metis prod_cases3)
  have k: "relay_keeps_routing (ce_tunnel wit_conn)" by (simp add: relay_keeps_routing_def wit_conn_def wit_tunnel_def)
  have m: "m_mitm_attempt_total (t_metrics (mw_tally (pw_mitm ?w))) = 0" "m_mitm_success_total (t_metrics (mw_tally (pw_mitm ?w))) = 0"
    "m_mitm_failure_total (t_metrics (mw_tally (pw_mitm ?w))) = 0" by (simp_all add: wit_world_def metrics_default_def)
  from mitm_attempt_accounting [OF k i run] m show ?thesis
    by (simp add: run is_benign_peer_close_def is_upstream_tls_handshake_failure_def)
qed

end
