(* ===== verification/Dns_Filter.thy ===== *)
theory Dns_Filter
  imports Policy Tally "HOL-Library.Product_Lexorder"
begin

text \<open>
  \<^verbatim>\<open>src/dns_filter.rs\<close>: the DNS filter on UDP and the DNS-over-HTTPS server. The wire format (crate
  \<^verbatim>\<open>hickory_proto\<close>) is a parameter: a decoder, an encoder and the header that answers a request. Also
  parameters are the URI parser and the base64 decoder. What the network delivers is an argument
  of the step that waits for it; the policy engine may be reloaded while a query waits for its
  upstream reply, so the engine that judges the reply is a second argument.
\<close>

definition MAX_DNS_PACKET :: nat where "MAX_DNS_PACKET = 4096"

datatype message_type = QueryMessage | ResponseMessage

datatype op_code = OpQuery | OpOther nat

datatype response_code = NXDomain | OtherCode nat

record dns_header =
  dh_id :: "16 word"
  dh_message_type :: message_type
  dh_op_code :: op_code
  dh_response_code :: response_code
  dh_recursion_available :: bool

record dns_question =
  q_name_ascii :: bytes
  q_type :: "16 word"
  q_class :: "16 word"

datatype rdata = CNAME bytes | OtherData bytes

record dns_message =
  dm_header :: dns_header
  dm_queries :: "dns_question list"
  dm_answers :: "rdata list"

record dns_codec =
  message_from_bytes :: "bytes \<Rightarrow> dns_message option"
  message_to_vec :: "dns_message \<Rightarrow> bytes option"
  response_from_request :: "dns_header \<Rightarrow> dns_header"

definition normalize_dns_name :: "bytes \<Rightarrow> bytes" where
  "normalize_dns_name name = to_ascii_lowercase (trim_end_matches CHR ''.'' (trim name))"

definition nxdomain_message :: "dns_codec \<Rightarrow> dns_message \<Rightarrow> dns_message" where
  "nxdomain_message D query =
    (let header = response_from_request D (dm_header query);
         header = header\<lparr>dh_response_code := NXDomain\<rparr>;
         header = header\<lparr>dh_recursion_available := True\<rparr>
     in \<lparr>dm_header = header, dm_queries = dm_queries query, dm_answers = []\<rparr>)"

definition build_nxdomain :: "dns_codec \<Rightarrow> dns_message \<Rightarrow> bytes" where
  "build_nxdomain D query = (case message_to_vec D (nxdomain_message D query) of Some b \<Rightarrow> b | None \<Rightarrow> [])"

definition is_standard_query :: "dns_message \<Rightarrow> bool" where
  "is_standard_query msg \<longleftrightarrow> dh_message_type (dm_header msg) = QueryMessage \<and> dh_op_code (dm_header msg) = OpQuery"

section \<open>Queries\<close>

definition process_dns_query :: "dns_codec \<Rightarrow> u64 \<Rightarrow> policy_engine \<Rightarrow> bytes \<Rightarrow> tally \<Rightarrow> bytes option \<times> tally" where
  "process_dns_query D now e query_data t =
    (let t = t\<lparr>t_metrics := inc_dns_query_total (t_metrics t)\<rparr> in
     case message_from_bytes D query_data of None \<Rightarrow> (None, t)
     | Some msg \<Rightarrow>
        if \<not> is_standard_query msg then (None, t)
        else case dm_queries msg of [] \<Rightarrow> (None, t)
        | q # _ \<Rightarrow>
           let query_name = normalize_dns_name (q_name_ascii q); plan = plan_for_dns_query e query_name in
           if should_block plan then
             (case dp_mode plan of
                Enforce \<Rightarrow> (Some (build_nxdomain D msg), tick inc_dns_blocked_total (record_dns_block now query_name) t)
              | ReportOnly \<Rightarrow> (None, tick inc_dns_report_only_total (record_dns_report_only now query_name) t)
              | Disabled \<Rightarrow> (None, t))
           else (None, t))"

record query_key =
  k_id :: "16 word"
  k_name :: bytes
  k_type :: "16 word"
  k_class :: "16 word"

definition from_query_bytes :: "dns_codec \<Rightarrow> bytes \<Rightarrow> query_key option" where
  "from_query_bytes D query =
    (case message_from_bytes D query of None \<Rightarrow> None
     | Some msg \<Rightarrow>
        if \<not> is_standard_query msg then None
        else case dm_queries msg of [] \<Rightarrow> None
        | q # _ \<Rightarrow> Some \<lparr>k_id = dh_id (dm_header msg), k_name = normalize_dns_name (q_name_ascii q),
                        k_type = q_type q, k_class = q_class q\<rparr>)"

definition matches_reply_bytes :: "dns_codec \<Rightarrow> query_key \<Rightarrow> bytes \<Rightarrow> bool" where
  "matches_reply_bytes D key reply =
    (case message_from_bytes D reply of None \<Rightarrow> False
     | Some msg \<Rightarrow>
        if dh_id (dm_header msg) \<noteq> k_id key then False
        else case dm_queries msg of [] \<Rightarrow> True
        | q # _ \<Rightarrow> \<not> (normalize_dns_name (q_name_ascii q) \<noteq> k_name key \<or> q_type q \<noteq> k_type key \<or> q_class q \<noteq> k_class key))"

definition extract_cname_targets :: "dns_codec \<Rightarrow> bytes \<Rightarrow> bytes list" where
  "extract_cname_targets D response_bytes =
    (case message_from_bytes D response_bytes of None \<Rightarrow> []
     | Some msg \<Rightarrow> List.map_filter (\<lambda>r. case r of CNAME c \<Rightarrow> Some (normalize_dns_name c) | OtherData _ \<Rightarrow> None) (dm_answers msg))"

section \<open>The UDP filter\<close>

text \<open>The loop over the CNAME targets: \<open>Some\<close> when the reply is replaced, with what is sent instead (nothing
  when the query cannot be decoded).\<close>

fun cname_loop :: "dns_codec \<Rightarrow> u64 \<Rightarrow> policy_engine \<Rightarrow> bytes \<Rightarrow> bytes \<Rightarrow> bytes list \<Rightarrow> tally \<Rightarrow> bytes option option \<times> tally" where
  "cname_loop D now e query query_name [] t = (None, t)"
| "cname_loop D now e query query_name (target # targets) t =
    (let plan = plan_for_dns_query e target in
     if should_block plan then
       (case dp_mode plan of
          Enforce \<Rightarrow> (Some (map_option (build_nxdomain D) (message_from_bytes D query)),
                     tick inc_dns_cname_uncloaked_total (record_dns_cname_uncloaked now query_name) t)
        | ReportOnly \<Rightarrow> cname_loop D now e query query_name targets (tick inc_dns_report_only_total (record_dns_report_only now query_name) t)
        | Disabled \<Rightarrow> cname_loop D now e query query_name targets t)
     else cname_loop D now e query query_name targets t)"

text \<open>\<open>forward_and_reply\<close> once the reply data is there: what is sent to the client. \<open>None\<close> for the reply
  data covers the send error, the receive error, the time-out and the failed DoH query.\<close>

definition forward_and_reply :: "dns_codec \<Rightarrow> u64 \<Rightarrow> policy_engine \<Rightarrow> bytes \<Rightarrow> bytes \<Rightarrow> bytes option \<Rightarrow> tally \<Rightarrow> bytes option \<times> tally" where
  "forward_and_reply D now e query query_name reply_data t =
    (case reply_data of None \<Rightarrow> (None, t)
     | Some reply_bytes \<Rightarrow>
        if (case from_query_bytes D query of None \<Rightarrow> False | Some key \<Rightarrow> \<not> matches_reply_bytes D key reply_bytes) then (None, t)
        else case cname_loop D now e query query_name (extract_cname_targets D reply_bytes) t of
          (Some replaced, t) \<Rightarrow> (replaced, t)
        | (None, t) \<Rightarrow> (Some reply_bytes, t))"

definition context_name :: "dns_codec \<Rightarrow> bytes \<Rightarrow> bytes" where
  "context_name D query_data =
    (case message_from_bytes D query_data of None \<Rightarrow> []
     | Some msg \<Rightarrow> (case dm_queries msg of [] \<Rightarrow> [] | q # _ \<Rightarrow> normalize_dns_name (q_name_ascii q)))"

text \<open>The upstream of one query: the DoH server when one is configured (its answer or nothing within
  the time limit), else the UDP socket, which all queries share: \<open>queued\<close> are the datagrams that
  wait in it, \<open>in_time\<close> those that arrive while this query waits, \<open>late\<close> those that arrive between
  this query and the next. A datagram longer than the buffer is cut.\<close>

record dns_round =
  rd_client :: bytes
  rd_query :: bytes
  rd_now :: u64
  rd_engine :: policy_engine
  rd_engine_after :: policy_engine
  rd_doh_answer :: "bytes option"
  rd_send_ok :: bool
  rd_in_time :: "bytes list"
  rd_late :: "bytes list"

record dns_state =
  ds_tally :: tally
  ds_queued :: "bytes list"
  ds_sent :: "(bytes \<times> bytes \<times> bytes) list"

definition udp_receive :: "dns_round \<Rightarrow> bytes list \<Rightarrow> bytes option \<times> bytes list" where
  "udp_receive r queued =
    (if \<not> rd_send_ok r then (None, queued @ rd_in_time r @ rd_late r)
     else case queued @ rd_in_time r of [] \<Rightarrow> (None, rd_late r)
     | d # ds \<Rightarrow> (Some (take MAX_DNS_PACKET d), ds @ rd_late r))"

definition dns_filter_round :: "dns_codec \<Rightarrow> bool \<Rightarrow> dns_round \<Rightarrow> dns_state \<Rightarrow> dns_state" where
  "dns_filter_round D upstream_doh r s =
    (let query_data = take MAX_DNS_PACKET (rd_query r) in
     case process_dns_query D (rd_now r) (rd_engine r) query_data (ds_tally s) of
       (Some response, t) \<Rightarrow> s\<lparr>ds_tally := t, ds_queued := ds_queued s @ rd_in_time r @ rd_late r, ds_sent := ds_sent s @ [(rd_client r, query_data, response)]\<rparr>
     | (None, t) \<Rightarrow>
        let (reply_data, queued) = (if upstream_doh then (rd_doh_answer r, ds_queued s @ rd_in_time r @ rd_late r)
               else udp_receive r (ds_queued s));
            (sent, t) = forward_and_reply D (rd_now r) (rd_engine_after r) query_data (context_name D query_data) reply_data t
        in \<lparr>ds_tally = t, ds_queued = queued,
            ds_sent = ds_sent s @ (case sent of None \<Rightarrow> [] | Some b \<Rightarrow> [(rd_client r, query_data, b)])\<rparr>)"

definition run_dns_filter :: "dns_codec \<Rightarrow> bool \<Rightarrow> dns_round list \<Rightarrow> dns_state \<Rightarrow> dns_state" where
  "run_dns_filter D upstream_doh rounds s = fold (dns_filter_round D upstream_doh) rounds s"

section \<open>The DoH client\<close>

definition doh_request :: "bytes \<Rightarrow> bytes \<Rightarrow> bytes \<Rightarrow> bytes" where
  "doh_request path host query_data =
    ''POST '' @ path @ '' HTTP/1.1'' @ CRLF @
    ''Host: '' @ host @ CRLF @
    ''User-Agent: privacy-engine-rust/0.1'' @ CRLF @
    ''Content-Type: application/dns-message'' @ CRLF @
    ''Content-Length: '' @ show_nat (length query_data) @ CRLF @
    ''Accept: application/dns-message'' @ CRLF @ CRLF @ query_data"

text \<open>\<open>exchange host port request\<close> is the TLS connection: all that the server sends until it closes, or
  the error of the connect, the handshake, the write or the read.\<close>

definition doh_query :: "uri_parser \<Rightarrow> (bytes \<Rightarrow> nat \<Rightarrow> bytes \<Rightarrow> bytes io_result) \<Rightarrow> bytes \<Rightarrow> bytes \<Rightarrow> bytes io_result" where
  "doh_query uri_parse exchange url query_data =
    (case uri_parse url of Inl e \<Rightarrow> Err (IoError InvalidInput (''invalid DoH URL: '' @ e))
     | Inr uri \<Rightarrow>
        and_then (ok_or (uri_host uri) (IoError InvalidInput ''DoH URL missing host'')) (\<lambda>host.
        let port = (case port_u16 uri of Some p \<Rightarrow> p | None \<Rightarrow> 443);
            path = (case path_and_query uri of Some p \<Rightarrow> p | None \<Rightarrow> ''/dns-query'')
        in and_then (exchange host port (doh_request path host query_data)) (\<lambda>buf.
           and_then (ok_or (find_sub CRLF2 buf) (IoError InvalidData ''invalid HTTP response'')) (\<lambda>header_end.
           Ok (drop (header_end + 4) buf)))))"

section \<open>The DoH server\<close>

definition DOH_CLIENT_STALE_SECS :: nat where "DOH_CLIENT_STALE_SECS = 24 * 60 * 60"

text \<open>Points of time are nanoseconds since the epoch.\<close>

record doh_client_entry =
  de_query_total :: u64
  de_last_seen :: int

record doh_stats =
  dst_query_total :: u64
  dst_clients :: "bytes \<rightharpoonup> doh_client_entry"

record doh_client_snapshot =
  cs_client_ip :: bytes
  cs_query_total :: u64
  cs_last_seen_unix :: u64

record doh_stats_snapshot =
  ss_query_total :: u64
  ss_unique_client_total :: u64
  ss_top_clients :: "doh_client_snapshot list"

definition duration_since :: "int \<Rightarrow> int \<Rightarrow> int option" where
  "duration_since a b = (if b \<le> a then Some (a - b) else None)"

definition seconds :: "nat \<Rightarrow> int" where
  "seconds n = int n * 1000000000"

definition prune_locked :: "int \<Rightarrow> int \<Rightarrow> (bytes \<rightharpoonup> doh_client_entry) \<Rightarrow> (bytes \<rightharpoonup> doh_client_entry)" where
  "prune_locked now max_age clients =
    (\<lambda>k. case clients k of None \<Rightarrow> None
         | Some entry \<Rightarrow> if (case duration_since now (de_last_seen entry) of Some d \<Rightarrow> d | None \<Rightarrow> 0) \<le> max_age then Some entry else None)"

definition record_query :: "int \<Rightarrow> bytes \<Rightarrow> doh_stats \<Rightarrow> doh_stats" where
  "record_query now client_ip s =
    (let total = dst_query_total s + 1;
         entry = (case dst_clients s client_ip of Some e \<Rightarrow> e | None \<Rightarrow> \<lparr>de_query_total = 0, de_last_seen = now\<rparr>);
         entry = \<lparr>de_query_total = sat_add (de_query_total entry) 1, de_last_seen = now\<rparr>;
         clients = (dst_clients s)(client_ip \<mapsto> entry);
         clients = (if total mod 256 = 0 then prune_locked now (seconds DOH_CLIENT_STALE_SECS) clients else clients)
     in \<lparr>dst_query_total = total, dst_clients = clients\<rparr>)"

definition unix_seconds :: "int \<Rightarrow> u64" where
  "unix_seconds t = (case duration_since t 0 of Some d \<Rightarrow> of_int (d div 1000000000) | None \<Rightarrow> 0)"

definition client_snapshot :: "bytes \<Rightarrow> doh_client_entry \<Rightarrow> doh_client_snapshot" where
  "client_snapshot ip e = \<lparr>cs_client_ip = ip, cs_query_total = de_query_total e, cs_last_seen_unix = unix_seconds (de_last_seen e)\<rparr>"

definition doh_snapshot :: "int \<Rightarrow> nat \<Rightarrow> doh_stats \<Rightarrow> doh_stats_snapshot \<times> doh_stats" where
  "doh_snapshot now top_n s =
    (let clients = prune_locked now (seconds DOH_CLIENT_STALE_SECS) (dst_clients s);
         top_clients = map (\<lambda>ip. client_snapshot ip (the (clients ip))) (sorted_list_of_set (dom clients));
         top_clients = sort_key (\<lambda>c. (- uint (cs_query_total c), cs_client_ip c)) top_clients
     in (\<lparr>ss_query_total = dst_query_total s, ss_unique_client_total = of_nat (card (dom clients)), ss_top_clients = take top_n top_clients\<rparr>,
         s\<lparr>dst_clients := clients\<rparr>))"

record doh_http_request =
  hq_method :: bytes
  hq_content_type :: "bytes option"
  hq_query :: "bytes option"
  hq_body :: "string + bytes"

record doh_http_response =
  hp_status :: nat
  hp_content_type :: bytes
  hp_body :: bytes

definition doh_dns_response :: "nat \<Rightarrow> bytes \<Rightarrow> doh_http_response" where
  "doh_dns_response status body = \<lparr>hp_status = status, hp_content_type = ''application/dns-message'', hp_body = body\<rparr>"

definition doh_text_response :: "nat \<Rightarrow> bytes \<Rightarrow> doh_http_response" where
  "doh_text_response status msg = \<lparr>hp_status = status, hp_content_type = ''text/plain; charset=utf-8'', hp_body = msg\<rparr>"

fun find_dns_param :: "bytes list \<Rightarrow> bytes option" where
  "find_dns_param [] = None"
| "find_dns_param (pair # pairs) =
    (case split_once CHR ''='' pair of
       Some (k, v) \<Rightarrow> if k = ''dns'' then Some v else find_dns_param pairs
     | None \<Rightarrow> find_dns_param pairs)"

text \<open>The DNS message of a request: \<open>Inl (Inl e)\<close> for an error of the connection while the body is read,
  \<open>Inl (Inr r)\<close> for the response that refuses the request.\<close>

definition doh_query_bytes :: "(bytes \<Rightarrow> bytes option) \<Rightarrow> doh_http_request \<Rightarrow> (string + doh_http_response) + bytes" where
  "doh_query_bytes b64_decode req =
    (if hq_method req = ''POST'' then
       (if hq_content_type req \<noteq> Some ''application/dns-message'' then Err (Inr (doh_text_response 415 ''Unsupported Media Type''))
        else case hq_body req of Inl e \<Rightarrow> Err (Inl e) | Inr bytes \<Rightarrow> Ok bytes)
     else if hq_method req = ''GET'' then
       (case find_dns_param (split_on CHR ''&'' (case hq_query req of Some q \<Rightarrow> q | None \<Rightarrow> [])) of
          None \<Rightarrow> Err (Inr (doh_text_response 400 (''Missing '' @ in_quotes ''dns'' @ '' query parameter'')))
        | Some b64 \<Rightarrow> (case b64_decode b64 of Some b \<Rightarrow> Ok b | None \<Rightarrow> Err (Inr (doh_text_response 400 ''Invalid base64url DNS query''))))
     else Err (Inr (doh_text_response 405 ''Method Not Allowed'')))"

datatype doh_upstream =
    UpstreamReply bytes
  | UpstreamNone
  | UpstreamSocketError

fun doh_cname_loop :: "dns_codec \<Rightarrow> u64 \<Rightarrow> policy_engine \<Rightarrow> bytes \<Rightarrow> bytes list \<Rightarrow> tally \<Rightarrow> doh_http_response option \<times> tally" where
  "doh_cname_loop D now e query_bytes [] t = (None, t)"
| "doh_cname_loop D now e query_bytes (target # targets) t =
    (let plan = plan_for_dns_query e target in
     if should_block plan \<and> dp_mode plan = Enforce then
       let t = tick inc_dns_cname_uncloaked_total (record_dns_cname_uncloaked now target) t in
       (case message_from_bytes D query_bytes of
          Some original_msg \<Rightarrow> (Some (doh_dns_response 200 (build_nxdomain D original_msg)), t)
        | None \<Rightarrow> doh_cname_loop D now e query_bytes targets t)
     else doh_cname_loop D now e query_bytes targets t)"

record doh_server =
  dv_tally :: tally
  dv_stats :: doh_stats

text \<open>\<open>upstream\<close> is what the upstream gives for this request; it is asked only when the policy has not answered.\<close>

definition handle_doh_request ::
  "dns_codec \<Rightarrow> (bytes \<Rightarrow> bytes option) \<Rightarrow> u64 \<Rightarrow> int \<Rightarrow> policy_engine \<Rightarrow> policy_engine \<Rightarrow> (bytes \<Rightarrow> doh_upstream) \<Rightarrow>
   bytes \<Rightarrow> doh_http_request \<Rightarrow> doh_server \<Rightarrow> (string + doh_http_response) \<times> doh_server" where
  "handle_doh_request D b64_decode now clock e e' upstream client_ip req s =
    (case doh_query_bytes b64_decode req of
       Inl (Inl err) \<Rightarrow> (Err err, s)
     | Inl (Inr refused) \<Rightarrow> (Ok refused, s)
     | Inr query_bytes \<Rightarrow>
        let stats = record_query clock client_ip (dv_stats s) in
        (case process_dns_query D now e query_bytes (dv_tally s) of
           (Some response, t) \<Rightarrow> (Ok (doh_dns_response 200 response), \<lparr>dv_tally = t, dv_stats = stats\<rparr>)
         | (None, t) \<Rightarrow>
            (case upstream query_bytes of
               UpstreamSocketError \<Rightarrow> (Ok (doh_text_response 502 ''Upstream Error''), \<lparr>dv_tally = t, dv_stats = stats\<rparr>)
             | UpstreamNone \<Rightarrow> (Ok (doh_text_response 502 ''Upstream Timeout''), \<lparr>dv_tally = t, dv_stats = stats\<rparr>)
             | UpstreamReply reply \<Rightarrow>
                (case doh_cname_loop D now e' query_bytes (extract_cname_targets D reply) t of
                   (Some nx, t) \<Rightarrow> (Ok nx, \<lparr>dv_tally = t, dv_stats = stats\<rparr>)
                 | (None, t) \<Rightarrow> (Ok (doh_dns_response 200 reply), \<lparr>dv_tally = t, dv_stats = stats\<rparr>)))))"

section \<open>What the policy refuses\<close>

definition enforced :: "policy_engine \<Rightarrow> bytes \<Rightarrow> bool" where
  "enforced e name \<longleftrightarrow> should_block (plan_for_dns_query e name) \<and> dp_mode (plan_for_dns_query e name) = Enforce"

lemma process_dns_query_None:
  "process_dns_query D now e q t = (None, t') \<Longrightarrow> from_query_bytes D q = Some key \<Longrightarrow> \<not> enforced e (k_name key)"
  by (auto simp: process_dns_query_def from_query_bytes_def enforced_def Let_def split: option.splits if_splits list.splits policy_mode.splits)

lemma process_dns_query_Some:
  "process_dns_query D now e q t = (Some b, t') \<Longrightarrow>
    \<exists>msg key. message_from_bytes D q = Some msg \<and> from_query_bytes D q = Some key \<and> enforced e (k_name key) \<and> b = build_nxdomain D msg"
  by (auto simp: process_dns_query_def from_query_bytes_def enforced_def Let_def split: option.splits if_splits list.splits policy_mode.splits)

lemma cname_loop_None:
  "cname_loop D now e q n targets t = (None, t') \<Longrightarrow> target \<in> set targets \<Longrightarrow> \<not> enforced e target"
  by (induction D now e q n targets t rule: cname_loop.induct)
    (auto simp: enforced_def Let_def split: if_splits policy_mode.splits)

lemma cname_loop_Some:
  "cname_loop D now e q n targets t = (Some r, t') \<Longrightarrow>
    r = map_option (build_nxdomain D) (message_from_bytes D q) \<and> (\<exists>target\<in>set targets. enforced e target)"
  by (induction D now e q n targets t rule: cname_loop.induct)
    (auto simp: enforced_def Let_def split: if_splits policy_mode.splits)

lemma doh_cname_loop_None:
  "doh_cname_loop D now e q targets t = (None, t') \<Longrightarrow> message_from_bytes D q = Some msg \<Longrightarrow> target \<in> set targets \<Longrightarrow> \<not> enforced e target"
  by (induction D now e q targets t rule: doh_cname_loop.induct)
    (auto simp: enforced_def Let_def split: if_splits)

lemma doh_cname_loop_Some:
  "doh_cname_loop D now e q targets t = (Some r, t') \<Longrightarrow>
    \<exists>msg target. message_from_bytes D q = Some msg \<and> r = doh_dns_response 200 (build_nxdomain D msg) \<and> target \<in> set targets \<and> enforced e target"
  by (induction D now e q targets t rule: doh_cname_loop.induct)
    (auto simp: enforced_def Let_def split: if_splits option.splits)

text \<open>A refusal of a query on the wire: same identifier, same questions, \<open>NXDomain\<close>, no answers.\<close>

definition refuses :: "dns_codec \<Rightarrow> bytes \<Rightarrow> bytes \<Rightarrow> bool" where
  "refuses D q b \<longleftrightarrow> (\<exists>msg reply. message_from_bytes D q = Some msg \<and> message_from_bytes D b = Some reply \<and>
     dh_id (dm_header reply) = dh_id (dm_header msg) \<and> dh_message_type (dm_header reply) = ResponseMessage \<and>
     dh_response_code (dm_header reply) = NXDomain \<and> dm_queries reply = dm_queries msg \<and> dm_answers reply = [])"

text \<open>What is relied on of the wire format: a request header is answered by a response header with its
  identifier, and a refusal of a decoded query can be encoded and decodes to itself.\<close>

definition dns_codec_laws :: "dns_codec \<Rightarrow> bool" where
  "dns_codec_laws D \<longleftrightarrow>
     (\<forall>h. dh_id (response_from_request D h) = dh_id h \<and> dh_message_type (response_from_request D h) = ResponseMessage) \<and>
     (\<forall>q m. message_from_bytes D q = Some m \<longrightarrow>
        (\<exists>b. message_to_vec D (nxdomain_message D m) = Some b \<and> message_from_bytes D b = Some (nxdomain_message D m)))"

lemma build_nxdomain_refuses:
  assumes "dns_codec_laws D" "message_from_bytes D q = Some m"
  shows "refuses D q (build_nxdomain D m)"
proof -
  obtain b where b: "message_to_vec D (nxdomain_message D m) = Some b" "message_from_bytes D b = Some (nxdomain_message D m)"
    using assms unfolding dns_codec_laws_def by blast
  then have "build_nxdomain D m = b" by (simp add: build_nxdomain_def)
  with b assms show ?thesis by (simp add: refuses_def dns_codec_laws_def nxdomain_message_def Let_def)
qed

text \<open>An answer the filter may give to a query under the engine \<open>e\<close> at the time of the query and \<open>e'\<close> at
  the time of the reply: a refusal, when the name or an alias is blocked, or a reply in which nothing is.\<close>

definition allowed_answer :: "dns_codec \<Rightarrow> policy_engine \<Rightarrow> policy_engine \<Rightarrow> bytes \<Rightarrow> bytes \<Rightarrow> bool" where
  "allowed_answer D e e' q b \<longleftrightarrow>
     refuses D q b \<and> ((\<exists>key. from_query_bytes D q = Some key \<and> enforced e (k_name key)) \<or> (\<exists>target. enforced e' target)) \<or>
     (\<forall>key. from_query_bytes D q = Some key \<longrightarrow> \<not> enforced e (k_name key)) \<and>
     (\<forall>target\<in>set (extract_cname_targets D b). \<not> enforced e' target)"

lemma forward_allowed:
  assumes "dns_codec_laws D" "process_dns_query D now e q t0 = (None, t1)"
    "forward_and_reply D now' e' q n reply t1 = (Some b, t2)"
  shows "allowed_answer D e e' q b \<and> (\<forall>key. from_query_bytes D q = Some key \<longrightarrow> matches_reply_bytes D key b \<or> refuses D q b)"
proof -
  from assms(3) obtain rb where rb: "reply = Some rb" "\<And>key. from_query_bytes D q = Some key \<Longrightarrow> matches_reply_bytes D key rb"
    by (auto simp: forward_and_reply_def split: option.splits if_splits)
  obtain c t3 where c: "cname_loop D now' e' q n (extract_cname_targets D rb) t1 = (c, t3)" by fastforce
  show ?thesis
  proof (cases c)
    case None
    with assms(3) c rb(1) have "b = rb" by (auto simp: forward_and_reply_def split: option.splits if_splits)
    then show ?thesis
      using process_dns_query_None [OF assms(2)] cname_loop_None [OF c [unfolded None]] rb(2) by (auto simp: allowed_answer_def)
  next
    case (Some r)
    with assms(3) c rb(1) have "r = Some b" by (auto simp: forward_and_reply_def split: option.splits if_splits)
    with cname_loop_Some [OF c [unfolded Some]] obtain m where m: "message_from_bytes D q = Some m" "b = build_nxdomain D m" "\<exists>target. enforced e' target"
      by (auto simp: eq_commute [of "Some b"])
    then have "refuses D q b" using build_nxdomain_refuses [OF assms(1)] by simp
    with m(3) show ?thesis by (auto simp: allowed_answer_def)
  qed
qed

lemma process_allowed:
  assumes "dns_codec_laws D" "process_dns_query D now e q t0 = (Some b, t1)"
  shows "allowed_answer D e e' q b \<and> refuses D q b"
  using process_dns_query_Some [OF assms(2)] build_nxdomain_refuses [OF assms(1)] by (auto simp: allowed_answer_def)

lemma dns_round_allowed:
  assumes "dns_codec_laws D"
  shows "\<exists>new. ds_sent (dns_filter_round D doh r s) = ds_sent s @ new \<and>
    (\<forall>(client, q, b) \<in> set new. client = rd_client r \<and> q = take MAX_DNS_PACKET (rd_query r) \<and>
       allowed_answer D (rd_engine r) (rd_engine_after r) q b \<and>
       (\<forall>key. from_query_bytes D q = Some key \<longrightarrow> matches_reply_bytes D key b \<or> refuses D q b))"
proof -
  let ?q = "take MAX_DNS_PACKET (rd_query r)"
  obtain p t where p: "process_dns_query D (rd_now r) (rd_engine r) ?q (ds_tally s) = (p, t)" by fastforce
  show ?thesis
  proof (cases p)
    case (Some b)
    with process_allowed [OF assms p [unfolded Some]] p show ?thesis by (simp add: dns_filter_round_def Let_def)
  next
    case None
    define f where "f = (if doh then (rd_doh_answer r, ds_queued s @ rd_in_time r @ rd_late r) else udp_receive r (ds_queued s))"
    obtain sent t' where s: "forward_and_reply D (rd_now r) (rd_engine_after r) ?q (context_name D ?q) (fst f) t = (sent, t')" by fastforce
    have "ds_sent (dns_filter_round D doh r s) = ds_sent s @ (case sent of None \<Rightarrow> [] | Some b \<Rightarrow> [(rd_client r, ?q, b)])"
      using p None s by (simp add: dns_filter_round_def Let_def case_prod_unfold f_def)
    moreover have "allowed_answer D (rd_engine r) (rd_engine_after r) ?q b \<and>
       (\<forall>key. from_query_bytes D ?q = Some key \<longrightarrow> matches_reply_bytes D key b \<or> refuses D ?q b)" if "sent = Some b" for b
      using forward_allowed [OF assms p [unfolded None]] s that by blast
    ultimately show ?thesis by (auto split: option.splits)
  qed
qed

section \<open>Properties\<close>

lemma run_dns_filter_allowed:
  assumes "dns_codec_laws D"
  shows "\<exists>new. ds_sent (run_dns_filter D doh rounds s) = ds_sent s @ new \<and>
    (\<forall>(client, q, b) \<in> set new. \<exists>r\<in>set rounds. client = rd_client r \<and> q = take MAX_DNS_PACKET (rd_query r) \<and>
       allowed_answer D (rd_engine r) (rd_engine_after r) q b \<and>
       (\<forall>key. from_query_bytes D q = Some key \<longrightarrow> matches_reply_bytes D key b \<or> refuses D q b))"
proof (induction rounds arbitrary: s)
  case (Cons r rs)
  obtain n1 n2 where n: "ds_sent (dns_filter_round D doh r s) = ds_sent s @ n1"
    "ds_sent (run_dns_filter D doh (r # rs) s) = ds_sent (dns_filter_round D doh r s) @ n2"
    "\<forall>(client, q, b) \<in> set n1. client = rd_client r \<and> q = take MAX_DNS_PACKET (rd_query r) \<and>
       allowed_answer D (rd_engine r) (rd_engine_after r) q b \<and>
       (\<forall>key. from_query_bytes D q = Some key \<longrightarrow> matches_reply_bytes D key b \<or> refuses D q b)"
    "\<forall>(client, q, b) \<in> set n2. \<exists>r\<in>set rs. client = rd_client r \<and> q = take MAX_DNS_PACKET (rd_query r) \<and>
       allowed_answer D (rd_engine r) (rd_engine_after r) q b \<and>
       (\<forall>key. from_query_bytes D q = Some key \<longrightarrow> matches_reply_bytes D key b \<or> refuses D q b)"
    using dns_round_allowed [OF assms, of doh r s] Cons.IH [of "dns_filter_round D doh r s"] by (auto simp: run_dns_filter_def)
  show ?case by (rule exI [of _ "n1 @ n2"]) (use n in fastforce)
qed (simp add: run_dns_filter_def)

text \<open>C7: the DNS filter lets no blocked name through. Whatever datagrams arrive and however the policy
  is reloaded meanwhile, every datagram it sends answers a query of that client, and it is either a
  refusal with the identifier and the questions of the query, given only when the policy enforces a
  block on the queried name or on an alias, or a reply to a query whose name was not blocked, with
  no blocked CNAME target; and a reply to a well-formed query carries its identifier and, when it
  has a question, its question.\<close>
theorem dns_filter_answers:
  assumes "dns_codec_laws D" "ds_sent s = []"
    and "(client, q, b) \<in> set (ds_sent (run_dns_filter D doh rounds s))"
  shows "\<exists>r\<in>set rounds. client = rd_client r \<and> q = take MAX_DNS_PACKET (rd_query r) \<and>
    (refuses D q b \<and> ((\<exists>key. from_query_bytes D q = Some key \<and> enforced (rd_engine r) (k_name key)) \<or> (\<exists>target. enforced (rd_engine_after r) target)) \<or>
     (\<forall>key. from_query_bytes D q = Some key \<longrightarrow> \<not> enforced (rd_engine r) (k_name key)) \<and>
     (\<forall>target\<in>set (extract_cname_targets D b). \<not> enforced (rd_engine_after r) target)) \<and>
    (\<forall>key. from_query_bytes D q = Some key \<longrightarrow> matches_reply_bytes D key b \<or> refuses D q b)"
  using run_dns_filter_allowed [OF assms(1), of doh rounds s] assms(2,3) by (fastforce simp: allowed_answer_def)

text \<open>The UDP upstream socket is shared and is read once per query. \<open>stale_chain\<close> describes rounds in which
  the upstream answers every query in time, while one datagram too many waits in the socket.\<close>

fun stale_chain :: "dns_codec \<Rightarrow> bytes \<Rightarrow> dns_round list \<Rightarrow> bool" where
  "stale_chain D d [] = True"
| "stale_chain D d (r # rs) =
    (rd_send_ok r \<and> rd_late r = [] \<and>
     (case (rd_in_time r, from_query_bytes D (take MAX_DNS_PACKET (rd_query r))) of
        ([a], Some key) \<Rightarrow> \<not> enforced (rd_engine r) (k_name key) \<and> \<not> matches_reply_bytes D key (take MAX_DNS_PACKET d) \<and> stale_chain D a rs
      | _ \<Rightarrow> False))"

lemma forward_mismatch:
  "from_query_bytes D q = Some key \<Longrightarrow> \<not> matches_reply_bytes D key b \<Longrightarrow> forward_and_reply D now e q n (Some b) t = (None, t)"
  by (simp add: forward_and_reply_def)

text \<open>C23: one late datagram starves the UDP path. When a reply of an earlier query is still in the shared
  upstream socket, every later query whose answer arrives in time reads the answer of its
  predecessor, drops it as a mismatch and leaves its own behind: however many queries follow, no
  client gets an answer, and one datagram stays in the socket.\<close>
theorem dns_stale_reply_starves:
  assumes "ds_queued s = [d]" "stale_chain D d rounds"
  shows "ds_sent (run_dns_filter D False rounds s) = ds_sent s \<and> length (ds_queued (run_dns_filter D False rounds s)) = 1"
  using assms
proof (induction rounds arbitrary: s d)
  case (Cons r rs)
  let ?q = "take MAX_DNS_PACKET (rd_query r)"
  from Cons.prems(2) obtain a key where k: "rd_send_ok r" "rd_late r = []" "rd_in_time r = [a]" "from_query_bytes D ?q = Some key"
    "\<not> enforced (rd_engine r) (k_name key)" "\<not> matches_reply_bytes D key (take MAX_DNS_PACKET d)" "stale_chain D a rs"
    by (auto split: list.splits option.splits)
  obtain t where "process_dns_query D (rd_now r) (rd_engine r) ?q (ds_tally s) = (None, t)"
    using process_dns_query_Some [of D "rd_now r" "rd_engine r" ?q "ds_tally s"] k(4,5)
    by (cases "process_dns_query D (rd_now r) (rd_engine r) ?q (ds_tally s)") (metis option.inject not_None_eq)
  then have "dns_filter_round D False r s = \<lparr>ds_tally = t, ds_queued = [a], ds_sent = ds_sent s\<rparr>"
    using k(1-3,6) Cons.prems(1) by (simp add: dns_filter_round_def udp_receive_def forward_mismatch [OF k(4)] Let_def)
  with Cons.IH [of "dns_filter_round D False r s" a] k(7) show ?case by (simp add: run_dns_filter_def)
qed (simp add: run_dns_filter_def)

lemma prune_locked_Some:
  "0 \<le> age \<Longrightarrow> prune_locked now age m k = Some e \<longleftrightarrow> m k = Some e \<and> now - de_last_seen e \<le> age"
  by (auto simp: prune_locked_def duration_since_def split: option.splits if_splits)

text \<open>A request carries a DNS message: as the body of a POST of the right type, or in the first \<open>dns\<close> parameter of a GET.\<close>

definition dns_param :: "bytes option \<Rightarrow> bytes \<Rightarrow> bool" where
  "dns_param query v \<longleftrightarrow> (\<exists>before after. split_on CHR ''&'' (case query of Some q \<Rightarrow> q | None \<Rightarrow> []) = before @ (''dns='' @ v) # after \<and>
     list_all (\<lambda>x. \<not> prefix ''dns='' x) before)"

definition carries_message :: "(bytes \<Rightarrow> bytes option) \<Rightarrow> doh_http_request \<Rightarrow> bytes \<Rightarrow> bool" where
  "carries_message b64 req q \<longleftrightarrow>
     hq_method req = ''POST'' \<and> hq_content_type req = Some ''application/dns-message'' \<and> hq_body req = Ok q \<or>
     hq_method req = ''GET'' \<and> (\<exists>v. dns_param (hq_query req) v \<and> b64 v = Some q)"

lemma split_once_dns: "split_once CHR ''='' pair = Some (''dns'', v) \<longleftrightarrow> pair = ''dns='' @ v"
  by (cases pair; cases "tl pair"; cases "tl (tl pair)"; cases "tl (tl (tl pair))") auto

lemma find_dns_param_Some:
  "find_dns_param pairs = Some v \<longleftrightarrow> (\<exists>before after. pairs = before @ (''dns='' @ v) # after \<and> list_all (\<lambda>x. \<not> prefix ''dns='' x) before)"
proof (induction pairs)
  case (Cons pair pairs)
  have dns: "prefix ''dns='' pair \<longleftrightarrow> (\<exists>u. split_once CHR ''='' pair = Some (''dns'', u))"
    unfolding split_once_dns by (simp add: prefix_def)
  show ?case
  proof (cases "prefix ''dns='' pair")
    case True
    then obtain u where u: "pair = ''dns='' @ u" by (auto simp: prefix_def)
    then have "find_dns_param (pair # pairs) = Some u" using split_once_dns [of pair u] by simp
    moreover have "(\<exists>before after. pair # pairs = before @ (''dns='' @ v) # after \<and> list_all (\<lambda>x. \<not> prefix ''dns='' x) before) \<longleftrightarrow> u = v"
      using True u by (auto simp: Cons_eq_append_conv)
    ultimately show ?thesis by simp
  next
    case False
    then have "find_dns_param (pair # pairs) = find_dns_param pairs" using dns by (auto split: option.split)
    moreover have "\<exists>before' after'. pair # pairs = before' @ (''dns='' @ v) # after' \<and> list_all (\<lambda>x. \<not> prefix ''dns='' x) before'"
      if "pairs = before @ (''dns='' @ v) # after" "list_all (\<lambda>x. \<not> prefix ''dns='' x) before" for before after
      using that False by (intro exI [of _ "pair # before"] exI [of _ after]) simp
    moreover have "\<exists>before' after'. pairs = before' @ (''dns='' @ v) # after' \<and> list_all (\<lambda>x. \<not> prefix ''dns='' x) before'"
      if "pair # pairs = before @ (''dns='' @ v) # after" "list_all (\<lambda>x. \<not> prefix ''dns='' x) before" for before after
      using that False by (cases before) auto
    ultimately show ?thesis using Cons.IH by (metis (no_types, lifting))
  qed
qed simp

lemma doh_query_bytes_Ok: "doh_query_bytes b64 req = Ok q \<longleftrightarrow> carries_message b64 req q"
proof -
  have "dns_param query v \<longleftrightarrow> find_dns_param (split_on CHR ''&'' (case query of Some q \<Rightarrow> q | None \<Rightarrow> [])) = Some v" for query v
    by (simp add: dns_param_def find_dns_param_Some)
  then show ?thesis by (auto simp: doh_query_bytes_def carries_message_def split: sum.splits option.splits)
qed

lemma doh_query_bytes_Err:
  "doh_query_bytes b64 req = Err (Inl x) \<Longrightarrow> hq_method req = ''POST'' \<and> hq_content_type req = Some ''application/dns-message'' \<and> hq_body req = Err x"
  "doh_query_bytes b64 req = Err (Inr resp) \<Longrightarrow>
     hp_status resp = (if hq_method req = ''POST'' then 415 else if hq_method req = ''GET'' then 400 else 405) \<and> hp_content_type resp = ''text/plain; charset=utf-8''"
  by (auto simp: doh_query_bytes_def doh_text_response_def split: sum.splits option.splits if_splits)

text \<open>One query is counted, in total and for its client; stale clients may be dropped.\<close>

lemma record_query_counts:
  fixes st :: doh_stats and clock :: int and ip :: bytes
  defines "st' \<equiv> record_query clock ip st"
  shows "dst_query_total st' = dst_query_total st + 1"
    "dst_clients st' ip = Some \<lparr>de_query_total = sat_add (case dst_clients st ip of Some c \<Rightarrow> de_query_total c | None \<Rightarrow> 0) 1, de_last_seen = clock\<rparr>"
    "other \<noteq> ip \<Longrightarrow> dst_clients st' other = dst_clients st other \<or>
       dst_clients st' other = None \<and> (\<exists>c. dst_clients st other = Some c \<and> clock - de_last_seen c > 86400 * 1000000000)"
  unfolding st'_def
  by (auto simp: record_query_def prune_locked_def duration_since_def seconds_def DOH_CLIENT_STALE_SECS_def Let_def split: option.splits)

text \<open>The answer to a DNS message.\<close>

lemma doh_answer:
  assumes "dns_codec_laws D" "handle_doh_request D b64 now clock e e' upstream ip req s = (res, s')" "doh_query_bytes b64 req = Ok q"
  defines "alias_enforced \<equiv> \<lambda>reply. \<exists>target \<in> set (extract_cname_targets D reply). enforced e' target"
  shows "dv_stats s' = record_query clock ip (dv_stats s) \<and> (\<exists>resp. res = Ok resp \<and>
    (case from_query_bytes D q of
       Some key \<Rightarrow>
         if enforced e (k_name key) then hp_status resp = 200 \<and> refuses D q (hp_body resp)
         else (case upstream q of
             UpstreamReply reply \<Rightarrow> hp_status resp = 200 \<and> (if alias_enforced reply then refuses D q (hp_body resp) else hp_body resp = reply)
           | _ \<Rightarrow> hp_status resp = 502)
     | None \<Rightarrow>
         (case upstream q of
             UpstreamReply reply \<Rightarrow> hp_status resp = 200 \<and> (if alias_enforced reply \<and> message_from_bytes D q \<noteq> None then refuses D q (hp_body resp) else hp_body resp = reply)
           | _ \<Rightarrow> hp_status resp = 502)))"
proof -
  obtain p t where p: "process_dns_query D now e q (dv_tally s) = (p, t)" by fastforce
  have stats: "dv_stats s' = record_query clock ip (dv_stats s)"
    using assms(2,3) by (auto simp: handle_doh_request_def Let_def split: prod.splits option.splits doh_upstream.splits)
  show ?thesis
  proof (cases p)
    case (Some b)
    from process_dns_query_Some [OF p [unfolded Some]] obtain msg key where k: "message_from_bytes D q = Some msg" "from_query_bytes D q = Some key"
      "enforced e (k_name key)" "b = build_nxdomain D msg" by blast
    have "res = Ok (doh_dns_response 200 b)" using assms(2,3) p Some by (auto simp: handle_doh_request_def Let_def)
    with stats k build_nxdomain_refuses [OF assms(1) k(1)] show ?thesis by (simp add: doh_dns_response_def)
  next
    case None
    have free: "\<not> enforced e (k_name key)" if "from_query_bytes D q = Some key" for key
      using process_dns_query_None [OF p [unfolded None] that] .
    show ?thesis
    proof (cases "upstream q")
      case (UpstreamReply reply)
      obtain c t' where c: "doh_cname_loop D now e' q (extract_cname_targets D reply) t = (c, t')" by fastforce
      have res: "res = Ok (case c of Some nx \<Rightarrow> nx | None \<Rightarrow> doh_dns_response 200 reply)"
        using assms(2,3) p None UpstreamReply c by (auto simp: handle_doh_request_def Let_def split: option.splits)
      have key: "message_from_bytes D q \<noteq> None" if "from_query_bytes D q \<noteq> None" using that by (auto simp: from_query_bytes_def split: option.splits)
      have loop: "if alias_enforced reply \<and> message_from_bytes D q \<noteq> None then \<exists>nx. c = Some (doh_dns_response 200 nx) \<and> refuses D q nx else c = None"
      proof (cases c)
        case None
        then have "\<not> (alias_enforced reply \<and> message_from_bytes D q \<noteq> None)"
          using doh_cname_loop_None [OF c [unfolded None]] by (auto simp: alias_enforced_def)
        then show ?thesis using None by simp
      next
        case (Some nx)
        from doh_cname_loop_Some [OF c [unfolded Some]] obtain msg target where
          "message_from_bytes D q = Some msg" "nx = doh_dns_response 200 (build_nxdomain D msg)" "target \<in> set (extract_cname_targets D reply)" "enforced e' target" by blast
        then show ?thesis using Some build_nxdomain_refuses [OF assms(1)] by (auto simp: alias_enforced_def)
      qed
      show ?thesis
        using stats free res key loop by (auto simp: UpstreamReply doh_dns_response_def split: option.splits if_splits)
    qed (use assms(2,3) p None free stats in \<open>auto simp: handle_doh_request_def Let_def doh_text_response_def split: option.splits\<close>)
  qed
qed

text \<open>C22: the DoH server lets no blocked name through and counts every DNS message once. A request that carries a DNS message (a POST of the right
  type with its body read, or a GET whose first \<open>dns\<close> parameter decodes) adds one to the total and, saturating, to the count of its client, sets the time at which the client was
  seen, and changes no other client except by dropping one not seen for a day; any other request changes nothing and is answered 415, 400 or 405 by its
  method, or ends with the error of its body. A query for a blocked name is refused; the reply of the upstream server is refused when
  it has a blocked alias and passed on as it is otherwise, and without a reply the answer is 502. A message without a readable question is not
  checked by name, and one that cannot be decoded at all not by alias either.\<close>
theorem doh_request_outcome:
  fixes s s' :: doh_server
  assumes "dns_codec_laws D" "handle_doh_request D b64 now clock e e' upstream ip req s = (res, s')"
  defines "st \<equiv> dv_stats s" and "st' \<equiv> dv_stats s'"
    and "alias_enforced \<equiv> \<lambda>reply. \<exists>target \<in> set (extract_cname_targets D reply). enforced e' target"
  shows "(\<forall>q. carries_message b64 req q \<longrightarrow>
      dst_query_total st' = dst_query_total st + 1 \<and>
      dst_clients st' ip = Some \<lparr>de_query_total = sat_add (case dst_clients st ip of Some c \<Rightarrow> de_query_total c | None \<Rightarrow> 0) 1, de_last_seen = clock\<rparr> \<and>
      (\<forall>other. other \<noteq> ip \<longrightarrow> dst_clients st' other = dst_clients st other \<or>
         dst_clients st' other = None \<and> (\<exists>c. dst_clients st other = Some c \<and> clock - de_last_seen c > 86400 * 1000000000)) \<and>
      (\<exists>resp. res = Ok resp \<and>
        (case from_query_bytes D q of
           Some key \<Rightarrow>
             if enforced e (k_name key) then hp_status resp = 200 \<and> refuses D q (hp_body resp)
             else (case upstream q of
                 UpstreamReply reply \<Rightarrow> hp_status resp = 200 \<and> (if alias_enforced reply then refuses D q (hp_body resp) else hp_body resp = reply)
               | _ \<Rightarrow> hp_status resp = 502)
         | None \<Rightarrow>
             (case upstream q of
                 UpstreamReply reply \<Rightarrow> hp_status resp = 200 \<and>
                   (if alias_enforced reply \<and> message_from_bytes D q \<noteq> None then refuses D q (hp_body resp) else hp_body resp = reply)
               | _ \<Rightarrow> hp_status resp = 502)))) \<and>
    ((\<nexists>q. carries_message b64 req q) \<longrightarrow> s' = s \<and>
      (case res of
         Inr resp \<Rightarrow> hp_status resp = (if hq_method req = ''POST'' then 415 else if hq_method req = ''GET'' then 400 else 405)
       | Inl x \<Rightarrow> hq_method req = ''POST'' \<and> hq_content_type req = Some ''application/dns-message'' \<and> hq_body req = Err x))"
proof (intro conjI allI impI)
  fix q assume "carries_message b64 req q"
  note d = doh_answer [OF assms(1,2) this [folded doh_query_bytes_Ok]]
  then have stats: "st' = record_query clock ip st" by (simp add: st_def st'_def)
  show "dst_query_total st' = dst_query_total st + 1"
    "dst_clients st' ip = Some \<lparr>de_query_total = sat_add (case dst_clients st ip of Some c \<Rightarrow> de_query_total c | None \<Rightarrow> 0) 1, de_last_seen = clock\<rparr>"
    unfolding stats by (rule record_query_counts)+
  show "dst_clients st' other = dst_clients st other \<or>
      dst_clients st' other = None \<and> (\<exists>c. dst_clients st other = Some c \<and> clock - de_last_seen c > 86400 * 1000000000)" if "other \<noteq> ip" for other
    unfolding stats using that by (rule record_query_counts(3))
  show "\<exists>resp. res = Ok resp \<and>
        (case from_query_bytes D q of
           Some key \<Rightarrow>
             if enforced e (k_name key) then hp_status resp = 200 \<and> refuses D q (hp_body resp)
             else (case upstream q of
                 UpstreamReply reply \<Rightarrow> hp_status resp = 200 \<and> (if alias_enforced reply then refuses D q (hp_body resp) else hp_body resp = reply)
               | _ \<Rightarrow> hp_status resp = 502)
         | None \<Rightarrow>
             (case upstream q of
                 UpstreamReply reply \<Rightarrow> hp_status resp = 200 \<and>
                   (if alias_enforced reply \<and> message_from_bytes D q \<noteq> None then refuses D q (hp_body resp) else hp_body resp = reply)
               | _ \<Rightarrow> hp_status resp = 502))"
    unfolding alias_enforced_def by (rule conjunct2 [OF d])
next
  assume "\<nexists>q. carries_message b64 req q"
  then obtain x where "doh_query_bytes b64 req = Err x" using doh_query_bytes_Ok [of b64 req] by (cases "doh_query_bytes b64 req") auto
  then show "s' = s" "case res of
         Inr resp \<Rightarrow> hp_status resp = (if hq_method req = ''POST'' then 415 else if hq_method req = ''GET'' then 400 else 405)
       | Inl x \<Rightarrow> hq_method req = ''POST'' \<and> hq_content_type req = Some ''application/dns-message'' \<and> hq_body req = Err x"
    using assms(2) doh_query_bytes_Err [of b64 req] by (cases x; auto simp: handle_doh_request_def)+
qed

text \<open>The client list of the dashboard is exact: it ranks the clients seen in the last 24 hours by
  their number of queries, ties by address, each once with its own entry; it is cut to \<open>top_n\<close>, and no
  client left out has more queries than a listed one.\<close>
theorem doh_snapshot_spec:
  assumes "finite (dom (dst_clients s))" "doh_snapshot now n s = (snap, s')"
  shows "sorted (map (\<lambda>c. (- uint (cs_query_total c), cs_client_ip c)) (ss_top_clients snap)) \<and>
    distinct (map cs_client_ip (ss_top_clients snap)) \<and>
    length (ss_top_clients snap) = min n (card (dom (dst_clients s'))) \<and>
    (\<forall>c\<in>set (ss_top_clients snap). \<exists>e. dst_clients s' (cs_client_ip c) = Some e \<and> c = client_snapshot (cs_client_ip c) e) \<and>
    (\<forall>ip e. dst_clients s' ip = Some e \<longleftrightarrow> dst_clients s ip = Some e \<and> now - de_last_seen e \<le> 86400 * 1000000000) \<and>
    (\<forall>ip e c. dst_clients s' ip = Some e \<and> ip \<notin> cs_client_ip ` set (ss_top_clients snap) \<and> c \<in> set (ss_top_clients snap) \<longrightarrow>
       de_query_total e \<le> cs_query_total c)"
proof -
  define m where "m = prune_locked now (seconds DOH_CLIENT_STALE_SECS) (dst_clients s)"
  define key where "key = (\<lambda>c :: doh_client_snapshot. (- uint (cs_query_total c), cs_client_ip c))"
  define all where "all = sort_key key (map (\<lambda>ip. client_snapshot ip (the (m ip))) (sorted_list_of_set (dom m)))"
  have snap: "ss_top_clients snap = take n all" "dst_clients s' = m"
    using assms(2) by (auto simp: doh_snapshot_def m_def key_def all_def Let_def)
  have m: "m ip = Some e \<longleftrightarrow> dst_clients s ip = Some e \<and> now - de_last_seen e \<le> 86400 * 1000000000" for ip e
    by (auto simp: m_def prune_locked_Some seconds_def DOH_CLIENT_STALE_SECS_def)
  have fin: "finite (dom m)" by (rule finite_subset [OF _ assms(1)]) (auto simp: m)
  have set_all: "set all = (\<lambda>ip. client_snapshot ip (the (m ip))) ` dom m" using fin by (simp add: all_def)
  have "inj_on (\<lambda>ip. client_snapshot ip (the (m ip))) (dom m)" "inj_on cs_client_ip (set all)"
    by (auto simp: inj_on_def client_snapshot_def set_all)
  then have d: "distinct (map cs_client_ip all)" "length all = card (dom m)"
    using fin by (simp_all add: all_def distinct_map)
  have sorted: "sorted (map key all)" by (simp add: all_def)
  have split: "map key all = map key (take n all) @ map key (drop n all)" by (simp flip: map_append)
  have rest: "de_query_total e \<le> cs_query_total c"
    if e: "m ip = Some e" and ni: "ip \<notin> cs_client_ip ` set (take n all)" and c: "c \<in> set (take n all)" for ip e c
  proof -
    have "client_snapshot ip e \<in> set all" unfolding set_all using e by force
    moreover have "client_snapshot ip e \<notin> set (take n all)" using ni by (force simp: client_snapshot_def)
    ultimately have "client_snapshot ip e \<in> set (drop n all)" by (metis Un_iff append_take_drop_id set_append)
    then have "key c \<le> key (client_snapshot ip e)" using sorted c unfolding split sorted_append by simp
    then have "uint (de_query_total e) \<le> uint (cs_query_total c)" by (auto simp: key_def client_snapshot_def less_eq_prod_def)
    then show ?thesis by (simp add: word_le_def)
  qed
  have entry: "\<exists>e. m (cs_client_ip c) = Some e \<and> c = client_snapshot (cs_client_ip c) e" if "c \<in> set (take n all)" for c
  proof -
    from in_set_takeD [OF that] obtain ip e where "m ip = Some e" "c = client_snapshot ip e" unfolding set_all by auto
    then show ?thesis by (simp add: client_snapshot_def)
  qed
  show ?thesis
    unfolding snap key_def [symmetric]
  proof (intro conjI)
    show "sorted (map key (take n all))" using sorted unfolding split sorted_append by simp
    show "distinct (map cs_client_ip (take n all))" using d(1) by (simp flip: take_map)
    show "length (take n all) = min n (card (dom m))" using d(2) by simp
  qed (use entry rest m in blast)+
qed

section \<open>Witnesses\<close>

text \<open>A toy wire format: identifier, message kind, one question and one optional alias, each one character
  or a name that ends with a zero byte.\<close>

definition wit_msg :: "16 word \<Rightarrow> bytes \<Rightarrow> dns_message" where
  "wit_msg i name = \<lparr>dm_header = \<lparr>dh_id = i, dh_message_type = QueryMessage, dh_op_code = OpQuery, dh_response_code = OtherCode 0,
       dh_recursion_available = False\<rparr>, dm_queries = [\<lparr>q_name_ascii = name, q_type = 1, q_class = 1\<rparr>], dm_answers = []\<rparr>"

definition wit_from :: "bytes \<Rightarrow> dns_message option" where
  "wit_from b = (case b of
       CHR ''Q'' # i # name \<Rightarrow> Some (wit_msg (of_nat (code i)) name)
     | CHR ''R'' # i # name \<Rightarrow> Some ((wit_msg (of_nat (code i)) name)\<lparr>dm_header := \<lparr>dh_id = of_nat (code i), dh_message_type = ResponseMessage, dh_op_code = OpQuery,
           dh_response_code = OtherCode 0, dh_recursion_available = True\<rparr>\<rparr>)
     | CHR ''N'' # i # name \<Rightarrow> Some ((wit_msg (of_nat (code i)) name)\<lparr>dm_header := \<lparr>dh_id = of_nat (code i), dh_message_type = ResponseMessage, dh_op_code = OpQuery,
           dh_response_code = NXDomain, dh_recursion_available = True\<rparr>\<rparr>)
     | _ \<Rightarrow> None)"

definition wit_to :: "dns_message \<Rightarrow> bytes option" where
  "wit_to m = (case dm_queries m of q # _ \<Rightarrow> Some (CHR ''N'' # char_of (unat (dh_id (dm_header m))) # q_name_ascii q) | [] \<Rightarrow> None)"

definition wit_dns :: dns_codec where
  "wit_dns = \<lparr>message_from_bytes = wit_from, message_to_vec = wit_to,
     response_from_request = \<lambda>h. h\<lparr>dh_message_type := ResponseMessage, dh_op_code := OpQuery\<rparr>\<rparr>"

lemma wit_code: "unat (of_nat (code c) :: 16 word) = code c"
proof -
  have "code c < 256" by (metis of_char_of of_char_mod_256 mod_less_divisor zero_less_numeral)
  then have "code c < 65536" by (rule less_trans) simp
  then show ?thesis by (simp add: unat_of_nat take_bit_eq_mod mod_less [OF \<open>code c < 65536\<close>])
qed

lemma wit_dns_laws: "dns_codec_laws wit_dns"
  by (auto simp: wit_code dns_codec_laws_def wit_dns_def wit_from_def wit_to_def wit_msg_def nxdomain_message_def Let_def
      split: list.splits char.splits bool.splits)

definition wit_dns_engine :: policy_engine where
  "wit_dns_engine = wit_engine\<lparr>pe_cfg := wit_config\<lparr>pc_dns_block := \<lparr>dns_enabled = True, dns_domains = {''ads.example''}\<rparr>\<rparr>\<rparr>"

definition wit_round :: "bytes \<Rightarrow> bytes list \<Rightarrow> dns_round" where
  "wit_round q replies = \<lparr>rd_client = ''c'', rd_query = q, rd_now = 0, rd_engine = wit_dns_engine, rd_engine_after = wit_dns_engine,
     rd_doh_answer = None, rd_send_ok = True, rd_in_time = replies, rd_late = []\<rparr>"

definition wit_dns_state :: "bytes list \<Rightarrow> dns_state" where
  "wit_dns_state queued = \<lparr>ds_tally = \<lparr>t_metrics = metrics_default, t_receipts = None\<rparr>, ds_queued = queued, ds_sent = []\<rparr>"

lemma wit_names: "normalize_dns_name ''x.ads.example'' = ''x.ads.example''" "normalize_host ''x.ads.example'' = ''x.ads.example''"
  "normalize_dns_name ''ok'' = ''ok''" "normalize_host ''ok'' = ''ok''" 
  by code_simp+

lemma wit_enforced: "enforced wit_dns_engine ''x.ads.example''" "\<not> enforced wit_dns_engine ''ok''"
  by (simp_all add: enforced_def plan_for_dns_query_def wit_names wit_dns_engine_def wit_engine_def wit_config_def
      domain_in_set_or_parent_covered covered_def suffix_def fl_blocks_def fl_rules_default_def Let_def)

lemma wit_queries:
  "from_query_bytes wit_dns ''Q1x.ads.example'' = Some \<lparr>k_id = 49, k_name = ''x.ads.example'', k_type = 1, k_class = 1\<rparr>"
  "from_query_bytes wit_dns ''Q2ok'' = Some \<lparr>k_id = 50, k_name = ''ok'', k_type = 1, k_class = 1\<rparr>"
  by (simp_all add: from_query_bytes_def wit_dns_def wit_from_def wit_msg_def is_standard_query_def wit_names)

lemma wit_take: "take MAX_DNS_PACKET ''Q1x.ads.example'' = ''Q1x.ads.example''" "take MAX_DNS_PACKET ''Q2ok'' = ''Q2ok''"
  "take MAX_DNS_PACKET ''R1x'' = ''R1x''"
  by (simp_all add: MAX_DNS_PACKET_def)

lemma wit_sent:
  "ds_sent (run_dns_filter wit_dns False [wit_round ''Q1x.ads.example'' []] (wit_dns_state [])) = [(''c'', ''Q1x.ads.example'', ''N1x.ads.example'')]"
proof -
  have b: "should_block (plan_for_dns_query wit_dns_engine ''x.ads.example'')" "dp_mode (plan_for_dns_query wit_dns_engine ''x.ads.example'') = Enforce"
    using wit_enforced by (simp_all add: enforced_def)
  have c: "char_of (49 :: nat) = CHR ''1''" by code_simp
  show ?thesis
    by (simp add: c run_dns_filter_def dns_filter_round_def process_dns_query_def wit_round_def wit_dns_state_def wit_take b wit_names
        is_standard_query_def build_nxdomain_def nxdomain_message_def wit_dns_def wit_from_def wit_to_def wit_msg_def Let_def)
qed

theorem dns_filter_answers_witness:
  "enforced wit_dns_engine ''x.ads.example'' \<and> refuses wit_dns ''Q1x.ads.example'' ''N1x.ads.example''"
proof -
  have "(''c'', ''Q1x.ads.example'', ''N1x.ads.example'') \<in>
      set (ds_sent (run_dns_filter wit_dns False [wit_round ''Q1x.ads.example'' []] (wit_dns_state [])))"
    by (simp add: wit_sent)
  from dns_filter_answers [OF wit_dns_laws _ this] wit_enforced wit_queries show ?thesis
    by (auto simp: wit_dns_state_def wit_round_def)
qed

theorem dns_stale_reply_starves_witness:
  "ds_sent (run_dns_filter wit_dns False (replicate 2 (wit_round ''Q2ok'' [''R1x''])) (wit_dns_state [''R1x''])) = []"
proof -
  have "\<not> matches_reply_bytes wit_dns \<lparr>k_id = 50, k_name = ''ok'', k_type = 1, k_class = 1\<rparr> ''R1x''"
    by (simp add: matches_reply_bytes_def wit_dns_def wit_from_def wit_msg_def)
  then have "stale_chain wit_dns ''R1x'' (replicate 2 (wit_round ''Q2ok'' [''R1x'']))"
    by (simp add: numeral_2_eq_2 wit_round_def wit_take wit_queries wit_enforced)
  from dns_stale_reply_starves [OF _ this, of "wit_dns_state [''R1x'']"] show ?thesis by (simp add: wit_dns_state_def)
qed

definition wit_doh :: doh_server where
  "wit_doh = \<lparr>dv_tally = \<lparr>t_metrics = metrics_default, t_receipts = None\<rparr>, dv_stats = \<lparr>dst_query_total = 0, dst_clients = Map.empty\<rparr>\<rparr>"

definition wit_post :: doh_http_request where
  "wit_post = \<lparr>hq_method = ''POST'', hq_content_type = Some ''application/dns-message'', hq_query = None, hq_body = Ok ''Q2ok''\<rparr>"

theorem doh_request_outcome_witness:
  "\<exists>resp s'. handle_doh_request wit_dns (\<lambda>b. None) 0 7 wit_dns_engine wit_dns_engine (\<lambda>q. UpstreamNone) ''10.0.0.1'' wit_post wit_doh = (Ok resp, s') \<and>
     hp_status resp = 502 \<and> dst_query_total (dv_stats s') = 1 \<and> dst_clients (dv_stats s') ''10.0.0.1'' = Some \<lparr>de_query_total = 1, de_last_seen = 7\<rparr>"
proof -
  let ?h = "handle_doh_request wit_dns (\<lambda>b. None) 0 7 wit_dns_engine wit_dns_engine (\<lambda>q. UpstreamNone) ''10.0.0.1'' wit_post wit_doh"
  obtain res s' where h: "?h = (res, s')" by fastforce
  have c: "carries_message (\<lambda>b. None) wit_post ''Q2ok''" by (simp add: carries_message_def wit_post_def)
  have sat: "sat_add 0 1 = (1 :: u64)" by (simp add: sat_add_def)
  from doh_request_outcome [OF wit_dns_laws h] c wit_queries wit_enforced h show ?thesis
    by (auto simp: wit_doh_def sat)
qed

theorem doh_snapshot_spec_witness:
  "length (ss_top_clients (fst (doh_snapshot 0 5 (record_query 0 ''10.0.0.1'' (dv_stats wit_doh))))) = 1"
proof -
  let ?s = "record_query 0 ''10.0.0.1'' (dv_stats wit_doh)"
  have c: "dst_clients ?s = [''10.0.0.1'' \<mapsto> \<lparr>de_query_total = sat_add 0 1, de_last_seen = 0\<rparr>]"
    by (simp add: record_query_def wit_doh_def Let_def)
  then have "finite (dom (dst_clients ?s))" by simp
  from doh_snapshot_spec [OF this surjective_pairing, of 0 5]
  have "length (ss_top_clients (fst (doh_snapshot 0 5 ?s))) = min 5 (card (dom (dst_clients (snd (doh_snapshot 0 5 ?s)))))" by blast
  moreover have "dst_clients (snd (doh_snapshot 0 5 ?s)) = dst_clients ?s"
    by (simp add: doh_snapshot_def prune_locked_def c duration_since_def seconds_def DOH_CLIENT_STALE_SECS_def fun_eq_iff Let_def)
  ultimately show ?thesis by (simp add: c)
qed

end
