(* ===== verification/Rust_Fmt.thy ===== *)
theory Rust_Fmt
  imports Rust_Text
begin

text \<open>
  The part of \<open>std::fmt\<close> that the reports use: \<open>{}\<close> of integers, \<open>{:<n}\<close> and \<open>{:>n}\<close>, which
  count characters and not bytes, \<open>{:?}\<close> of optional strings, and \<open>writeln!\<close>. Whether a
  character beyond ASCII is printable (and not a combining mark) is a table of the standard
  library, here the argument \<open>printable\<close> on code points.
\<close>

abbreviation u64_str :: "u64 \<Rightarrow> bytes" where
  "u64_str n \<equiv> show_nat (unat n)"

definition writeln :: "bytes \<Rightarrow> bytes" where
  "writeln s = s @ [LF]"

text \<open>The characters of valid UTF-8 are its bytes that continue no other.\<close>

definition char_count :: "bytes \<Rightarrow> nat" where
  "char_count s = length (filter (\<lambda>b. \<not> cont b) s)"

definition pad_left :: "nat \<Rightarrow> bytes \<Rightarrow> bytes" where
  "pad_left n s = s @ replicate (n - char_count s) CHR '' ''"

definition pad_right :: "nat \<Rightarrow> bytes \<Rightarrow> bytes" where
  "pad_right n s = replicate (n - char_count s) CHR '' '' @ s"

definition code_point :: "bytes \<Rightarrow> nat" where
  "code_point s =
    (case s of
       [a] \<Rightarrow> code a
     | [a, b] \<Rightarrow> (code a mod 32) * 64 + code b mod 64
     | [a, b, c] \<Rightarrow> (code a mod 16) * 4096 + (code b mod 64) * 64 + code c mod 64
     | [a, b, c, d] \<Rightarrow> (code a mod 8) * 262144 + (code b mod 64) * 4096 + (code c mod 64) * 64 + code d mod 64
     | _ \<Rightarrow> 0)"

definition escape_unicode :: "nat \<Rightarrow> bytes" where
  "escape_unicode n = [CHR 0x5C] @ ''u{'' @ show_radix 16 n @ ''}''"

text \<open>\<open>char::escape_debug\<close> as \<open>Debug\<close> of a string applies it: a single quote stays.\<close>

definition debug_char :: "(nat \<Rightarrow> bool) \<Rightarrow> bytes \<Rightarrow> bytes" where
  "debug_char printable c =
    (let n = code_point c in
     if n = 0 then [CHR 0x5C, CHR ''0'']
     else if n = 9 then [CHR 0x5C, CHR ''t'']
     else if n = 13 then [CHR 0x5C, CHR ''r'']
     else if n = 10 then [CHR 0x5C, CHR ''n'']
     else if n = 92 \<or> n = 34 then CHR 0x5C # c
     else if n < 128 then (if 32 \<le> n \<and> n < 127 then c else escape_unicode n)
     else if printable n then c else escape_unicode n)"

function debug_chars :: "(nat \<Rightarrow> bool) \<Rightarrow> bytes \<Rightarrow> bytes" where
  "debug_chars printable [] = []"
| "debug_chars printable (a # s) =
    (let k = snd (utf8_step a s) in debug_char printable (take k (a # s)) @ debug_chars printable (drop k (a # s)))"
  by pat_completeness auto
termination
proof (relation "measure (length \<circ> snd)")
  fix p :: "nat \<Rightarrow> bool" and a :: char and s :: bytes and k
  assume "k = snd (utf8_step a s)"
  then show "((p, drop k (a # s)), p, a # s) \<in> measure (length \<circ> snd)"
    using utf8_step_pos [of a s] by simp
qed simp

definition debug_str :: "(nat \<Rightarrow> bool) \<Rightarrow> bytes \<Rightarrow> bytes" where
  "debug_str printable s = [CHR 0x22] @ debug_chars printable s @ [CHR 0x22]"

definition debug_opt :: "(nat \<Rightarrow> bool) \<Rightarrow> bytes option \<Rightarrow> bytes" where
  "debug_opt printable x = (case x of None \<Rightarrow> ''None'' | Some s \<Rightarrow> ''Some('' @ debug_str printable s @ '')'')"

section \<open>Lines\<close>

text \<open>A text that is written line by line is read back line by line when no line has a line feed of its own.\<close>

lemma split_on_writeln: "LF \<notin> set s \<Longrightarrow> split_on LF (writeln s @ t) = s # split_on LF t"
  by (simp add: writeln_def split_on_append)

lemma show_nat_codes: "c \<in> set (show_nat n) \<Longrightarrow> 48 \<le> code c \<and> code c \<le> 57"
proof (induction "10 :: nat" n arbitrary: c rule: show_radix.induct)
  case (1 n)
  have d: "d < 10 \<Longrightarrow> 48 \<le> code (digit_char d) \<and> code (digit_char d) \<le> 57" for d by (simp add: digit_char_def)
  show ?case
  proof (cases "n < 10")
    case True
    with 1 d [of n] show ?thesis by (simp add: show_radix.simps [of 10 n])
  next
    case False
    then have "c \<in> set (show_nat (n div 10)) \<or> c = digit_char (n mod 10)" using 1(2) by (auto simp: show_radix.simps [of 10 n])
    then show ?thesis using 1(1) False d [of "n mod 10"] by auto
  qed
qed

lemma show_nat_no_LF [simp]: "LF \<notin> set (show_nat n)"
  using show_nat_codes [of LF n] by auto

lemma set_pad_left: "set (pad_left n s) \<subseteq> insert CHR '' '' (set s)"
  by (auto simp: pad_left_def)

lemma set_pad_right: "set (pad_right n s) \<subseteq> insert CHR '' '' (set s)"
  by (auto simp: pad_right_def)

lemma pad_no_LF [simp]: "LF \<in> set (pad_left n s) \<longleftrightarrow> LF \<in> set s" "LF \<in> set (pad_right n s) \<longleftrightarrow> LF \<in> set s"
  by (auto simp: pad_left_def pad_right_def)

text \<open>\<open>Debug\<close> never prints a line feed: it cannot break a line.\<close>

lemma utf8_step_LF:
  assumes "LF \<in> set (take (snd (utf8_step a s)) (a # s))"
  shows "a = LF"
  using assms unfolding utf8_step_def
  by (auto simp: cont_def lead3_def lead4_def split: if_splits list.splits)

lemma debug_char_no_LF: "LF \<notin> set c \<Longrightarrow> LF \<notin> set (debug_char printable c)"
  using show_radix_codes [of 16 LF] by (auto simp: debug_char_def escape_unicode_def Let_def)

lemma debug_char_LF: "LF \<notin> set (debug_char printable [LF])"
  by (simp add: debug_char_def code_point_def)

lemma debug_chars_no_LF [simp]: "LF \<notin> set (debug_chars printable s)"
proof (induction printable s rule: debug_chars.induct)
  case (2 p a s)
  let ?k = "snd (utf8_step a s)"
  have "LF \<notin> set (debug_char p (take ?k (a # s)))"
  proof (cases "a = LF")
    case True
    then show ?thesis using debug_char_LF by simp
  next
    case False
    then have "LF \<notin> set (take ?k (a # s))" using utf8_step_LF by blast
    then show ?thesis by (rule debug_char_no_LF)
  qed
  then show ?case using 2 by (simp add: Let_def del: take_Cons' drop_Cons')
qed simp

lemma debug_opt_no_LF [simp]: "LF \<notin> set (debug_opt printable x)"
  by (auto simp: debug_opt_def debug_str_def split: option.splits)

end
