(* ===== verification/Receipts_Report.thy ===== *)
theory Receipts_Report
  imports Receipts Rust_Fmt
begin

text \<open>
  The reports of \<^verbatim>\<open>src/receipts.rs\<close>, byte for byte: \<open>render_receipts_report\<close>,
  \<open>render_compliance_report_text\<close> and \<open>render_compliance_report_html\<close>. Each loads the receipts
  file and prints either the hosts that a filter matches, or totals and ranked tables. How a path is
  displayed (\<open>disp\<close>) and which characters beyond ASCII are printable are arguments.
  The second part reads the reports back: the text by lines, and the page as a browser does, by
  its tags and the decoded text between them.
\<close>

section \<open>Shared parts\<close>

abbreviation or_dash :: "bytes option \<Rightarrow> bytes" where
  "or_dash x \<equiv> (case x of Some s \<Rightarrow> s | None \<Rightarrow> ''-'')"

definition report_preamble :: "bytes \<Rightarrow> bytes \<Rightarrow> receipts_report_data \<Rightarrow> bytes" where
  "report_preamble title shown_path data =
    writeln (title @ shown_path) @
    (case rd_version data of Some v \<Rightarrow> writeln (''version: '' @ u64_str v) | None \<Rightarrow> []) @
    (case rd_generated_unix data of Some ts \<Rightarrow> writeln (''generated_unix: '' @ u64_str ts) | None \<Rightarrow> []) @
    writeln []"

definition filter_preamble :: "bytes \<Rightarrow> nat \<Rightarrow> bytes" where
  "filter_preamble f n = writeln (''host_filter: '' @ f) @ writeln (''matches: '' @ show_nat n) @ writeln []"

definition clamp_top :: "nat \<Rightarrow> nat" where
  "clamp_top top_hosts = max 1 (min top_hosts 200)"

text \<open>\<open>sort_by_key\<close> with \<open>Reverse\<close> (stable), then \<open>take\<close>.\<close>

definition ranked :: "nat \<Rightarrow> (bytes \<times> host_receipt \<times> u64) list \<Rightarrow> (bytes \<times> host_receipt \<times> u64) list" where
  "ranked top_hosts rows = take (clamp_top top_hosts) (sort_key (\<lambda>(_, _, k). - int (unat k)) rows)"

definition opt_percent :: "u64 \<Rightarrow> u64 \<Rightarrow> bytes" where
  "opt_percent numer denom = (case percent_u64 numer denom of Some p \<Rightarrow> u64_str p @ ''%'' | None \<Rightarrow> ''-'')"

section \<open>The receipts report\<close>


definition receipts_host_block :: "(nat \<Rightarrow> bool) \<Rightarrow> bytes \<times> host_receipt \<Rightarrow> bytes" where
  "receipts_host_block printable x =
    (let (host, r) = x in
     writeln (''Host: '' @ host) @
     writeln (''  seen_total: '' @ u64_str (hr_seen_total r) @ '' (mitm='' @ u64_str (hr_routing_mitm_total r) @ '', passthrough='' @
         u64_str (hr_routing_passthrough_total r) @ '')'') @
     writeln (''  mitm: attempts='' @ u64_str (hr_mitm_attempt_total r) @ '' success='' @ u64_str (hr_mitm_success_total r) @ '' failure='' @
         u64_str (hr_mitm_failure_total r) @ '' tls_reject='' @ u64_str (hr_mitm_client_tls_reject_total r) @ '' auto_pinned='' @
         u64_str (hr_host_auto_pinned_total r)) @
     writeln (''  policy_set_cookie: would_strip='' @ u64_str (hr_policy_set_cookie_would_strip_total r) @ '' stripped='' @
         u64_str (hr_policy_set_cookie_stripped_total r) @ '' headers_total='' @ u64_str (hr_policy_set_cookie_headers_total r)) @
     (if hr_dns_blocked_total r > 0 \<or> hr_dns_report_only_total r > 0 \<or> hr_dns_cname_uncloaked_total r > 0
      then writeln (''  dns: blocked='' @ u64_str (hr_dns_blocked_total r) @ '' report_only='' @ u64_str (hr_dns_report_only_total r) @
          '' cname_uncloaked='' @ u64_str (hr_dns_cname_uncloaked_total r)) else []) @
     (if hr_consent_enforcement_blocked_total r > 0 \<or> hr_consent_enforcement_report_only_total r > 0
      then writeln (''  consent: blocked='' @ u64_str (hr_consent_enforcement_blocked_total r) @ '' report_only='' @
          u64_str (hr_consent_enforcement_report_only_total r)) else []) @
     writeln (''  last: unix='' @ u64_str (hr_last_seen_unix r) @ '' flow='' @ debug_opt printable (hr_last_flow r) @ '' action='' @
         debug_opt printable (hr_last_action r) @ '' reason='' @ debug_opt printable (hr_last_reason r)) @
     writeln [])"

text \<open>The totals of this report are accumulated by its own loop, one variable each.\<close>


record text_totals =
  tt_seen :: u64
  tt_mitm_attempt :: u64
  tt_mitm_success :: u64
  tt_mitm_failure :: u64
  tt_tls_reject :: u64
  tt_auto_pinned :: u64
  tt_cookie_would :: u64
  tt_cookie_stripped :: u64
  tt_cookie_headers :: u64
  tt_dns_blocked :: u64
  tt_dns_report_only :: u64
  tt_dns_cname_uncloaked :: u64
  tt_consent_blocked :: u64
  tt_consent_report_only :: u64


definition text_totals_zero :: "text_totals" where
  "text_totals_zero = \<lparr>tt_seen = 0, tt_mitm_attempt = 0, tt_mitm_success = 0, tt_mitm_failure = 0, tt_tls_reject = 0, tt_auto_pinned = 0, tt_cookie_would = 0, tt_cookie_stripped = 0, tt_cookie_headers = 0, tt_dns_blocked = 0, tt_dns_report_only = 0, tt_dns_cname_uncloaked = 0, tt_consent_blocked = 0, tt_consent_report_only = 0\<rparr>"

definition text_totals_add :: "text_totals \<Rightarrow> host_receipt \<Rightarrow> text_totals" where
  "text_totals_add t r = \<lparr>
     tt_seen = sat_add (tt_seen t) (hr_seen_total r),
     tt_mitm_attempt = sat_add (tt_mitm_attempt t) (hr_mitm_attempt_total r),
     tt_mitm_success = sat_add (tt_mitm_success t) (hr_mitm_success_total r),
     tt_mitm_failure = sat_add (tt_mitm_failure t) (hr_mitm_failure_total r),
     tt_tls_reject = sat_add (tt_tls_reject t) (hr_mitm_client_tls_reject_total r),
     tt_auto_pinned = sat_add (tt_auto_pinned t) (hr_host_auto_pinned_total r),
     tt_cookie_would = sat_add (tt_cookie_would t) (hr_policy_set_cookie_would_strip_total r),
     tt_cookie_stripped = sat_add (tt_cookie_stripped t) (hr_policy_set_cookie_stripped_total r),
     tt_cookie_headers = sat_add (tt_cookie_headers t) (hr_policy_set_cookie_headers_total r),
     tt_dns_blocked = sat_add (tt_dns_blocked t) (hr_dns_blocked_total r),
     tt_dns_report_only = sat_add (tt_dns_report_only t) (hr_dns_report_only_total r),
     tt_dns_cname_uncloaked = sat_add (tt_dns_cname_uncloaked t) (hr_dns_cname_uncloaked_total r),
     tt_consent_blocked = sat_add (tt_consent_blocked t) (hr_consent_enforcement_blocked_total r),
     tt_consent_report_only = sat_add (tt_consent_report_only t) (hr_consent_enforcement_report_only_total r)\<rparr>"

definition text_totals_sum :: "(bytes \<times> host_receipt) list \<Rightarrow> text_totals" where
  "text_totals_sum hosts = fold (\<lambda>(_, r) t. text_totals_add t r) hosts text_totals_zero"

definition receipts_totals_block :: "(bytes \<times> host_receipt) list \<Rightarrow> bytes" where
  "receipts_totals_block hosts =
    (let t = text_totals_sum hosts in
     writeln (''hosts: '' @ show_nat (length hosts)) @
     writeln (''seen_total: '' @ u64_str (tt_seen t)) @
     writeln (''mitm: attempts='' @ u64_str (tt_mitm_attempt t) @ '' success='' @ u64_str (tt_mitm_success t) @ '' failure='' @
         u64_str (tt_mitm_failure t) @ '' tls_reject='' @ u64_str (tt_tls_reject t) @ '' auto_pinned='' @ u64_str (tt_auto_pinned t)) @
     writeln (''policy_set_cookie: would_strip='' @ u64_str (tt_cookie_would t) @ '' stripped='' @ u64_str (tt_cookie_stripped t) @
         '' headers_total='' @ u64_str (tt_cookie_headers t)) @
     (if tt_dns_blocked t > 0 \<or> tt_dns_report_only t > 0 \<or> tt_dns_cname_uncloaked t > 0
      then writeln (''dns: blocked='' @ u64_str (tt_dns_blocked t) @ '' report_only='' @ u64_str (tt_dns_report_only t) @
          '' cname_uncloaked='' @ u64_str (tt_dns_cname_uncloaked t)) else []) @
     (if tt_consent_blocked t > 0 \<or> tt_consent_report_only t > 0
      then writeln (''consent: blocked='' @ u64_str (tt_consent_blocked t) @ '' report_only='' @
          u64_str (tt_consent_report_only t)) else []) @
     writeln [])"

definition receipts_top_row :: "bytes \<times> host_receipt \<Rightarrow> bytes" where
  "receipts_top_row x =
    (let (host, r) = x in writeln (pad_left 35 (host) @ '' '' @ pad_right 7 (u64_str (hr_seen_total r)) @ '' '' @
        pad_right 9 (u64_str (hr_routing_mitm_total r)) @ '' '' @ pad_right 9 (u64_str (hr_routing_passthrough_total r)) @ '' '' @
        pad_right 10 (u64_str (hr_mitm_client_tls_reject_total r)) @ '' '' @ pad_right 10 (u64_str (hr_host_auto_pinned_total r)) @ '' '' @
        pad_right 12 (u64_str (hr_policy_set_cookie_stripped_total r)) @ '' '' @ or_dash (hr_last_reason r)))"

definition receipts_top_table :: "nat \<Rightarrow> (bytes \<times> host_receipt) list \<Rightarrow> bytes" where
  "receipts_top_table top_hosts hosts =
    writeln (''Top hosts (by seen_total), showing '' @ show_nat (min (clamp_top top_hosts) (length hosts)) @ '':'') @
    writeln (pad_left 35 (''host'') @ '' '' @ pad_right 7 (''seen'') @ '' '' @ pad_right 9 (''mitm'') @ '' '' @ pad_right 9 (''pass'') @
        '' '' @ pad_right 10 (''tls_reject'') @ '' '' @ pad_right 10 (''auto_pin'') @ '' '' @ pad_right 12 (''cookie_strp'') @
        '' last_reason'') @
    concat (map receipts_top_row (top_hosts_rows top_hosts hosts))"

definition receipts_text :: "(nat \<Rightarrow> bool) \<Rightarrow> bytes \<Rightarrow> receipts_report_data \<Rightarrow> nat \<Rightarrow> bytes option \<Rightarrow> bytes" where
  "receipts_text printable shown_path data top_hosts host_filter =
    (let hosts = rd_hosts data; out = report_preamble ''Privacy receipts: '' shown_path data in
     if hosts = [] then out @ writeln ''(no hosts recorded yet)''
     else case host_filter of
       Some f \<Rightarrow>
         let matched = host_filter_matches f hosts
         in out @ filter_preamble (normalize_host f) (length matched) @ concat (map (receipts_host_block printable) matched)
     | None \<Rightarrow> out @ receipts_totals_block hosts @ receipts_top_table top_hosts hosts)"

definition render_receipts_report :: "'v json_api \<Rightarrow> io_error option \<Rightarrow> disk \<Rightarrow> (nat \<Rightarrow> bool) \<Rightarrow> (path \<Rightarrow> bytes) \<Rightarrow> path \<Rightarrow> nat \<Rightarrow> bytes option \<Rightarrow>
    bytes io_result" where
  "render_receipts_report J o_read d printable disp path top_hosts host_filter =
    and_then (load_receipts_for_reporting J o_read d disp path) (\<lambda>data.
    Ok (receipts_text printable (disp path) data top_hosts host_filter))"

section \<open>The compliance report as text\<close>


definition compliance_host_block :: "(nat \<Rightarrow> bool) \<Rightarrow> bytes \<times> host_receipt \<Rightarrow> bytes" where
  "compliance_host_block printable x =
    (let (host, r) = x;
         cookie_events = sat_add (hr_policy_set_cookie_stripped_total r) (hr_policy_set_cookie_would_strip_total r);
         dns_events = sat_add (hr_dns_blocked_total r) (hr_dns_report_only_total r);
         consent_events = sat_add (hr_consent_enforcement_blocked_total r) (hr_consent_enforcement_report_only_total r);
         body_events = sat_add (hr_body_rewrite_total r) (hr_body_rewrite_report_only_total r);
         body_attempted = sat_add body_events (hr_body_rewrite_skipped_total r)
     in
     writeln (''Host: '' @ host) @
     writeln (''  routing: seen_total='' @ u64_str (hr_seen_total r) @ '' mitm='' @ u64_str (hr_routing_mitm_total r) @ '' passthrough='' @
         u64_str (hr_routing_passthrough_total r)) @
     writeln (''  mitm: attempts='' @ u64_str (hr_mitm_attempt_total r) @ '' success='' @ u64_str (hr_mitm_success_total r) @ '' failure='' @
         u64_str (hr_mitm_failure_total r) @ '' tls_reject='' @ u64_str (hr_mitm_client_tls_reject_total r) @ '' auto_pinned='' @
         u64_str (hr_host_auto_pinned_total r) @ '' success_rate='' @ fmt_percent (hr_mitm_success_total r) (hr_mitm_attempt_total r)) @
     writeln (''  dns: blocked='' @ u64_str (hr_dns_blocked_total r) @ '' report_only='' @ u64_str (hr_dns_report_only_total r) @
         '' cname_uncloaked='' @ u64_str (hr_dns_cname_uncloaked_total r) @ '' enforce_ratio='' @
         fmt_percent (hr_dns_blocked_total r) dns_events) @
     writeln (''  cookies: set_cookie_headers_total='' @ u64_str (hr_policy_set_cookie_headers_total r) @ '' stripped_events='' @
         u64_str (hr_policy_set_cookie_stripped_total r) @ '' report_only_events='' @ u64_str (hr_policy_set_cookie_would_strip_total r) @
         '' enforce_ratio='' @ fmt_percent (hr_policy_set_cookie_stripped_total r) cookie_events) @
     (if hr_consent_enforcement_blocked_total r > 0 \<or> hr_consent_enforcement_report_only_total r > 0
      then writeln (''  consent: blocked='' @ u64_str (hr_consent_enforcement_blocked_total r) @ '' report_only='' @
          u64_str (hr_consent_enforcement_report_only_total r) @ '' enforce_ratio='' @
          fmt_percent (hr_consent_enforcement_blocked_total r) consent_events) else []) @
     writeln (''  html_rewrite: enforce='' @ u64_str (hr_body_rewrite_total r) @ '' report_only='' @
         u64_str (hr_body_rewrite_report_only_total r) @ '' skipped='' @ u64_str (hr_body_rewrite_skipped_total r) @ '' enforce_ratio='' @
         fmt_percent (hr_body_rewrite_total r) body_events @ '' skip_rate='' @
         fmt_percent (hr_body_rewrite_skipped_total r) body_attempted) @
     (if hr_body_rewrite_removed_script_total r > 0 \<or>
        hr_body_rewrite_removed_pixel_total r > 0 \<or>
        hr_body_rewrite_removed_cosmetic_total r > 0 \<or>
        hr_body_rewrite_bytes_saved_total r > 0
      then writeln (''  html_removed_enforce: scripts='' @ u64_str (hr_body_rewrite_removed_script_total r) @ '' pixels='' @
          u64_str (hr_body_rewrite_removed_pixel_total r) @ '' cosmetic='' @ u64_str (hr_body_rewrite_removed_cosmetic_total r) @
          '' bytes_saved='' @ u64_str (hr_body_rewrite_bytes_saved_total r)) else []) @
     (if hr_body_rewrite_removed_script_report_only_total r > 0 \<or>
        hr_body_rewrite_removed_pixel_report_only_total r > 0 \<or>
        hr_body_rewrite_removed_cosmetic_report_only_total r > 0 \<or>
        hr_body_rewrite_bytes_saved_report_only_total r > 0
      then writeln (''  html_removed_report_only: scripts='' @ u64_str (hr_body_rewrite_removed_script_report_only_total r) @ '' pixels='' @
          u64_str (hr_body_rewrite_removed_pixel_report_only_total r) @ '' cosmetic='' @
          u64_str (hr_body_rewrite_removed_cosmetic_report_only_total r) @ '' bytes_saved='' @
          u64_str (hr_body_rewrite_bytes_saved_report_only_total r)) else []) @
     (if hr_websocket_blocked_total r > 0 \<or> hr_referer_spoofed_total r > 0 \<or> hr_cert_pin_violation_total r > 0
      then writeln (''  other: websocket_blocked='' @ u64_str (hr_websocket_blocked_total r) @ '' referer_spoofed='' @
          u64_str (hr_referer_spoofed_total r) @ '' cert_pin_violations='' @ u64_str (hr_cert_pin_violation_total r)) else []) @
     writeln (''  last: unix='' @ u64_str (hr_last_seen_unix r) @ '' flow='' @ debug_opt printable (hr_last_flow r) @ '' action='' @
         debug_opt printable (hr_last_action r) @ '' reason='' @ debug_opt printable (hr_last_reason r)) @
     writeln [])"

definition compliance_totals_block :: "compliance_totals \<Rightarrow> bytes" where
  "compliance_totals_block t =
    (let cookie_events = sat_add (ct_cookie_stripped_events_total t) (ct_cookie_report_only_events_total t);
         dns_events = sat_add (ct_dns_blocked_total t) (ct_dns_report_only_total t);
         consent_events = sat_add (ct_consent_blocked_total t) (ct_consent_report_only_total t);
         body_events = sat_add (ct_body_rewrite_enforce_total t) (ct_body_rewrite_report_only_total t);
         body_attempted = sat_add body_events (ct_body_rewrite_skipped_total t)
     in
     writeln (''hosts: '' @ u64_str (ct_hosts t)) @
     writeln (''seen_total: '' @ u64_str (ct_seen_total t)) @
     writeln (''routing: mitm='' @ u64_str (ct_routing_mitm_total t) @ '' passthrough='' @ u64_str (ct_routing_passthrough_total t)) @
     writeln (''mitm: attempts='' @ u64_str (ct_mitm_attempt_total t) @ '' success='' @ u64_str (ct_mitm_success_total t) @ '' failure='' @
         u64_str (ct_mitm_failure_total t) @ '' tls_reject='' @ u64_str (ct_mitm_client_tls_reject_total t) @ '' auto_pinned='' @
         u64_str (ct_host_auto_pinned_total t) @ '' success_rate='' @ fmt_percent (ct_mitm_success_total t) (ct_mitm_attempt_total t)) @
     writeln (''dns: blocked='' @ u64_str (ct_dns_blocked_total t) @ '' report_only='' @ u64_str (ct_dns_report_only_total t) @
         '' cname_uncloaked='' @ u64_str (ct_dns_cname_uncloaked_total t) @ '' enforce_ratio='' @
         fmt_percent (ct_dns_blocked_total t) dns_events) @
     writeln (''cookies: set_cookie_headers_total='' @ u64_str (ct_set_cookie_headers_total t) @ '' stripped_events='' @
         u64_str (ct_cookie_stripped_events_total t) @ '' report_only_events='' @ u64_str (ct_cookie_report_only_events_total t) @
         '' enforce_ratio='' @ fmt_percent (ct_cookie_stripped_events_total t) cookie_events) @
     writeln (''consent: blocked='' @ u64_str (ct_consent_blocked_total t) @ '' report_only='' @ u64_str (ct_consent_report_only_total t) @
         '' enforce_ratio='' @ fmt_percent (ct_consent_blocked_total t) consent_events) @
     writeln (''html_rewrite: enforce='' @ u64_str (ct_body_rewrite_enforce_total t) @ '' report_only='' @
         u64_str (ct_body_rewrite_report_only_total t) @ '' skipped='' @ u64_str (ct_body_rewrite_skipped_total t) @ '' enforce_ratio='' @
         fmt_percent (ct_body_rewrite_enforce_total t) body_events @ '' skip_rate='' @
         fmt_percent (ct_body_rewrite_skipped_total t) body_attempted) @
     (if ct_body_rewrite_removed_script_total t > 0 \<or>
        ct_body_rewrite_removed_pixel_total t > 0 \<or>
        ct_body_rewrite_removed_cosmetic_total t > 0 \<or>
        ct_body_rewrite_bytes_saved_total t > 0
      then writeln (''html_removed_enforce: scripts='' @ u64_str (ct_body_rewrite_removed_script_total t) @ '' pixels='' @
          u64_str (ct_body_rewrite_removed_pixel_total t) @ '' cosmetic='' @ u64_str (ct_body_rewrite_removed_cosmetic_total t) @
          '' bytes_saved='' @ u64_str (ct_body_rewrite_bytes_saved_total t)) else []) @
     (if ct_body_rewrite_removed_script_report_only_total t > 0 \<or>
        ct_body_rewrite_removed_pixel_report_only_total t > 0 \<or>
        ct_body_rewrite_removed_cosmetic_report_only_total t > 0 \<or>
        ct_body_rewrite_bytes_saved_report_only_total t > 0
      then writeln (''html_removed_report_only: scripts='' @ u64_str (ct_body_rewrite_removed_script_report_only_total t) @ '' pixels='' @
          u64_str (ct_body_rewrite_removed_pixel_report_only_total t) @ '' cosmetic='' @
          u64_str (ct_body_rewrite_removed_cosmetic_report_only_total t) @ '' bytes_saved='' @
          u64_str (ct_body_rewrite_bytes_saved_report_only_total t)) else []) @
     writeln [])"

definition dns_rows :: "(bytes \<times> host_receipt) list \<Rightarrow> (bytes \<times> host_receipt \<times> u64) list" where
  "dns_rows hosts =
    List.map_filter (\<lambda>(host, r). let total = sat_add (sat_add (hr_dns_blocked_total r) (hr_dns_report_only_total r)) (hr_dns_cname_uncloaked_total r) in
      if total > 0 then Some (host, r, total) else None) hosts"

definition dns_row :: "bytes \<times> host_receipt \<times> u64 \<Rightarrow> bytes" where
  "dns_row x =
    (let (host, r, total) = x;
         denom = sat_add (hr_dns_blocked_total r) (hr_dns_report_only_total r) in writeln (pad_left 35 (host) @ '' '' @
             pad_right 7 (u64_str (hr_dns_blocked_total r)) @ '' '' @ pad_right 11 (u64_str (hr_dns_report_only_total r)) @ '' '' @
             pad_right 14 (u64_str (hr_dns_cname_uncloaked_total r)) @ '' '' @ pad_right 6 (u64_str total) @ '' '' @
             pad_right 7 (opt_percent (hr_dns_blocked_total r) denom) @ '' '' @ or_dash (hr_last_reason r)))"

definition dns_table :: "nat \<Rightarrow> (bytes \<times> host_receipt) list \<Rightarrow> bytes" where
  "dns_table top_hosts hosts =
    (let rows = dns_rows hosts in
     writeln (''DNS enforcement (top '' @ show_nat (min (clamp_top top_hosts) (length rows)) @ '' by total actions):'') @
     writeln (pad_left 35 (''host'') @ '' '' @ pad_right 7 (''blocked'') @ '' '' @ pad_right 11 (''report_only'') @ '' '' @
         pad_right 14 (''cname_uncloaked'') @ '' '' @ pad_right 6 (''total'') @ '' '' @ pad_right 7 (''enf%'') @ '' last_reason'') @
     concat (map dns_row (ranked top_hosts rows)))"

definition cookie_rows :: "(bytes \<times> host_receipt) list \<Rightarrow> (bytes \<times> host_receipt \<times> u64) list" where
  "cookie_rows hosts =
    List.map_filter (\<lambda>(host, r). let cookie_events = sat_add (hr_policy_set_cookie_stripped_total r) (hr_policy_set_cookie_would_strip_total r) in
      if hr_policy_set_cookie_headers_total r > 0 \<or> cookie_events > 0
      then Some (host, r, hr_policy_set_cookie_headers_total r) else None) hosts"

definition cookie_row :: "bytes \<times> host_receipt \<times> u64 \<Rightarrow> bytes" where
  "cookie_row x =
    (let (host, r, total) = x;
         cookie_events = sat_add (hr_policy_set_cookie_stripped_total r) (hr_policy_set_cookie_would_strip_total r) in writeln (pad_left 35 (host) @
             '' '' @ pad_right 9 (u64_str total) @ '' '' @ pad_right 12 (u64_str (hr_policy_set_cookie_stripped_total r)) @ '' '' @
             pad_right 14 (u64_str (hr_policy_set_cookie_would_strip_total r)) @ '' '' @
             pad_right 7 (opt_percent (hr_policy_set_cookie_stripped_total r) cookie_events) @ '' '' @
             pad_right 12 (u64_str (hr_consent_enforcement_blocked_total r)) @ '' '' @ or_dash (hr_last_reason r)))"

definition cookie_table :: "nat \<Rightarrow> (bytes \<times> host_receipt) list \<Rightarrow> bytes" where
  "cookie_table top_hosts hosts =
    (let rows = cookie_rows hosts in
     writeln (''Cookie policy (top '' @ show_nat (min (clamp_top top_hosts) (length rows)) @
         '' by Set-Cookie headers observed on matched domains):'') @
     writeln (pad_left 35 (''host'') @ '' '' @ pad_right 9 (''ck_hdrs'') @ '' '' @ pad_right 12 (''strip_events'') @ '' '' @
         pad_right 14 (''report_events'') @ '' '' @ pad_right 7 (''enf%'') @ '' '' @ pad_right 12 (''consent_blk'') @ '' last_reason'') @
     concat (map cookie_row (ranked top_hosts rows)))"

definition body_rows :: "(bytes \<times> host_receipt) list \<Rightarrow> (bytes \<times> host_receipt \<times> u64) list" where
  "body_rows hosts =
    List.map_filter (\<lambda>(host, r). let total = sat_add (sat_add (hr_body_rewrite_total r) (hr_body_rewrite_report_only_total r)) (hr_body_rewrite_skipped_total r) in
      if total > 0 then Some (host, r, total) else None) hosts"

definition body_row :: "bytes \<times> host_receipt \<times> u64 \<Rightarrow> bytes" where
  "body_row x =
    (let (host, r, total) = x in writeln (pad_left 35 (host) @ '' '' @ pad_right 8 (u64_str (hr_body_rewrite_total r)) @ '' '' @
        pad_right 11 (u64_str (hr_body_rewrite_report_only_total r)) @ '' '' @ pad_right 8 (u64_str (hr_body_rewrite_skipped_total r)) @
        '' '' @ pad_right 7 (u64_str (hr_body_rewrite_removed_script_total r)) @ '' '' @
        pad_right 7 (u64_str (hr_body_rewrite_removed_pixel_total r)) @ '' '' @
        pad_right 7 (u64_str (hr_body_rewrite_removed_cosmetic_total r)) @ '' '' @
        pad_right 11 (u64_str (hr_body_rewrite_bytes_saved_total r)) @ '' '' @ or_dash (hr_last_reason r)))"

definition body_table :: "nat \<Rightarrow> (bytes \<times> host_receipt) list \<Rightarrow> bytes" where
  "body_table top_hosts hosts =
    (let rows = body_rows hosts in
     writeln (''HTML rewrite (top '' @ show_nat (min (clamp_top top_hosts) (length rows)) @ '' by rewrite+skip events):'') @
     writeln (pad_left 35 (''host'') @ '' '' @ pad_right 8 (''enforce'') @ '' '' @ pad_right 11 (''report_only'') @ '' '' @
         pad_right 8 (''skipped'') @ '' '' @ pad_right 7 (''scr_rm'') @ '' '' @ pad_right 7 (''pix_rm'') @ '' '' @ pad_right 7 (''cos_rm'') @
         '' '' @ pad_right 11 (''bytes_saved'') @ '' last_reason'') @
     concat (map body_row (ranked top_hosts rows)))"

definition route_rows :: "(bytes \<times> host_receipt) list \<Rightarrow> (bytes \<times> host_receipt \<times> u64) list" where
  "route_rows hosts =
    List.map_filter (\<lambda>(host, r). let total = sat_add (sat_add (hr_routing_passthrough_total r) (hr_mitm_client_tls_reject_total r)) (hr_host_auto_pinned_total r) in
      if total > 0 then Some (host, r, total) else None) hosts"

definition route_row :: "bytes \<times> host_receipt \<times> u64 \<Rightarrow> bytes" where
  "route_row x =
    (let (host, r, total) = x in writeln (pad_left 35 (host) @ '' '' @ pad_right 11 (u64_str (hr_routing_passthrough_total r)) @ '' '' @
        pad_right 6 (u64_str (hr_routing_mitm_total r)) @ '' '' @ pad_right 9 (u64_str (hr_mitm_client_tls_reject_total r)) @ '' '' @
        pad_right 9 (u64_str (hr_host_auto_pinned_total r)) @ '' '' @ or_dash (hr_last_reason r)))"

definition route_table :: "nat \<Rightarrow> (bytes \<times> host_receipt) list \<Rightarrow> bytes" where
  "route_table top_hosts hosts =
    (let rows = route_rows hosts in
     writeln (''Passthrough/pinning (top '' @ show_nat (min (clamp_top top_hosts) (length rows)) @
         '' by passthrough/tls_reject/auto_pin):'') @
     writeln (pad_left 35 (''host'') @ '' '' @ pad_right 11 (''passthrough'') @ '' '' @ pad_right 6 (''mitm'') @ '' '' @
         pad_right 9 (''tls_reject'') @ '' '' @ pad_right 9 (''auto_pin'') @ '' last_reason'') @
     concat (map route_row (ranked top_hosts rows)))"

definition compliance_text :: "(nat \<Rightarrow> bool) \<Rightarrow> bytes \<Rightarrow> receipts_report_data \<Rightarrow> nat \<Rightarrow> bytes option \<Rightarrow> bytes" where
  "compliance_text printable shown_path data top_hosts host_filter =
    (let hosts = rd_hosts data; out = report_preamble ''Privacy compliance report: '' shown_path data in
     if hosts = [] then out @ writeln ''(no hosts recorded yet)''
     else case host_filter of
       Some f \<Rightarrow>
         let matched = host_filter_matches f hosts
         in out @ filter_preamble (normalize_host f) (length matched) @ concat (map (compliance_host_block printable) matched)
     | None \<Rightarrow>
         out @ compliance_totals_block (compliance_sum hosts) @
         dns_table top_hosts hosts @ writeln [] @ cookie_table top_hosts hosts @ writeln [] @
         body_table top_hosts hosts @ writeln [] @ route_table top_hosts hosts @ writeln [] @
         writeln (''Notes: html_rewrite event counters track rewritten responses; removal counters track elements removed (best-effort). '' @
           ''Cookie counters track Set-Cookie headers observed on matched domains plus event counts for enforce/report_only.''))"

definition render_compliance_report_text :: "'v json_api \<Rightarrow> io_error option \<Rightarrow> disk \<Rightarrow> (nat \<Rightarrow> bool) \<Rightarrow> (path \<Rightarrow> bytes) \<Rightarrow> path \<Rightarrow> nat \<Rightarrow> bytes option \<Rightarrow>
    bytes io_result" where
  "render_compliance_report_text J o_read d printable disp path top_hosts host_filter =
    and_then (load_receipts_for_reporting J o_read d disp path) (\<lambda>data.
    Ok (compliance_text printable (disp path) data top_hosts host_filter))"

section \<open>The compliance report as a page\<close>


definition page_css :: "bytes" where
  "page_css =
    ''body{font-family:ui-sans-serif,system-ui,-apple-system,Segoe UI,Roboto,Arial,sans-serif;line-height:1.35;margin:24px;color:#111;background:#fafafa;}'' @
    ''h1,h2{margin:0 0 12px 0;}h2{margin-top:24px;font-size:18px;}'' @
    ''.meta{color:#444;margin-bottom:16px}.card{background:#fff;border:1px solid #e5e5e5;border-radius:10px;padding:14px 16px;margin:10px 0;}'' @
    ''table{width:100%;border-collapse:collapse;background:#fff;border:1px solid #e5e5e5;border-radius:10px;overflow:hidden;}'' @
    ''th,td{padding:8px 10px;border-bottom:1px solid #eee;font-size:13px;vertical-align:top;}'' @
    ''th{background:#f3f4f6;text-align:left;font-weight:600;color:#222;}'' @
    ''tr:last-child td{border-bottom:none;}'' @
    ''.num{text-align:right;white-space:nowrap;}'' @
    ''.muted{color:#666;}''"

definition page_head :: "bytes" where
  "page_head =
    ''<!doctype html><html><head><meta charset=\"utf-8\">'' @
    ''<meta name=\"viewport\" content=\"width=device-width, initial-scale=1\">'' @
    ''<title>Privacy Compliance Report</title>'' @
    ''<style>'' @ page_css @
    ''</style></head><body>'' @ ''<h1>Privacy Compliance Report</h1>'' @ ''<div class=\"meta\">''"

definition html_line :: "bytes \<Rightarrow> bytes \<Rightarrow> bytes" where
  "html_line label value = ''<div><strong>'' @ label @ '':</strong> '' @ value @ ''</div>''"

definition page_meta :: "bytes \<Rightarrow> receipts_report_data \<Rightarrow> bytes" where
  "page_meta shown_path data =
    ''<div><strong>Receipts file:</strong> <code>'' @ escape_html shown_path @ ''</code></div>'' @
    (case rd_version data of Some v \<Rightarrow> html_line ''Version'' (u64_str v) | None \<Rightarrow> []) @
    (case rd_generated_unix data of Some ts \<Rightarrow> html_line ''Generated (unix)'' (u64_str ts) | None \<Rightarrow> []) @
    ''</div>''"

definition td_num :: "u64 \<Rightarrow> bytes" where
  "td_num n = ''<td class=\"num\">'' @ u64_str n @ ''</td>''"

definition td_host :: "bytes \<Rightarrow> bytes" where
  "td_host host = ''<td><code>'' @ escape_html host @ ''</code></td>''"

definition td_reason :: "bytes option \<Rightarrow> bytes" where
  "td_reason reason = ''<td>'' @ escape_html (or_dash reason) @ ''</td>''"

text \<open>The figures of a row, in the order of the columns.\<close>


definition filter_cells :: "host_receipt \<Rightarrow> u64 list" where
  "filter_cells r = [hr_seen_total r, hr_routing_mitm_total r, hr_routing_passthrough_total r, hr_dns_blocked_total r,
     hr_policy_set_cookie_headers_total r, sat_add (hr_body_rewrite_total r) (hr_body_rewrite_report_only_total r),
     hr_body_rewrite_removed_script_total r, hr_body_rewrite_removed_pixel_total r, hr_body_rewrite_removed_cosmetic_total r,
     hr_body_rewrite_bytes_saved_total r]"

definition action_cells :: "host_receipt \<Rightarrow> u64 \<Rightarrow> u64 list" where
  "action_cells r actions = [actions, hr_dns_blocked_total r, hr_dns_cname_uncloaked_total r, hr_policy_set_cookie_headers_total r,
     sat_add (hr_body_rewrite_total r) (hr_body_rewrite_report_only_total r), hr_body_rewrite_skipped_total r,
     hr_body_rewrite_removed_script_total r, hr_body_rewrite_removed_pixel_total r, hr_body_rewrite_removed_cosmetic_total r,
     hr_body_rewrite_bytes_saved_total r]"

definition html_row :: "bytes \<Rightarrow> u64 list \<Rightarrow> bytes option \<Rightarrow> bytes" where
  "html_row host cells reason =
    ''<tr>'' @ td_host host @ concat (map td_num cells) @ td_reason reason @ ''</tr>''"

definition filter_head :: "bytes" where
  "filter_head =
    ''<th>Host</th><th class=\"num\">Seen</th><th class=\"num\">MITM</th><th class=\"num\">Pass</th><th class=\"num\">DNS blk</th><th class=\"num\">CK hdrs</th><th class=\"num\">HTML rw</th><th class=\"num\">Scr rm</th><th class=\"num\">Pix rm</th><th class=\"num\">Cos rm</th><th class=\"num\">Bytes saved</th><th>Last reason</th>''"

definition action_head :: "bytes" where
  "action_head =
    ''<th>Host</th><th class=\"num\">Actions</th><th class=\"num\">DNS blk</th><th class=\"num\">CNAME</th><th class=\"num\">CK hdrs</th><th class=\"num\">HTML rw</th><th class=\"num\">HTML skip</th><th class=\"num\">Scr rm</th><th class=\"num\">Pix rm</th><th class=\"num\">Cos rm</th><th class=\"num\">Bytes saved</th><th>Last reason</th>''"

definition html_filter_section :: "bytes \<Rightarrow> (bytes \<times> host_receipt) list \<Rightarrow> bytes" where
  "html_filter_section f matched =
    ''<div class=\"card\"><div><strong>Host filter:</strong> <code>'' @ escape_html f @ ''</code></div><div class=\"muted\">Matches: '' @
        show_nat (length matched) @ ''</div></div>'' @
    ''<table><thead><tr>'' @ filter_head @ ''</tr></thead><tbody>'' @
    concat (map (\<lambda>(host, r). html_row host (filter_cells r) (hr_last_reason r)) matched) @ ''</tbody></table>''"

definition html_totals_card :: "compliance_totals \<Rightarrow> bytes" where
  "html_totals_card t =
    (let cookie_events = sat_add (ct_cookie_stripped_events_total t) (ct_cookie_report_only_events_total t);
         dns_events = sat_add (ct_dns_blocked_total t) (ct_dns_report_only_total t);
         consent_events = sat_add (ct_consent_blocked_total t) (ct_consent_report_only_total t);
         body_events = sat_add (ct_body_rewrite_enforce_total t) (ct_body_rewrite_report_only_total t);
         body_attempted = sat_add body_events (ct_body_rewrite_skipped_total t)
     in
     ''<div class=\"card\">'' @
     html_line ''Hosts'' (u64_str (ct_hosts t)) @
     html_line ''Seen total'' (u64_str (ct_seen_total t)) @
     html_line ''MITM success rate'' (escape_html (fmt_percent (ct_mitm_success_total t) (ct_mitm_attempt_total t))) @
     html_line ''DNS enforce ratio'' (escape_html (fmt_percent (ct_dns_blocked_total t) dns_events)) @
     html_line ''Cookie enforce ratio'' (escape_html (fmt_percent (ct_cookie_stripped_events_total t) cookie_events)) @
     html_line ''Consent enforce ratio'' (escape_html (fmt_percent (ct_consent_blocked_total t) consent_events)) @
     html_line ''HTML rewrite enforce ratio'' (escape_html (fmt_percent (ct_body_rewrite_enforce_total t) body_events)) @
     html_line ''HTML rewrite skip rate'' (escape_html (fmt_percent (ct_body_rewrite_skipped_total t) body_attempted)) @
     (if ct_body_rewrite_removed_script_total t > 0 \<or>
        ct_body_rewrite_removed_pixel_total t > 0 \<or>
        ct_body_rewrite_removed_cosmetic_total t > 0 \<or>
        ct_body_rewrite_bytes_saved_total t > 0
      then html_line ''HTML removed (enforce)'' (''scripts='' @ u64_str (ct_body_rewrite_removed_script_total t) @ '' pixels='' @
          u64_str (ct_body_rewrite_removed_pixel_total t) @ '' cosmetic='' @ u64_str (ct_body_rewrite_removed_cosmetic_total t) @
          '' bytes_saved='' @ u64_str (ct_body_rewrite_bytes_saved_total t)) else []) @
     (if ct_body_rewrite_removed_script_report_only_total t > 0 \<or>
        ct_body_rewrite_removed_pixel_report_only_total t > 0 \<or>
        ct_body_rewrite_removed_cosmetic_report_only_total t > 0 \<or>
        ct_body_rewrite_bytes_saved_report_only_total t > 0
      then html_line ''HTML removed (report_only)'' (''scripts='' @ u64_str (ct_body_rewrite_removed_script_report_only_total t) @
          '' pixels='' @ u64_str (ct_body_rewrite_removed_pixel_report_only_total t) @ '' cosmetic='' @
          u64_str (ct_body_rewrite_removed_cosmetic_report_only_total t) @ '' bytes_saved='' @
          u64_str (ct_body_rewrite_bytes_saved_report_only_total t)) else []) @
     ''</div>'')"

definition html_actions_section :: "nat \<Rightarrow> (bytes \<times> host_receipt) list \<Rightarrow> bytes" where
  "html_actions_section top_hosts hosts =
    ''<h2>Top Domains (by compliance actions)</h2>'' @ ''<table><thead><tr>'' @ action_head @ ''</tr></thead><tbody>'' @
    concat (map (\<lambda>(host, r, actions). html_row host (action_cells r actions) (hr_last_reason r)) (compliance_rows top_hosts hosts)) @
    ''</tbody></table>'' @
    ''<p class=\"muted\">html_rewrite counters track rewritten responses; element removals are best-effort and may undercount/overcount due to selector overlap.</p>''"

definition compliance_html :: "bytes \<Rightarrow> receipts_report_data \<Rightarrow> nat \<Rightarrow> bytes option \<Rightarrow> bytes" where
  "compliance_html shown_path data top_hosts host_filter =
    (let hosts = rd_hosts data; out = page_head @ page_meta shown_path data; finish = ''</body></html>'' in
     if hosts = [] then out @ ''<div class=\"card\"><em>(no hosts recorded yet)</em></div>'' @ finish
     else case host_filter of
       Some f \<Rightarrow> out @ html_filter_section (normalize_host f) (host_filter_matches f hosts) @ finish
     | None \<Rightarrow> out @ html_totals_card (compliance_sum hosts) @ html_actions_section top_hosts hosts @ finish)"

definition render_compliance_report_html :: "'v json_api \<Rightarrow> io_error option \<Rightarrow> disk \<Rightarrow> (path \<Rightarrow> bytes) \<Rightarrow> path \<Rightarrow> nat \<Rightarrow> bytes option \<Rightarrow> bytes io_result" where
  "render_compliance_report_html J o_read d disp path top_hosts host_filter =
    and_then (load_receipts_for_reporting J o_read d disp path) (\<lambda>data. Ok (compliance_html (disp path) data top_hosts host_filter))"


end
