(* ===== verification/Startup.thy ===== *)
theory Startup
  imports Engine_Config Proxy_Main Dns_Filter Receipts_Report
begin

text \<open>
  The start of the engine and its background tasks in \<open>main\<close> of \<^verbatim>\<open>src/main.rs\<close>: the engine
  configuration, the dump modes with the report they print, the policy engine, the filter lists, the stores,
  the interception engine, the listener, the services that are started beside it, and the task that reloads the policy file. What
  the outside answers is the record \<open>startup_env\<close>; command-line parsing (crate \<^verbatim>\<open>clap\<close>) and logging are not
  modelled. Texts of the command line become paths by \<open>su_path\<close>; \<open>rustls_pemfile\<close> is \<open>su_pem_certs\<close> and
  \<open>su_pem_key\<close>. A start ends with a value, with an error, or in a panic. \<open>su_bind\<close> is the error of
  \<open>TcpListener::bind\<close> or of \<open>local_addr\<close> after it.
\<close>

datatype socket_addr = SocketV4 bytes nat | SocketV6 bytes nat

fun is_ipv4 :: "socket_addr \<Rightarrow> bool" where
  "is_ipv4 (SocketV4 ip port) = True"
| "is_ipv4 (SocketV6 ip port) = False"

datatype 'a start = Started 'a | StartFailed io_error | Panicked string

definition start_bind :: "'a start \<Rightarrow> ('a \<Rightarrow> 'b start) \<Rightarrow> 'b start" where
  "start_bind r f = (case r of Started x \<Rightarrow> f x | StartFailed e \<Rightarrow> StartFailed e | Panicked m \<Rightarrow> Panicked m)"

definition start_try :: "'a io_result \<Rightarrow> 'a start" where
  "start_try r = (case r of Inr x \<Rightarrow> Started x | Inl e \<Rightarrow> StartFailed e)"

lemma start_bind_simps [simp]:
  "start_bind (Started x) f = f x" "start_bind (StartFailed e) f = StartFailed e" "start_bind (Panicked m) f = Panicked m"
  "start_try (Inr x) = Started x" "start_try (Inl e) = StartFailed e"
  by (simp_all add: start_bind_def start_try_def)

lemma start_bind_Started_iff: "start_bind r f = Started y \<longleftrightarrow> (\<exists>x. r = Started x \<and> f x = Started y)"
  by (cases r) auto

lemma start_bind_Panicked: "start_bind r f = Panicked m \<Longrightarrow> r = Panicked m \<or> (\<exists>x. r = Started x \<and> f x = Panicked m)"
  by (cases r) auto

lemma start_try_Started_iff: "start_try r = Started x \<longleftrightarrow> r = Inr x"
  by (cases r) auto

lemma start_try_not_Panicked [simp]: "start_try r \<noteq> Panicked m"
  by (cases r) auto

record 'v startup_env =
  su_json :: "'v json_api"
  su_css_ok :: "bytes \<Rightarrow> bool"
  su_path :: "bytes \<Rightarrow> path"
  su_read :: "path \<Rightarrow> io_error option"
  su_uri :: uri_parser
  su_source :: "filter_list_source \<Rightarrow> source_env"
  su_mono :: nat
  su_cert_log_open :: "io_error option"
  su_ca_lib :: ca_lib
  su_ca_fs :: ca_fs
  su_tls_config :: "string option"
  su_export_mkdir :: "io_error option"
  su_export_write :: "(io_error \<times> bytes option) option"
  su_show_mitm_error :: "mitm_error \<Rightarrow> string"
  su_resolve :: "bytes \<Rightarrow> socket_addr list io_result"
  su_bind :: "socket_addr \<Rightarrow> io_error option"
  su_pem_certs :: "bytes \<Rightarrow> bytes list io_result"
  su_pem_key :: "bytes \<Rightarrow> bytes option io_result"
  su_printable :: "nat \<Rightarrow> bool"
  su_display :: "path \<Rightarrow> bytes"
  su_stdout :: "io_error option"

section \<open>Configuration and modes\<close>

definition effective_args :: "'v startup_env \<Rightarrow> disk \<Rightarrow> args \<Rightarrow> args io_result" where
  "effective_args env d a =
    (case ar_engine_config a of None \<Rightarrow> Ok a
     | Some p \<Rightarrow> and_then (engine_config_load_from_file (su_json env) (su_read env (su_path env p)) d (su_path env p)) (\<lambda>cfg.
         Ok (apply_engine_config a cfg)))"

datatype run_mode = DumpCompliance bytes compliance_format nat "bytes option" | DumpReceipts bytes nat "bytes option" | Serve

definition invalid_input :: "string \<Rightarrow> io_error" where
  "invalid_input m = IoError InvalidInput m"

definition select_mode :: "args \<Rightarrow> run_mode io_result" where
  "select_mode a =
    (let top = (case ar_top_hosts a of Some n \<Rightarrow> n | None \<Rightarrow> 20) in
     if ar_dump_compliance a then
       (if ar_dump_receipts a then Err (invalid_input ''cannot combine --dump-receipts and --dump-compliance'')
        else and_then (ok_or (ar_receipts_file a) (invalid_input ''--dump-compliance requires --receipts-file'')) (\<lambda>path.
          Ok (DumpCompliance path (ar_compliance_format a) top (ar_receipt_host a))))
     else if ar_dump_receipts a then
       and_then (ok_or (ar_receipts_file a) (invalid_input ''--dump-receipts requires --receipts-file'')) (\<lambda>path.
         Ok (DumpReceipts path top (ar_receipt_host a)))
     else Ok Serve)"

text \<open>What a dump mode prints.\<close>

definition dump_report :: "'v startup_env \<Rightarrow> disk \<Rightarrow> run_mode \<Rightarrow> bytes io_result" where
  "dump_report env d mode =
    (case mode of
       DumpCompliance p fmt top_hosts host_filter \<Rightarrow>
         let path = su_path env p in
         (case fmt of
            TextFormat \<Rightarrow> render_compliance_report_text (su_json env) (su_read env path) d (su_printable env) (su_display env) path top_hosts host_filter
          | HtmlFormat \<Rightarrow> render_compliance_report_html (su_json env) (su_read env path) d (su_display env) path top_hosts host_filter)
     | DumpReceipts p top_hosts host_filter \<Rightarrow>
         let path = su_path env p in
         render_receipts_report (su_json env) (su_read env path) d (su_printable env) (su_display env) path top_hosts host_filter
     | Serve \<Rightarrow> Ok [])"

definition init_policy :: "'v startup_env \<Rightarrow> disk \<Rightarrow> args \<Rightarrow> policy_engine io_result" where
  "init_policy env d a =
    (case ar_policy_config_file a of
       Some p \<Rightarrow> policy_engine_load_from_file (su_json env) (su_css_ok env) (su_read env (su_path env p)) d (su_path env p) (ar_policy_mode a)
     | None \<Rightarrow> Ok (policy_engine_new (case ar_policy_mode a of Some m \<Rightarrow> m | None \<Rightarrow> Disabled)))"

section \<open>The policy reload task\<close>

record reload_state =
  rd_last_mtime :: "nat option"
  rd_engine :: policy_engine

text \<open>One tick: \<open>meta\<close> is what \<open>fs::metadata\<close> answers, with the modification time when the system has one.\<close>

definition reload_tick :: "'v json_api \<Rightarrow> (bytes \<Rightarrow> bool) \<Rightarrow> path \<Rightarrow> policy_mode option \<Rightarrow>
    nat option io_result \<times> io_error option \<times> disk \<Rightarrow> reload_state \<Rightarrow> reload_state" where
  "reload_tick J css path mode_override t s =
    (let (meta, o_read, d) = t in
     case meta of Inl e \<Rightarrow> s
     | Inr mtime \<Rightarrow>
        if mtime \<noteq> None \<and> mtime = rd_last_mtime s then s
        else (case replace_from_file J css o_read d path mode_override (rd_engine s) of
                (e, Inl err) \<Rightarrow> s\<lparr>rd_engine := e\<rparr>
              | (e, Inr summary) \<Rightarrow> \<lparr>rd_last_mtime = mtime, rd_engine = e\<rparr>))"

section \<open>Filter lists\<close>

definition configured_sources :: "'v startup_env \<Rightarrow> disk \<Rightarrow> args \<Rightarrow> filter_list_source list" where
  "configured_sources env d a =
    map (\<lambda>p. \<lparr>origin = p, fl_kind = LocalFile\<rparr>) (ar_filter_list_file a) @
    map (\<lambda>u. \<lparr>origin = u, fl_kind = Url\<rparr>) (ar_filter_list_url a) @
    (case ar_policy_config_file a of None \<Rightarrow> []
     | Some p \<Rightarrow> (case parse_filter_list_sources_from_config (su_json env) (su_read env (su_path env p)) d (su_path env p) of
          Inr sources \<Rightarrow> sources | Inl _ \<Rightarrow> []))"

text \<open>The first load, and whether the refresh task is started.\<close>

definition init_filter_lists :: "'v startup_env \<Rightarrow> args \<Rightarrow> filter_list_source list \<Rightarrow> refresh_state \<Rightarrow> refresh_state \<times> bool" where
  "init_filter_lists env a sources s =
    (if sources = [] then (s, False)
     else
       let m = inc_filter_list_refresh_total (rf_metrics s);
           (d, r) = refresh_filter_lists (su_css_ok env) (su_uri env) (map (\<lambda>x. (x, su_source env x)) sources) (rf_disk s) (ar_filter_list_cache_dir a)
       in (case r of
             Inr rules \<Rightarrow>
               let active_count = card (block_domains rules) + length (tracker_script_patterns rules) + length (cosmetic_selectors rules)
               in (\<lparr>rf_engine = replace_filter_list_rules rules (rf_engine s),
                    rf_metrics = set_filter_list_rules_active (of_nat active_count) m, rf_disk = d\<rparr>, ar_filter_list_refresh_secs a > 0)
           | Inl e \<Rightarrow> (\<lparr>rf_engine = rf_engine s, rf_metrics = inc_filter_list_refresh_failed_total m, rf_disk = d\<rparr>, False)))"

section \<open>The interception engine\<close>

definition ca_config :: "'v startup_env \<Rightarrow> args \<Rightarrow> ca_files_config" where
  "ca_config env a = \<lparr>ca_cert_path = su_path env (ar_mitm_ca_cert_file a), ca_key_path = su_path env (ar_mitm_ca_key_file a),
     generate_if_missing = ar_mitm_ca_generate_if_missing a\<rparr>"

definition new_mitm_engine :: "'v startup_env \<Rightarrow> disk \<Rightarrow> args \<Rightarrow> disk \<times> (mitm_error + (mitm_engine \<times> bytes \<times> ca_init_mode))" where
  "new_mitm_engine env d a =
    (case load_or_create_ca (su_ca_lib env) (su_ca_fs env) d (ca_config env a) of
       (d, Inl e) \<Rightarrow> (d, Err e)
     | (d, Inr (ca_cert, ca_key, pem, mode)) \<Rightarrow>
        (case su_tls_config env of
           Some m \<Rightarrow> (d, Err (CaConfig (''TLS config error: '' @ m)))
         | None \<Rightarrow> (d, Ok (mitm_engine_new (ar_cert_log_file a \<noteq> None), pem, mode))))"

text \<open>\<open>CertLog::open\<close> creates the file when there is none and keeps its content otherwise.\<close>

definition open_cert_log :: "io_error option \<Rightarrow> disk \<Rightarrow> path \<Rightarrow> disk io_result" where
  "open_cert_log o_open d p =
    (case o_open of Some e \<Rightarrow> Err e
     | None \<Rightarrow> Ok (case d p of None \<Rightarrow> d(p \<mapsto> []) | Some content \<Rightarrow> d))"

definition init_mitm :: "'v startup_env \<Rightarrow> disk \<Rightarrow> args \<Rightarrow> disk \<times> (mitm_engine \<times> cert_pin_db option) option io_result" where
  "init_mitm env d a =
    (if \<not> ar_enable_mitm a then (d, Ok None)
     else case (case ar_cert_log_file a of None \<Rightarrow> Ok d | Some p \<Rightarrow> open_cert_log (su_cert_log_open env) d (su_path env p)) of
       Inl e \<Rightarrow> (d, Err (IoError Other (''cert log open failed: '' @ err_msg e)))
     | Inr d \<Rightarrow>
    (case (case ar_cert_pin_file a of None \<Rightarrow> Ok None
           | Some p \<Rightarrow> and_then (cert_pin_load (su_json env) (su_read env (su_path env p)) d (su_path env p)) (\<lambda>db. Ok (Some db))) of
       Inl e \<Rightarrow> (d, Err e)
     | Inr db \<Rightarrow>
    (case new_mitm_engine env d a of
       (d, Inl e) \<Rightarrow> (d, Err (IoError Other (su_show_mitm_error env e)))
     | (d, Inr (engine, pem, mode)) \<Rightarrow>
        (case ar_mitm_ca_export_cert_file a of None \<Rightarrow> (d, Ok (Some (engine, db)))
         | Some p \<Rightarrow>
            (case export_ca_cert_pem (su_export_mkdir env) (su_export_write env) d pem (su_path env p) of
               (d, Inl e) \<Rightarrow> (d, Err (IoError Other (su_show_mitm_error env e)))
             | (d, Inr _) \<Rightarrow> (d, Ok (Some (engine, db))))))))"

section \<open>Services\<close>

record dashboard_options =
  do_doh_stats :: "doh_stats option"
  do_ca_export :: "bytes option"
  do_grace_secs :: u64

record dns_filter_config =
  df_listen_addr :: socket_addr
  df_upstream_addr :: socket_addr
  df_upstream_doh :: "bytes option"

record doh_server_config =
  dc_addr :: socket_addr
  dc_cert :: "bytes list"
  dc_key :: bytes
  dc_upstream_addr :: socket_addr
  dc_upstream_doh :: "bytes option"
  dc_stats :: doh_stats

text \<open>The background tasks and servers that run beside the proxy.\<close>

record services =
  sv_metrics_log :: bool
  sv_receipts_flush :: bool
  sv_doh_stats :: "doh_stats option"
  sv_dashboard :: "(socket_addr \<times> dashboard_options) option"
  sv_dns_filter :: "dns_filter_config option"
  sv_doh_server :: "doh_server_config option"

definition doh_stats_default :: doh_stats where
  "doh_stats_default = \<lparr>dst_query_total = 0, dst_clients = Map.empty\<rparr>"

text \<open>\<open>to_socket_addrs()?.next().ok_or_else(..)?\<close>\<close>

definition first_addr :: "'v startup_env \<Rightarrow> bytes \<Rightarrow> string \<Rightarrow> socket_addr start" where
  "first_addr env target msg =
    start_bind (start_try (su_resolve env target)) (\<lambda>addrs.
    case addrs of [] \<Rightarrow> StartFailed (invalid_input msg) | a # _ \<Rightarrow> Started a)"

definition host_port :: "bytes \<Rightarrow> u16 \<Rightarrow> bytes" where
  "host_port host port = host @ '':'' @ show_nat (unat port)"

text \<open>The text \<open>127.0.0.1:port\<close> of a \<open>u16\<close> port always parses; the error branch of the source is not reachable.\<close>

definition dashboard_service :: "args \<Rightarrow> doh_stats option \<Rightarrow> (socket_addr \<times> dashboard_options) option" where
  "dashboard_service a doh_stats =
    (case ar_dashboard_port a of None \<Rightarrow> None
     | Some port \<Rightarrow> Some (SocketV4 ''127.0.0.1'' (unat port), \<lparr>do_doh_stats = doh_stats,
         do_ca_export = ar_mitm_ca_export_cert_file a, do_grace_secs = of_nat AUTO_PIN_GRACE_PERIOD_SECS\<rparr>))"

definition dns_filter_service :: "'v startup_env \<Rightarrow> args \<Rightarrow> dns_filter_config option start" where
  "dns_filter_service env a =
    (if ar_enable_dns_filter a then
       start_bind (first_addr env (host_port (ar_dns_listen_host a) (ar_dns_listen_port a)) ''Could not resolve DNS listen address'') (\<lambda>listen.
       start_bind (first_addr env (ar_dns_upstream a) ''Could not resolve DNS upstream address'') (\<lambda>upstream.
       Started (Some \<lparr>df_listen_addr = listen, df_upstream_addr = upstream, df_upstream_doh = ar_dns_upstream_doh a\<rparr>)))
     else Started None)"

definition doh_server_files :: "args \<Rightarrow> bytes \<times> bytes" where
  "doh_server_files a = (case ar_doh_server_cert_file a of Some p \<Rightarrow> p | None \<Rightarrow> ar_mitm_ca_cert_file a,
     case ar_doh_server_key_file a of Some p \<Rightarrow> p | None \<Rightarrow> ar_mitm_ca_key_file a)"

text \<open>\<open>File::open\<close> with its error replaced, then the whole content.\<close>

definition open_doh_file :: "'v startup_env \<Rightarrow> disk \<Rightarrow> string \<Rightarrow> bytes \<Rightarrow> bytes start" where
  "open_doh_file env d what p =
    (let fail = (\<lambda>m. StartFailed (IoError NotFound (''failed to open DoH '' @ what @ '' '' @ su_display env (su_path env p) @ '': '' @ m))) in
     case su_read env (su_path env p) of Some e \<Rightarrow> fail (err_msg e)
     | None \<Rightarrow> (case d (su_path env p) of None \<Rightarrow> fail ''not found'' | Some content \<Rightarrow> Started content))"

definition doh_server_service :: "'v startup_env \<Rightarrow> disk \<Rightarrow> args \<Rightarrow> doh_stats option \<Rightarrow> doh_server_config option start" where
  "doh_server_service env d a doh_stats =
    (case ar_doh_server_port a of None \<Rightarrow> Started None
     | Some port \<Rightarrow>
        let (cert_path, key_path) = doh_server_files a in
        start_bind (open_doh_file env d ''cert'' cert_path) (\<lambda>cert_pem.
        start_bind (start_try (su_pem_certs env cert_pem)) (\<lambda>certs.
        start_bind (open_doh_file env d ''key'' key_path) (\<lambda>key_pem.
        start_bind (start_try (su_pem_key env key_pem)) (\<lambda>found.
        case found of None \<Rightarrow> StartFailed (IoError InvalidData ''no private key found in DoH key file'')
        | Some key \<Rightarrow>
        start_bind (first_addr env (ar_dns_upstream a) ''Could not resolve DNS upstream address for DoH server'') (\<lambda>upstream.
        case doh_stats of None \<Rightarrow> Panicked ''doh stats must exist when doh server is enabled''
        | Some stats \<Rightarrow> Started (Some \<lparr>dc_addr = SocketV4 ''0.0.0.0'' (unat port), dc_cert = certs, dc_key = key,
            dc_upstream_addr = upstream, dc_upstream_doh = ar_dns_upstream_doh a, dc_stats = stats\<rparr>)))))))"

definition start_services :: "'v startup_env \<Rightarrow> disk \<Rightarrow> args \<Rightarrow> bool \<Rightarrow> services start" where
  "start_services env d a receipts =
    (let doh_stats = (if ar_doh_server_port a \<noteq> None then Some doh_stats_default else None) in
     start_bind (dns_filter_service env a) (\<lambda>dns.
     start_bind (doh_server_service env d a doh_stats) (\<lambda>doh.
     Started \<lparr>sv_metrics_log = (ar_metrics_log_interval_secs a > 0),
       sv_receipts_flush = (receipts \<and> ar_receipts_flush_interval_secs a > 0),
       sv_doh_stats = doh_stats, sv_dashboard = dashboard_service a doh_stats, sv_dns_filter = dns, sv_doh_server = doh\<rparr>)))"

section \<open>The start\<close>

text \<open>The started engine: the state that connections share, and what runs beside it.\<close>

record started =
  st_world :: proxy_world
  st_policy :: policy_engine
  st_mitm :: bool
  st_listener :: socket_addr
  st_reload_task :: bool
  st_refresh_task :: bool
  st_services :: services

definition serve_start :: "'v startup_env \<Rightarrow> disk \<Rightarrow> args \<Rightarrow> disk \<times> started start" where
  "serve_start env d a =
    (case init_policy env d a of Inl e \<Rightarrow> (d, StartFailed e)
     | Inr engine \<Rightarrow>
        let (rs, refresh) = init_filter_lists env a (configured_sources env d a) \<lparr>rf_engine = engine, rf_metrics = metrics_default, rf_disk = d\<rparr>;
            d = rf_disk rs; pins = su_path env (ar_pinned_hosts_file a)
        in (case pinned_load (su_json env) (su_read env pins) d pins (su_mono env) of Inl e \<Rightarrow> (d, StartFailed e)
            | Inr pinned \<Rightarrow>
        (case (case ar_receipts_file a of None \<Rightarrow> Ok None
               | Some p \<Rightarrow> and_then (receipt_store_load (su_json env) (su_read env (su_path env p)) d (su_path env p)) (\<lambda>r. Ok (Some r))) of
           Inl e \<Rightarrow> (d, StartFailed e)
         | Inr receipts \<Rightarrow>
        (case init_mitm env d a of (d, Inl e) \<Rightarrow> (d, StartFailed e)
         | (d, Inr mitm) \<Rightarrow>
           (d, start_bind (first_addr env (host_port (ar_listen_host a) (ar_listen_port a)) ''Could not resolve listen address'') (\<lambda>bind_addr.
               case su_bind env bind_addr of Some e \<Rightarrow> StartFailed e
               | None \<Rightarrow>
               start_bind (start_services env d a (receipts \<noteq> None)) (\<lambda>services.
               Started \<lparr>st_world = \<lparr>pw_mitm = \<lparr>mw_tally = \<lparr>t_metrics = rf_metrics rs, t_receipts = receipts\<rparr>, mw_disk = d,
                   mw_engine = (case mitm of Some (m, _) \<Rightarrow> m | None \<Rightarrow> mitm_engine_new False),
                   mw_pins = (case mitm of Some (_, db) \<Rightarrow> db | None \<Rightarrow> None)\<rparr>,
                 pw_pinned = pinned\<rparr>,
               st_policy = rf_engine rs, st_mitm = (mitm \<noteq> None), st_listener = bind_addr,
               st_reload_task = (ar_policy_config_file a \<noteq> None \<and> ar_policy_reload_interval_secs a > 0),
               st_refresh_task = refresh, st_services = services\<rparr>)))))))"

text \<open>\<open>main\<close> up to the accept loop. A dump mode prints its report and ends; \<open>print!\<close> panics when the standard
  output cannot be written (\<open>su_stdout\<close>).\<close>

datatype main_outcome = Printed bytes | Serving started

definition main_start :: "'v startup_env \<Rightarrow> disk \<Rightarrow> args \<Rightarrow> disk \<times> main_outcome start" where
  "main_start env d a =
    (case effective_args env d a of Inl e \<Rightarrow> (d, StartFailed e)
     | Inr a \<Rightarrow>
        (case select_mode a of Inl e \<Rightarrow> (d, StartFailed e)
         | Inr mode \<Rightarrow>
            if mode = Serve then (let (d, r) = serve_start env d a in (d, start_bind r (\<lambda>st. Started (Serving st))))
            else (d, start_bind (start_try (dump_report env d mode)) (\<lambda>report.
               case su_stdout env of Some e \<Rightarrow> Panicked (''failed printing to stdout: '' @ err_msg e) | None \<Rightarrow> Started (Printed report)))))"

section \<open>Properties of the start\<close>

text \<open>What the rest of the development assumes of the state in which connections begin.\<close>

definition start_ok :: "'v startup_env \<Rightarrow> args \<Rightarrow> disk \<Rightarrow> started \<Rightarrow> bool" where
  "start_ok env a d st \<longleftrightarrow>
     pins_wf (pw_pinned (st_world st)) \<and> \<not> ph_poisoned (pw_pinned (st_world st)) \<and>
     ph_path (pw_pinned (st_world st)) = su_path env (ar_pinned_hosts_file a) \<and>
     ph_created_at (pw_pinned (st_world st)) = su_mono env \<and>
     (\<exists>logging. mw_engine (pw_mitm (st_world st)) = mitm_engine_new logging) \<and>
     mw_disk (pw_mitm (st_world st)) = d \<and> st_mitm st = ar_enable_mitm a \<and>
     (ar_policy_config_file a \<noteq> None \<longrightarrow> config_wf (su_css_ok env) (pe_cfg (st_policy st))) \<and>
     \<not> pe_cfg_poisoned (st_policy st) \<and> \<not> pe_fl_poisoned (st_policy st) \<and>
     m_connection_total (t_metrics (mw_tally (pw_mitm (st_world st)))) = 0"

lemma pinned_load_ok: "pinned_load J o_read d p now = Ok ph \<Longrightarrow>
    pins_wf ph \<and> \<not> ph_poisoned ph \<and> ph_path ph = p \<and> ph_created_at ph = now"
  using load_pinned_hosts_wf [of J o_read d p] by (auto simp: pinned_load_def and_then_Inr_iff pins_wf_def)

lemma init_policy_ok:
  assumes "init_policy env d a = Ok e"
  shows "(ar_policy_config_file a \<noteq> None \<longrightarrow> config_wf (su_css_ok env) (pe_cfg e)) \<and> \<not> pe_cfg_poisoned e \<and> \<not> pe_fl_poisoned e"
  using assms
  by (auto simp: init_policy_def policy_engine_load_from_file_def policy_engine_new_def and_then_Inr_iff dest: loaded_config_wf split: option.splits)

lemma init_filter_lists_ok:
  assumes "init_filter_lists env a sources s = (s', refresh)" "\<not> pe_fl_poisoned (rf_engine s)"
  shows "pe_cfg (rf_engine s') = pe_cfg (rf_engine s) \<and> pe_cfg_poisoned (rf_engine s') = pe_cfg_poisoned (rf_engine s) \<and> \<not> pe_fl_poisoned (rf_engine s') \<and>
    m_connection_total (rf_metrics s') = m_connection_total (rf_metrics s)"
  using assms
  by (auto simp: init_filter_lists_def replace_filter_list_rules_def set_filter_list_rules_active_def inc_filter_list_refresh_total_def
      inc_filter_list_refresh_failed_total_def Let_def split: if_splits prod.splits sum.splits)

lemma init_mitm_ok:
  assumes "init_mitm env d a = (d', Ok m)"
  shows "(m \<noteq> None) = ar_enable_mitm a \<and> (\<forall>eng db. m = Some (eng, db) \<longrightarrow> (\<exists>logging. eng = mitm_engine_new logging))"
proof (cases "ar_enable_mitm a")
  case True
  then obtain eng db d0 d1 pem mode where "m = Some (eng, db)" "new_mitm_engine env d0 a = (d1, Ok (eng, pem, mode))"
    using assms by (auto simp: init_mitm_def split: option.splits if_splits sum.splits prod.splits)
  then show ?thesis using True by (auto simp: new_mitm_engine_def split: option.splits sum.splits prod.splits)
qed (use assms in \<open>simp add: init_mitm_def\<close>)

lemma serve_start_ok:
  assumes "serve_start env d a = (d', Started st)"
  shows "start_ok env a d' st"
proof -
  obtain engine where e: "init_policy env d a = Ok engine" using assms by (auto simp: serve_start_def split: sum.splits)
  let ?s = "\<lparr>rf_engine = engine, rf_metrics = metrics_default, rf_disk = d\<rparr>" and ?pins = "su_path env (ar_pinned_hosts_file a)"
  obtain rs refresh where rs: "init_filter_lists env a (configured_sources env d a) ?s = (rs, refresh)" by fastforce
  obtain pinned where p: "pinned_load (su_json env) (su_read env ?pins) (rf_disk rs) ?pins (su_mono env) = Ok pinned"
    using assms e rs by (auto simp: serve_start_def Let_def split: sum.splits)
  obtain receipts m where m: "init_mitm env (rf_disk rs) a = (d', Ok m)" and
    st: "pw_pinned (st_world st) = pinned" "st_policy st = rf_engine rs" "st_mitm st = (m \<noteq> None)" "mw_disk (pw_mitm (st_world st)) = d'"
      "mw_engine (pw_mitm (st_world st)) = (case m of Some (m, _) \<Rightarrow> m | None \<Rightarrow> mitm_engine_new False)"
      "mw_tally (pw_mitm (st_world st)) = \<lparr>t_metrics = rf_metrics rs, t_receipts = receipts\<rparr>"
    using assms e rs p by (auto simp: serve_start_def Let_def start_bind_Started_iff split: sum.splits prod.splits option.splits)
  have "\<exists>logging. mw_engine (pw_mitm (st_world st)) = mitm_engine_new logging"
    using init_mitm_ok [OF m] st(5) by (cases m) auto
  moreover have "m_connection_total (rf_metrics rs) = 0" "\<not> pe_fl_poisoned engine"
    using init_filter_lists_ok [OF rs] init_policy_ok [OF e] by (auto simp: metrics_default_def)
  ultimately show ?thesis
    using pinned_load_ok [OF p] init_policy_ok [OF e] init_filter_lists_ok [OF rs] init_mitm_ok [OF m] st
    by (auto simp: start_ok_def)
qed

lemma main_serving:
  assumes "main_start env d a = (d', Started (Serving st))" "effective_args env d a = Ok a'"
  shows "serve_start env d a' = (d', Started st)"
  using assms by (auto simp: main_start_def start_bind_Started_iff split: sum.splits if_splits prod.splits option.splits)

text \<open>C32: a start either ends with an error or in a state in which the theorems about connections apply: the
  pins are well formed, unpoisoned and read from the configured file, the grace period begins now, the
  certificate cache is empty, the policy is well formed when it comes from a file, interception is on exactly
  when it is configured (by the configuration file when there is one), and no connection is counted. The
  dump modes need a receipts file, exclude each other, print the report of that file, and never change the disk.\<close>
theorem start_establishes_invariants:
  assumes "main_start env d a = (d', Started out)" "effective_args env d a = Ok a'"
  shows "(case out of
       Serving s \<Rightarrow> \<not> ar_dump_receipts a' \<and> \<not> ar_dump_compliance a' \<and> start_ok env a' d' s
     | Printed report \<Rightarrow> d' = d \<and> ar_dump_receipts a' \<noteq> ar_dump_compliance a' \<and>
         (\<exists>mode p. select_mode a' = Ok mode \<and> mode \<noteq> Serve \<and> ar_receipts_file a' = Some p \<and> dump_report env d mode = Ok report))"
proof -
  obtain mode where m: "select_mode a' = Ok mode" using assms by (auto simp: main_start_def split: sum.splits)
  show ?thesis
  proof (cases "mode = Serve")
    case True
    then obtain s where s: "serve_start env d a' = (d', Started s)" "out = Serving s"
      using assms m by (auto simp: main_start_def start_bind_Started_iff split: prod.splits)
    moreover have "\<not> ar_dump_receipts a' \<and> \<not> ar_dump_compliance a'"
      using m True by (auto simp: select_mode_def and_then_Inr_iff Let_def split: if_splits)
    ultimately show ?thesis using serve_start_ok [OF s(1)] by simp
  next
    case False
    then obtain report where "d' = d" "out = Printed report" "dump_report env d mode = Ok report"
      using assms m by (auto simp: main_start_def start_bind_Started_iff start_try_Started_iff split: option.splits)
    moreover have "ar_receipts_file a' \<noteq> None \<and> ar_dump_receipts a' \<noteq> ar_dump_compliance a'"
      using m False by (auto simp: select_mode_def and_then_Inr_iff ok_or_def Let_def split: if_splits option.splits)
    ultimately show ?thesis using False m by auto
  qed
qed

section \<open>Properties of the services\<close>

lemma doh_stats_never_missing: "start_services env d a receipts \<noteq> Panicked m"
proof
  assume "start_services env d a receipts = Panicked m"
  then show False
    by (auto simp: start_services_def dns_filter_service_def doh_server_service_def first_addr_def open_doh_file_def Let_def
        dest!: start_bind_Panicked split: if_splits option.splits prod.splits list.splits)
qed

text \<open>What runs beside the proxy, in terms of the arguments.\<close>

definition services_ok :: "'v startup_env \<Rightarrow> args \<Rightarrow> services \<Rightarrow> bool" where
  "services_ok env a s \<longleftrightarrow>
     (case sv_dashboard s of None \<Rightarrow> ar_dashboard_port a = None
      | Some (addr, opts) \<Rightarrow> (\<exists>port. ar_dashboard_port a = Some port \<and> addr = SocketV4 ''127.0.0.1'' (unat port)) \<and> do_doh_stats opts = sv_doh_stats s) \<and>
     (case sv_dns_filter s of None \<Rightarrow> \<not> ar_enable_dns_filter a
      | Some c \<Rightarrow> ar_enable_dns_filter a \<and> df_upstream_doh c = ar_dns_upstream_doh a \<and>
          (\<exists>rest. su_resolve env (host_port (ar_dns_listen_host a) (ar_dns_listen_port a)) = Ok (df_listen_addr c # rest)) \<and>
          (\<exists>rest. su_resolve env (ar_dns_upstream a) = Ok (df_upstream_addr c # rest))) \<and>
     (case sv_doh_server s of None \<Rightarrow> ar_doh_server_port a = None \<and> sv_doh_stats s = None
      | Some c \<Rightarrow> (\<exists>port. ar_doh_server_port a = Some port \<and> dc_addr c = SocketV4 ''0.0.0.0'' (unat port)) \<and> sv_doh_stats s = Some (dc_stats c) \<and>
          dc_upstream_doh c = ar_dns_upstream_doh a \<and> (\<exists>rest. su_resolve env (ar_dns_upstream a) = Ok (dc_upstream_addr c # rest)))"

lemma first_addr_Started: "first_addr env target msg = Started addr \<longleftrightarrow> (\<exists>rest. su_resolve env target = Ok (addr # rest))"
  by (cases "su_resolve env target") (auto simp: first_addr_def split: list.splits)

lemma doh_server_service_ok:
  assumes "doh_server_service env d a stats = Started doh"
  shows "case doh of None \<Rightarrow> ar_doh_server_port a = None
      | Some c \<Rightarrow> (\<exists>port. ar_doh_server_port a = Some port \<and> dc_addr c = SocketV4 ''0.0.0.0'' (unat port)) \<and> stats = Some (dc_stats c) \<and>
          dc_upstream_doh c = ar_dns_upstream_doh a \<and> (\<exists>rest. su_resolve env (ar_dns_upstream a) = Ok (dc_upstream_addr c # rest))"
proof (cases "ar_doh_server_port a")
  case (Some port)
  then obtain certs key s upstream where "doh = Some \<lparr>dc_addr = SocketV4 ''0.0.0.0'' (unat port), dc_cert = certs, dc_key = key,
      dc_upstream_addr = upstream, dc_upstream_doh = ar_dns_upstream_doh a, dc_stats = s\<rparr>" "stats = Some s"
    "first_addr env (ar_dns_upstream a) ''Could not resolve DNS upstream address for DoH server'' = Started upstream"
    using assms by (auto simp: doh_server_service_def start_bind_Started_iff case_prod_unfold Let_def split: option.splits)
  then show ?thesis using Some by (auto simp: first_addr_Started)
qed (use assms in \<open>simp add: doh_server_service_def\<close>)

lemma start_services_ok:
  assumes "start_services env d a receipts = Started s"
  shows "services_ok env a s \<and> sv_metrics_log s = (0 < ar_metrics_log_interval_secs a) \<and>
    sv_receipts_flush s = (receipts \<and> 0 < ar_receipts_flush_interval_secs a)"
proof -
  let ?stats = "if ar_doh_server_port a \<noteq> None then Some doh_stats_default else None"
  obtain dns doh where p: "dns_filter_service env a = Started dns" "doh_server_service env d a ?stats = Started doh"
    and s: "s = \<lparr>sv_metrics_log = (ar_metrics_log_interval_secs a > 0), sv_receipts_flush = (receipts \<and> ar_receipts_flush_interval_secs a > 0),
       sv_doh_stats = ?stats, sv_dashboard = dashboard_service a ?stats, sv_dns_filter = dns, sv_doh_server = doh\<rparr>"
    using assms by (auto simp: start_services_def start_bind_Started_iff Let_def)
  have "case dns of None \<Rightarrow> \<not> ar_enable_dns_filter a
      | Some c \<Rightarrow> ar_enable_dns_filter a \<and> df_upstream_doh c = ar_dns_upstream_doh a \<and>
          (\<exists>rest. su_resolve env (host_port (ar_dns_listen_host a) (ar_dns_listen_port a)) = Ok (df_listen_addr c # rest)) \<and>
          (\<exists>rest. su_resolve env (ar_dns_upstream a) = Ok (df_upstream_addr c # rest))"
    using p(1) by (auto simp: dns_filter_service_def start_bind_Started_iff first_addr_Started split: if_splits)
  moreover have "case doh of None \<Rightarrow> ar_doh_server_port a = None
      | Some c \<Rightarrow> (\<exists>port. ar_doh_server_port a = Some port \<and> dc_addr c = SocketV4 ''0.0.0.0'' (unat port)) \<and> ?stats = Some (dc_stats c) \<and>
          dc_upstream_doh c = ar_dns_upstream_doh a \<and> (\<exists>rest. su_resolve env (ar_dns_upstream a) = Ok (dc_upstream_addr c # rest))"
    using doh_server_service_ok [OF p(2)] .
  ultimately show ?thesis by (auto simp: s services_ok_def dashboard_service_def split: option.splits)
qed

lemma init_filter_lists_refresh:
  "snd (init_filter_lists env a sources s) \<longleftrightarrow> sources \<noteq> [] \<and> 0 < ar_filter_list_refresh_secs a \<and>
    (\<exists>d1 rules. refresh_filter_lists (su_css_ok env) (su_uri env) (map (\<lambda>x. (x, su_source env x)) sources) (rf_disk s) (ar_filter_list_cache_dir a) = (d1, Ok rules))"
  by (auto simp: init_filter_lists_def Let_def split: prod.splits sum.splits)

lemma serve_start_services:
  assumes "snd (serve_start env d a) = Started st"
  shows "\<exists>d1 engine. first_addr env (host_port (ar_listen_host a) (ar_listen_port a)) ''Could not resolve listen address'' = Started (st_listener st) \<and>
    su_bind env (st_listener st) = None \<and> start_services env d1 a (ar_receipts_file a \<noteq> None) = Started (st_services st) \<and>
    st_reload_task st = (ar_policy_config_file a \<noteq> None \<and> 0 < ar_policy_reload_interval_secs a) \<and>
    st_refresh_task st = snd (init_filter_lists env a (configured_sources env d a) \<lparr>rf_engine = engine, rf_metrics = metrics_default, rf_disk = d\<rparr>)"
proof -
  obtain engine where e: "init_policy env d a = Ok engine" using assms by (cases "init_policy env d a") (auto simp: serve_start_def)
  let ?s = "\<lparr>rf_engine = engine, rf_metrics = metrics_default, rf_disk = d\<rparr>"
  obtain rs refresh where rs: "init_filter_lists env a (configured_sources env d a) ?s = (rs, refresh)" by fastforce
  have "\<exists>d1. first_addr env (host_port (ar_listen_host a) (ar_listen_port a)) ''Could not resolve listen address'' = Started (st_listener st) \<and>
    su_bind env (st_listener st) = None \<and> start_services env d1 a (ar_receipts_file a \<noteq> None) = Started (st_services st) \<and>
    st_reload_task st = (ar_policy_config_file a \<noteq> None \<and> 0 < ar_policy_reload_interval_secs a) \<and> st_refresh_task st = refresh"
    using assms unfolding serve_start_def e
    by (auto simp: rs Let_def start_bind_Started_iff and_then_Inr_iff split: sum.splits prod.splits option.splits)
  then show ?thesis using rs by (metis snd_conv)
qed

text \<open>C35: the services match the configuration. The only panic of a start is \<open>print!\<close> on a standard output that
  cannot be written, in a dump mode. When the engine serves, the dashboard runs
  exactly when it has a port and then only on the loopback address, the DNS filter runs exactly when it is enabled, on the
  first addresses that its names resolve to, the DoH server runs exactly when it has a port, and the dashboard shows the
  statistics that the DoH server counts; the proxy listens on the first address of its name; the metrics log, the receipts
  flush and the policy reload run exactly when their interval is positive (and there is a receipts file, a policy file);
  and the filter lists are refreshed exactly when there are sources, the interval is positive, and their first load
  succeeded: after a failed first load they are not refreshed, whatever is configured.\<close>
theorem services_match_configuration:
  assumes "effective_args env d a = Ok a'"
  shows "(snd (main_start env d a) = Panicked m \<longrightarrow> (\<exists>mode e. select_mode a' = Ok mode \<and> mode \<noteq> Serve \<and> su_stdout env = Some e)) \<and>
    (snd (main_start env d a) = Started (Serving st) \<longrightarrow>
       services_ok env a' (st_services st) \<and> su_bind env (st_listener st) = None \<and>
       (\<exists>rest. su_resolve env (host_port (ar_listen_host a') (ar_listen_port a')) = Ok (st_listener st # rest)) \<and>
       sv_metrics_log (st_services st) = (0 < ar_metrics_log_interval_secs a') \<and>
       sv_receipts_flush (st_services st) = (ar_receipts_file a' \<noteq> None \<and> 0 < ar_receipts_flush_interval_secs a') \<and>
       st_reload_task st = (ar_policy_config_file a' \<noteq> None \<and> 0 < ar_policy_reload_interval_secs a') \<and>
       st_refresh_task st = (configured_sources env d a' \<noteq> [] \<and> 0 < ar_filter_list_refresh_secs a' \<and>
         (\<exists>d1 rules. refresh_filter_lists (su_css_ok env) (su_uri env) (map (\<lambda>x. (x, su_source env x)) (configured_sources env d a')) d
            (ar_filter_list_cache_dir a') = (d1, Ok rules))))"
proof (intro conjI impI)
  assume "snd (main_start env d a) = Panicked m"
  moreover have "snd (serve_start env d a') \<noteq> Panicked m"
    by (auto simp: serve_start_def first_addr_def doh_stats_never_missing Let_def dest!: start_bind_Panicked split: sum.splits prod.splits option.splits list.splits)
  ultimately show "\<exists>mode e. select_mode a' = Ok mode \<and> mode \<noteq> Serve \<and> su_stdout env = Some e"
    using assms by (auto simp: main_start_def case_prod_unfold Let_def dest!: start_bind_Panicked split: sum.splits if_splits option.splits)
next
  assume "snd (main_start env d a) = Started (Serving st)"
  then have s: "snd (serve_start env d a') = Started st"
    using main_serving [of env d a "fst (main_start env d a)" st a'] assms by (simp add: prod_eq_iff)
  from serve_start_services [OF this] obtain d1 engine where
    l: "first_addr env (host_port (ar_listen_host a') (ar_listen_port a')) ''Could not resolve listen address'' = Started (st_listener st)" and
    b: "su_bind env (st_listener st) = None" and
    sv: "start_services env d1 a' (ar_receipts_file a' \<noteq> None) = Started (st_services st)" and
    t: "st_reload_task st = (ar_policy_config_file a' \<noteq> None \<and> 0 < ar_policy_reload_interval_secs a')" and
    f: "st_refresh_task st = snd (init_filter_lists env a' (configured_sources env d a') \<lparr>rf_engine = engine, rf_metrics = metrics_default, rf_disk = d\<rparr>)" by blast
  from start_services_ok [OF sv] show "services_ok env a' (st_services st)"
    "sv_metrics_log (st_services st) = (0 < ar_metrics_log_interval_secs a')"
    "sv_receipts_flush (st_services st) = (ar_receipts_file a' \<noteq> None \<and> 0 < ar_receipts_flush_interval_secs a')" by auto
  show "su_bind env (st_listener st) = None" by (rule b)
  show "\<exists>rest. su_resolve env (host_port (ar_listen_host a') (ar_listen_port a')) = Ok (st_listener st # rest)"
    using l by (simp add: first_addr_Started)
  show "st_reload_task st = (ar_policy_config_file a' \<noteq> None \<and> 0 < ar_policy_reload_interval_secs a')" by (rule t)
  show "st_refresh_task st = (configured_sources env d a' \<noteq> [] \<and> 0 < ar_filter_list_refresh_secs a' \<and>
      (\<exists>d1 rules. refresh_filter_lists (su_css_ok env) (su_uri env) (map (\<lambda>x. (x, su_source env x)) (configured_sources env d a')) d
         (ar_filter_list_cache_dir a') = (d1, Ok rules)))"
    unfolding f init_filter_lists_refresh by simp
qed

section \<open>Properties of the reload task\<close>

lemma reload_tick_fails:
  assumes "fst t = Err e1 \<or> load_policy_config_from_file J css (fst (snd t)) (snd (snd t)) path mode = Err e2"
  shows "reload_tick J css path mode t s = s"
  using assms by (cases t) (auto simp: reload_tick_def replace_from_file_def split: sum.splits)

lemma reload_ticks_stable:
  assumes "\<forall>t \<in> set ticks. fst t = Ok (Some m)" "rd_last_mtime s = Some m"
  shows "fold (reload_tick J css path mode) ticks s = s"
  using assms by (induction ticks) (auto simp: reload_tick_def split: prod.splits)

text \<open>C24: the policy follows its file. However many reload ticks fail before (the file missing, unreadable, or
  not a valid policy), the policy in force stays; and as soon as the file is valid with a modification
  time that has not been loaded before, the next tick puts exactly its configuration in force, with the
  filter-list rules kept, and further ticks on the unchanged file change nothing.\<close>
theorem policy_follows_file:
  assumes "\<forall>t \<in> set failing. (\<exists>e. fst t = Err e) \<or> (\<exists>e. load_policy_config_from_file J css (fst (snd t)) (snd (snd t)) path mode = Err e)"
    and "good \<noteq> []" "\<forall>t \<in> set good. fst t = Ok (Some m) \<and> load_policy_config_from_file J css (fst (snd t)) (snd (snd t)) path mode = Ok cfg"
    and "rd_last_mtime s \<noteq> Some m" "\<not> pe_cfg_poisoned (rd_engine s)"
  shows "fold (reload_tick J css path mode) failing s = s \<and>
    fold (reload_tick J css path mode) (failing @ good) s = \<lparr>rd_last_mtime = Some m, rd_engine = (rd_engine s)\<lparr>pe_cfg := cfg\<rparr>\<rparr>"
proof -
  have f: "fold (reload_tick J css path mode) failing s = s"
    using assms(1)
  proof (induction failing)
    case (Cons t ts)
    then have "reload_tick J css path mode t s = s" using reload_tick_fails [of t _ J css path mode] by auto
    with Cons show ?case by simp
  qed simp
  obtain t ts where good: "good = t # ts" using assms(2) by (cases good) auto
  have "reload_tick J css path mode t s = \<lparr>rd_last_mtime = Some m, rd_engine = (rd_engine s)\<lparr>pe_cfg := cfg\<rparr>\<rparr>"
    using assms(3-5) good by (cases t) (auto simp: reload_tick_def replace_from_file_def)
  moreover have "fold (reload_tick J css path mode) ts \<lparr>rd_last_mtime = Some m, rd_engine = e\<rparr> = \<lparr>rd_last_mtime = Some m, rd_engine = e\<rparr>" for e
    by (rule reload_ticks_stable [of _ m]) (use assms(3) good in auto)
  ultimately show ?thesis using f good by simp
qed

text \<open>An edit that keeps the modification time is not seen.\<close>

lemma same_mtime_not_reloaded: "rd_last_mtime s = Some m \<Longrightarrow> reload_tick J css path mode (Ok (Some m), o_read, d) s = s"
  by (simp add: reload_tick_def)

text \<open>When the first load of the filter lists fails, no refresh task is started: the rules stay empty until the
  engine is started again, whatever refresh interval is configured.\<close>

lemma failed_first_load_not_refreshed:
  assumes "refresh_filter_lists (su_css_ok env) (su_uri env) (map (\<lambda>x. (x, su_source env x)) sources) (rf_disk s) (ar_filter_list_cache_dir a) = (d, Err e)"
  shows "\<not> snd (init_filter_lists env a sources s) \<and> rf_engine (fst (init_filter_lists env a sources s)) = rf_engine s"
  using assms by (simp add: init_filter_lists_def Let_def)

section \<open>Witnesses\<close>

theorem policy_follows_file_witness:
  "pe_cfg (rd_engine (fold (reload_tick (jdoc wit_policy) (\<lambda>s. True) wit_policy_path (Some ReportOnly))
      [(Err (IoError NotFound ''gone''), None, Map.empty), (Ok (Some 7), None, [wit_policy_path \<mapsto> ''{}''])]
      \<lparr>rd_last_mtime = None, rd_engine = policy_engine_new Enforce\<rparr>)) = wit_config\<lparr>pc_mode := ReportOnly\<rparr>"
proof -
  let ?s = "\<lparr>rd_last_mtime = None, rd_engine = policy_engine_new Enforce\<rparr>"
  let ?f = "[(Err (IoError NotFound ''gone''), None, Map.empty)]" and ?g = "[(Ok (Some 7), None, [wit_policy_path \<mapsto> ''{}''])]"
  have "fold (reload_tick (jdoc wit_policy) (\<lambda>s. True) wit_policy_path (Some ReportOnly)) (?f @ ?g) ?s =
      \<lparr>rd_last_mtime = Some 7, rd_engine = (rd_engine ?s)\<lparr>pe_cfg := wit_config\<lparr>pc_mode := ReportOnly\<rparr>\<rparr>\<rparr>"
    by (rule policy_follows_file [THEN conjunct2]) (use wit_policy_loads in \<open>simp_all add: policy_engine_new_def\<close>)
  then show ?thesis by simp
qed

definition wit_startup :: "jval startup_env" where
  "wit_startup = \<lparr>su_json = jdoc JNull, su_css_ok = \<lambda>s. True, su_path = \<lambda>p. \<lparr>p_dir = [], p_stem = p, p_ext = None\<rparr>, su_read = \<lambda>p. None,
     su_uri = \<lambda>u. Inl [], su_source = \<lambda>s. wit_env False, su_mono = 5, su_cert_log_open = None, su_ca_lib = wit_ca, su_ca_fs = wit_ca_fs,
     su_tls_config = None, su_export_mkdir = None, su_export_write = None, su_show_mitm_error = \<lambda>e. [],
     su_resolve = \<lambda>t. Ok [SocketV4 t 80], su_bind = \<lambda>a. None, su_pem_certs = \<lambda>c. Ok [c], su_pem_key = \<lambda>c. Ok (Some c),
     su_printable = \<lambda>n. True, su_display = p_stem, su_stdout = None\<rparr>"

lemma wit_serving:
  assumes "a = args_default\<lparr>ar_enable_dns_filter := True, ar_doh_server_port := Some 8443, ar_dashboard_port := Some 9000\<rparr>"
    and "d = [su_path wit_startup ''mitm_ca_cert.pem'' \<mapsto> ''cert'', su_path wit_startup ''mitm_ca_key.pem'' \<mapsto> ''key'']"
  shows "effective_args wit_startup d a = Ok a" "\<exists>st. main_start wit_startup d a = (d, Started (Serving st))"
proof -
  have f: "init_policy wit_startup d a = Ok (policy_engine_new Disabled)" "configured_sources wit_startup d a = []"
    by (simp_all add: assms(1) init_policy_def configured_sources_def args_default_def)
  show m: "effective_args wit_startup d a = Ok a" by (simp add: assms(1) effective_args_def args_default_def)
  have s: "select_mode a = Ok Serve" by (simp add: assms(1) select_mode_def args_default_def)
  have off: "\<not> ar_enable_mitm a" "ar_receipts_file a = None" by (simp_all add: assms(1) args_default_def)
  have env: "su_resolve wit_startup = (\<lambda>t. Ok [SocketV4 t 80])" "su_bind wit_startup = (\<lambda>a. None)" "su_read wit_startup = (\<lambda>p. None)"
    "su_pem_certs wit_startup = (\<lambda>c. Ok [c])" "su_pem_key wit_startup = (\<lambda>c. Ok (Some c))"
    by (simp_all add: wit_startup_def)
  have pins: "d (su_path wit_startup (ar_pinned_hosts_file a)) = None" by (simp add: assms args_default_def wit_startup_def)
  have files: "d (su_path wit_startup (fst (doh_server_files a))) = Some ''cert''" "d (su_path wit_startup (snd (doh_server_files a))) = Some ''key''"
    by (simp_all add: assms doh_server_files_def args_default_def wit_startup_def)
  have addr: "first_addr wit_startup s m = Started (SocketV4 s 80)" for s m by (simp add: first_addr_def env)
  have "\<exists>doh. doh_server_service wit_startup d a (Some s) = Started doh" for s
    by (cases "ar_doh_server_port a") (simp_all add: doh_server_service_def open_doh_file_def case_prod_unfold files env addr Let_def)
  then obtain doh where doh: "doh_server_service wit_startup d a (Some doh_stats_default) = Started doh" by blast
  have on: "ar_enable_dns_filter a" "ar_doh_server_port a \<noteq> None" by (simp_all add: assms(1))
  have "\<exists>sv. start_services wit_startup d a r = Started sv" for r
    by (simp add: start_services_def dns_filter_service_def addr doh on Let_def)
  then have "\<exists>st. serve_start wit_startup d a = (d, Started st)"
    unfolding serve_start_def f sum.case
    by (simp add: init_filter_lists_def pinned_load_def load_pinned_hosts_def pins init_mitm_def off addr env Let_def) (metis start_bind_simps(1))
  then show "\<exists>st. main_start wit_startup d a = (d, Started (Serving st))" using m s by (auto simp: main_start_def)
qed

theorem start_establishes_invariants_witness:
  "\<exists>d a st. main_start wit_startup d a = (d, Started (Serving st)) \<and> start_ok wit_startup a d st \<and> \<not> st_mitm st"
proof -
  obtain d a st where m: "effective_args wit_startup d a = Ok a" and s: "main_start wit_startup d a = (d, Started (Serving st))" and off: "\<not> ar_enable_mitm a"
    using wit_serving [OF refl refl] by (auto simp: args_default_def)
  from start_establishes_invariants [OF s m] have "start_ok wit_startup a d st" by simp
  with s off show ?thesis by (auto simp: start_ok_def)
qed

theorem services_match_configuration_witness:
  "\<exists>d a st c. main_start wit_startup d a = (d, Started (Serving st)) \<and> ar_dashboard_port a = Some 9000 \<and>
     sv_doh_server (st_services st) = Some c \<and> sv_doh_stats (st_services st) = Some (dc_stats c) \<and> dc_addr c = SocketV4 ''0.0.0.0'' 8443"
proof -
  obtain d a st where m: "effective_args wit_startup d a = Ok a" and s: "main_start wit_startup d a = (d, Started (Serving st))" and
    p: "ar_doh_server_port a = Some 8443" "ar_dashboard_port a = Some 9000"
    using wit_serving [OF refl refl] by auto
  from services_match_configuration [OF m, of "[]" st] have "services_ok wit_startup a (st_services st)" using s by simp
  then obtain c where "sv_doh_server (st_services st) = Some c" "sv_doh_stats (st_services st) = Some (dc_stats c)" "dc_addr c = SocketV4 ''0.0.0.0'' 8443"
    using p by (auto simp: services_ok_def split: option.splits)
  with s p show ?thesis by blast
qed

end
