(* ===== verification/Dashboard.thy ===== *)
theory Dashboard
  imports Dns_Filter Host_Store Cert_Pin
begin

text \<open>
  \<^verbatim>\<open>src/dashboard.rs\<close>: the local HTTP interface that shows the counters, the receipts and the status of
  the engine and can reset the pinned hosts. A request handler takes the shared state and gives
  the response and the new state. The HTTP server (crate \<^verbatim>\<open>hyper\<close>) is the caller, the page
  \<open>DASHBOARD_HTML\<close> and the printing of JSON, paths and errors are fields of the environment. The
  JSON values that the code builds are values of \<^typ>\<open>jval\<close>, objects with their entries in source order.
\<close>

record dash_env =
  dx_now :: int
  dx_mono :: nat
  dx_fs :: fs_outcome
  dx_read_ca :: "io_error option"
  dx_html :: bytes
  dx_to_string :: "jval \<Rightarrow> string + bytes"
  dx_show_path :: "path \<Rightarrow> bytes"
  dx_show_error :: "io_error \<Rightarrow> bytes"
  dx_json :: "jval json_api"

record dashboard_state =
  dz_metrics :: metrics
  dz_doh_stats :: "doh_stats option"
  dz_policy_engine :: policy_engine
  dz_receipts :: "receipt_store option"
  dz_pinned_hosts :: pinned_hosts
  dz_ca_export :: "path option"
  dz_grace_secs :: u64
  dz_admin_token :: bytes
  dz_start_time :: int
  dz_disk :: disk

record dash_request =
  rq_verb :: bytes
  rq_path :: bytes
  rq_headers :: "(bytes \<times> bytes) list"

record dash_response =
  rp_status :: nat
  rp_headers :: "(bytes \<times> bytes) list"
  rp_body :: bytes

definition make_admin_token :: "bytes option \<Rightarrow> int \<Rightarrow> bytes" where
  "make_admin_token rng now =
    (case rng of
       None \<Rightarrow> ''insecure-'' @ show_nat (case duration_since now 0 of Some d \<Rightarrow> nat d | None \<Rightarrow> 0)
     | Some bytes \<Rightarrow> concat (map hex2 bytes))"

definition json_response_with_status :: "dash_env \<Rightarrow> nat \<Rightarrow> jval \<Rightarrow> dash_response" where
  "json_response_with_status x status value =
    (let body = (case dx_to_string x value of Inr t \<Rightarrow> t | Inl _ \<Rightarrow> ''{}'')
     in \<lparr>rp_status = status, rp_headers = [(''Content-Type'', ''application/json''), (''Cache-Control'', ''no-cache'')], rp_body = body\<rparr>)"

definition json_response :: "dash_env \<Rightarrow> jval \<Rightarrow> dash_response" where
  "json_response x value = json_response_with_status x 200 value"

definition DOH_TOP_CLIENTS_DEFAULT :: nat where "DOH_TOP_CLIENTS_DEFAULT = 20"

text \<open>The snapshot drops stale clients from the statistics.\<close>

definition doh_of :: "dash_env \<Rightarrow> dashboard_state \<Rightarrow> doh_stats_snapshot option \<times> dashboard_state" where
  "doh_of x s = (case dz_doh_stats s of None \<Rightarrow> (None, s)
     | Some stats \<Rightarrow> let (snap, stats) = doh_snapshot (dx_now x) DOH_TOP_CLIENTS_DEFAULT stats in (Some snap, s\<lparr>dz_doh_stats := Some stats\<rparr>))"

definition doh_counts :: "doh_stats_snapshot option \<Rightarrow> (bytes \<times> jval) list" where
  "doh_counts doh =
    [(''doh_query_total'', JNum (case doh of Some d \<Rightarrow> ss_query_total d | None \<Rightarrow> 0)),
     (''doh_unique_client_total'', JNum (case doh of Some d \<Rightarrow> ss_unique_client_total d | None \<Rightarrow> 0))]"

definition metrics_entries :: "metrics_snapshot \<Rightarrow> (bytes \<times> jval) list" where
  "metrics_entries s =
     [(''connection_total'', JNum (ms_connection_total s)), (''passthrough_tunnel_total'', JNum (ms_passthrough_tunnel_total s)),
      (''mitm_attempt_total'', JNum (ms_mitm_attempt_total s)), (''mitm_success_total'', JNum (ms_mitm_success_total s)),
      (''mitm_failure_total'', JNum (ms_mitm_failure_total s)), (''mitm_client_tls_reject_total'', JNum (ms_mitm_client_tls_reject_total s)),
      (''host_auto_pinned_total'', JNum (ms_host_auto_pinned_total s)), (''dns_query_total'', JNum (ms_dns_query_total s)),
      (''dns_blocked_total'', JNum (ms_dns_blocked_total s)), (''dns_report_only_total'', JNum (ms_dns_report_only_total s)),
      (''body_rewrite_total'', JNum (ms_body_rewrite_total s)), (''body_rewrite_skipped_total'', JNum (ms_body_rewrite_skipped_total s)),
      (''filter_list_refresh_total'', JNum (ms_filter_list_refresh_total s)), (''filter_list_refresh_failed_total'', JNum (ms_filter_list_refresh_failed_total s)),
      (''filter_list_rules_active'', JNum (ms_filter_list_rules_active s)), (''dns_cname_uncloaked_total'', JNum (ms_dns_cname_uncloaked_total s)),
      (''consent_enforcement_blocked_total'', JNum (ms_consent_enforcement_blocked_total s)), (''websocket_blocked_total'', JNum (ms_websocket_blocked_total s)),
      (''referer_spoofed_total'', JNum (ms_referer_spoofed_total s)), (''cert_pin_violation_total'', JNum (ms_cert_pin_violation_total s)),
      (''query_params_stripped_total'', JNum (ms_query_params_stripped_total s)), (''cache_headers_stripped_total'', JNum (ms_cache_headers_stripped_total s))]"

definition serve_metrics :: "dash_env \<Rightarrow> dashboard_state \<Rightarrow> dash_response \<times> dashboard_state" where
  "serve_metrics x s =
    (let (doh, s') = doh_of x s in (json_response x (JObj (metrics_entries (snapshot (dz_metrics s)) @ doh_counts doh)), s'))"

definition client_json :: "doh_client_snapshot \<Rightarrow> jval" where
  "client_json c = JObj [(''client_ip'', JStr (cs_client_ip c)), (''query_total'', JNum (cs_query_total c)),
     (''last_seen_unix'', JNum (cs_last_seen_unix c))]"

definition serve_doh :: "dash_env \<Rightarrow> dashboard_state \<Rightarrow> dash_response \<times> dashboard_state" where
  "serve_doh x s =
    (let (doh, s') = doh_of x s in
     case doh of
       Some snap \<Rightarrow> (json_response x (JObj ([(''enabled'', JBool True)] @ doh_counts doh @ [(''top_clients'', JArr (map client_json (ss_top_clients snap)))])), s')
     | None \<Rightarrow> (json_response x (JObj ([(''enabled'', JBool False)] @ doh_counts None @ [(''top_clients'', JArr [])])), s'))"

definition serve_receipts :: "dash_env \<Rightarrow> dashboard_state \<Rightarrow> dash_response" where
  "serve_receipts x s =
    json_response x (JObj [(''hosts'', case dz_receipts s of Some r \<Rightarrow> hosts_as_json (dx_json x) r | None \<Rightarrow> JObj [])])"

fun mode_debug :: "policy_mode \<Rightarrow> bytes" where
  "mode_debug Disabled = ''Disabled''"
| "mode_debug ReportOnly = ''ReportOnly''"
| "mode_debug Enforce = ''Enforce''"

definition as_secs :: "nat \<Rightarrow> u64" where
  "as_secs d = of_nat (d div 1000000000)"

definition status_entries :: "dash_env \<Rightarrow> dashboard_state \<Rightarrow> doh_stats_snapshot option \<Rightarrow> (bytes \<times> jval) list" where
  "status_entries x s doh =
    (let uptime_secs = (case duration_since (dx_now x) (dz_start_time s) of Some d \<Rightarrow> as_secs (nat d) | None \<Rightarrow> 0);
         summary = policy_summary (dz_policy_engine s);
         pinned_hosts_count = (case pinned_len (dz_pinned_hosts s) of Inr n \<Rightarrow> n | Inl _ \<Rightarrow> 0);
         grace_active = in_grace_period (dz_pinned_hosts s) (dx_mono x) (unat (dz_grace_secs s) * 1000000000);
         grace_elapsed_secs = as_secs (pinned_age (dz_pinned_hosts s) (dx_mono x));
         grace_remaining_secs = sat_sub (dz_grace_secs s) grace_elapsed_secs;
         (ca_export_path, ca_export_exists) = (case dz_ca_export s of Some p \<Rightarrow> (JStr (dx_show_path x p), dz_disk s p \<noteq> None) | None \<Rightarrow> (JNull, False))
     in [(''uptime_secs'', JNum uptime_secs), (''policy_mode'', JStr (mode_debug (sm_mode summary))), (''policy_version'', JNum (sm_version summary)),
         (''tracker_rule_enabled'', JBool (sm_tracker_rule_enabled summary)), (''tracker_domain_count'', JNum (of_nat (sm_tracker_domain_count summary))),
         (''dns_block_enabled'', JBool (sm_dns_block_enabled summary)), (''dns_block_domain_count'', JNum (of_nat (sm_dns_block_domain_count summary))),
         (''consent_enforcement_enabled'', JBool (sm_consent_enforcement_enabled summary)),
         (''consent_default_consent'', JStr (sm_consent_default_consent summary)),
         (''consent_analytics_domain_count'', JNum (of_nat (sm_consent_analytics_domain_count summary))),
         (''consent_user_profile_count'', JNum (of_nat (sm_consent_user_profile_count summary))),
         (''pinned_hosts_file'', JStr (dx_show_path x (ph_path (dz_pinned_hosts s)))), (''pinned_hosts_count'', JNum (of_nat pinned_hosts_count)),
         (''auto_pin_grace_period_secs'', JNum (dz_grace_secs s)), (''auto_pin_grace_active'', JBool grace_active),
         (''auto_pin_grace_elapsed_secs'', JNum grace_elapsed_secs), (''auto_pin_grace_remaining_secs'', JNum grace_remaining_secs),
         (''mitm_ca_export_cert_file'', ca_export_path), (''mitm_ca_export_cert_exists'', JBool ca_export_exists),
         (''doh_server_enabled'', JBool (dz_doh_stats s \<noteq> None))] @ doh_counts doh @ [(''admin_token'', JStr (dz_admin_token s))])"

definition serve_status :: "dash_env \<Rightarrow> dashboard_state \<Rightarrow> dash_response \<times> dashboard_state" where
  "serve_status x s = (let (doh, s') = doh_of x s in (json_response x (JObj (status_entries x s doh)), s'))"

definition serve_ca_cert_pem :: "dash_env \<Rightarrow> dashboard_state \<Rightarrow> dash_response" where
  "serve_ca_cert_pem x s =
    (case dz_ca_export s of
       None \<Rightarrow> json_response_with_status x 404 (JObj [(''error'', JStr ''ca_export_not_configured'')])
     | Some path \<Rightarrow>
        (case (case dx_read_ca x of Some e \<Rightarrow> Err e | None \<Rightarrow> (case dz_disk s path of Some b \<Rightarrow> Ok b | None \<Rightarrow> Err (IoError NotFound ''not found''))) of
           Inl e \<Rightarrow> json_response_with_status x 404
             (JObj [(''error'', JStr ''ca_export_missing''), (''path'', JStr (dx_show_path x path)), (''detail'', JStr (dx_show_error x e))])
         | Inr bytes \<Rightarrow>
            \<lparr>rp_status = 200,
             rp_headers = [(''Content-Type'', ''application/x-x509-ca-cert''), (''Cache-Control'', ''no-cache''),
               (''Content-Disposition'', ''attachment; filename='' @ [CHR 0x22] @ ''privacy-engine-ca.crt'' @ [CHR 0x22])],
             rp_body = bytes\<rparr>))"

text \<open>\<open>HeaderValue::to_str\<close> gives visible ASCII only.\<close>

definition header_to_str :: "bytes \<Rightarrow> bytes option" where
  "header_to_str v = (if list_all (\<lambda>c. code c = 9 \<or> 32 \<le> code c \<and> code c < 127) v then Some v else None)"

definition serve_pins_reset :: "dash_env \<Rightarrow> (bytes \<times> bytes) list \<Rightarrow> dashboard_state \<Rightarrow> dash_response \<times> dashboard_state" where
  "serve_pins_reset x headers s =
    (let token = (case Option.bind (map_of headers ''x-admin-token'') header_to_str of Some t \<Rightarrow> t | None \<Rightarrow> []) in
     if token \<noteq> dz_admin_token s then (json_response_with_status x 403 (JObj [(''error'', JStr ''forbidden'')]), s)
     else
       let (d, ph, r) = clear_and_persist (dx_json x) (dx_fs x) (dz_disk s) (dz_pinned_hosts s);
           s = s\<lparr>dz_disk := d, dz_pinned_hosts := ph\<rparr>
       in (case r of
             Inr removed \<Rightarrow> (json_response x (JObj [(''ok'', JBool True), (''removed'', JNum (of_nat removed))]), s)
           | Inl e \<Rightarrow> (json_response_with_status x 500 (JObj [(''error'', JStr ''pins_reset_failed'')]), s)))"

definition serve_html :: "dash_env \<Rightarrow> dash_response" where
  "serve_html x = \<lparr>rp_status = 200, rp_headers = [(''Content-Type'', ''text/html; charset=utf-8''), (''Cache-Control'', ''no-cache'')], rp_body = dx_html x\<rparr>"

definition handle_dash_request :: "dash_env \<Rightarrow> dash_request \<Rightarrow> dashboard_state \<Rightarrow> dash_response \<times> dashboard_state" where
  "handle_dash_request x req s =
    (let verb = rq_verb req; path = rq_path req in
     if verb = ''GET'' \<and> path = ''/'' then (serve_html x, s)
     else if verb = ''GET'' \<and> path = ''/api/metrics'' then serve_metrics x s
     else if verb = ''GET'' \<and> path = ''/api/doh'' then serve_doh x s
     else if verb = ''GET'' \<and> path = ''/api/receipts'' then (serve_receipts x s, s)
     else if verb = ''GET'' \<and> path = ''/api/status'' then serve_status x s
     else if verb = ''GET'' \<and> path = ''/download/ca.crt'' then (serve_ca_cert_pem x s, s)
     else if verb = ''POST'' \<and> path = ''/api/pins/reset'' then serve_pins_reset x (rq_headers req) s
     else (\<lparr>rp_status = 404, rp_headers = [(''Content-Type'', ''application/json'')],
            rp_body = [CHR ''{'', CHR 0x22] @ ''error'' @ [CHR 0x22, CHR '':'', CHR 0x22] @ ''not_found'' @ [CHR 0x22, CHR ''}'']\<rparr>, s))"

section \<open>Properties\<close>

definition authorised :: "dash_request \<Rightarrow> dashboard_state \<Rightarrow> bool" where
  "authorised req s \<longleftrightarrow> rq_verb req = ''POST'' \<and> rq_path req = ''/api/pins/reset'' \<and>
     map_of (rq_headers req) ''x-admin-token'' = Some (dz_admin_token s) \<and> header_to_str (dz_admin_token s) = Some (dz_admin_token s)"

definition pruned_stats :: "dash_env \<Rightarrow> dashboard_state \<Rightarrow> dashboard_state" where
  "pruned_stats x s = s\<lparr>dz_doh_stats := map_option (\<lambda>st. snd (doh_snapshot (dx_now x) DOH_TOP_CLIENTS_DEFAULT st)) (dz_doh_stats s)\<rparr>"

lemma doh_of_state: "snd (doh_of x s) = pruned_stats x s"
  by (cases "dz_doh_stats s") (simp_all add: doh_of_def pruned_stats_def case_prod_unfold Let_def)

lemma reset_unauthorised:
  assumes "dz_admin_token s \<noteq> []" "rq_verb req = ''POST''" "rq_path req = ''/api/pins/reset''" "\<not> authorised req s"
  shows "serve_pins_reset x (rq_headers req) s = (json_response_with_status x 403 (JObj [(''error'', JStr ''forbidden'')]), s)"
proof -
  have "(case Option.bind (map_of (rq_headers req) ''x-admin-token'') header_to_str of Some t \<Rightarrow> t | None \<Rightarrow> []) \<noteq> dz_admin_token s"
    using assms by (auto simp: authorised_def header_to_str_def split: option.splits if_splits Option.bind_splits)
  then show ?thesis by (simp add: serve_pins_reset_def)
qed

lemma reset_authorised:
  assumes "authorised req s"
  shows "serve_pins_reset x (rq_headers req) s =
    (let (d, ph, r) = clear_and_persist (dx_json x) (dx_fs x) (dz_disk s) (dz_pinned_hosts s)
     in (case r of Inr removed \<Rightarrow> json_response x (JObj [(''ok'', JBool True), (''removed'', JNum (of_nat removed))])
         | Inl _ \<Rightarrow> json_response_with_status x 500 (JObj [(''error'', JStr ''pins_reset_failed'')]),
         s\<lparr>dz_disk := d, dz_pinned_hosts := ph\<rparr>))"
  using assms by (auto simp: serve_pins_reset_def authorised_def split: prod.split sum.split)

text \<open>The dashboard changes the engine only through an authorised reset. A request that is not a
  \<open>POST /api/pins/reset\<close> with the admin token in its header leaves the pins, the disk, the counters,
  the receipts and the policy as they are (reading the DoH statistics drops stale clients), and a
  reset without the token is answered 403. An authorised reset empties the pinned hosts of an
  unpoisoned store; when it is answered 200, loading the file gives no hosts.\<close>
theorem dashboard_reset_only:
  assumes "dz_admin_token s \<noteq> []" "json_laws (dx_json x)" "p_ext (ph_path (dz_pinned_hosts s)) \<noteq> Some ''tmp''"
    and "handle_dash_request x req s = (resp, s')"
  shows "(\<not> authorised req s \<longrightarrow> s' = s \<or> s' = pruned_stats x s) \<and>
    (\<not> authorised req s \<and> rq_verb req = ''POST'' \<and> rq_path req = ''/api/pins/reset'' \<longrightarrow> rp_status resp = 403) \<and>
    (authorised req s \<and> \<not> ph_poisoned (dz_pinned_hosts s) \<longrightarrow> ph_hosts (dz_pinned_hosts s') = {} \<and> rp_status resp \<in> {200, 500} \<and>
      (rp_status resp = 200 \<longrightarrow> load_pinned_hosts (dx_json x) None (dz_disk s') (ph_path (dz_pinned_hosts s)) = Ok {}))"
proof (intro conjI impI)
  assume "\<not> authorised req s"
  then show "s' = s \<or> s' = pruned_stats x s"
    using assms(4) reset_unauthorised [OF assms(1)] doh_of_state [of x s]
    by (auto simp: handle_dash_request_def serve_metrics_def serve_doh_def serve_status_def Let_def split: if_splits prod.splits option.splits)
next
  assume "\<not> authorised req s \<and> rq_verb req = ''POST'' \<and> rq_path req = ''/api/pins/reset''"
  then show "rp_status resp = 403"
    using assms(4) reset_unauthorised [OF assms(1)] by (auto simp: handle_dash_request_def json_response_with_status_def)
next
  assume a: "authorised req s \<and> \<not> ph_poisoned (dz_pinned_hosts s)"
  obtain d r where p: "persist_pinned_hosts (dx_json x) (dx_fs x) (dz_disk s) (ph_path (dz_pinned_hosts s)) {} = (d, r)" by fastforce
  have c: "clear_and_persist (dx_json x) (dx_fs x) (dz_disk s) (dz_pinned_hosts s) =
      (d, (dz_pinned_hosts s)\<lparr>ph_hosts := {}\<rparr>, case r of Inl e \<Rightarrow> Err e | Inr _ \<Rightarrow> Ok (card (ph_hosts (dz_pinned_hosts s))))"
    using a p by (simp add: clear_and_persist_def)
  have run: "serve_pins_reset x (rq_headers req) s = (resp, s')"
    using assms(4) a by (auto simp: handle_dash_request_def authorised_def)
  show "ph_hosts (dz_pinned_hosts s') = {}" using run a c by (auto simp: reset_authorised)
  show "rp_status resp \<in> {200, 500}"
    using run a c by (cases r) (auto simp: reset_authorised json_response_def json_response_with_status_def)
  assume "rp_status resp = 200"
  then have r: "r = Ok ()" and d: "dz_disk s' = d"
    using run a c by (cases r; auto simp: reset_authorised json_response_def json_response_with_status_def)+
  show "load_pinned_hosts (dx_json x) None (dz_disk s') (ph_path (dz_pinned_hosts s)) = Ok {}"
    using persist_then_load [OF assms(2) _ assms(3), of "{}"] p by (simp add: r d)
qed

text \<open>The status page carries the admin token: whoever can read it can reset the pins.\<close>

lemma status_discloses_token:
  "\<exists>es. serve_status x s = (json_response x (JObj es), pruned_stats x s) \<and> map_of es ''admin_token'' = Some (JStr (dz_admin_token s))"
proof -
  have "map_of (status_entries x s doh) ''admin_token'' = Some (JStr (dz_admin_token s))" for doh
    by (simp add: status_entries_def doh_counts_def case_prod_unfold Let_def)
  then show ?thesis using doh_of_state [of x s] by (simp add: serve_status_def case_prod_unfold Let_def) blast
qed

lemma admin_token_form:
  "make_admin_token rng now \<noteq> []" if "rng \<noteq> Some []"
  using that by (cases "the rng") (auto simp: make_admin_token_def hex2_def split: option.splits)

section \<open>Witness\<close>

definition wit_dash_env :: dash_env where
  "wit_dash_env = \<lparr>dx_now = 0, dx_mono = 0, dx_fs = fs_all_ok, dx_read_ca = None, dx_html = [], dx_to_string = \<lambda>v. Inr ''x'',
     dx_show_path = \<lambda>p. p_stem p, dx_show_error = \<lambda>e. [], dx_json = jdoc JNull\<rparr>"

definition wit_dash :: dashboard_state where
  "wit_dash = \<lparr>dz_metrics = metrics_default, dz_doh_stats = None, dz_policy_engine = policy_engine_new Enforce, dz_receipts = None,
     dz_pinned_hosts = \<lparr>ph_path = \<lparr>p_dir = [], p_stem = ''pins'', p_ext = Some ''json''\<rparr>, ph_hosts = {''bank.com''}, ph_poisoned = False, ph_created_at = 0\<rparr>,
     dz_ca_export = None, dz_grace_secs = 60, dz_admin_token = ''secret'', dz_start_time = 0, dz_disk = Map.empty\<rparr>"

theorem dashboard_reset_only_witness:
  "let (resp, s) = handle_dash_request wit_dash_env \<lparr>rq_verb = ''POST'', rq_path = ''/api/pins/reset'', rq_headers = [(''x-admin-token'', ''secret'')]\<rparr> wit_dash;
       (resp', s') = handle_dash_request wit_dash_env \<lparr>rq_verb = ''POST'', rq_path = ''/api/pins/reset'', rq_headers = []\<rparr> wit_dash
   in ph_hosts (dz_pinned_hosts s) = {} \<and> rp_status resp' = 403 \<and> s' = wit_dash"
proof -
  let ?q = "\<lparr>rq_verb = ''POST'', rq_path = ''/api/pins/reset'', rq_headers = [(''x-admin-token'', ''secret'')]\<rparr>"
  let ?q' = "\<lparr>rq_verb = ''POST'', rq_path = ''/api/pins/reset'', rq_headers = []\<rparr>"
  obtain resp s where q: "handle_dash_request wit_dash_env ?q wit_dash = (resp, s)" by fastforce
  obtain resp' s' where q': "handle_dash_request wit_dash_env ?q' wit_dash = (resp', s')" by fastforce
  have a: "authorised ?q wit_dash" "\<not> authorised ?q' wit_dash" "\<not> ph_poisoned (dz_pinned_hosts wit_dash)" "pruned_stats wit_dash_env wit_dash = wit_dash"
    by (simp_all add: authorised_def wit_dash_def header_to_str_def pruned_stats_def)
  have prem: "dz_admin_token wit_dash \<noteq> []" "json_laws (dx_json wit_dash_env)" "p_ext (ph_path (dz_pinned_hosts wit_dash)) \<noteq> Some ''tmp''"
    by (simp_all add: wit_dash_def wit_dash_env_def json_laws_jdoc)
  show ?thesis
    using dashboard_reset_only [OF prem q] dashboard_reset_only [OF prem q'] a unfolding q q' by auto
qed

end
