(* ===== verification/Services.thy ===== *)
theory Services
  imports Startup Dashboard
begin

text \<open>
  The servers and periodic tasks that the engine runs: the accept loop of the proxy and the ticks of
  the flush and metrics tasks in \<open>main\<close> (\<^verbatim>\<open>src/main.rs\<close>), \<open>run_dns_filter\<close> and \<open>run_doh_server\<close>
  (\<^verbatim>\<open>src/dns_filter.rs\<close>), and \<open>run\<close> of the dashboard (\<^verbatim>\<open>src/dashboard.rs\<close>). A server takes the
  events of its sockets in order, failures included. What they have in common, that a failed event changes nothing and
  that a relation kept by every event is kept by the run, is the locale \<open>event_server\<close>. The requests of concurrent
  connections are handled one after the other.
\<close>

section \<open>Servers that go on after failures\<close>

locale event_server =
  fixes step :: "'ev \<Rightarrow> 's \<Rightarrow> 's" and quiet :: "'ev \<Rightarrow> bool" and keeps :: "'s \<Rightarrow> 's \<Rightarrow> bool"
  assumes quiet_step: "quiet ev \<Longrightarrow> step ev s = s"
    and keeps_refl: "keeps s s"
    and keeps_trans: "keeps s t \<Longrightarrow> keeps t u \<Longrightarrow> keeps s u"
    and keeps_step: "keeps s (step ev s)"
begin

lemma run_skips: "fold step evs s = fold step (filter (\<lambda>ev. \<not> quiet ev) evs) s"
  by (induction evs arbitrary: s) (auto simp: quiet_step)

lemma run_keeps: "keeps s (fold step evs s)"
proof (induction evs arbitrary: s)
  case (Cons ev evs)
  from keeps_trans [OF keeps_step Cons] show ?case by simp
qed (simp add: keeps_refl)

end

section \<open>The DNS filter\<close>

datatype dns_event = RecvError io_error | DnsQuery dns_round

fun dns_event_step :: "dns_codec \<Rightarrow> bool \<Rightarrow> dns_event \<Rightarrow> dns_state \<Rightarrow> dns_state" where
  "dns_event_step D upstream_doh (RecvError e) s = s"
| "dns_event_step D upstream_doh (DnsQuery r) s = dns_filter_round D upstream_doh r s"

definition upstream_bind :: "dns_filter_config \<Rightarrow> bytes" where
  "upstream_bind config = (if is_ipv4 (df_upstream_addr config) then ''0.0.0.0:0'' else ''[::]:0'')"

record udp_outcome =
  uo_bind :: "socket_addr \<Rightarrow> io_error option"
  uo_bind_local :: "bytes \<Rightarrow> io_error option"
  uo_connect :: "socket_addr \<Rightarrow> io_error option"

text \<open>A socket that cannot be bound or connected ends the task; an error of a receive does not.\<close>

definition dns_filter_task :: "dns_codec \<Rightarrow> udp_outcome \<Rightarrow> dns_filter_config \<Rightarrow> dns_event list \<Rightarrow> dns_state \<Rightarrow> dns_state" where
  "dns_filter_task D net config evs s =
    (case uo_bind net (df_listen_addr config) of Some e \<Rightarrow> s
     | None \<Rightarrow> (case uo_bind_local net (upstream_bind config) of Some e \<Rightarrow> s
     | None \<Rightarrow> (case uo_connect net (df_upstream_addr config) of Some e \<Rightarrow> s
     | None \<Rightarrow> fold (dns_event_step D (df_upstream_doh config \<noteq> None)) evs s)))"

section \<open>The DoH server\<close>

record doh_exchange =
  ex_now :: u64
  ex_clock :: int
  ex_engine :: policy_engine
  ex_engine_after :: policy_engine
  ex_upstream :: "bytes \<Rightarrow> doh_upstream"
  ex_request :: doh_http_request

datatype doh_event = DohAcceptError io_error | DohHandshakeError bytes | DohConnection bytes "doh_exchange list"

text \<open>The requests of one connection: an error of a request ends the connection.\<close>

fun serve_doh_connection :: "dns_codec \<Rightarrow> (bytes \<Rightarrow> bytes option) \<Rightarrow> bytes \<Rightarrow> doh_exchange list \<Rightarrow> doh_server \<Rightarrow>
    doh_http_response list \<times> doh_server" where
  "serve_doh_connection D b64 ip [] s = ([], s)"
| "serve_doh_connection D b64 ip (x # xs) s =
    (case handle_doh_request D b64 (ex_now x) (ex_clock x) (ex_engine x) (ex_engine_after x) (ex_upstream x) ip (ex_request x) s of
       (Inl e, s) \<Rightarrow> ([], s)
     | (Inr resp, s) \<Rightarrow> let (resps, s) = serve_doh_connection D b64 ip xs s in (resp # resps, s))"

fun doh_event_step :: "dns_codec \<Rightarrow> (bytes \<Rightarrow> bytes option) \<Rightarrow> doh_event \<Rightarrow> doh_server \<Rightarrow> doh_server" where
  "doh_event_step D b64 (DohAcceptError e) s = s"
| "doh_event_step D b64 (DohHandshakeError addr) s = s"
| "doh_event_step D b64 (DohConnection ip xs) s = snd (serve_doh_connection D b64 ip xs s)"

definition run_doh_server :: "dns_codec \<Rightarrow> (bytes \<Rightarrow> bytes option) \<Rightarrow> (bytes list \<Rightarrow> bytes \<Rightarrow> string option) \<Rightarrow> (socket_addr \<Rightarrow> io_error option) \<Rightarrow>
    doh_server_config \<Rightarrow> doh_event list \<Rightarrow> doh_server \<Rightarrow> doh_server" where
  "run_doh_server D b64 tls_config listen config evs s =
    (case tls_config (dc_cert config) (dc_key config) of Some e \<Rightarrow> s
     | None \<Rightarrow> (case listen (dc_addr config) of Some e \<Rightarrow> s
     | None \<Rightarrow> fold (doh_event_step D b64) evs s))"

section \<open>The dashboard\<close>

datatype dash_event = DashAcceptError io_error | DashConnection "(dash_env \<times> dash_request) list"

fun dash_event_step :: "dash_event \<Rightarrow> dashboard_state \<Rightarrow> dashboard_state" where
  "dash_event_step (DashAcceptError e) s = s"
| "dash_event_step (DashConnection reqs) s = fold (\<lambda>(x, req) s. snd (handle_dash_request x req s)) reqs s"

definition dashboard_new :: "(bytes \<Rightarrow> path) \<Rightarrow> bytes option \<Rightarrow> int \<Rightarrow> started \<Rightarrow> dashboard_options \<Rightarrow> dashboard_state" where
  "dashboard_new to_path rng now st opts =
    \<lparr>dz_metrics = t_metrics (mw_tally (pw_mitm (st_world st))), dz_doh_stats = do_doh_stats opts, dz_policy_engine = st_policy st,
     dz_receipts = t_receipts (mw_tally (pw_mitm (st_world st))), dz_pinned_hosts = pw_pinned (st_world st),
     dz_ca_export = map_option to_path (do_ca_export opts), dz_grace_secs = do_grace_secs opts,
     dz_admin_token = make_admin_token rng now, dz_start_time = now, dz_disk = mw_disk (pw_mitm (st_world st))\<rparr>"

definition run_dashboard :: "(socket_addr \<Rightarrow> io_error option) \<Rightarrow> socket_addr \<Rightarrow> dash_event list \<Rightarrow> dashboard_state \<Rightarrow> dashboard_state" where
  "run_dashboard listen addr evs s = (case listen addr of Some e \<Rightarrow> s | None \<Rightarrow> fold dash_event_step evs s)"

section \<open>Periodic tasks\<close>

definition metrics_log_tick :: "metrics \<Rightarrow> string \<times> string \<times> (string \<times> u64) list" where
  "metrics_log_tick m = log_snapshot ''periodic'' m"

text \<open>One tick of the flush task; the outcome of the write is only logged.\<close>

definition flush_tick :: "'v json_api \<Rightarrow> fs_outcome \<Rightarrow> bytes \<Rightarrow> nat \<Rightarrow> u64 \<Rightarrow> receipt_store \<times> disk \<Rightarrow> receipt_store \<times> disk" where
  "flush_tick J env part lost now x =
    (let (s, d) = x in
     case flush_if_dirty now s of
       (s', None, r) \<Rightarrow> (s', d)
     | (s', Some hosts, r) \<Rightarrow> (s', fst (flush_task J env part lost now d (rs_path s) hosts)))"

section \<open>The accept loop of the proxy\<close>

datatype 'v accept_event = Accepted "'v conn_env" policy_engine | AcceptFailed io_error

text \<open>An error of \<open>accept\<close> is the result of \<open>main\<close>: the loop ends.\<close>

fun accept_loop :: "bool \<Rightarrow> 'v accept_event list \<Rightarrow> proxy_world \<Rightarrow> net_event list list \<times> proxy_world \<times> io_error option" where
  "accept_loop mitm [] w = ([], w, None)"
| "accept_loop mitm (Accepted env e # evs) w =
    (let (r, ev, w) = accept_connection env mitm e w; (trace, w, res) = accept_loop mitm evs w in (ev # trace, w, res))"
| "accept_loop mitm (AcceptFailed err # evs) w = ([], w, Some err)"

section \<open>Failures do not stop the servers\<close>

interpretation dns: event_server "dns_event_step D doh" "\<lambda>ev. \<exists>e. ev = RecvError e" "\<lambda>s t. prefix (ds_sent s) (ds_sent t)"
proof unfold_locales
  show "prefix (ds_sent s) (ds_sent (dns_event_step D doh ev s))" for s ev
    by (cases ev) (auto simp: dns_filter_round_def Let_def split: prod.splits option.splits if_splits)
qed (auto simp: prefix_def)

lemma doh_request_finite:
  "finite (dom (dst_clients (dv_stats s))) \<Longrightarrow>
     finite (dom (dst_clients (dv_stats (snd (handle_doh_request D b64 now clock e e' up ip req s)))))"
proof -
  assume fin: "finite (dom (dst_clients (dv_stats s)))"
  have "prune_locked t age m k = Some v \<Longrightarrow> m k = Some v" for t age m k v by (auto simp: prune_locked_def split: option.splits if_splits)
  then have "dom (dst_clients (record_query clock ip (dv_stats s))) \<subseteq> insert ip (dom (dst_clients (dv_stats s)))"
    by (fastforce simp: record_query_def Let_def split: if_splits)
  then have "finite (dom (dst_clients (record_query clock ip (dv_stats s))))" using fin by (meson finite_insert finite_subset)
  then show ?thesis using fin
    by (auto simp: handle_doh_request_def Let_def split: sum.splits prod.splits option.splits doh_upstream.splits)
qed

interpretation doh: event_server "doh_event_step D b64" "\<lambda>ev. (\<exists>e. ev = DohAcceptError e) \<or> (\<exists>a. ev = DohHandshakeError a)"
  "\<lambda>s t. finite (dom (dst_clients (dv_stats s))) \<longrightarrow> finite (dom (dst_clients (dv_stats t)))"
proof unfold_locales
  have "finite (dom (dst_clients (dv_stats s))) \<Longrightarrow> finite (dom (dst_clients (dv_stats (snd (serve_doh_connection D b64 ip xs s)))))" for s ip xs
  proof (induction xs arbitrary: s)
    case (Cons x xs)
    obtain r s1 where r: "handle_doh_request D b64 (ex_now x) (ex_clock x) (ex_engine x) (ex_engine_after x) (ex_upstream x) ip (ex_request x) s = (r, s1)"
      by fastforce
    have "finite (dom (dst_clients (dv_stats s1)))"
      using doh_request_finite [OF Cons.prems, of D b64 "ex_now x" "ex_clock x" "ex_engine x" "ex_engine_after x" "ex_upstream x" ip "ex_request x"] r by simp
    with Cons.IH [of s1] show ?case by (simp add: r case_prod_unfold Let_def split: sum.split)
  qed simp
  then show "finite (dom (dst_clients (dv_stats s))) \<longrightarrow> finite (dom (dst_clients (dv_stats (doh_event_step D b64 ev s))))" for s ev
    by (cases ev) auto
qed auto

text \<open>What no request to the dashboard changes: the counters, the receipts, the policy, the token; and pins never grow.\<close>

definition dash_frame :: "dashboard_state \<Rightarrow> dashboard_state \<Rightarrow> bool" where
  "dash_frame s t \<longleftrightarrow> dz_metrics t = dz_metrics s \<and> dz_receipts t = dz_receipts s \<and> dz_policy_engine t = dz_policy_engine s \<and>
     dz_admin_token t = dz_admin_token s \<and> dz_start_time t = dz_start_time s \<and> ph_hosts (dz_pinned_hosts t) \<subseteq> ph_hosts (dz_pinned_hosts s)"

lemma dash_frame_refl: "dash_frame s s"
  by (simp add: dash_frame_def)

lemma dash_frame_trans: "dash_frame s t \<Longrightarrow> dash_frame t u \<Longrightarrow> dash_frame s u"
  by (auto simp: dash_frame_def)

lemma dash_frame_pruned: "dash_frame s (pruned_stats x s)"
  by (simp add: dash_frame_def pruned_stats_def)

lemma dash_reads_state:
  "snd (serve_metrics x s) = pruned_stats x s" "snd (serve_doh x s) = pruned_stats x s" "snd (serve_status x s) = pruned_stats x s"
  using doh_of_state [of x s] by (simp_all add: serve_metrics_def serve_doh_def serve_status_def case_prod_unfold Let_def split: option.split)

lemma dash_frame_reset: "dash_frame s (snd (serve_pins_reset x headers s))"
proof -
  obtain d ph r where c: "clear_and_persist (dx_json x) (dx_fs x) (dz_disk s) (dz_pinned_hosts s) = (d, ph, r)" by (metis prod_cases3)
  then have "ph_hosts ph \<subseteq> ph_hosts (dz_pinned_hosts s)" by (auto simp: clear_and_persist_def Let_def split: if_splits prod.splits)
  then show ?thesis by (simp add: serve_pins_reset_def c dash_frame_def Let_def split: sum.split)
qed

lemma dash_frame_request: "dash_frame s (snd (handle_dash_request x req s))"
  by (simp add: handle_dash_request_def dash_reads_state dash_frame_pruned dash_frame_reset dash_frame_refl Let_def)

lemma dash_frame_requests: "dash_frame s (fold (\<lambda>(x, req) s. snd (handle_dash_request x req s)) reqs s)"
proof (induction reqs arbitrary: s)
  case (Cons p reqs)
  obtain x req where p: "p = (x, req)" by (cases p)
  from dash_frame_trans [OF dash_frame_request Cons] show ?case by (simp add: p)
qed (simp add: dash_frame_refl)

interpretation dash: event_server dash_event_step "\<lambda>ev. \<exists>e. ev = DashAcceptError e" dash_frame
proof unfold_locales
  show "dash_frame s (dash_event_step ev s)" for s ev
    by (cases ev) (simp_all add: dash_frame_requests dash_frame_refl)
qed (auto intro: dash_frame_refl dash_frame_trans)

section \<open>Properties\<close>

lemma dns_filter_task_run:
  "dns_filter_task D net config evs s =
    (if uo_bind net (df_listen_addr config) = None \<and> uo_bind_local net (upstream_bind config) = None \<and> uo_connect net (df_upstream_addr config) = None
     then run_dns_filter D (df_upstream_doh config \<noteq> None) (List.map_filter (\<lambda>ev. case ev of DnsQuery r \<Rightarrow> Some r | RecvError e \<Rightarrow> None) evs) s
     else s)"
proof -
  have "fold (dns_event_step D doh) evs s = run_dns_filter D doh (List.map_filter (\<lambda>ev. case ev of DnsQuery r \<Rightarrow> Some r | RecvError e \<Rightarrow> None) evs) s" for doh
    by (induction evs arbitrary: s) (auto simp: run_dns_filter_def List.map_filter_def split: dns_event.split)
  then show ?thesis by (auto simp: dns_filter_task_def split: option.splits)
qed

text \<open>The requests that carry a DNS message, of those that a connection gets to before an error of its body.\<close>

definition dns_messages :: "(bytes \<Rightarrow> bytes option) \<Rightarrow> doh_exchange list \<Rightarrow> nat" where
  "dns_messages b64 xs = length (filter (\<lambda>x. \<exists>q. doh_query_bytes b64 (ex_request x) = Inr q)
     (takeWhile (\<lambda>x. \<forall>e. doh_query_bytes b64 (ex_request x) \<noteq> Inl (Inl e)) xs))"

fun event_messages :: "(bytes \<Rightarrow> bytes option) \<Rightarrow> doh_event \<Rightarrow> nat" where
  "event_messages b64 (DohConnection ip xs) = dns_messages b64 xs"
| "event_messages b64 ev = 0"

lemma doh_request_total:
  assumes "handle_doh_request D b64 now clock e e' up ip req s = (r, s')"
  shows "dst_query_total (dv_stats s') = dst_query_total (dv_stats s) + (if \<exists>q. doh_query_bytes b64 req = Inr q then 1 else 0) \<and>
    ((\<exists>e. r = Inl e) \<longleftrightarrow> (\<exists>e. doh_query_bytes b64 req = Inl (Inl e)))"
  using assms by (auto simp: handle_doh_request_def record_query_def Let_def split: sum.splits prod.splits option.splits doh_upstream.splits)

lemma doh_connection_total:
  "dst_query_total (dv_stats (snd (serve_doh_connection D b64 ip xs s))) = dst_query_total (dv_stats s) + of_nat (dns_messages b64 xs)"
proof (induction xs arbitrary: s)
  case (Cons x xs)
  obtain r s1 where r: "handle_doh_request D b64 (ex_now x) (ex_clock x) (ex_engine x) (ex_engine_after x) (ex_upstream x) ip (ex_request x) s = (r, s1)"
    by fastforce
  note t = doh_request_total [OF r]
  show ?case
  proof (cases r)
    case (Inl e)
    then show ?thesis using t by (auto simp: r dns_messages_def)
  next
    case (Inr resp)
    then show ?thesis using t Cons.IH [of s1] by (auto simp: r dns_messages_def case_prod_unfold Let_def)
  qed
qed (simp add: dns_messages_def)

lemma doh_events_total:
  "dst_query_total (dv_stats (fold (doh_event_step D b64) evs s)) = dst_query_total (dv_stats s) + of_nat (sum_list (map (event_messages b64) evs))"
proof (induction evs arbitrary: s)
  case (Cons ev evs)
  have "dst_query_total (dv_stats (doh_event_step D b64 ev s)) = dst_query_total (dv_stats s) + of_nat (event_messages b64 ev)"
    by (cases ev) (simp_all add: doh_connection_total)
  with Cons show ?case by simp
qed simp

lemma start_services_stats:
  "start_services env d a r = Started s \<Longrightarrow> sv_doh_stats s = (if ar_doh_server_port a \<noteq> None then Some doh_stats_default else None)"
  by (auto simp: start_services_def start_bind_Started_iff Let_def)

text \<open>C38: the dashboard shows what the DoH server did. When an engine is started with a DoH server whose TLS
  configuration and socket are accepted, then after any sequence of accepted connections, failed handshakes and failed
  accepts the total that the dashboard reports is the number of requests that carried a DNS message, each counted
  once, and every request to read it is answered 200.\<close>
theorem doh_queries_shown:
  assumes "main_start env d a = (d', Started (Serving st))" "effective_args env d a = Ok a'" "sv_doh_server (st_services st) = Some c"
    and "tls_config (dc_cert c) (dc_key c) = None" "listen (dc_addr c) = None"
    and "s = run_doh_server D b64 tls_config listen c evs \<lparr>dv_tally = t, dv_stats = dc_stats c\<rparr>"
    and "dz_doh_stats z = Some (dv_stats s)" "rq_verb req = ''GET''" "rq_path req = ''/api/doh''"
  shows "\<exists>es. fst (handle_dash_request x req z) = json_response x (JObj es) \<and> map_of es ''enabled'' = Some (JBool True) \<and>
    map_of es ''doh_query_total'' = Some (JNum (of_nat (sum_list (map (event_messages b64) evs))))"
proof -
  have "dc_stats c = doh_stats_default"
  proof -
    obtain d1 where sv: "start_services env d1 a' (ar_receipts_file a' \<noteq> None) = Started (st_services st)"
      using serve_start_services [of env d a' st] main_serving [OF assms(1,2)] by auto
    note start_services_stats [OF sv]
    then show ?thesis using assms(3) start_services_ok [OF sv] by (auto simp: services_ok_def split: option.splits if_splits)
  qed
  then have "dst_query_total (dv_stats s) = of_nat (sum_list (map (event_messages b64) evs))"
    using assms(4-6) by (simp add: run_doh_server_def doh_events_total doh_stats_default_def)
  then show ?thesis using assms(7-9)
    by (auto simp: handle_dash_request_def serve_doh_def doh_of_def doh_counts_def doh_snapshot_def case_prod_unfold Let_def)
qed

text \<open>A token is never empty.\<close>

lemma make_admin_token_not_empty: "rng \<noteq> Some [] \<Longrightarrow> make_admin_token rng now \<noteq> []"
  by (cases rng) (auto simp: make_admin_token_def hex2_def neq_Nil_conv)

lemma unauthorised_request:
  assumes "dz_admin_token s \<noteq> []" "\<not> authorised req s"
  shows "snd (handle_dash_request x req s) = s \<or> snd (handle_dash_request x req s) = pruned_stats x s"
  using reset_unauthorised [OF assms(1) _ _ assms(2), of x] by (auto simp: handle_dash_request_def dash_reads_state Let_def)

lemma unauthorised_requests:
  assumes "dz_admin_token s \<noteq> []" "\<forall>(x, req) \<in> set reqs. map_of (rq_headers req) ''x-admin-token'' \<noteq> Some (dz_admin_token s)"
  shows "dz_pinned_hosts (fold (\<lambda>(x, req) s. snd (handle_dash_request x req s)) reqs s) = dz_pinned_hosts s \<and>
    dz_disk (fold (\<lambda>(x, req) s. snd (handle_dash_request x req s)) reqs s) = dz_disk s"
  using assms
proof (induction reqs arbitrary: s)
  case (Cons p reqs)
  obtain x req where p: "p = (x, req)" by (cases p)
  let ?s = "snd (handle_dash_request x req s)"
  have "\<not> authorised req s" using Cons.prems(2) by (auto simp: p authorised_def)
  from unauthorised_request [OF Cons.prems(1) this, of x]
  have s: "dz_pinned_hosts ?s = dz_pinned_hosts s" "dz_disk ?s = dz_disk s" "dz_admin_token ?s = dz_admin_token s" by (auto simp: pruned_stats_def)
  from Cons.IH [of ?s] Cons.prems show ?case by (simp add: p s)
qed simp

fun event_requests :: "dash_event \<Rightarrow> (dash_env \<times> dash_request) list" where
  "event_requests (DashConnection reqs) = reqs"
| "event_requests (DashAcceptError e) = []"

text \<open>C34: without the token the dashboard is read-only for its whole run: from the state in which the engine starts it,
  through any sequence of connections, failed accepts and requests of which none carries the token of this run, the
  pinned hosts and the disk stay as they were; the counters, the receipts, the policy and the token stay in any case.\<close>
theorem dashboard_run_read_only:
  assumes "rng \<noteq> Some []" "s = dashboard_new to_path rng now st opts"
    and "\<forall>ev \<in> set evs. \<forall>(x, req) \<in> set (event_requests ev). map_of (rq_headers req) ''x-admin-token'' \<noteq> Some (dz_admin_token s)"
  shows "dz_pinned_hosts (run_dashboard listen addr evs s) = pw_pinned (st_world st) \<and>
    dz_disk (run_dashboard listen addr evs s) = mw_disk (pw_mitm (st_world st)) \<and> dash_frame s (run_dashboard listen addr evs s)"
proof -
  have tok: "dz_admin_token s \<noteq> []" using make_admin_token_not_empty [OF assms(1)] by (simp add: assms(2) dashboard_new_def)
  have step: "dz_pinned_hosts (dash_event_step ev u) = dz_pinned_hosts u \<and> dz_disk (dash_event_step ev u) = dz_disk u \<and> dz_admin_token (dash_event_step ev u) = dz_admin_token u"
    if "\<forall>(x, req) \<in> set (event_requests ev). map_of (rq_headers req) ''x-admin-token'' \<noteq> Some (dz_admin_token u)" "dz_admin_token u \<noteq> []" for ev u
    using that unauthorised_requests [OF that(2), of "event_requests ev"] dash.keeps_step [of u ev] by (cases ev) (auto simp: dash_frame_def)
  have "dz_pinned_hosts (fold dash_event_step evs u) = dz_pinned_hosts u \<and> dz_disk (fold dash_event_step evs u) = dz_disk u"
    if "dz_admin_token u = dz_admin_token s" for u
    using assms(3) that
  proof (induction evs arbitrary: u)
    case (Cons ev evs)
    with step [of ev u] tok show ?case by simp
  qed simp
  from this [of s] have "dz_pinned_hosts (run_dashboard listen addr evs s) = dz_pinned_hosts s \<and> dz_disk (run_dashboard listen addr evs s) = dz_disk s"
    by (simp add: run_dashboard_def split: option.split)
  moreover have "dash_frame s (run_dashboard listen addr evs s)"
    by (simp add: run_dashboard_def dash.run_keeps dash_frame_refl split: option.split)
  ultimately show ?thesis by (simp add: assms(2) dashboard_new_def)
qed

section \<open>The accept loop\<close>

fun accepted :: "'v accept_event list \<Rightarrow> ('v conn_env \<times> policy_engine) list" where
  "accepted (Accepted env e # evs) = (env, e) # accepted evs"
| "accepted _ = []"

fun first_failure :: "'v accept_event list \<Rightarrow> io_error option" where
  "first_failure [] = None"
| "first_failure (Accepted env e # evs) = first_failure evs"
| "first_failure (AcceptFailed err # evs) = Some err"

lemma accept_loop_serves:
  "accept_loop mitm evs w = (fst (serve_connections mitm (accepted evs) w), snd (serve_connections mitm (accepted evs) w), first_failure evs)"
  by (induction evs arbitrary: w rule: accepted.induct) (auto simp: case_prod_unfold Let_def split: accept_event.split)

text \<open>One failed accept, for instance for want of file descriptors, ends the proxy: no later connection is served.
  The DNS, DoH and dashboard servers go on after such a failure.\<close>

lemma accept_failure_ends_engine:
  "accept_loop mitm (evs @ AcceptFailed err # later) w = accept_loop mitm (evs @ [AcceptFailed err]) w \<and>
   snd (snd (accept_loop mitm (evs @ AcceptFailed err # later) w)) \<noteq> None"
proof -
  have "accepted (evs @ AcceptFailed err # later) = accepted (evs @ [AcceptFailed err])" "first_failure (evs @ AcceptFailed err # later) = first_failure (evs @ [AcceptFailed err])"
    "first_failure (evs @ [AcceptFailed err]) \<noteq> None"
    by (induction evs rule: accepted.induct) auto
  then show ?thesis by (simp add: accept_loop_serves)
qed

text \<open>A clean store is not written.\<close>

lemma flush_tick_clean: "\<not> rs_dirty s \<Longrightarrow> flush_tick J env part lost now (s, d) = (s, d)"
  by (simp add: flush_tick_def flush_if_dirty_def)

text \<open>The log and the dashboard report the same counters.\<close>

lemma logged_counters_served: "metrics_entries (snapshot m) = map (\<lambda>(name, v). (name, JNum v)) (snd (snd (log_snapshot trigger m)))"
  by (simp add: metrics_entries_def log_snapshot_def snapshot_fields_def)

section \<open>Witnesses\<close>

definition wit_exchange :: doh_exchange where
  "wit_exchange = \<lparr>ex_now = 0, ex_clock = 0, ex_engine = wit_dns_engine, ex_engine_after = wit_dns_engine, ex_upstream = \<lambda>q. UpstreamNone,
     ex_request = wit_post\<rparr>"

definition wit_get :: "bytes \<Rightarrow> dash_request" where
  "wit_get p = \<lparr>rq_verb = ''GET'', rq_path = p, rq_headers = []\<rparr>"

theorem doh_queries_shown_witness:
  "\<exists>(s :: doh_server) es. fst (handle_dash_request wit_dash_env (wit_get ''/api/doh'') (wit_dash\<lparr>dz_doh_stats := Some (dv_stats s)\<rparr>)) = json_response wit_dash_env (JObj es) \<and>
     map_of es ''doh_query_total'' = Some (JNum 1)"
proof -
  obtain d a st where m: "effective_args wit_startup d a = Ok a" and st: "main_start wit_startup d a = (d, Started (Serving st))" and
    p: "ar_doh_server_port a = Some 8443"
    using wit_serving [OF refl refl] by auto
  obtain d1 where sv: "start_services wit_startup d1 a (ar_receipts_file a \<noteq> None) = Started (st_services st)"
    using serve_start_services [of wit_startup d a st] main_serving [OF st m] by auto
  obtain c where c: "sv_doh_server (st_services st) = Some c"
    using start_services_ok [OF sv] p by (auto simp: services_ok_def split: option.splits)
  let ?evs = "[DohAcceptError (IoError Other ''busy''), DohConnection ''10.0.0.1'' [wit_exchange]]"
  let ?s = "run_doh_server wit_dns (\<lambda>b. None) (\<lambda>cert key. None) (\<lambda>addr. None) c ?evs \<lparr>dv_tally = dv_tally wit_doh, dv_stats = dc_stats c\<rparr>"
  let ?z = "wit_dash\<lparr>dz_doh_stats := Some (dv_stats ?s)\<rparr>"
  have "doh_query_bytes (\<lambda>b. None) wit_post = Ok ''Q2ok''" by (simp add: doh_query_bytes_def wit_post_def)
  then have n: "sum_list (map (event_messages (\<lambda>b. None)) ?evs) = 1" by (simp add: dns_messages_def wit_exchange_def)
  have z: "dz_doh_stats ?z = Some (dv_stats ?s)" "rq_verb (wit_get ''/api/doh'') = ''GET''" "rq_path (wit_get ''/api/doh'') = ''/api/doh''" by (simp_all add: wit_get_def)
  from doh_queries_shown [OF st m c _ _ refl z, of wit_dash_env] obtain es where
    "fst (handle_dash_request wit_dash_env (wit_get ''/api/doh'') ?z) = json_response wit_dash_env (JObj es)" "map_of es ''doh_query_total'' = Some (JNum 1)"
    unfolding n by auto
  then show ?thesis by blast
qed

definition wit_started :: started where
  "wit_started = \<lparr>st_world = wit_world {''bank.com''}, st_policy = policy_engine_new Enforce, st_mitm = False, st_listener = SocketV4 ''127.0.0.1'' 8080,
     st_reload_task = False, st_refresh_task = False,
     st_services = \<lparr>sv_metrics_log = False, sv_receipts_flush = False, sv_doh_stats = None, sv_dashboard = None, sv_dns_filter = None, sv_doh_server = None\<rparr>\<rparr>"

definition wit_dash_new :: dashboard_state where
  "wit_dash_new = dashboard_new (su_path wit_startup) (Some ''0123456789abcdef'') 0 wit_started \<lparr>do_doh_stats = None, do_ca_export = None, do_grace_secs = 60\<rparr>"

theorem dashboard_run_read_only_witness:
  "ph_hosts (dz_pinned_hosts (run_dashboard (\<lambda>addr. None) (SocketV4 ''127.0.0.1'' 9000)
     [DashAcceptError (IoError Other ''busy''), DashConnection [(wit_dash_env, wit_get ''/api/status''),
        (wit_dash_env, \<lparr>rq_verb = ''POST'', rq_path = ''/api/pins/reset'', rq_headers = []\<rparr>)]] wit_dash_new)) = {''bank.com''}"
proof -
  have w: "pw_pinned (st_world wit_started) = pw_pinned (wit_world {''bank.com''})" by (simp add: wit_started_def)
  have "Some ''0123456789abcdef'' \<noteq> Some ([] :: bytes)" by simp
  from dashboard_run_read_only [OF this wit_dash_new_def, THEN conjunct1] show ?thesis
    by (simp add: wit_get_def w) (simp add: wit_world_def)
qed

end
