(* ===== verification/Report_Reading.thy ===== *)
theory Report_Reading
  imports Receipts_Report "HOL-Library.Multiset"
begin

text \<open>
  What the reports of \<open>Receipts_Report\<close> say to their readers. The page is read as a browser reads it: a
  tokenizer splits it into tags and the decoded text before each of them, and a table reader collects
  the texts of the cells. The text reports are read by lines. The ranked tables are the interface
  \<open>ranking\<close>, with the order and the choice of rows as its laws.
\<close>

section \<open>Ranked tables\<close>

text \<open>The rows \<open>ys\<close> are the \<open>n\<close> largest of \<open>xs\<close> by \<open>key\<close>, largest first.\<close>

definition largest_rows :: "('a \<Rightarrow> u64) \<Rightarrow> nat \<Rightarrow> 'a list \<Rightarrow> 'a list \<Rightarrow> bool" where
  "largest_rows key n xs ys \<longleftrightarrow> length ys = min n (length xs) \<and> sorted_wrt (\<lambda>a b. key b \<le> key a) ys \<and>
     (\<exists>rest. mset xs = mset ys + rest \<and> (\<forall>x \<in># rest. \<forall>y \<in> set ys. key x \<le> key y))"

locale ranking =
  fixes key :: "'a \<Rightarrow> u64" and rank :: "nat \<Rightarrow> 'a list \<Rightarrow> 'a list"
  assumes rank_is: "rank n xs = take (clamp_top n) (sort_key (\<lambda>x. - int (unat (key x))) xs)"
begin

lemma sorted_desc: "sorted_wrt (\<lambda>a b. key b \<le> key a) (sort_key (\<lambda>x. - int (unat (key x))) xs)"
  using sorted_sort_key [of "\<lambda>x. - int (unat (key x))" xs] by (simp add: sorted_map word_le_def)

lemma rank_largest: "largest_rows key (clamp_top n) xs (rank n xs)"
proof -
  let ?s = "sort_key (\<lambda>x. - int (unat (key x))) xs" and ?k = "clamp_top n"
  have s: "sorted_wrt (\<lambda>a b. key b \<le> key a) (take ?k ?s @ drop ?k ?s)" using sorted_desc [of xs] by simp
  have "mset xs = mset (take ?k ?s) + mset (drop ?k ?s)" by (metis append_take_drop_id mset_append mset_sort)
  then show ?thesis using s unfolding rank_is largest_rows_def sorted_wrt_append
    by (intro conjI exI [of _ "mset (drop ?k ?s)"]) auto
qed

end

interpretation seen: ranking "\<lambda>(_, r). hr_seen_total r" top_hosts_rows
  by unfold_locales (auto simp: top_hosts_rows_def clamp_top_def case_prod_unfold)

interpretation ranked: ranking "\<lambda>(_, _, k). k" ranked
  by unfold_locales (auto simp: ranked_def case_prod_unfold)

definition action_rows :: "(bytes \<times> host_receipt) list \<Rightarrow> (bytes \<times> host_receipt \<times> u64) list" where
  "action_rows hosts = List.map_filter (\<lambda>(h, r). let actions = compliance_actions r in
     if actions > 0 then Some (h, r, actions) else None) hosts"

lemma compliance_rows_ranked: "compliance_rows top_hosts hosts = ranked top_hosts (action_rows hosts)"
  by (simp add: compliance_rows_def ranked_def action_rows_def clamp_top_def)

lemma set_map_filter_Some: "set (List.map_filter f xs) = {y. \<exists>x \<in> set xs. f x = Some y}"
  by (force simp: List.map_filter_def)

lemmas table_rows_defs = dns_rows_def cookie_rows_def body_rows_def route_rows_def action_rows_def Let_def

section \<open>Reading by pieces\<close>

text \<open>A reader for which what it reads in a text is what it reads in its pieces.\<close>

locale piecewise =
  fixes reads :: "'c list \<Rightarrow> 'a list \<Rightarrow> bool"
  assumes reads_Nil: "reads [] []"
    and reads_append: "reads p x \<Longrightarrow> reads q y \<Longrightarrow> reads (p @ q) (x @ y)"
begin

lemma reads_concat: "(\<And>x. x \<in> set xs \<Longrightarrow> reads (f x) (g x)) \<Longrightarrow> reads (concat (map f xs)) (concat (map g xs))"
  by (induction xs) (auto intro: reads_Nil reads_append)

lemma reads_option: "(\<And>x. v = Some x \<Longrightarrow> reads (f x) []) \<Longrightarrow> reads (case v of Some x \<Rightarrow> f x | None \<Rightarrow> []) []"
  by (cases v) (auto intro: reads_Nil)

lemma reads_if: "(P \<Longrightarrow> reads p []) \<Longrightarrow> reads (if P then p else []) []"
  by (simp add: reads_Nil)

lemma reads_silent: "reads p [] \<Longrightarrow> reads q y \<Longrightarrow> reads (p @ q) y"
  using reads_append [of p "[]" q y] by simp

end

section \<open>The page\<close>

datatype scan = InText bytes | InTag bytes bytes

fun html_step :: "(bytes \<times> bytes) list \<times> scan \<Rightarrow> char \<Rightarrow> (bytes \<times> bytes) list \<times> scan" where
  "html_step (T, InText a) c = (if c = CHR ''<'' then (T, InTag a []) else (T, InText (c # a)))"
| "html_step (T, InTag a t) c = (if c = CHR ''>'' then (T @ [(unescape_html (rev a), rev t)], InText []) else (T, InTag a (c # t)))"

text \<open>The tags of a page in order, each with the decoded text before it.\<close>

definition html_parse :: "bytes \<Rightarrow> (bytes \<times> bytes) list" where
  "html_parse s = fst (foldl html_step ([], InText []) s)"

text \<open>The rows of the tables: the rows so far, the cells of the current row, the text of the current cell.\<close>

fun cell_step :: "bytes list list \<times> bytes list \<times> bytes \<Rightarrow> bytes \<times> bytes \<Rightarrow> bytes list list \<times> bytes list \<times> bytes" where
  "cell_step (rows, cells, cell) (txt, tag) =
    (if tag = ''tr'' then (rows, [], [])
     else if tag = ''/td'' \<or> tag = ''/th'' then (rows, cells @ [cell @ txt], [])
     else if tag = ''/tr'' then (rows @ [cells], [], [])
     else if prefix ''td'' tag \<or> prefix ''th'' tag then (rows, cells, [])
     else (rows, cells, cell @ txt))"

definition html_table :: "bytes \<Rightarrow> bytes list list" where
  "html_table s = fst (foldl cell_step ([], [], []) (html_parse s))"

definition emits :: "bytes \<Rightarrow> (bytes \<times> bytes) list \<Rightarrow> bool" where
  "emits p toks \<longleftrightarrow> (\<forall>T. foldl html_step (T, InText []) p = (T @ toks, InText []))"

lemma emits_Nil: "emits [] []"
  by (simp add: emits_def)

lemma emits_append: "emits p x \<Longrightarrow> emits q y \<Longrightarrow> emits (p @ q) (x @ y)"
  by (simp add: emits_def)

interpretation page: piecewise emits
  by unfold_locales (auto intro: emits_Nil emits_append)

lemma emits_parse: "emits p toks \<Longrightarrow> html_parse p = toks"
  by (simp add: emits_def html_parse_def)

lemma scan_text: "CHR ''<'' \<notin> set s \<Longrightarrow> foldl html_step (T, InText a) s = (T, InText (rev s @ a))"
  by (induction s arbitrary: a) auto

lemma unescape_plain: "CHR ''&'' \<notin> set s \<Longrightarrow> unescape_html s = s"
  by (induction s) auto

lemma escape_html_no_lt: "CHR ''<'' \<notin> set (escape_html s)"
  using escape_html_safe [of s] by auto

lemma unescape_escape: "unescape_html (escape_html s) = s"
  using escape_html_safe [of s] by simp

lemma show_nat_no_markup: "CHR ''<'' \<notin> set (show_nat n)" "CHR ''&'' \<notin> set (show_nat n)"
  using show_nat_codes [of "CHR ''<''" n] show_nat_codes [of "CHR ''&''" n] by auto

lemmas scan_simps = scan_text escape_html_no_lt unescape_escape show_nat_no_markup unescape_plain

lemma emits_td_num: "emits (td_num n) [([], ''td class=\"num\"''), (u64_str n, ''/td'')]"
  by (simp add: emits_def td_num_def scan_simps)

lemma emits_td_host: "emits (td_host h) [([], ''td''), ([], ''code''), (h, ''/code''), ([], ''/td'')]"
  by (simp add: emits_def td_host_def scan_simps)

lemma emits_td_reason: "emits (td_reason r) [([], ''td''), (or_dash r, ''/td'')]"
  by (simp add: emits_def td_reason_def scan_simps split: option.split)

lemma emits_tr: "emits ''<tr>'' [([], ''tr'')]" "emits ''</tr>'' [([], ''/tr'')]"
  by (simp_all add: emits_def)

definition row_tokens :: "bytes \<Rightarrow> u64 list \<Rightarrow> bytes option \<Rightarrow> (bytes \<times> bytes) list" where
  "row_tokens h cells reason = [([], ''tr'')] @ [([], ''td''), ([], ''code''), (h, ''/code''), ([], ''/td'')] @
     concat (map (\<lambda>n. [([], ''td class=\"num\"''), (u64_str n, ''/td'')]) cells) @ [([], ''td''), (or_dash reason, ''/td'')] @ [([], ''/tr'')]"

lemma emits_html_row: "emits (html_row h cells reason) (row_tokens h cells reason)"
  unfolding html_row_def row_tokens_def
  by (intro emits_append page.reads_concat emits_tr emits_td_host emits_td_reason emits_td_num)

lemma cells_num:
  "foldl cell_step (rows, cells, []) (concat (map (\<lambda>n. [([], ''td class=\"num\"''), (u64_str n, ''/td'')]) ns)) = (rows, cells @ map u64_str ns, [])"
  by (induction ns arbitrary: cells) auto

definition row_texts :: "bytes \<Rightarrow> u64 list \<Rightarrow> bytes option \<Rightarrow> bytes list" where
  "row_texts h cells reason = h # map u64_str cells @ [or_dash reason]"

lemma cells_row: "foldl cell_step (rows, cs, c) (row_tokens h cells reason) = (rows @ [row_texts h cells reason], [], [])"
  by (simp add: row_tokens_def row_texts_def cells_num)

text \<open>The tags of the page: those around the rows of its table, and those in them.\<close>

definition outer_tags :: "bytes list" where
  "outer_tags = [''!doctype html'', ''html'', ''head'', ''meta charset=\"utf-8\"'',
    ''meta name=\"viewport\" content=\"width=device-width, initial-scale=1\"'', ''title'', ''/title'', ''style'', ''/style'', ''/head'', ''body'',
    ''h1'', ''/h1'', ''h2'', ''/h2'', ''div'', ''/div'', ''div class=\"meta\"'', ''div class=\"card\"'', ''div class=\"muted\"'', ''strong'', ''/strong'',
    ''code'', ''/code'', ''em'', ''/em'', ''table'', ''thead'', ''/thead'', ''tbody'', ''/tbody'', ''/table'', ''p class=\"muted\"'', ''/p'', ''/body'', ''/html'']"

definition row_tags :: "bytes list" where
  "row_tags = [''tr'', ''/tr'', ''th'', ''th class=\"num\"'', ''/th'', ''td'', ''td class=\"num\"'', ''/td'', ''code'', ''/code'']"

definition outer :: "bytes \<Rightarrow> bool" where
  "outer p \<longleftrightarrow> (\<exists>toks. emits p toks \<and> snd ` set toks \<subseteq> set outer_tags)"

lemma outerI: "emits p toks \<Longrightarrow> snd ` set toks \<subseteq> set outer_tags \<Longrightarrow> outer p"
  by (auto simp: outer_def)

lemma outer_Nil: "outer []"
  by (rule outerI [OF emits_Nil]) simp

lemma outer_append: "outer p \<Longrightarrow> outer q \<Longrightarrow> outer (p @ q)"
  unfolding outer_def by (metis Un_least emits_append image_Un set_append)

lemma outer_tags_plain:
  "list_all (\<lambda>tag. tag \<noteq> ''tr'' \<and> tag \<noteq> ''/td'' \<and> tag \<noteq> ''/th'' \<and> tag \<noteq> ''/tr'' \<and> \<not> prefix ''td'' tag \<and>
     (prefix ''th'' tag \<longrightarrow> tag = ''thead'')) outer_tags"
  by (simp add: outer_tags_def)

lemma cells_outer:
  "snd ` set toks \<subseteq> set outer_tags \<Longrightarrow> \<exists>cs' c'. foldl cell_step (rows, cs, c) toks = (rows, cs', c')"
proof (induction toks arbitrary: cs c)
  case (Cons x toks)
  obtain u tag where x: "x = (u, tag)" by (cases x)
  then have "tag \<in> set outer_tags" using Cons.prems by auto
  then have "\<exists>c1. cell_step (rows, cs, c) (u, tag) = (rows, cs, c1)"
    using outer_tags_plain by (simp add: list_all_iff)
  then show ?case using Cons x by auto
qed simp

lemma page_css_no_lt: "CHR ''<'' \<notin> set page_css"
  by (simp add: page_css_def)

lemma outer_page_head: "outer page_head"
  unfolding page_head_def outer_def emits_def by (simp add: scan_text page_css_no_lt outer_tags_def)

lemma outer_path: "outer (''<div><strong>Receipts file:</strong> <code>'' @ escape_html s @ ''</code></div>'')"
  unfolding outer_def emits_def by (simp add: scan_simps outer_tags_def)

lemma outer_line: "CHR ''<'' \<notin> set label \<Longrightarrow> CHR ''<'' \<notin> set value \<Longrightarrow> outer (html_line label value)"
  unfolding outer_def emits_def by (simp add: html_line_def scan_simps outer_tags_def)

lemma outer_if: "(P \<Longrightarrow> outer p) \<Longrightarrow> outer (if P then p else [])"
  by (simp add: outer_Nil)

lemma outer_ends: "outer ''</div>''" "outer ''</body></html>''" "outer ''<div class=\"card\">''"
  "outer ''<div class=\"card\"><em>(no hosts recorded yet)</em></div>''" "outer ''<table><thead>''" "outer ''</thead><tbody>''" "outer ''</tbody></table>''"
  "outer ''<h2>Top Domains (by compliance actions)</h2>''"
  "outer ''<p class=\"muted\">html_rewrite counters track rewritten responses; element removals are best-effort and may undercount/overcount due to selector overlap.</p>''"
  unfolding outer_def emits_def by (simp_all add: outer_tags_def)

lemma outer_page_meta: "outer (page_meta s data)"
proof -
  have "outer (case rd_version data of Some v \<Rightarrow> html_line ''Version'' (u64_str v) | None \<Rightarrow> [])"
    "outer (case rd_generated_unix data of Some ts \<Rightarrow> html_line ''Generated (unix)'' (u64_str ts) | None \<Rightarrow> [])"
    by (auto split: option.split intro!: outer_line outer_Nil simp: show_nat_no_markup)
  moreover have "page_meta s data = (''<div><strong>Receipts file:</strong> <code>'' @ escape_html s @ ''</code></div>'') @
    (case rd_version data of Some v \<Rightarrow> html_line ''Version'' (u64_str v) | None \<Rightarrow> []) @
    (case rd_generated_unix data of Some ts \<Rightarrow> html_line ''Generated (unix)'' (u64_str ts) | None \<Rightarrow> []) @ ''</div>''"
    by (simp only: page_meta_def append_assoc)
  ultimately show ?thesis by (simp only:) (intro outer_append outer_path outer_ends)
qed

lemma outer_totals_card: "outer (html_totals_card t)"
  unfolding html_totals_card_def Let_def
  by (intro outer_append outer_if outer_ends; rule outer_line) (simp_all add: scan_simps)

lemma outer_filter_card:
  "outer (''<div class=\"card\"><div><strong>Host filter:</strong> <code>'' @ escape_html f @ ''</code></div><div class=\"muted\">Matches: '' @
     show_nat n @ ''</div></div>'')"
  unfolding outer_def emits_def by (simp add: scan_simps outer_tags_def)

section \<open>The table of the page\<close>

definition head_tokens :: "bytes list \<Rightarrow> (bytes \<times> bytes) list" where
  "head_tokens columns = concat (map (\<lambda>c. [([], if c = ''Host'' \<or> c = ''Last reason'' then ''th'' else ''th class=\"num\"''), (c, ''/th'')]) columns)"

definition filter_columns :: "bytes list" where
  "filter_columns = [''Host'', ''Seen'', ''MITM'', ''Pass'', ''DNS blk'', ''CK hdrs'', ''HTML rw'', ''Scr rm'', ''Pix rm'', ''Cos rm'', ''Bytes saved'', ''Last reason'']"

definition action_columns :: "bytes list" where
  "action_columns = [''Host'', ''Actions'', ''DNS blk'', ''CNAME'', ''CK hdrs'', ''HTML rw'', ''HTML skip'', ''Scr rm'', ''Pix rm'', ''Cos rm'', ''Bytes saved'', ''Last reason'']"

lemma emits_filter_head: "emits filter_head (head_tokens filter_columns)"
  by (simp add: emits_def filter_head_def head_tokens_def filter_columns_def)

lemma emits_action_head: "emits action_head (head_tokens action_columns)"
  by (simp add: emits_def action_head_def head_tokens_def action_columns_def)

lemma cells_head: "foldl cell_step (rows, cells, []) (head_tokens columns) = (rows, cells @ columns, [])"
  by (induction columns arbitrary: cells) (auto simp: head_tokens_def)

lemma cells_rows:
  "\<exists>cs' c'. foldl cell_step (rows, cs, c) (concat (map (\<lambda>x. row_tokens (h x) (ns x) (reason x)) xs)) =
     (rows @ map (\<lambda>x. row_texts (h x) (ns x) (reason x)) xs, cs', c')"
proof (induction xs arbitrary: rows cs c)
  case (Cons x xs)
  show ?case using Cons.IH [of "rows @ [row_texts (h x) (ns x) (reason x)]" "[]" "[]"] by (simp add: cells_row)
qed simp

lemma row_tokens_tags: "snd ` set (row_tokens h ns reason) \<subseteq> set row_tags"
  by (auto simp: row_tokens_def row_tags_def)

lemma head_tokens_tags: "snd ` set (head_tokens columns) \<subseteq> set row_tags"
  by (auto simp: head_tokens_def row_tags_def split: if_splits)

lemma page_with_table:
  fixes ns :: "'a \<Rightarrow> u64 list"
  assumes "outer pre" "outer post" "emits columns_html (head_tokens columns)"
    and out: "out = pre @ ''<table><thead><tr>'' @ columns_html @ ''</tr></thead><tbody>'' @
      concat (map (\<lambda>x. html_row (h x) (ns x) (reason x)) xs) @ ''</tbody></table>'' @ post"
  shows "html_table out = columns # map (\<lambda>x. row_texts (h x) (ns x) (reason x)) xs \<and>
    snd ` set (html_parse out) \<subseteq> set outer_tags \<union> set row_tags"
proof -
  let ?rows = "concat (map (\<lambda>x. row_tokens (h x) (ns x) (reason x)) xs)"
  obtain a where a: "emits (pre @ ''<table><thead>'') a" "snd ` set a \<subseteq> set outer_tags"
    using outer_append [OF assms(1) outer_ends(5)] by (auto simp: outer_def)
  obtain m where m: "emits ''</thead><tbody>'' m" "snd ` set m \<subseteq> set outer_tags" using outer_ends(6) by (auto simp: outer_def)
  obtain z where z: "emits (''</tbody></table>'' @ post) z" "snd ` set z \<subseteq> set outer_tags"
    using outer_append [OF outer_ends(7) assms(2)] by (auto simp: outer_def)
  have split: "out = (pre @ ''<table><thead>'') @ ''<tr>'' @ columns_html @ ''</tr>'' @ ''</thead><tbody>'' @
      concat (map (\<lambda>x. html_row (h x) (ns x) (reason x)) xs) @ (''</tbody></table>'' @ post)"
    by (simp add: out)
  have p: "html_parse out = a @ [([], ''tr'')] @ head_tokens columns @ [([], ''/tr'')] @ m @ ?rows @ z"
    unfolding split by (intro emits_parse emits_append page.reads_concat emits_html_row emits_tr a m z assms(3))
  obtain c1 c2 where 1: "foldl cell_step ([], [], []) a = ([], c1, c2)" using cells_outer [OF a(2), of "[]" "[]" "[]"] by blast
  obtain c3 c4 where 2: "foldl cell_step ([columns], [], []) m = ([columns], c3, c4)"
    using cells_outer [OF m(2), of "[columns]" "[]" "[]"] by blast
  let ?t = "[columns] @ map (\<lambda>x. row_texts (h x) (ns x) (reason x)) xs"
  obtain c5 c6 where 3: "foldl cell_step ([columns], c3, c4) ?rows = (?t, c5, c6)"
    using cells_rows [of "[columns]" c3 c4 h ns reason xs] by blast
  obtain c7 c8 where 4: "foldl cell_step (?t, c5, c6) z = (?t, c7, c8)" using cells_outer [OF z(2), of ?t c5 c6] by blast
  have "html_table out = columns # map (\<lambda>x. row_texts (h x) (ns x) (reason x)) xs"
    unfolding html_table_def p by (simp add: 1 2 3 4 [simplified] cells_head)
  moreover have "snd ` set (html_parse out) \<subseteq> set outer_tags \<union> set row_tags"
    using a(2) m(2) z(2) head_tokens_tags [of columns] row_tokens_tags
    unfolding p by (fastforce simp: row_tags_def image_subset_iff)
  ultimately show ?thesis by simp
qed

text \<open>C28: the HTML compliance report can be trusted: whatever bytes the host names, the reasons, the filter and
  the path hold, the page has only the tags of its template, so nothing is injected; and a reader who decodes the
  cells gets exactly the table that is meant, one row for each matching host (or each of the ranked hosts), with the
  host, its figures and its last reason as they are in the receipts.\<close>
theorem compliance_page_faithful:
  "html_table (compliance_html shown_path data top_hosts host_filter) =
     (if rd_hosts data = [] then []
      else case host_filter of
        Some f \<Rightarrow> filter_columns # map (\<lambda>(h, r). row_texts h (filter_cells r) (hr_last_reason r)) (host_filter_matches f (rd_hosts data))
      | None \<Rightarrow> action_columns # map (\<lambda>(h, r, a). row_texts h (action_cells r a) (hr_last_reason r)) (compliance_rows top_hosts (rd_hosts data))) \<and>
   snd ` set (html_parse (compliance_html shown_path data top_hosts host_filter)) \<subseteq> set outer_tags \<union> set row_tags"
proof -
  let ?pre = "page_head @ page_meta shown_path data"
  have pre: "outer ?pre" by (intro outer_append outer_page_head outer_page_meta)
  consider (empty) "rd_hosts data = []" | (matches) f where "rd_hosts data \<noteq> []" "host_filter = Some f"
    | (all) "rd_hosts data \<noteq> []" "host_filter = None" by blast
  then show ?thesis
  proof cases
    case empty
    have "outer (?pre @ ''<div class=\"card\"><em>(no hosts recorded yet)</em></div>'' @ ''</body></html>'')"
      by (intro outer_append [OF pre] outer_append outer_ends)
    then obtain toks where toks: "emits (compliance_html shown_path data top_hosts host_filter) toks" "snd ` set toks \<subseteq> set outer_tags"
      using empty by (auto simp: compliance_html_def outer_def)
    then show ?thesis using empty cells_outer [OF toks(2), of "[]" "[]" "[]"] by (auto simp: html_table_def emits_parse)
  next
    case matches
    let ?card = "''<div class=\"card\"><div><strong>Host filter:</strong> <code>'' @ escape_html (normalize_host f) @
      ''</code></div><div class=\"muted\">Matches: '' @ show_nat (length (host_filter_matches f (rd_hosts data))) @ ''</div></div>''"
    have "compliance_html shown_path data top_hosts host_filter = (?pre @ ?card) @ ''<table><thead><tr>'' @ filter_head @ ''</tr></thead><tbody>'' @
      concat (map (\<lambda>x. html_row (fst x) (filter_cells (snd x)) (hr_last_reason (snd x))) (host_filter_matches f (rd_hosts data))) @
      ''</tbody></table>'' @ ''</body></html>''"
      using matches by (simp add: compliance_html_def html_filter_section_def case_prod_unfold Let_def)
    from page_with_table [OF outer_append [OF pre outer_filter_card] outer_ends(2) emits_filter_head this]
    show ?thesis using matches by (simp add: case_prod_unfold)
  next
    case all
    have "compliance_html shown_path data top_hosts host_filter =
      (?pre @ html_totals_card (compliance_sum (rd_hosts data)) @ ''<h2>Top Domains (by compliance actions)</h2>'') @
      ''<table><thead><tr>'' @ action_head @ ''</tr></thead><tbody>'' @
      concat (map (\<lambda>x. html_row (fst x) (action_cells (fst (snd x)) (snd (snd x))) (hr_last_reason (fst (snd x)))) (compliance_rows top_hosts (rd_hosts data))) @
      ''</tbody></table>'' @ (''<p class=\"muted\">html_rewrite counters track rewritten responses; element removals are best-effort and may undercount/overcount due to selector overlap.</p>'' @
      ''</body></html>'')"
      using all by (simp add: compliance_html_def html_actions_section_def case_prod_unfold Let_def)
    from page_with_table [OF _ _ emits_action_head this, OF outer_append [OF pre outer_append [OF outer_totals_card outer_ends(8)]]
        outer_append [OF outer_ends(9,2)]]
    show ?thesis using all by (simp add: case_prod_unfold)
  qed
qed

section \<open>The text reports\<close>

text \<open>The lines of a text that begin the block of a host.\<close>

definition host_lines :: "bytes \<Rightarrow> bytes list \<Rightarrow> bool" where
  "host_lines p hs \<longleftrightarrow> (\<exists>ls. (\<forall>t. split_on LF (p @ t) = ls @ split_on LF t) \<and> filter (prefix ''Host: '') ls = hs)"

lemma host_lines_append: "host_lines p x \<Longrightarrow> host_lines q y \<Longrightarrow> host_lines (p @ q) (x @ y)"
  unfolding host_lines_def by (metis append_assoc filter_append)

interpretation blocks: piecewise host_lines
  by unfold_locales (auto simp: host_lines_def intro: host_lines_append [unfolded host_lines_def])

lemma host_line: "LF \<notin> set h \<Longrightarrow> host_lines (writeln (''Host: '' @ h)) [''Host: '' @ h]"
  unfolding host_lines_def using split_on_writeln [of "''Host: '' @ h"] by (auto intro!: exI [of _ "[''Host: '' @ h]"])

lemma other_line: "LF \<notin> set s \<Longrightarrow> \<not> prefix ''Host: '' s \<Longrightarrow> host_lines (writeln s) []"
  unfolding host_lines_def using split_on_writeln [of s] by (auto intro!: exI [of _ "[s]"])

lemma fmt_percent_no_LF [simp]: "LF \<notin> set (fmt_percent a b)"
  by (auto simp: fmt_percent_def split: option.splits)

lemma read_host_lines: "host_lines p hs \<Longrightarrow> filter (prefix ''Host: '') (split_on LF p) = hs"
  unfolding host_lines_def by (metis append_Nil2 append_self_conv filter_append split_on.simps(1) filter.simps prefix_Nil list.distinct(1))

lemma writeln_silent: "LF \<notin> set s \<Longrightarrow> \<not> prefix ''Host: '' s \<Longrightarrow> host_lines q y \<Longrightarrow> host_lines (writeln s @ q) y"
  by (rule blocks.reads_silent [OF other_line])

lemma receipts_host_block_lines: "LF \<notin> set h \<Longrightarrow> host_lines (receipts_host_block printable (h, r)) [''Host: '' @ h]"
  unfolding receipts_host_block_def Let_def prod.case
  by (rule host_lines_append [where y = "[]", simplified append_Nil2], rule host_line, assumption)
     (intro writeln_silent blocks.reads_silent blocks.reads_if other_line; simp)

lemma compliance_host_block_lines: "LF \<notin> set h \<Longrightarrow> host_lines (compliance_host_block printable (h, r)) [''Host: '' @ h]"
  unfolding compliance_host_block_def Let_def prod.case
  by (rule host_lines_append [where y = "[]", simplified append_Nil2], rule host_line, assumption)
     (intro writeln_silent blocks.reads_silent blocks.reads_if other_line; simp)

lemma report_preamble_lines:
  assumes "LF \<notin> set title" "LF \<notin> set s" "\<not> prefix ''Host: '' (title @ s)"
  shows "host_lines (report_preamble title s data) []"
  unfolding report_preamble_def
  by (intro writeln_silent blocks.reads_silent blocks.reads_option other_line; simp add: assms)

lemma filter_preamble_lines: "LF \<notin> set f \<Longrightarrow> host_lines (filter_preamble f n) []"
  unfolding filter_preamble_def by (intro writeln_silent other_line; simp)

lemma filtered_report_lines:
  assumes "host_lines pre []" "LF \<notin> set f" "\<And>h r. (h, r) \<in> set matched \<Longrightarrow> host_lines (block (h, r)) [''Host: '' @ h]"
  shows "filter (prefix ''Host: '') (split_on LF (pre @ filter_preamble f n @ concat (map block matched))) = map (\<lambda>(h, _). ''Host: '' @ h) matched"
proof (rule read_host_lines)
  have "host_lines (concat (map block matched)) (concat (map (\<lambda>(h, _). [''Host: '' @ h]) matched))"
    by (rule blocks.reads_concat) (use assms(3) in auto)
  also have "concat (map (\<lambda>(h, _). [''Host: '' @ h]) matched) = map (\<lambda>(h, _). ''Host: '' @ h) matched" by (induction matched) auto
  finally show "host_lines (pre @ filter_preamble f n @ concat (map block matched)) (map (\<lambda>(h, _). ''Host: '' @ h) matched)"
    by (intro blocks.reads_silent assms(1) filter_preamble_lines assms(2))
qed

lemma set_host_filter_matches: "set (host_filter_matches f hosts) = {(h, r) \<in> set hosts. h = normalize_host f \<or> suffix (CHR ''.'' # normalize_host f) h}"
  by (auto simp: host_filter_matches_def Let_def)

lemma host_filter_matches_sorted: "sorted_wrt (\<lambda>(_, r) (_, q). hr_last_seen_unix q \<le> hr_last_seen_unix r) (host_filter_matches f hosts)"
  using sorted_sort_key [of "\<lambda>(_, r). - int (unat (hr_last_seen_unix r))"]
  by (simp add: host_filter_matches_def Let_def sorted_map word_le_def case_prod_unfold)

text \<open>A filtered text report names exactly the hosts that match: reading it by lines, the lines that begin a host's
  block are, in order, those of the hosts equal to the filter or below it, most recently seen first. This needs that no host,
  and neither the filter nor the displayed path, holds a line feed.\<close>
theorem filtered_text_reports:
  assumes "LF \<notin> set shown_path" "LF \<notin> set (normalize_host f)" "\<forall>(h, r) \<in> set (rd_hosts data). LF \<notin> set h"
  shows "filter (prefix ''Host: '') (split_on LF (receipts_text printable shown_path data top_hosts (Some f))) =
      map (\<lambda>(h, _). ''Host: '' @ h) (host_filter_matches f (rd_hosts data)) \<and>
    filter (prefix ''Host: '') (split_on LF (compliance_text printable shown_path data top_hosts (Some f))) =
      map (\<lambda>(h, _). ''Host: '' @ h) (host_filter_matches f (rd_hosts data)) \<and>
    set (host_filter_matches f (rd_hosts data)) = {(h, r) \<in> set (rd_hosts data). h = normalize_host f \<or> suffix (CHR ''.'' # normalize_host f) h} \<and>
    sorted_wrt (\<lambda>(_, r) (_, q). hr_last_seen_unix q \<le> hr_last_seen_unix r) (host_filter_matches f (rd_hosts data))"
proof -
  have lf: "LF \<notin> set h" if "(h, r) \<in> set (host_filter_matches f (rd_hosts data))" for h r
    using that assms(3) by (auto simp: set_host_filter_matches)
  have pre: "host_lines (report_preamble ''Privacy receipts: '' shown_path data) []"
    "host_lines (report_preamble ''Privacy compliance report: '' shown_path data) []"
    by (auto intro!: report_preamble_lines simp: assms(1))
  have none: "host_filter_matches f [] = []" by (simp add: host_filter_matches_def)
  have empty: "host_lines (pre @ writeln ''(no hosts recorded yet)'') []" if "host_lines pre []" for pre
    by (intro blocks.reads_silent that other_line; simp)
  have "filter (prefix ''Host: '') (split_on LF (receipts_text printable shown_path data top_hosts (Some f))) =
      map (\<lambda>(h, _). ''Host: '' @ h) (host_filter_matches f (rd_hosts data))"
    by (cases "rd_hosts data = []")
      (simp_all add: receipts_text_def Let_def none read_host_lines [OF empty [OF pre(1)]]
        filtered_report_lines [OF pre(1) assms(2) receipts_host_block_lines [OF lf]])
  moreover have "filter (prefix ''Host: '') (split_on LF (compliance_text printable shown_path data top_hosts (Some f))) =
      map (\<lambda>(h, _). ''Host: '' @ h) (host_filter_matches f (rd_hosts data))"
    by (cases "rd_hosts data = []")
      (simp_all add: compliance_text_def Let_def none read_host_lines [OF empty [OF pre(2)]]
        filtered_report_lines [OF pre(2) assms(2) compliance_host_block_lines [OF lf]])
  ultimately show ?thesis using set_host_filter_matches host_filter_matches_sorted by blast
qed

text \<open>A host with a line feed forges a block: the report then names a host that has no receipt. Server names
  are taken from the ClientHello as they are, line feeds included.\<close>

lemma line_feed_forges_host:
  assumes "LF \<notin> set a" "LF \<notin> set b"
  shows "filter (prefix ''Host: '') (split_on LF (receipts_host_block printable (a @ LF # ''Host: '' @ b, r))) = [''Host: '' @ a, ''Host: '' @ b]"
proof (rule read_host_lines)
  have w: "writeln (''Host: '' @ a @ LF # ''Host: '' @ b) = writeln (''Host: '' @ a) @ writeln (''Host: '' @ b)" by (simp add: writeln_def)
  have "host_lines (writeln (''Host: '' @ a) @ writeln (''Host: '' @ b)) [''Host: '' @ a, ''Host: '' @ b]"
    using host_lines_append [OF host_line [OF assms(1)] host_line [OF assms(2)]] by simp
  then show "host_lines (receipts_host_block printable (a @ LF # ''Host: '' @ b, r)) [''Host: '' @ a, ''Host: '' @ b]"
    unfolding receipts_host_block_def Let_def prod.case w
    by (rule host_lines_append [where y = "[]", simplified append_Nil2])
       (intro writeln_silent blocks.reads_silent blocks.reads_if other_line; simp)
qed

section \<open>Tables and totals\<close>

text \<open>Every ranked table shows the right rows: the hosts with a positive figure are listed, with that figure, the
  largest first, no omitted host has a larger figure than a listed one, and between one and 200 rows are asked for,
  whatever number is configured.\<close>
theorem report_tables_ranked:
  "largest_rows (\<lambda>(_, r). hr_seen_total r) (clamp_top n) hosts (top_hosts_rows n hosts) \<and>
   list_all (\<lambda>rows. largest_rows (\<lambda>(_, _, k). k) (clamp_top n) (rows hosts) (ranked n (rows hosts)))
     [dns_rows, cookie_rows, body_rows, route_rows, action_rows] \<and>
   compliance_rows n hosts = ranked n (action_rows hosts) \<and> 1 \<le> clamp_top n \<and> clamp_top n \<le> 200 \<and>
   set (dns_rows hosts) = {(h, r, k). (h, r) \<in> set hosts \<and> 0 < k \<and>
     k = sat_add (sat_add (hr_dns_blocked_total r) (hr_dns_report_only_total r)) (hr_dns_cname_uncloaked_total r)} \<and>
   set (body_rows hosts) = {(h, r, k). (h, r) \<in> set hosts \<and> 0 < k \<and>
     k = sat_add (sat_add (hr_body_rewrite_total r) (hr_body_rewrite_report_only_total r)) (hr_body_rewrite_skipped_total r)} \<and>
   set (route_rows hosts) = {(h, r, k). (h, r) \<in> set hosts \<and> 0 < k \<and>
     k = sat_add (sat_add (hr_routing_passthrough_total r) (hr_mitm_client_tls_reject_total r)) (hr_host_auto_pinned_total r)} \<and>
   set (action_rows hosts) = {(h, r, k). (h, r) \<in> set hosts \<and> 0 < k \<and> k = compliance_actions r} \<and>
   set (cookie_rows hosts) = {(h, r, k). (h, r) \<in> set hosts \<and> k = hr_policy_set_cookie_headers_total r \<and>
     (0 < k \<or> 0 < sat_add (hr_policy_set_cookie_stripped_total r) (hr_policy_set_cookie_would_strip_total r))}"
proof -
  have "set (rows hosts) = {(h, r, k). (h, r) \<in> set hosts \<and> P r \<and> k = key r}"
    if "rows hosts = List.map_filter (\<lambda>(h, r). if P r then Some (h, r, key r) else None) hosts"
    for rows :: "(bytes \<times> host_receipt) list \<Rightarrow> (bytes \<times> host_receipt \<times> u64) list" and P and key :: "host_receipt \<Rightarrow> u64"
    unfolding that set_map_filter_Some by (force split: if_splits)
  note rows = this
  show ?thesis
  proof (intro conjI seen.rank_largest compliance_rows_ranked)
    show "list_all (\<lambda>rows. largest_rows (\<lambda>(_, _, k). k) (clamp_top n) (rows hosts) (ranked n (rows hosts)))
       [dns_rows, cookie_rows, body_rows, route_rows, action_rows]" by (simp add: ranked.rank_largest)
    show "1 \<le> clamp_top n" "clamp_top n \<le> 200" by (simp_all add: clamp_top_def)
  qed (subst rows, simp add: table_rows_defs, force)+
qed

text \<open>The totals of the receipts report are those of the compliance report.\<close>

lemma text_totals_fold:
  "fold (\<lambda>(_, r) t. text_totals_add t r) hosts t = \<lparr>
     tt_seen = fold (\<lambda>(_, r) a. sat_add a (hr_seen_total r)) hosts (tt_seen t),
     tt_mitm_attempt = fold (\<lambda>(_, r) a. sat_add a (hr_mitm_attempt_total r)) hosts (tt_mitm_attempt t),
     tt_mitm_success = fold (\<lambda>(_, r) a. sat_add a (hr_mitm_success_total r)) hosts (tt_mitm_success t),
     tt_mitm_failure = fold (\<lambda>(_, r) a. sat_add a (hr_mitm_failure_total r)) hosts (tt_mitm_failure t),
     tt_tls_reject = fold (\<lambda>(_, r) a. sat_add a (hr_mitm_client_tls_reject_total r)) hosts (tt_tls_reject t),
     tt_auto_pinned = fold (\<lambda>(_, r) a. sat_add a (hr_host_auto_pinned_total r)) hosts (tt_auto_pinned t),
     tt_cookie_would = fold (\<lambda>(_, r) a. sat_add a (hr_policy_set_cookie_would_strip_total r)) hosts (tt_cookie_would t),
     tt_cookie_stripped = fold (\<lambda>(_, r) a. sat_add a (hr_policy_set_cookie_stripped_total r)) hosts (tt_cookie_stripped t),
     tt_cookie_headers = fold (\<lambda>(_, r) a. sat_add a (hr_policy_set_cookie_headers_total r)) hosts (tt_cookie_headers t),
     tt_dns_blocked = fold (\<lambda>(_, r) a. sat_add a (hr_dns_blocked_total r)) hosts (tt_dns_blocked t),
     tt_dns_report_only = fold (\<lambda>(_, r) a. sat_add a (hr_dns_report_only_total r)) hosts (tt_dns_report_only t),
     tt_dns_cname_uncloaked = fold (\<lambda>(_, r) a. sat_add a (hr_dns_cname_uncloaked_total r)) hosts (tt_dns_cname_uncloaked t),
     tt_consent_blocked = fold (\<lambda>(_, r) a. sat_add a (hr_consent_enforcement_blocked_total r)) hosts (tt_consent_blocked t),
     tt_consent_report_only = fold (\<lambda>(_, r) a. sat_add a (hr_consent_enforcement_report_only_total r)) hosts (tt_consent_report_only t)\<rparr>"
proof (induction hosts arbitrary: t)
  case (Cons x hosts)
  obtain h r where x: "x = (h, r)" by (cases x)
  show ?case by (simp only: x fold_Cons o_apply split Cons.IH) (simp only: text_totals_add_def text_totals.simps)
qed simp

theorem text_totals_agree:
  "text_totals_sum hosts = (let c = compliance_sum hosts in \<lparr>
     tt_seen = ct_seen_total c, tt_mitm_attempt = ct_mitm_attempt_total c, tt_mitm_success = ct_mitm_success_total c,
     tt_mitm_failure = ct_mitm_failure_total c, tt_tls_reject = ct_mitm_client_tls_reject_total c, tt_auto_pinned = ct_host_auto_pinned_total c,
     tt_cookie_would = ct_cookie_report_only_events_total c, tt_cookie_stripped = ct_cookie_stripped_events_total c,
     tt_cookie_headers = ct_set_cookie_headers_total c, tt_dns_blocked = ct_dns_blocked_total c, tt_dns_report_only = ct_dns_report_only_total c,
     tt_dns_cname_uncloaked = ct_dns_cname_uncloaked_total c, tt_consent_blocked = ct_consent_blocked_total c,
     tt_consent_report_only = ct_consent_report_only_total c\<rparr>)"
  by (simp add: text_totals_sum_def text_totals_fold compliance_sum_def compliance_fold text_totals_zero_def compliance_default_def)

section \<open>Witnesses\<close>

definition wit_report :: receipts_report_data where
  "wit_report = \<lparr>rd_version = Some 1, rd_generated_unix = None, rd_hosts = [(''a.com'', wit_receipt), (''x.b.com'', wit_receipt), (''b.com'', wit_receipt)]\<rparr>"

theorem filtered_text_reports_witness:
  "filter (prefix ''Host: '') (split_on LF (receipts_text (\<lambda>n. True) ''/r/receipts.json'' wit_report 20 (Some ''B.com.''))) =
    [''Host: x.b.com'', ''Host: b.com'']"
proof -
  have n: "normalize_host ''B.com.'' = ''b.com''" by code_simp
  have m: "host_filter_matches ''B.com.'' (rd_hosts wit_report) = [(''x.b.com'', wit_receipt), (''b.com'', wit_receipt)]"
    by (simp add: host_filter_matches_def n wit_report_def suffix_def Let_def)
  have "LF \<notin> set (''/r/receipts.json'' :: bytes)" "LF \<notin> set (normalize_host ''B.com.'')" "\<forall>(h, r) \<in> set (rd_hosts wit_report). LF \<notin> set h"
    by (simp_all add: n wit_report_def)
  from filtered_text_reports [OF this, THEN conjunct1, of "\<lambda>n. True" 20] show ?thesis by (simp add: m)
qed

end
