(* ===== verification/Dashboard_Page.thy ===== *)
theory Dashboard_Page
  imports Dashboard Report_Reading
begin

text \<open>
  The page of the dashboard, the script in \<open>DASHBOARD_HTML\<close> of \<^verbatim>\<open>src/dashboard.rs\<close>: the cards of the counters, the
  table of the hosts with its sorting and search, the table of the DoH clients, the setup section and the
  button that resets the pins. The state of the script is a record, with the text and the markup
  that it puts into the elements of the page; a handler of an event takes and gives the page, and those
  that call the server its state too. The locale-dependent printing of numbers, times and the comparison of
  strings are fields of the browser, as is the reader of JSON. Numbers are those of JavaScript: an integer of
  the server is rounded to 53 significant bits.

  The definitions describe the script on documents whose values are of the kinds that the server sends (a number or nothing where the
  script shows a number, a string where it escapes one). What the script does with a document of another shape, with its coercions of values
  and its exceptions, is a field of the browser that may do anything to the page; so a property of a session has to
  show that no such document is met.
\<close>

section \<open>Numbers, objects and sorting of the script's language\<close>

fun js_shift :: "nat \<Rightarrow> nat" where
  "js_shift n = (if n < 2 ^ 53 then 0 else Suc (js_shift (n div 2)))"

declare js_shift.simps [simp del]

text \<open>The double nearest to an integer, ties to even.\<close>

definition js_double :: "nat \<Rightarrow> nat" where
  "js_double n =
    (let k = js_shift n; q = n div 2 ^ k; r = n mod 2 ^ k
     in if 2 * r < 2 ^ k \<or> 2 * r = 2 ^ k \<and> even q then q * 2 ^ k else (q + 1) * 2 ^ k)"

text \<open>A property of a value other than \<open>null\<close>; the keys are those of the documents.\<close>

fun js_get :: "jval \<Rightarrow> bytes \<Rightarrow> jval option" where
  "js_get (JObj ob) k = map_of ob k"
| "js_get _ k = None"

text \<open>A number, with the script's \<open>?? 0\<close> or \<open>|| 0\<close>. A value of another kind has no number here.\<close>

fun js_num :: "jval option \<Rightarrow> nat" where
  "js_num (Some (JNum n)) = js_double (unat n)"
| "js_num None = 0"
| "js_num (Some JNull) = 0"

fun js_truthy :: "jval option \<Rightarrow> bool" where
  "js_truthy None = False"
| "js_truthy (Some JNull) = False"
| "js_truthy (Some (JBool b)) = b"
| "js_truthy (Some (JNum n)) = (n \<noteq> 0)"
| "js_truthy (Some (JStr s)) = (s \<noteq> [])"
| "js_truthy (Some (JArr vs)) = True"
| "js_truthy (Some (JObj ob)) = True"

fun js_str_or :: "jval option \<Rightarrow> bytes \<Rightarrow> bytes" where
  "js_str_or (Some (JStr s)) d = (if s = [] then d else s)"
| "js_str_or None d = d"
| "js_str_or (Some JNull) d = d"

text \<open>\<open>Object.entries\<close> gives the keys that are array indices first, in numeric order.\<close>

definition array_index :: "bytes \<Rightarrow> nat option" where
  "array_index s = (case parse_digits 10 (2 ^ 32 - 1) 0 s of Some n \<Rightarrow> if show_nat n = s then Some n else None | None \<Rightarrow> None)"

definition object_entries :: "(bytes \<times> jval) list \<Rightarrow> (bytes \<times> jval) list" where
  "object_entries ob = sort_key (\<lambda>(k, _). the (array_index k)) (filter (\<lambda>(k, _). array_index k \<noteq> None) ob) @
     filter (\<lambda>(k, _). array_index k = None) ob"

text \<open>\<open>Array.prototype.sort\<close> is stable.\<close>

fun js_insert :: "('a \<Rightarrow> 'a \<Rightarrow> int) \<Rightarrow> 'a \<Rightarrow> 'a list \<Rightarrow> 'a list" where
  "js_insert cmp x [] = [x]"
| "js_insert cmp x (y # ys) = (if cmp x y \<le> 0 then x # y # ys else y # js_insert cmp x ys)"

definition js_sort :: "('a \<Rightarrow> 'a \<Rightarrow> int) \<Rightarrow> 'a list \<Rightarrow> 'a list" where
  "js_sort cmp xs = foldr (js_insert cmp) xs []"

definition js_replace :: "char \<Rightarrow> bytes \<Rightarrow> bytes \<Rightarrow> bytes" where
  "js_replace c t s = concat (map (\<lambda>d. if d = c then t else [d]) s)"

section \<open>The page\<close>

record page =
  pg_prev_metrics :: jval
  pg_sort_col :: bytes
  pg_sort_asc :: bool
  pg_filter_text :: bytes
  pg_admin_token :: bytes
  pg_last_doh :: jval
  pg_last_hosts :: jval
  pg_text :: "bytes \<rightharpoonup> bytes"
  pg_html :: "bytes \<rightharpoonup> bytes"
  pg_changed :: "bytes list"
  pg_th_class :: "bytes \<rightharpoonup> bytes"
  pg_download_disabled :: bool
  pg_alerts :: "bytes list"

text \<open>\<open>br_text\<close> is the text of a value that is not a number; \<open>br_other\<close> is what a function of the script makes of the page
  when it is given a document of another shape than the server's, with whether it ends without an exception.\<close>

record browser =
  br_json :: "bytes \<Rightarrow> jval option"
  br_show_num :: "nat \<Rightarrow> bytes"
  br_locale_num :: "nat \<Rightarrow> bytes"
  br_locale_time :: "nat \<Rightarrow> bytes"
  br_compare :: "bytes \<Rightarrow> bytes \<Rightarrow> int"
  br_lower :: "bytes \<Rightarrow> bytes"
  br_text :: "jval \<Rightarrow> bytes"
  br_other :: "bytes \<Rightarrow> jval \<Rightarrow> page \<Rightarrow> page \<times> bool"

abbreviation set_text :: "bytes \<Rightarrow> bytes \<Rightarrow> page \<Rightarrow> page" where
  "set_text i t \<equiv> pg_text_update (\<lambda>m. m(i \<mapsto> t))"

abbreviation set_html :: "bytes \<Rightarrow> bytes \<Rightarrow> page \<Rightarrow> page" where
  "set_html i t \<equiv> pg_html_update (\<lambda>m. m(i \<mapsto> t))"

definition message_row :: "bytes \<Rightarrow> bytes \<Rightarrow> bytes \<Rightarrow> bytes" where
  "message_row span pad msg = ''<tr><td colspan=\"'' @ span @ ''\" style=\"text-align:center;color:var(--dim);padding:'' @ pad @ ''\">'' @ msg @ ''</td></tr>''"

definition page_initial :: page where
  "page_initial = \<lparr>pg_prev_metrics = JObj [], pg_sort_col = ''seen_total'', pg_sort_asc = False, pg_filter_text = [], pg_admin_token = [],
     pg_last_doh = JObj [(''enabled'', JBool False), (''top_clients'', JArr [])], pg_last_hosts = JObj [],
     pg_text = [''uptime'' \<mapsto> ''--'', ''policy-mode'' \<mapsto> ''--'', ''ca-path'' \<mapsto> ''--'', ''ca-state'' \<mapsto> ''--'', ''pins-count'' \<mapsto> ''--'',
       ''grace-state'' \<mapsto> ''--'', ''user-profiles-count'' \<mapsto> ''--''],
     pg_html = [''metric-cards'' \<mapsto> [], ''doh-tbody'' \<mapsto> message_row ''3'' ''1rem'' ''DoH server disabled'', ''host-thead'' \<mapsto> [], ''host-tbody'' \<mapsto> []],
     pg_changed = [], pg_th_class = Map.empty, pg_download_disabled = True, pg_alerts = []\<rparr>"

section \<open>The shapes of the documents\<close>

fun shows_number :: "jval option \<Rightarrow> bool" where
  "shows_number None = True"
| "shows_number (Some v) = (case v of JNull \<Rightarrow> True | JNum n \<Rightarrow> True | _ \<Rightarrow> False)"

fun shows_text :: "jval option \<Rightarrow> bool" where
  "shows_text None = True"
| "shows_text (Some v) = (case v of JNull \<Rightarrow> True | JStr s \<Rightarrow> True | _ \<Rightarrow> False)"

fun shows_flag :: "jval option \<Rightarrow> bool" where
  "shows_flag None = True"
| "shows_flag (Some v) = (case v of JNull \<Rightarrow> True | JBool x \<Rightarrow> True | _ \<Rightarrow> False)"

definition object_with :: "jval \<Rightarrow> bytes list \<Rightarrow> bytes list \<Rightarrow> bytes list \<Rightarrow> bool" where
  "object_with v numbers texts flags \<longleftrightarrow> (case v of JObj ob \<Rightarrow> True | _ \<Rightarrow> False) \<and>
     list_all (\<lambda>k. shows_number (js_get v k)) numbers \<and> list_all (\<lambda>k. shows_text (js_get v k)) texts \<and> list_all (\<lambda>k. shows_flag (js_get v k)) flags"

section \<open>The cards\<close>

record card =
  cd_id :: bytes
  cd_title :: bytes
  cd_accent :: bytes
  cd_metrics :: "(bytes \<times> bytes \<times> bool) list"

definition CARDS :: "card list" where
  "CARDS =
    [\<lparr>cd_id = ''connections'', cd_title = ''Connections'', cd_accent = [], cd_metrics =
       [(''connection_total'', ''Total'', True), (''passthrough_tunnel_total'', ''Passthrough'', False),
        (''mitm_attempt_total'', ''MITM Attempts'', False), (''mitm_success_total'', ''MITM Success'', False),
        (''mitm_failure_total'', ''MITM Failures'', False), (''host_auto_pinned_total'', ''Auto-Pinned'', False)]\<rparr>,
     \<lparr>cd_id = ''dns'', cd_title = ''DNS Filtering'', cd_accent = ''green'', cd_metrics =
       [(''dns_query_total'', ''Queries'', True), (''dns_blocked_total'', ''Blocked'', False),
        (''dns_report_only_total'', ''Report Only'', False), (''dns_cname_uncloaked_total'', ''CNAME Uncloaked'', False)]\<rparr>,
     \<lparr>cd_id = ''content'', cd_title = ''Content Rewriting'', cd_accent = ''blue'', cd_metrics =
       [(''body_rewrite_total'', ''Rewrites'', True), (''body_rewrite_skipped_total'', ''Skipped'', False),
        (''filter_list_rules_active'', ''Filter Rules Active'', False)]\<rparr>,
     \<lparr>cd_id = ''privacy'', cd_title = ''Privacy Enforcement'', cd_accent = ''cyan'', cd_metrics =
       [(''consent_enforcement_blocked_total'', ''Consent Blocked'', True), (''websocket_blocked_total'', ''WebSocket Blocked'', False),
        (''referer_spoofed_total'', ''Headers Modified'', False), (''cert_pin_violation_total'', ''Cert Pin Violations'', False),
        (''query_params_stripped_total'', ''Query Params Stripped'', False), (''cache_headers_stripped_total'', ''Cache Hdrs Stripped'', False),
        (''mitm_client_tls_reject_total'', ''TLS Rejected'', False)]\<rparr>,
     \<lparr>cd_id = ''doh'', cd_title = ''DoH Server'', cd_accent = ''amber'', cd_metrics =
       [(''doh_query_total'', ''Queries'', True), (''doh_unique_client_total'', ''Unique Clients'', False)]\<rparr>]"

definition card_keys :: "bytes list" where
  "card_keys = map fst (concat (map cd_metrics CARDS))"

fun metric_html :: "bytes \<times> bytes \<times> bool \<Rightarrow> bytes" where
  "metric_html (key, label, big) =
    (if big then ''<div class=\"big-number\" id=\"v-'' @ key @ ''\">0</div>''
     else ''<div class=\"metric-row\"><span class=\"metric-label\">'' @ label @ ''</span><span class=\"metric-value\" id=\"v-'' @ key @ ''\">0</span></div>'')"

definition card_html :: "card \<Rightarrow> bytes" where
  "card_html c = ''<div class=\"card'' @ (if cd_accent c = [] then [] else '' card-accent-'' @ cd_accent c) @ ''\" id=\"card-'' @ cd_id c @
     ''\"><h2>'' @ cd_title c @ ''</h2>'' @ concat (map metric_html (cd_metrics c)) @ ''</div>''"

text \<open>The elements that the markup of the cards creates have the text 0.\<close>

definition init_texts :: "bytes list \<Rightarrow> page \<Rightarrow> page" where
  "init_texts keys = fold (\<lambda>key. set_text (''v-'' @ key) ''0'') keys"

definition initCards :: "page \<Rightarrow> page" where
  "initCards p = init_texts card_keys (set_html ''metric-cards'' (concat (map card_html CARDS)) p)"

text \<open>A changed value is highlighted, until a timer removes the class.\<close>

definition update_metric :: "browser \<Rightarrow> jval \<Rightarrow> bytes \<Rightarrow> page \<Rightarrow> page" where
  "update_metric b data key p =
    (if pg_text p (''v-'' @ key) = None then p
     else let val = js_num (js_get data key); prev = js_get (pg_prev_metrics p) key;
              p = set_text (''v-'' @ key) (br_locale_num b val) p
          in if \<not> shows_number prev \<or> val \<noteq> js_num prev then p\<lparr>pg_changed := key # pg_changed p\<rparr> else p)"

definition updateMetrics :: "browser \<Rightarrow> jval \<Rightarrow> page \<Rightarrow> page" where
  "updateMetrics b data p = (fold (update_metric b data) card_keys p)\<lparr>pg_prev_metrics := data\<rparr>"

definition metrics_shaped :: "jval \<Rightarrow> bool" where
  "metrics_shaped v \<longleftrightarrow> object_with v card_keys [] []"

definition changed_timeout :: "bytes \<Rightarrow> page \<Rightarrow> page" where
  "changed_timeout key p = p\<lparr>pg_changed := removeAll key (pg_changed p)\<rparr>"

section \<open>The status\<close>

text \<open>The divisions are exact for the uptimes of a process.\<close>

definition fmtUptime :: "browser \<Rightarrow> nat \<Rightarrow> bytes" where
  "fmtUptime b s =
    (if s < 60 then br_show_num b s @ ''s''
     else if s < 3600 then br_show_num b (s div 60) @ ''m '' @ br_show_num b (s mod 60) @ ''s''
     else let h = s div 3600; m = (s mod 3600) div 60 in br_show_num b h @ ''h '' @ br_show_num b m @ ''m'')"

definition mode_tag :: "bytes \<Rightarrow> bytes" where
  "mode_tag mode = (if str_contains mode ''enforce'' then ''tag-enforce'' else if str_contains mode ''report'' then ''tag-report'' else ''tag-disabled'')"

definition updateStatus :: "browser \<Rightarrow> jval \<Rightarrow> page \<Rightarrow> page" where
  "updateStatus b data p =
    (let mode = br_lower b (js_str_or (js_get data ''policy_mode'') ''Unknown'');
         p = set_text ''uptime'' (''Uptime: '' @ fmtUptime b (js_num (js_get data ''uptime_secs''))) p;
         p = set_html ''policy-mode'' (''<span class=\"tag '' @ mode_tag mode @ ''\">'' @ js_str_or (js_get data ''policy_mode'') ''--'' @ ''</span>'') p;
         p = p\<lparr>pg_admin_token := js_str_or (js_get data ''admin_token'') []\<rparr>;
         p = set_text ''ca-path'' (js_str_or (js_get data ''mitm_ca_export_cert_file'') ''(not configured)'') p;
         p = set_text ''ca-state'' (if js_truthy (js_get data ''mitm_ca_export_cert_exists'') then ''Present'' else ''Missing'') p;
         p = set_text ''pins-count'' (br_locale_num b (js_num (js_get data ''pinned_hosts_count''))) p;
         p = set_text ''grace-state''
           (if js_truthy (js_get data ''auto_pin_grace_active'')
            then ''ACTIVE ('' @ br_show_num b (js_num (js_get data ''auto_pin_grace_remaining_secs'')) @ ''s left)''
            else ''Inactive ('' @ br_show_num b (js_num (js_get data ''auto_pin_grace_period_secs'')) @ ''s window)'') p
     in set_text ''user-profiles-count'' (br_show_num b (js_num (js_get data ''consent_user_profile_count''))) p)"

definition status_shaped :: "jval \<Rightarrow> bool" where
  "status_shaped v \<longleftrightarrow> object_with v
     [''uptime_secs'', ''pinned_hosts_count'', ''auto_pin_grace_remaining_secs'', ''auto_pin_grace_period_secs'', ''consent_user_profile_count'']
     [''policy_mode'', ''admin_token'', ''mitm_ca_export_cert_file''] [''mitm_ca_export_cert_exists'', ''auto_pin_grace_active'']"

section \<open>The tables\<close>

definition esc :: "bytes \<Rightarrow> bytes" where
  "esc s = js_replace (CHR ''>'') ''&gt;'' (js_replace (CHR ''<'') ''&lt;'' (js_replace (CHR ''&'') ''&amp;'' s))"

definition fmtTime :: "browser \<Rightarrow> nat \<Rightarrow> bytes" where
  "fmtTime b unix = (if unix = 0 then ''--'' else br_locale_time b unix)"

text \<open>\<open>toFixed(1)\<close> of a quotient by a power of two, which is exact: the nearest multiple of a tenth, the larger
  of two.\<close>

definition to_fixed1 :: "nat \<Rightarrow> nat \<Rightarrow> bytes" where
  "to_fixed1 b d = (let n = (20 * b + d) div (2 * d) in show_nat (n div 10) @ ''.'' @ show_nat (n mod 10))"

definition fmtBytes :: "nat \<Rightarrow> bytes" where
  "fmtBytes b = (if b < 1024 then show_nat b @ ''B'' else if b < 1048576 then to_fixed1 b 1024 @ ''KB'' else to_fixed1 b 1048576 @ ''MB'')"

definition doh_row :: "browser \<Rightarrow> jval \<Rightarrow> bytes" where
  "doh_row b c = ''<tr><td class=\"host-name\">'' @ esc (js_str_or (js_get c ''client_ip'') ''--'') @ ''</td><td>'' @
     br_locale_num b (js_num (js_get c ''query_total'')) @ ''</td><td>'' @ fmtTime b (js_num (js_get c ''last_seen_unix'')) @ ''</td></tr>''"

definition updateDoh :: "browser \<Rightarrow> jval \<Rightarrow> page \<Rightarrow> page" where
  "updateDoh b data p =
    (let doh = (if data = JNull then JObj [(''enabled'', JBool False), (''top_clients'', JArr [])] else data);
         rows = (case js_get doh ''top_clients'' of Some (JArr rows) \<Rightarrow> rows | _ \<Rightarrow> []);
         p = p\<lparr>pg_last_doh := doh\<rparr>
     in if \<not> js_truthy (js_get doh ''enabled'') then set_html ''doh-tbody'' (message_row ''3'' ''1rem'' ''DoH server disabled'') p
        else if rows = [] then set_html ''doh-tbody'' (message_row ''3'' ''1rem'' ''No DoH queries yet'') p
        else set_html ''doh-tbody'' (concat (map (doh_row b) rows)) p)"

definition doh_shaped :: "jval \<Rightarrow> bool" where
  "doh_shaped v \<longleftrightarrow> v = JNull \<or> object_with v [] [] [''enabled''] \<and>
     (case js_get v ''top_clients'' of None \<Rightarrow> True
      | Some (JArr rows) \<Rightarrow> list_all (\<lambda>c. object_with c [''query_total'', ''last_seen_unix''] [''client_ip''] []) rows | _ \<Rightarrow> False)"

definition HOST_COLS :: "(bytes \<times> bytes) list" where
  "HOST_COLS =
    [(''host'', ''Host''), (''seen_total'', ''Seen''), (''dns_blocked_total'', ''DNS Blk''),
     (''policy_set_cookie_stripped_total'', ''Cookies Stripped''), (''consent_enforcement_blocked_total'', ''Consent Blk''),
     (''websocket_blocked_total'', ''WS Blk''), (''referer_spoofed_total'', ''Hdr Mod''), (''cert_pin_violation_total'', ''Pin Viol''),
     (''query_params_stripped_total'', ''QP Strip''), (''cache_headers_stripped_total'', ''Cache Strip''),
     (''body_rewrite_total'', ''Rewrites''), (''body_rewrite_bytes_saved_total'', ''Bytes Saved''), (''last_seen_unix'', ''Last Seen'')]"

definition initTable :: "page \<Rightarrow> page" where
  "initTable = set_html ''host-thead''
     (''<tr>'' @ concat (map (\<lambda>(key, label). ''<th data-col=\"'' @ key @ ''\">'' @ label @ ''</th>'') HOST_COLS) @ ''</tr>'')"

text \<open>A row is an entry of the hosts with its name as a property of its own.\<close>

type_synonym host_row = "bytes \<times> jval"

fun row_get :: "host_row \<Rightarrow> bytes \<Rightarrow> jval option" where
  "row_get (h, d) k = (case js_get d k of Some v \<Rightarrow> Some v | None \<Rightarrow> if k = ''host'' then Some (JStr h) else None)"

definition row_host :: "host_row \<Rightarrow> bytes" where
  "row_host r = js_str_or (row_get r ''host'') []"

definition row_compare :: "browser \<Rightarrow> bytes \<Rightarrow> bool \<Rightarrow> host_row \<Rightarrow> host_row \<Rightarrow> int" where
  "row_compare b col asc r r' =
    (if col = ''host'' then (if asc then br_compare b (row_host r) (row_host r') else br_compare b (row_host r') (row_host r))
     else let va = int (js_num (row_get r col)); vb = int (js_num (row_get r' col)) in if asc then va - vb else vb - va)"

definition row_cell :: "browser \<Rightarrow> host_row \<Rightarrow> bytes \<Rightarrow> bytes" where
  "row_cell b r key =
    (if key = ''host'' then ''<td class=\"host-name\">'' @ esc (row_host r) @ ''</td>''
     else if key = ''last_seen_unix'' then ''<td>'' @ fmtTime b (js_num (row_get r key)) @ ''</td>''
     else if key = ''body_rewrite_bytes_saved_total'' then ''<td>'' @ fmtBytes (js_num (row_get r key)) @ ''</td>''
     else ''<td>'' @ br_locale_num b (js_num (row_get r key)) @ ''</td>'')"

definition row_html :: "browser \<Rightarrow> host_row \<Rightarrow> bytes" where
  "row_html b r = ''<tr>'' @ concat (map (row_cell b r) (map fst HOST_COLS)) @ ''</tr>''"

fun js_entries :: "jval \<Rightarrow> (bytes \<times> jval) list" where
  "js_entries (JObj ob) = object_entries ob"

definition table_rows :: "browser \<Rightarrow> jval \<Rightarrow> page \<Rightarrow> host_row list" where
  "table_rows b hosts p =
    (let rows = js_entries hosts;
         rows = (if pg_filter_text p = [] then rows else filter (\<lambda>r. str_contains (row_host r) (pg_filter_text p)) rows)
     in js_sort (row_compare b (pg_sort_col p) (pg_sort_asc p)) rows)"

definition renderTable :: "browser \<Rightarrow> jval \<Rightarrow> page \<Rightarrow> page" where
  "renderTable b hosts p =
    (let p = p\<lparr>pg_th_class := map_of (map (\<lambda>(key, _). (key, if key = pg_sort_col p then if pg_sort_asc p then ''sorted-asc'' else ''sorted-desc'' else [])) HOST_COLS)\<rparr>;
         rows = table_rows b hosts p;
         html = concat (map (row_html b) (take 200 rows));
         html = (if rows = [] then message_row ''9'' ''2rem'' ''No host data yet'' else html)
     in set_html ''host-tbody'' html p)"

definition updateHosts :: "browser \<Rightarrow> jval \<Rightarrow> page \<Rightarrow> page" where
  "updateHosts b data p =
    (let hosts = (if js_truthy (js_get data ''hosts'') then the (js_get data ''hosts'') else JObj []) in
     renderTable b hosts (p\<lparr>pg_last_hosts := hosts\<rparr>))"

text \<open>A row without a text for its host has an exception in \<open>esc\<close>.\<close>

definition hosts_shaped :: "jval \<Rightarrow> bool" where
  "hosts_shaped hosts \<longleftrightarrow> (case hosts of JObj ob \<Rightarrow>
     list_all (\<lambda>(h, d). object_with d (tl (map fst HOST_COLS)) [] [] \<and> (case js_get d ''host'' of None \<Rightarrow> True | Some (JStr s) \<Rightarrow> True | _ \<Rightarrow> False)) ob | _ \<Rightarrow> False)"

definition receipts_shaped :: "jval \<Rightarrow> bool" where
  "receipts_shaped v \<longleftrightarrow> object_with v [] [] [] \<and>
     (case js_get v ''hosts'' of None \<Rightarrow> True | Some JNull \<Rightarrow> True | Some hosts \<Rightarrow> hosts_shaped hosts)"

section \<open>Events and the exchange with the server\<close>

text \<open>The table with the hosts of the last update.\<close>

definition render_last :: "browser \<Rightarrow> page \<Rightarrow> page" where
  "render_last b p = (if hosts_shaped (pg_last_hosts p) then renderTable b (pg_last_hosts p) p
     else fst (br_other b ''renderTable'' (pg_last_hosts p) p))"

definition header_click :: "browser \<Rightarrow> bytes \<Rightarrow> page \<Rightarrow> page" where
  "header_click b col p =
    (let p = (if pg_sort_col p = col then p\<lparr>pg_sort_asc := \<not> pg_sort_asc p\<rparr> else p\<lparr>pg_sort_col := col, pg_sort_asc := False\<rparr>)
     in render_last b p)"

definition search_input :: "browser \<Rightarrow> bytes \<Rightarrow> page \<Rightarrow> page" where
  "search_input b value p = render_last b (p\<lparr>pg_filter_text := br_lower b value\<rparr>)"

definition accept_change :: "bool \<Rightarrow> page \<Rightarrow> page" where
  "accept_change checked p = p\<lparr>pg_download_disabled := \<not> checked\<rparr>"

text \<open>A request reaches the server or fails on the way.\<close>

definition fetch :: "dash_env \<Rightarrow> (bytes \<Rightarrow> bool) \<Rightarrow> dash_request \<Rightarrow> dashboard_state \<Rightarrow> dash_response option \<times> dashboard_state" where
  "fetch x up req s = (if up (rq_path req) then (let (resp, s) = handle_dash_request x req s in (Some resp, s)) else (None, s))"

definition get_request :: "bytes \<Rightarrow> dash_request" where
  "get_request path = \<lparr>rq_verb = ''GET'', rq_path = path, rq_headers = []\<rparr>"

definition res_ok :: "dash_response \<Rightarrow> bool" where
  "res_ok resp \<longleftrightarrow> 200 \<le> rp_status resp \<and> rp_status resp < 300"

text \<open>A body that is not JSON, and \<open>null\<close> where an object is read, end the updates with an exception that
  \<open>refresh\<close> logs.\<close>

definition run_update :: "browser \<Rightarrow> bytes \<Rightarrow> (jval \<Rightarrow> bool) \<Rightarrow> (jval \<Rightarrow> page \<Rightarrow> page) \<Rightarrow> jval \<Rightarrow> page \<Rightarrow> page \<times> bool" where
  "run_update b name shaped upd v p = (if shaped v then (upd v p, True) else br_other b name v p)"

definition needs_object :: "(jval \<Rightarrow> page \<Rightarrow> page \<times> bool) \<Rightarrow> jval \<Rightarrow> page \<Rightarrow> page \<times> bool" where
  "needs_object upd v p = (if v = JNull then (p, False) else upd v p)"

fun apply_updates :: "browser \<Rightarrow> (dash_response \<times> (jval \<Rightarrow> page \<Rightarrow> page \<times> bool)) list \<Rightarrow> page \<Rightarrow> page" where
  "apply_updates b [] p = p"
| "apply_updates b ((resp, upd) # us) p =
    (if \<not> res_ok resp then apply_updates b us p
     else case br_json b (rp_body resp) of None \<Rightarrow> p
       | Some v \<Rightarrow> (case upd v p of (p, completed) \<Rightarrow> if completed then apply_updates b us p else p))"

definition page_updates :: "browser \<Rightarrow> (jval \<Rightarrow> page \<Rightarrow> page \<times> bool) list" where
  "page_updates b =
    [needs_object (run_update b ''updateMetrics'' metrics_shaped (updateMetrics b)),
     run_update b ''updateDoh'' doh_shaped (updateDoh b),
     needs_object (run_update b ''updateHosts'' receipts_shaped (updateHosts b)),
     needs_object (run_update b ''updateStatus'' status_shaped (updateStatus b))]"

definition refresh :: "browser \<Rightarrow> dash_env \<Rightarrow> (bytes \<Rightarrow> bool) \<Rightarrow> page \<Rightarrow> dashboard_state \<Rightarrow> page \<times> dashboard_state" where
  "refresh b x up p s =
    (let (m, s) = fetch x up (get_request ''/api/metrics'') s; (d, s) = fetch x up (get_request ''/api/doh'') s;
         (r, s) = fetch x up (get_request ''/api/receipts'') s; (t, s) = fetch x up (get_request ''/api/status'') s
     in (case (m, d, r, t) of
           (Some m, Some d, Some r, Some t) \<Rightarrow> apply_updates b (zip [m, d, r, t] (page_updates b)) p
         | _ \<Rightarrow> p, s))"

definition page_alert :: "bytes \<Rightarrow> page \<Rightarrow> page" where
  "page_alert msg p = p\<lparr>pg_alerts := pg_alerts p @ [msg]\<rparr>"

definition removed_message :: "browser \<Rightarrow> jval \<Rightarrow> bytes" where
  "removed_message b body = ''Pinned hosts reset. Removed: '' @
     (let removed = js_get body ''removed'' in if shows_number removed then br_show_num b (js_num removed) else br_text b (the removed))"

definition reset_click :: "browser \<Rightarrow> dash_env \<Rightarrow> (bytes \<Rightarrow> bool) \<Rightarrow> bool \<Rightarrow> page \<Rightarrow> dashboard_state \<Rightarrow> page \<times> dashboard_state" where
  "reset_click b x up confirmed p s =
    (if pg_admin_token p = [] then (page_alert ''Admin token unavailable yet; wait for status refresh.'' p, s)
     else if \<not> confirmed then (p, s)
     else case fetch x up \<lparr>rq_verb = ''POST'', rq_path = ''/api/pins/reset'', rq_headers = [(''x-admin-token'', pg_admin_token p)]\<rparr> s of
         (None, s) \<Rightarrow> (page_alert ''Pin reset failed'' p, s)
       | (Some resp, s) \<Rightarrow>
          let body = (case br_json b (rp_body resp) of Some v \<Rightarrow> v | None \<Rightarrow> JObj [])
          in if \<not> res_ok resp \<or> body = JNull then (page_alert ''Pin reset failed'' p, s)
             else refresh b x up (page_alert (removed_message b body) p) s)"

datatype page_event =
    Tick "bytes \<Rightarrow> bool"
  | HeaderClick bytes
  | SearchInput bytes
  | AcceptChange bool
  | ChangedTimeout bytes
  | ResetClick "bytes \<Rightarrow> bool" bool

text \<open>Between two events of the page the engine goes on: each event comes with the server it meets, of
  which the page changes what its requests change.\<close>

fun page_event_step :: "browser \<Rightarrow> page_event \<Rightarrow> dash_env \<Rightarrow> page \<Rightarrow> dashboard_state \<Rightarrow> page \<times> dashboard_state" where
  "page_event_step b (Tick up) x p s = refresh b x up p s"
| "page_event_step b (HeaderClick col) x p s = (if col \<in> set (map fst HOST_COLS) then header_click b col p else p, s)"
| "page_event_step b (SearchInput value) x p s = (search_input b value p, s)"
| "page_event_step b (AcceptChange checked) x p s = (accept_change checked p, s)"
| "page_event_step b (ChangedTimeout key) x p s = (changed_timeout key p, s)"
| "page_event_step b (ResetClick up confirmed) x p s = reset_click b x up confirmed p s"

definition page_open :: "page" where
  "page_open = initTable (initCards page_initial)"

section \<open>Numbers\<close>

lemma js_shift_bounds: "n < 2 ^ (53 + js_shift n) \<and> (0 < js_shift n \<longrightarrow> 2 ^ (52 + js_shift n) \<le> n)"
proof (induction n rule: js_shift.induct)
  case (1 n)
  show ?case
  proof (cases "n < 2 ^ 53")
    case False
    let ?k = "js_shift (n div 2)"
    have k: "js_shift n = Suc ?k" using False by (subst js_shift.simps) simp
    have IH: "n div 2 < 2 ^ (53 + ?k)" "0 < ?k \<longrightarrow> 2 ^ (52 + ?k) \<le> n div 2" using 1 False by simp_all
    have "2 ^ (52 + ?k) \<le> n div 2"
      using IH(2) False by (cases "?k = 0") auto
    then have "2 * 2 ^ (52 + ?k) \<le> n" by linarith
    then have "2 ^ (52 + Suc ?k) \<le> n" by (simp only: add_Suc_right power_Suc)
    moreover have "n < 2 * 2 ^ (53 + ?k)" using IH(1) by linarith
    then have "n < 2 ^ (53 + Suc ?k)" by (simp only: add_Suc_right power_Suc)
    ultimately show ?thesis unfolding k by blast
  qed (simp add: js_shift.simps)
qed

lemma js_double_exact: "n \<le> 2 ^ 53 \<Longrightarrow> js_double n = n"
proof (cases "n < 2 ^ 53")
  case True
  then show ?thesis by (simp add: js_double_def js_shift.simps)
next
  case False
  moreover assume "n \<le> 2 ^ 53"
  ultimately have "n = 2 ^ 53" by simp
  moreover have "js_shift (2 ^ 53) = 1" by (simp add: js_shift.simps)
  ultimately show ?thesis by (simp add: js_double_def Let_def)
qed

lemma round_bounds:
  fixes n k :: nat
  shows "js_double n \<le> (n div 2 ^ js_shift n + 1) * 2 ^ js_shift n" "n div 2 ^ js_shift n * 2 ^ js_shift n \<le> js_double n"
  by (simp_all add: js_double_def Let_def)

lemma js_double_mono: "n \<le> m \<Longrightarrow> js_double n \<le> js_double m"
proof -
  assume le: "n \<le> m"
  let ?k = "js_shift n" and ?l = "js_shift m"
  consider "?k = ?l" | "?k < ?l" | "?l < ?k" by linarith
  then show ?thesis
  proof cases
    case 1
    let ?q = "n div 2 ^ ?k" and ?q' = "m div 2 ^ ?k"
    have q: "?q \<le> ?q'" using le by (rule div_le_mono)
    show ?thesis
    proof (cases "?q = ?q'")
      case True
      have "n mod 2 ^ ?k \<le> m mod 2 ^ ?k"
        using le True by (metis add_le_cancel_left mult_div_mod_eq)
      then show ?thesis using True 1 by (auto simp: js_double_def Let_def)
    next
      case False
      then have "(?q + 1) * 2 ^ ?k \<le> ?q' * 2 ^ ?k" using q by (intro mult_le_mono1) simp
      with round_bounds(1) [of n] round_bounds(2) [of m] 1 show ?thesis by simp
    qed
  next
    case 2
    have "n div 2 ^ ?k < 2 ^ 53"
      using js_shift_bounds [of n] by (simp add: div_less_iff_less_mult power_add)
    then have "(n div 2 ^ ?k + 1) * 2 ^ ?k \<le> 2 ^ 53 * 2 ^ ?k" by (intro mult_le_mono1) simp
    from le_trans [OF round_bounds(1) this] have "js_double n \<le> 2 ^ (53 + ?k)" by (simp only: power_add)
    also have "... \<le> 2 ^ (52 + ?l)" using 2 by (intro power_increasing) auto
    also have "... \<le> js_double m"
    proof -
      have "(2::nat) ^ 52 \<le> m div 2 ^ ?l"
        using js_shift_bounds [of m] 2 by (simp add: less_eq_div_iff_mult_less_eq power_add)
      then have "2 ^ 52 * 2 ^ ?l \<le> m div 2 ^ ?l * 2 ^ ?l" by (rule mult_le_mono1)
      from le_trans [OF this round_bounds(2)] show ?thesis by (simp only: power_add)
    qed
    finally show ?thesis .
  next
    case 3
    have "m < 2 ^ (53 + ?l)" using js_shift_bounds [of m] by simp
    also have "... \<le> (2::nat) ^ (52 + ?k)" using 3 by (intro power_increasing) auto
    also have "... \<le> n" using js_shift_bounds [of n] 3 by simp
    finally show ?thesis using le by simp
  qed
qed

text \<open>Rounded numbers keep the order of the counters, up to ties beyond \<open>2 ^ 53\<close>.\<close>

lemma js_double_le_iff: "js_double n \<le> js_double m \<Longrightarrow> n \<le> m \<or> 2 ^ 53 < n"
  using js_double_exact [of n] js_double_exact [of m] js_double_mono [of m n] by linarith

section \<open>Sorting\<close>

lemma mset_js_insert: "mset (js_insert cmp x ys) = add_mset x (mset ys)"
  by (induction ys) auto

lemma mset_js_sort: "mset (js_sort cmp xs) = mset xs"
  unfolding js_sort_def by (induction xs) (simp_all add: mset_js_insert)

lemma set_js_insert: "set (js_insert cmp x ys) = insert x (set ys)"
  using arg_cong [OF mset_js_insert, of set_mset cmp x ys] by simp

lemma js_sort_simps: "set (js_sort cmp xs) = set xs" "length (js_sort cmp xs) = length xs" "distinct (js_sort cmp xs) \<longleftrightarrow> distinct xs"
  "js_sort cmp xs = [] \<longleftrightarrow> xs = []"
  using mset_js_sort [of cmp xs] mset_eq_setD mset_eq_length mset_eq_imp_distinct_iff by (blast, blast, blast, force)

text \<open>What a comparison function has to promise for \<open>sort\<close> to sort.\<close>

locale js_comparator =
  fixes cmp :: "'a \<Rightarrow> 'a \<Rightarrow> int"
  assumes total: "cmp x y \<le> 0 \<or> cmp y x \<le> 0"
    and trans: "cmp x y \<le> 0 \<Longrightarrow> cmp y z \<le> 0 \<Longrightarrow> cmp x z \<le> 0"
begin

lemma insert_sorted: "sorted_wrt (\<lambda>x y. cmp x y \<le> 0) ys \<Longrightarrow> sorted_wrt (\<lambda>x y. cmp x y \<le> 0) (js_insert cmp x ys)"
proof (induction ys)
  case (Cons y ys)
  then show ?case using total [of x y] by (auto simp: set_js_insert intro: trans)
qed simp

lemma sort_sorted: "sorted_wrt (\<lambda>x y. cmp x y \<le> 0) (js_sort cmp xs)"
  unfolding js_sort_def by (induction xs) (simp_all add: insert_sorted)

lemma sort_prefix_least:
  assumes "x \<in> set (take n (js_sort cmp xs))" "y \<in> set (drop n (js_sort cmp xs))"
  shows "cmp x y \<le> 0"
proof -
  have "sorted_wrt (\<lambda>x y. cmp x y \<le> 0) (take n (js_sort cmp xs) @ drop n (js_sort cmp xs))" using sort_sorted by simp
  with assms show ?thesis unfolding sorted_wrt_append by blast
qed

end

interpretation ascending: js_comparator "\<lambda>x y. int (f x) - int (f y)" for f :: "'a \<Rightarrow> nat"
  by unfold_locales auto

interpretation descending: js_comparator "\<lambda>x y. int (f y) - int (f x)" for f :: "'a \<Rightarrow> nat"
  by unfold_locales auto

lemma row_compare_column: "col \<noteq> ''host'' \<Longrightarrow>
  row_compare b col True = (\<lambda>r r'. int (js_num (row_get r col)) - int (js_num (row_get r' col)))"
  "col \<noteq> ''host'' \<Longrightarrow> row_compare b col False = (\<lambda>r r'. int (js_num (row_get r' col)) - int (js_num (row_get r col)))"
  by (simp_all add: row_compare_def fun_eq_iff Let_def)

lemma set_object_entries: "set (object_entries ob) = set ob" "length (object_entries ob) = length ob"
  "distinct (map fst ob) \<Longrightarrow> distinct (map fst (object_entries ob))"
proof -
  have m: "mset (object_entries ob) = mset ob"
    using multiset_partition [of "mset ob" "\<lambda>p. array_index (fst p) \<noteq> None"] by (simp add: object_entries_def case_prod_unfold)
  then show "set (object_entries ob) = set ob" "length (object_entries ob) = length ob" by (rule mset_eq_setD, rule mset_eq_length)
  have "mset (map fst (object_entries ob)) = mset (map fst ob)" using m by simp
  then show "distinct (map fst ob) \<Longrightarrow> distinct (map fst (object_entries ob))" using mset_eq_imp_distinct_iff by blast
qed

section \<open>The markup of the tables\<close>

definition esc_char :: "char \<Rightarrow> bytes" where
  "esc_char c = (if c = CHR ''&'' then ''&amp;'' else if c = CHR ''<'' then ''&lt;'' else if c = CHR ''>'' then ''&gt;'' else [c])"

lemma esc_chars: "esc s = concat (map esc_char s)"
  unfolding esc_def js_replace_def by (induction s) (auto simp: esc_char_def)

lemma esc_no_lt: "CHR ''<'' \<notin> set (esc s)"
  unfolding esc_chars by (induction s) (auto simp: esc_char_def)

lemma unescape_esc: "unescape_html (esc s) = s"
  unfolding esc_chars by (induction s) (auto simp: esc_char_def)

text \<open>Numbers and times are printed without markup.\<close>

definition plain_locale :: "browser \<Rightarrow> bool" where
  "plain_locale b \<longleftrightarrow> (\<forall>n. CHR ''<'' \<notin> set (br_locale_num b n) \<and> CHR ''&'' \<notin> set (br_locale_num b n) \<and>
     CHR ''<'' \<notin> set (br_locale_time b n) \<and> CHR ''&'' \<notin> set (br_locale_time b n))"

lemma fmtBytes_plain: "CHR ''<'' \<notin> set (fmtBytes n)" "CHR ''&'' \<notin> set (fmtBytes n)"
  by (simp_all add: fmtBytes_def to_fixed1_def show_nat_no_markup Let_def)

lemma fmtTime_plain: "plain_locale b \<Longrightarrow> CHR ''<'' \<notin> set (fmtTime b n)" "plain_locale b \<Longrightarrow> CHR ''&'' \<notin> set (fmtTime b n)"
  by (simp_all add: fmtTime_def plain_locale_def)

lemma num_plain: "plain_locale b \<Longrightarrow> CHR ''<'' \<notin> set (br_locale_num b n)" "plain_locale b \<Longrightarrow> CHR ''&'' \<notin> set (br_locale_num b n)"
  by (simp_all add: plain_locale_def)

lemma emits_td: "CHR ''<'' \<notin> set t \<Longrightarrow> emits (''<td>'' @ t @ ''</td>'') [([], ''td''), (unescape_html t, ''/td'')]"
  by (simp add: emits_def scan_text)

definition host_td :: bytes where "host_td = ''td class=\"host-name\"''"

lemma emits_host_td: "emits (''<td class=\"host-name\">'' @ esc h @ ''</td>'') [([], host_td), (h, ''/td'')]"
  by (simp add: emits_def scan_text esc_no_lt unescape_esc host_td_def)

definition cell_tokens :: "bytes \<Rightarrow> (bytes \<times> bytes) list" where
  "cell_tokens t = [([], ''td''), (t, ''/td'')]"

definition row_toks :: "bytes \<Rightarrow> bytes list \<Rightarrow> (bytes \<times> bytes) list" where
  "row_toks h ts = [([], ''tr'')] @ [([], host_td), (h, ''/td'')] @ concat (map cell_tokens ts) @ [([], ''/tr'')]"

lemma cells_row_toks: "foldl cell_step (rows, cs, c) (row_toks h ts) = (rows @ [h # ts], [], [])"
proof -
  have "foldl cell_step (rows, cells, []) (concat (map cell_tokens ts)) = (rows, cells @ ts, [])" for cells
    by (induction ts arbitrary: cells) (auto simp: cell_tokens_def)
  then show ?thesis by (simp add: row_toks_def host_td_def)
qed

lemma cells_rows_toks: "foldl cell_step (rows, [], []) (concat (map (\<lambda>x. row_toks (f x) (g x)) xs)) = (rows @ map (\<lambda>x. f x # g x) xs, [], [])"
  by (induction xs arbitrary: rows) (simp_all add: cells_row_toks)

lemma row_toks_tags: "snd ` set (row_toks h ts) \<subseteq> {''tr'', ''/tr'', ''td'', host_td, ''/td''}"
  by (auto simp: row_toks_def cell_tokens_def)

text \<open>The text of a cell, and a row as it is read.\<close>

definition cell_text :: "browser \<Rightarrow> host_row \<Rightarrow> bytes \<Rightarrow> bytes" where
  "cell_text b r key =
    (if key = ''last_seen_unix'' then fmtTime b (js_num (row_get r key))
     else if key = ''body_rewrite_bytes_saved_total'' then fmtBytes (js_num (row_get r key))
     else br_locale_num b (js_num (row_get r key)))"

definition count_cols :: "bytes list" where
  "count_cols = tl (map fst HOST_COLS)"

lemma HOST_COLS_keys: "map fst HOST_COLS = ''host'' # count_cols" "''host'' \<notin> set count_cols" "distinct count_cols"
  by (simp_all add: count_cols_def HOST_COLS_def)

lemma emits_row_cell:
  assumes "plain_locale b" "key \<noteq> ''host''"
  shows "emits (row_cell b r key) (cell_tokens (cell_text b r key))"
proof -
  have "row_cell b r key = ''<td>'' @ cell_text b r key @ ''</td>''" using assms(2) by (simp add: row_cell_def cell_text_def)
  moreover have "CHR ''<'' \<notin> set (cell_text b r key)" "CHR ''&'' \<notin> set (cell_text b r key)"
    using assms(1) by (simp_all add: cell_text_def fmtBytes_plain fmtTime_plain num_plain)
  ultimately show ?thesis using emits_td [of "cell_text b r key"] by (simp add: cell_tokens_def unescape_plain)
qed

lemma emits_row_html: "plain_locale b \<Longrightarrow> emits (row_html b r) (row_toks (row_host r) (map (cell_text b r) count_cols))"
proof -
  assume b: "plain_locale b"
  have "emits (concat (map (row_cell b r) count_cols)) (concat (map (\<lambda>k. cell_tokens (cell_text b r k)) count_cols))"
    using HOST_COLS_keys(2) by (intro page.reads_concat emits_row_cell [OF b]) auto
  moreover have "emits (row_cell b r ''host'') [([], host_td), (row_host r, ''/td'')]"
    using emits_host_td [of "row_host r"] by (simp add: row_cell_def)
  ultimately have "emits (''<tr>'' @ (row_cell b r ''host'' @ concat (map (row_cell b r) count_cols)) @ ''</tr>'')
    ([([], ''tr'')] @ ([([], host_td), (row_host r, ''/td'')] @ concat (map (\<lambda>k. cell_tokens (cell_text b r k)) count_cols)) @ [([], ''/tr'')])"
    by (intro emits_append emits_tr)
  then show ?thesis by (simp add: row_html_def HOST_COLS_keys(1) row_toks_def comp_def)
qed

definition message_td :: "bytes \<Rightarrow> bytes \<Rightarrow> bytes" where
  "message_td span pad = ''td colspan=\"'' @ span @ ''\" style=\"text-align:center;color:var(--dim);padding:'' @ pad @ ''\"''"

lemma emits_message_row:
  assumes "CHR ''>'' \<notin> set (span @ pad)" "CHR ''<'' \<notin> set msg"
  shows "emits (message_row span pad msg) [([], ''tr''), ([], message_td span pad), (unescape_html msg, ''/td''), ([], ''/tr'')]"
proof -
  have tag: "foldl html_step (T, InTag a u) w = (T, InTag a (rev w @ u))" if "CHR ''>'' \<notin> set w" for T a u w
    using that by (induction w arbitrary: u) auto
  show ?thesis using assms by (simp add: emits_def message_row_def message_td_def tag scan_text)
qed

definition table_tags :: "bytes set" where
  "table_tags = {''tr'', ''/tr'', ''td'', host_td, ''/td'', message_td ''9'' ''2rem'', message_td ''3'' ''1rem''}"

definition table_html :: "browser \<Rightarrow> jval \<Rightarrow> page \<Rightarrow> bytes" where
  "table_html b hosts p = (let rows = table_rows b hosts p in
     if rows = [] then message_row ''9'' ''2rem'' ''No host data yet'' else concat (map (row_html b) (take 200 rows)))"

lemma renderTable_html: "pg_html (renderTable b hosts p) = (pg_html p)(''host-tbody'' \<mapsto> table_html b hosts p)"
  by (simp add: renderTable_def table_html_def table_rows_def Let_def)

lemma emits_rows: "plain_locale b \<Longrightarrow> emits (concat (map (row_html b) rows)) (concat (map (\<lambda>r. row_toks (row_host r) (map (cell_text b r) count_cols)) rows))"
  by (intro page.reads_concat emits_row_html)

lemma table_html_reads:
  assumes "plain_locale b" "table_rows b hosts p \<noteq> []"
  shows "html_table (table_html b hosts p) = map (\<lambda>r. row_host r # map (cell_text b r) count_cols) (take 200 (table_rows b hosts p))"
  using assms(2) by (simp add: html_table_def table_html_def emits_parse [OF emits_rows [OF assms(1)]] cells_rows_toks)

lemma concat_tags: "(\<And>x. x \<in> set xs \<Longrightarrow> snd ` set (f x) \<subseteq> T) \<Longrightarrow> snd ` set (concat (map f xs)) \<subseteq> T"
  by auto

lemma table_html_tags: "plain_locale b \<Longrightarrow> snd ` set (html_parse (table_html b hosts p)) \<subseteq> table_tags"
proof (cases "table_rows b hosts p = []")
  case True
  have "emits (message_row ''9'' ''2rem'' ''No host data yet'') [([], ''tr''), ([], message_td ''9'' ''2rem''), (unescape_html ''No host data yet'', ''/td''), ([], ''/tr'')]"
    by (rule emits_message_row) simp_all
  with True show ?thesis by (simp add: table_html_def emits_parse table_tags_def)
next
  case False
  assume b: "plain_locale b"
  have "snd ` set (concat (map (\<lambda>r. row_toks (row_host r) (map (cell_text b r) count_cols)) rs)) \<subseteq> table_tags" for rs
    by (rule concat_tags) (rule order_trans [OF row_toks_tags], auto simp: table_tags_def)
  with False show ?thesis by (simp only: table_html_def Let_def if_False emits_parse [OF emits_rows [OF b]])
qed

section \<open>What the server sends\<close>

definition metrics_doc :: "dash_env \<Rightarrow> dashboard_state \<Rightarrow> jval" where
  "metrics_doc x s = JObj (metrics_entries (snapshot (dz_metrics s)) @ doh_counts (fst (doh_of x s)))"

definition doh_doc :: "dash_env \<Rightarrow> dashboard_state \<Rightarrow> jval" where
  "doh_doc x s = (let doh = fst (doh_of x s) in
     JObj ([(''enabled'', JBool (doh \<noteq> None))] @ doh_counts doh @
       [(''top_clients'', JArr (case doh of Some snap \<Rightarrow> map client_json (ss_top_clients snap) | None \<Rightarrow> []))]))"

definition receipts_doc :: "dash_env \<Rightarrow> dashboard_state \<Rightarrow> jval" where
  "receipts_doc x s = JObj [(''hosts'', case dz_receipts s of Some r \<Rightarrow> hosts_as_json (dx_json x) r | None \<Rightarrow> JObj [])]"

definition status_doc :: "dash_env \<Rightarrow> dashboard_state \<Rightarrow> jval" where
  "status_doc x s = JObj (status_entries x s (fst (doh_of x s)))"

lemma rq_path_get: "rq_path (get_request path) = path"
  by (simp add: get_request_def)

lemma handle_gets:
  "handle_dash_request x (get_request ''/api/metrics'') s = (json_response x (metrics_doc x s), pruned_stats x s)"
  "handle_dash_request x (get_request ''/api/doh'') s = (json_response x (doh_doc x s), pruned_stats x s)"
  "handle_dash_request x (get_request ''/api/receipts'') s = (json_response x (receipts_doc x s), s)"
  "handle_dash_request x (get_request ''/api/status'') s = (json_response x (status_doc x s), pruned_stats x s)"
  using doh_of_state [of x s]
  by (simp_all add: handle_dash_request_def get_request_def serve_metrics_def serve_doh_def serve_receipts_def serve_status_def
      metrics_doc_def doh_doc_def receipts_doc_def status_doc_def case_prod_unfold Let_def split: option.split)

lemma pruned_stats_frame: "dz_metrics (pruned_stats x s) = dz_metrics s" "dz_receipts (pruned_stats x s) = dz_receipts s"
  "dz_pinned_hosts (pruned_stats x s) = dz_pinned_hosts s" "dz_admin_token (pruned_stats x s) = dz_admin_token s"
  "dz_disk (pruned_stats x s) = dz_disk s" "dz_policy_engine (pruned_stats x s) = dz_policy_engine s"
  by (simp_all add: pruned_stats_def)

text \<open>The columns of the table, as counters of a receipt, and a row as a reader of the page sees it.\<close>

definition count_fields :: "(bytes \<times> (host_receipt \<Rightarrow> u64)) list" where
  "count_fields =
    [(''seen_total'', hr_seen_total), (''dns_blocked_total'', hr_dns_blocked_total), (''policy_set_cookie_stripped_total'', hr_policy_set_cookie_stripped_total),
     (''consent_enforcement_blocked_total'', hr_consent_enforcement_blocked_total), (''websocket_blocked_total'', hr_websocket_blocked_total),
     (''referer_spoofed_total'', hr_referer_spoofed_total), (''cert_pin_violation_total'', hr_cert_pin_violation_total),
     (''query_params_stripped_total'', hr_query_params_stripped_total), (''cache_headers_stripped_total'', hr_cache_headers_stripped_total),
     (''body_rewrite_total'', hr_body_rewrite_total), (''body_rewrite_bytes_saved_total'', hr_body_rewrite_bytes_saved_total),
     (''last_seen_unix'', hr_last_seen_unix)]"

definition host_texts :: "browser \<Rightarrow> bytes \<Rightarrow> host_receipt \<Rightarrow> bytes list" where
  "host_texts b h r = (let num = (\<lambda>n :: u64. br_locale_num b (js_double (unat n))) in
    [h, num (hr_seen_total r), num (hr_dns_blocked_total r), num (hr_policy_set_cookie_stripped_total r), num (hr_consent_enforcement_blocked_total r),
     num (hr_websocket_blocked_total r), num (hr_referer_spoofed_total r), num (hr_cert_pin_violation_total r), num (hr_query_params_stripped_total r),
     num (hr_cache_headers_stripped_total r), num (hr_body_rewrite_total r), fmtBytes (js_double (unat (hr_body_rewrite_bytes_saved_total r))),
     fmtTime b (js_double (unat (hr_last_seen_unix r)))])"

text \<open>The order of the rows: counters beyond \<open>2 ^ 53\<close> may be rounded to the same number.\<close>

definition ranks :: "bool \<Rightarrow> u64 \<Rightarrow> u64 \<Rightarrow> bool" where
  "ranks asc m n = (let (lo, hi) = (if asc then (m, n) else (n, m)) in lo \<le> hi \<or> 2 ^ 53 < unat lo)"

lemma count_fields_keys: "map fst count_fields = count_cols"
  by (simp add: count_fields_def count_cols_def HOST_COLS_def)

lemma receipt_get:
  assumes "(k, f) \<in> set count_fields"
  shows "js_get (receipt_as_json (jval_api pa pr) r) k = Some (JNum (f r))"
proof -
  have "list_all (\<lambda>(k, f). (k, JNum (f r)) \<in> set (receipt_entries (jval_api pa pr) r)) count_fields"
    unfolding count_fields_def receipt_entries_def by (simp only: list.pred_inject prod.case list.set insert_iff jval_api_simps simp_thms)
  then have m: "(k, JNum (f r)) \<in> set (receipt_entries (jval_api pa pr) r)" using assms by (auto simp: list_all_iff)
  have "distinct (map fst (receipt_entries (jval_api pa pr) r))"
    using receipt_keys_sorted by (simp add: receipt_entries_keys strict_sorted_iff)
  with m show ?thesis by (simp add: receipt_as_json_def)
qed

lemma row_count: "(k, f) \<in> set count_fields \<Longrightarrow> js_num (row_get (h, receipt_as_json (jval_api pa pr) r) k) = js_double (unat (f r))"
  by (simp add: receipt_get)

lemma row_host_receipt: "row_host (h, receipt_as_json (jval_api pa pr) r) = h"
proof -
  have "''host'' \<notin> set receipt_keys" by (simp add: receipt_keys_def)
  then have "map_of (receipt_entries (jval_api pa pr) r) ''host'' = None" by (simp add: map_of_eq_None_iff receipt_entries_keys flip: set_map)
  then show ?thesis by (simp add: row_host_def receipt_as_json_def)
qed

definition metric_keys :: "bytes list" where
  "metric_keys = [''connection_total'', ''passthrough_tunnel_total'', ''mitm_attempt_total'', ''mitm_success_total'', ''mitm_failure_total'',
     ''mitm_client_tls_reject_total'', ''host_auto_pinned_total'', ''dns_query_total'', ''dns_blocked_total'', ''dns_report_only_total'',
     ''body_rewrite_total'', ''body_rewrite_skipped_total'', ''filter_list_refresh_total'', ''filter_list_refresh_failed_total'',
     ''filter_list_rules_active'', ''dns_cname_uncloaked_total'', ''consent_enforcement_blocked_total'', ''websocket_blocked_total'',
     ''referer_spoofed_total'', ''cert_pin_violation_total'', ''query_params_stripped_total'', ''cache_headers_stripped_total'',
     ''doh_query_total'', ''doh_unique_client_total'']"

lemma metric_keys_sent: "map fst (metrics_entries m @ doh_counts d) = metric_keys"
  by (simp only: metrics_entries_def doh_counts_def metric_keys_def append_Cons append_Nil list.map fst_conv)

lemma card_keys_sent: "list_all (\<lambda>k. k \<in> set metric_keys) card_keys"
  by code_simp

lemma card_key_served: "k \<in> set card_keys \<Longrightarrow> \<exists>n. map_of (metrics_entries m @ doh_counts d) k = Some (JNum n)"
proof -
  assume "k \<in> set card_keys"
  then have "k \<in> set (map fst (metrics_entries m @ doh_counts d))" using card_keys_sent by (simp only: metric_keys_sent list_all_iff)
  then obtain v where v: "map_of (metrics_entries m @ doh_counts d) k = Some v" by (metis map_of_eq_None_iff not_None_eq set_map)
  have "list_all (\<lambda>e. \<exists>n. snd e = JNum n) (metrics_entries m @ doh_counts d)" by (simp add: metrics_entries_def doh_counts_def)
  from bspec [OF this [unfolded list_all_iff] map_of_SomeD [OF v]] obtain n where "v = JNum n" by auto
  with v show ?thesis by blast
qed

text \<open>All documents of the server have the shape that the script expects, and so has the empty object.\<close>

lemma metrics_doc_shaped: "metrics_shaped (metrics_doc x s)"
proof -
  have "shows_number (map_of (metrics_entries m @ doh_counts d) k)" if "k \<in> set card_keys" for m d k
    using card_key_served [OF that, of m d] by (elim exE) (simp only: shows_number.simps jval.case)
  then show ?thesis by (simp add: metrics_shaped_def object_with_def metrics_doc_def list_all_iff del: map_of_append)
qed

lemma client_shaped: "object_with (client_json c) [''query_total'', ''last_seen_unix''] [''client_ip''] []"
  by (simp add: object_with_def client_json_def)

lemma doh_doc_shaped: "doh_shaped (doh_doc x s)"
proof (cases "fst (doh_of x s)")
  case (Some snap)
  then show ?thesis
    by (simp add: doh_shaped_def object_with_def [of "doh_doc x s"]) (simp add: doh_doc_def doh_counts_def client_shaped list_all_iff Let_def)
qed (simp add: doh_shaped_def object_with_def doh_doc_def doh_counts_def Let_def)

lemma status_doc_shaped: "status_shaped (status_doc x s)"
proof (cases "dz_ca_export s")
  case (Some path)
  then show ?thesis by (simp add: status_shaped_def object_with_def status_doc_def status_entries_def doh_counts_def Let_def)
qed (simp add: status_shaped_def object_with_def status_doc_def status_entries_def doh_counts_def Let_def)

lemma receipt_shaped:
  "object_with (receipt_as_json (jval_api pa pr) r) (tl (map fst HOST_COLS)) [] [] \<and> js_get (receipt_as_json (jval_api pa pr) r) ''host'' = None"
proof
  have "shows_number (js_get (receipt_as_json (jval_api pa pr) r) k)" if "k \<in> set (tl (map fst HOST_COLS))" for k
  proof -
    have "k \<in> set (map fst count_fields)" using that by (simp only: count_fields_keys count_cols_def)
    then obtain f where "(k, f) \<in> set count_fields" by (auto simp: in_set_conv_nth)
    then show ?thesis by (simp add: receipt_get)
  qed
  then show "object_with (receipt_as_json (jval_api pa pr) r) (tl (map fst HOST_COLS)) [] []"
    by (simp add: object_with_def list_all_iff receipt_as_json_def)
  have "''host'' \<notin> set receipt_keys" by (simp add: receipt_keys_def)
  then show "js_get (receipt_as_json (jval_api pa pr) r) ''host'' = None"
    by (simp add: receipt_as_json_def map_of_eq_None_iff receipt_entries_keys flip: set_map)
qed

lemma hosts_json_shaped: "hosts_shaped (hosts_json (jval_api pa pr) m)" "hosts_shaped (JObj [])"
  using receipt_shaped by (simp_all add: hosts_shaped_def hosts_json_def list_all_iff)

lemma receipts_doc_shaped: "dx_json x = jval_api pa pr \<Longrightarrow> receipts_shaped (receipts_doc x s)"
  using hosts_json_shaped
  by (cases "dz_receipts s") (simp_all add: receipts_shaped_def object_with_def receipts_doc_def hosts_as_json_def hosts_json_def)

lemma empty_shaped: "metrics_shaped (JObj [])" "doh_shaped (JObj [])" "receipts_shaped (JObj [])" "status_shaped (JObj [])"
  by (simp_all add: metrics_shaped_def doh_shaped_def receipts_shaped_def status_shaped_def object_with_def list_all_iff)

text \<open>The policy mode, which the script does not escape, is one of three words.\<close>

definition plain_mode :: "jval \<Rightarrow> bool" where
  "plain_mode v \<longleftrightarrow> CHR ''<'' \<notin> set (js_str_or (js_get v ''policy_mode'') ''--'')"

lemma plain_mode_sent: "plain_mode (status_doc x s)" "plain_mode (JObj [])"
proof -
  have "CHR ''<'' \<notin> set (mode_debug m)" for m by (cases m) simp_all
  then show "plain_mode (status_doc x s)"
    by (simp add: plain_mode_def status_doc_def status_entries_def case_prod_unfold Let_def)
  show "plain_mode (JObj [])" by (simp add: plain_mode_def)
qed

text \<open>The documents of a refresh, and a browser that reads what the server prints of them.\<close>

definition served :: "dash_env \<Rightarrow> dashboard_state \<Rightarrow> jval list" where
  "served x s = (let s1 = pruned_stats x s; s2 = pruned_stats x s1 in [metrics_doc x s, doh_doc x s1, receipts_doc x s2, status_doc x s2])"

definition reads_back :: "browser \<Rightarrow> dash_env \<Rightarrow> jval \<Rightarrow> bool" where
  "reads_back b x v = (case dx_to_string x v of Inr t \<Rightarrow> br_json b t = Some v | Inl _ \<Rightarrow> False)"

lemma reads_back_response: "reads_back b x v \<Longrightarrow> br_json b (rp_body (json_response x v)) = Some v" "res_ok (json_response x v)"
  by (auto simp: reads_back_def json_response_def json_response_with_status_def res_ok_def split: sum.splits)

lemma refresh_served:
  assumes "list_all (reads_back b x) (served x s)" "\<And>path. up path" "dx_json x = jval_api pa pr"
  shows "fst (refresh b x up p s) = updateStatus b (served x s ! 3) (updateHosts b (served x s ! 2)
    (updateDoh b (served x s ! 1) (updateMetrics b (served x s ! 0) p)))"
proof -
  let ?s1 = "pruned_stats x s" let ?s2 = "pruned_stats x ?s1"
  have docs: "reads_back b x (metrics_doc x s)" "reads_back b x (doh_doc x ?s1)" "reads_back b x (receipts_doc x ?s2)" "reads_back b x (status_doc x ?s2)"
    using assms(1) by (simp_all add: served_def Let_def)
  have objects: "metrics_doc x s \<noteq> JNull" "receipts_doc x ?s2 \<noteq> JNull" "status_doc x ?s2 \<noteq> JNull"
    by (simp_all add: metrics_doc_def receipts_doc_def status_doc_def)
  show ?thesis
    using objects
    by (simp add: refresh_def fetch_def assms(2) handle_gets page_updates_def needs_object_def run_update_def reads_back_response docs served_def
        metrics_doc_shaped doh_doc_shaped receipts_doc_shaped [OF assms(3)] status_doc_shaped Let_def)
qed

section \<open>What the handlers leave alone\<close>

lemma fold_update_metric:
  "pg_text (fold (update_metric b data) ks p) (''v-'' @ k) =
    (if k \<in> set ks \<and> pg_text p (''v-'' @ k) \<noteq> None then Some (br_locale_num b (js_num (js_get data k))) else pg_text p (''v-'' @ k))"
  by (induction ks arbitrary: p) (auto simp: update_metric_def Let_def)

lemma fold_update_metric_frame:
  "pg_html (fold (update_metric b data) ks p) = pg_html p" "pg_sort_col (fold (update_metric b data) ks p) = pg_sort_col p"
  "pg_sort_asc (fold (update_metric b data) ks p) = pg_sort_asc p" "pg_filter_text (fold (update_metric b data) ks p) = pg_filter_text p"
  "pg_last_hosts (fold (update_metric b data) ks p) = pg_last_hosts p" "pg_alerts (fold (update_metric b data) ks p) = pg_alerts p"
  by (induction ks arbitrary: p; simp add: update_metric_def Let_def)+

lemma updateMetrics_frame [simp]:
  "pg_html (updateMetrics b data p) = pg_html p" "pg_sort_col (updateMetrics b data p) = pg_sort_col p"
  "pg_sort_asc (updateMetrics b data p) = pg_sort_asc p" "pg_filter_text (updateMetrics b data p) = pg_filter_text p"
  "pg_last_hosts (updateMetrics b data p) = pg_last_hosts p" "pg_alerts (updateMetrics b data p) = pg_alerts p"
  by (simp_all add: updateMetrics_def fold_update_metric_frame)

lemma updateDoh_html: "i \<noteq> ''doh-tbody'' \<Longrightarrow> pg_html (updateDoh b data p) i = pg_html p i"
  by (simp add: updateDoh_def Let_def)

lemma updateStatus_html: "i \<noteq> ''policy-mode'' \<Longrightarrow> pg_html (updateStatus b data p) i = pg_html p i"
  by (simp add: updateStatus_def Let_def)

lemma updateDoh_frame [simp]:
  "pg_html (updateDoh b data p) ''host-tbody'' = pg_html p ''host-tbody''" "pg_sort_col (updateDoh b data p) = pg_sort_col p"
  "pg_sort_asc (updateDoh b data p) = pg_sort_asc p" "pg_filter_text (updateDoh b data p) = pg_filter_text p"
  "pg_last_hosts (updateDoh b data p) = pg_last_hosts p" "pg_text (updateDoh b data p) = pg_text p" "pg_alerts (updateDoh b data p) = pg_alerts p"
  by (simp_all add: updateDoh_def Let_def)

lemma updateStatus_frame [simp]:
  "pg_html (updateStatus b data p) ''host-tbody'' = pg_html p ''host-tbody''" "pg_html (updateStatus b data p) ''doh-tbody'' = pg_html p ''doh-tbody''"
  "pg_sort_col (updateStatus b data p) = pg_sort_col p" "pg_sort_asc (updateStatus b data p) = pg_sort_asc p"
  "pg_filter_text (updateStatus b data p) = pg_filter_text p" "pg_last_hosts (updateStatus b data p) = pg_last_hosts p"
  "pg_text (updateStatus b data p) (''v-'' @ k) = pg_text p (''v-'' @ k)" "pg_alerts (updateStatus b data p) = pg_alerts p"
  by (simp_all add: updateStatus_def Let_def)

lemma renderTable_frame [simp]:
  "pg_sort_col (renderTable b hosts p) = pg_sort_col p" "pg_sort_asc (renderTable b hosts p) = pg_sort_asc p"
  "pg_filter_text (renderTable b hosts p) = pg_filter_text p" "pg_last_hosts (renderTable b hosts p) = pg_last_hosts p"
  "pg_text (renderTable b hosts p) = pg_text p" "pg_alerts (renderTable b hosts p) = pg_alerts p"
  by (simp_all add: renderTable_def Let_def)

lemma table_html_cong:
  assumes "pg_sort_col p = pg_sort_col q" "pg_sort_asc p = pg_sort_asc q" "pg_filter_text p = pg_filter_text q"
  shows "table_html b hosts p = table_html b hosts q"
  unfolding table_html_def table_rows_def assms ..

section \<open>Sessions\<close>

text \<open>The server of the engine, which prints what the browser reads, or \<open>{}\<close> where printing fails.\<close>

definition engine_answers :: "browser \<Rightarrow> dash_env \<Rightarrow> bool" where
  "engine_answers b x \<longleftrightarrow> (\<exists>pa pr. dx_json x = jval_api pa pr) \<and> br_json b ''{}'' = Some (JObj []) \<and>
     (\<forall>v t. dx_to_string x v = Inr t \<longrightarrow> br_json b t = Some v)"

text \<open>A step of a session: an event, with the server as it is at that moment.\<close>

inductive page_step :: "browser \<Rightarrow> page \<Rightarrow> page \<Rightarrow> bool" for b where
  event: "page_step b p (fst (page_event_step b ev x p s))" if "engine_answers b x"

inductive_cases page_stepE: "page_step b p q"

definition tbody_safe :: "page \<Rightarrow> bytes \<Rightarrow> bool" where
  "tbody_safe p i = (case pg_html p i of Some h \<Rightarrow> snd ` set (html_parse h) \<subseteq> table_tags | None \<Rightarrow> False)"

definition mode_tags :: "bytes set" where
  "mode_tags = {''span class=\"tag tag-enforce\"'', ''span class=\"tag tag-report\"'', ''span class=\"tag tag-disabled\"'', ''/span''}"

text \<open>The other places that markup is written to: the policy mode, and the cards and the header of the table, which stay as they are at first.\<close>

definition rest_safe :: "page \<Rightarrow> bool" where
  "rest_safe p \<longleftrightarrow> (\<forall>h. pg_html p ''policy-mode'' = Some h \<longrightarrow> snd ` set (html_parse h) \<subseteq> mode_tags) \<and>
     (\<forall>i \<in> {''metric-cards'', ''host-thead''}. pg_html p i = pg_html page_open i)"

definition page_base :: "page \<Rightarrow> bool" where
  "page_base p \<longleftrightarrow> list_all (\<lambda>k. pg_text p (''v-'' @ k) \<noteq> None) card_keys \<and> pg_sort_col p \<in> set (map fst HOST_COLS) \<and>
     tbody_safe p ''doh-tbody'' \<and> rest_safe p \<and> hosts_shaped (pg_last_hosts p)"

definition page_inv :: "browser \<Rightarrow> page \<Rightarrow> bool" where
  "page_inv b p \<longleftrightarrow> page_base p \<and> tbody_safe p ''host-tbody'' \<and>
     (pg_html p ''host-tbody'' = Some [] \<and> pg_last_hosts p = JObj [] \<or> pg_html p ''host-tbody'' = Some (table_html b (pg_last_hosts p) p))"

lemma init_texts_frame: "pg_filter_text (init_texts ks p) = pg_filter_text p" "pg_html (init_texts ks p) = pg_html p" "pg_sort_col (init_texts ks p) = pg_sort_col p" "pg_last_hosts (init_texts ks p) = pg_last_hosts p"
  unfolding init_texts_def by (induction ks arbitrary: p; simp)+

lemma init_texts_text: "pg_text (init_texts ks p) (''v-'' @ k) = (if k \<in> set ks then Some ''0'' else pg_text p (''v-'' @ k))"
  unfolding init_texts_def by (induction ks arbitrary: p) auto

lemma message_row_tags: "snd ` set (html_parse (message_row ''3'' ''1rem'' ''DoH server disabled'')) \<subseteq> table_tags"
  "snd ` set (html_parse (message_row ''3'' ''1rem'' ''No DoH queries yet'')) \<subseteq> table_tags"
proof -
  have "snd ` set (html_parse (message_row ''3'' ''1rem'' msg)) \<subseteq> table_tags" if "CHR ''<'' \<notin> set msg" for msg
    using emits_parse [OF emits_message_row [OF _ that, of "''3''" "''1rem''"]] by (simp add: table_tags_def)
  then show "snd ` set (html_parse (message_row ''3'' ''1rem'' ''DoH server disabled'')) \<subseteq> table_tags"
    "snd ` set (html_parse (message_row ''3'' ''1rem'' ''No DoH queries yet'')) \<subseteq> table_tags" by simp_all
qed

lemma page_inv_open: "page_inv b page_open"
proof -
  have "pg_text page_open (''v-'' @ k) = Some ''0''" if "k \<in> set card_keys" for k
    using init_texts_text [of card_keys _ k] that by (simp add: page_open_def initTable_def initCards_def)
  then have "list_all (\<lambda>k. pg_text page_open (''v-'' @ k) \<noteq> None) card_keys" by (simp add: list_all_iff)
  moreover have "pg_sort_col page_open = ''seen_total''" "pg_html page_open ''host-tbody'' = Some []" "pg_last_hosts page_open = JObj []"
    "pg_html page_open ''doh-tbody'' = Some (message_row ''3'' ''1rem'' ''DoH server disabled'')" "pg_html page_open ''policy-mode'' = None"
    by (simp_all add: page_open_def initTable_def initCards_def init_texts_frame page_initial_def)
  ultimately show ?thesis
    using message_row_tags(1) hosts_json_shaped(2) by (simp add: page_inv_def page_base_def rest_safe_def tbody_safe_def html_parse_def HOST_COLS_def)
qed

definition client_tokens :: "browser \<Rightarrow> jval \<Rightarrow> (bytes \<times> bytes) list" where
  "client_tokens b c = row_toks (js_str_or (js_get c ''client_ip'') ''--'')
     [br_locale_num b (js_num (js_get c ''query_total'')), fmtTime b (js_num (js_get c ''last_seen_unix''))]"

lemma emits_doh_rows: "plain_locale b \<Longrightarrow> emits (concat (map (doh_row b) rows)) (concat (map (client_tokens b) rows))"
proof -
  assume b: "plain_locale b"
  have "emits (''<tr>'' @ (''<td class=\"host-name\">'' @ esc h @ ''</td>'') @ (''<td>'' @ t @ ''</td>'') @ (''<td>'' @ u @ ''</td>'') @ ''</tr>'') (row_toks h [t, u])"
    if "CHR ''<'' \<notin> set t" "CHR ''&'' \<notin> set t" "CHR ''<'' \<notin> set u" "CHR ''&'' \<notin> set u" for h t u
    using emits_append [OF emits_tr(1) emits_append [OF emits_host_td [of h] emits_append [OF emits_td [OF that(1)] emits_append [OF emits_td [OF that(3)] emits_tr(2)]]]] that
    by (simp add: row_toks_def cell_tokens_def unescape_plain)
  from this [OF num_plain [OF b] fmtTime_plain [OF b]] show ?thesis
    by (intro page.reads_concat) (simp add: doh_row_def client_tokens_def)
qed

lemma doh_rows_tags: "plain_locale b \<Longrightarrow> snd ` set (html_parse (concat (map (doh_row b) rows))) \<subseteq> table_tags"
proof -
  assume b: "plain_locale b"
  have "snd ` set (concat (map (client_tokens b) rows)) \<subseteq> table_tags"
    unfolding client_tokens_def by (rule concat_tags) (rule order_trans [OF row_toks_tags], auto simp: table_tags_def)
  then show ?thesis by (simp add: emits_parse [OF emits_doh_rows [OF b]])
qed

lemma emits_mode:
  assumes "CHR ''<'' \<notin> set m"
  shows "emits (''<span class=\"tag '' @ mode_tag mode @ ''\">'' @ m @ ''</span>'') [([], ''span class=\"tag '' @ mode_tag mode @ [CHR 0x22]), (unescape_html m, ''/span'')]"
  using assms by (simp add: mode_tag_def emits_def scan_text)

lemma mode_html_tags:
  assumes "CHR ''<'' \<notin> set m"
  shows "snd ` set (html_parse (''<span class=\"tag '' @ mode_tag mode @ ''\">'' @ m @ ''</span>'')) \<subseteq> mode_tags"
  unfolding emits_parse [OF emits_mode [OF assms]] by (simp add: mode_tag_def mode_tags_def)

text \<open>Every update keeps the invariant.\<close>

lemma page_inv_render:
  assumes "plain_locale b" "page_base p" "pg_last_hosts p = hosts"
  shows "page_inv b (renderTable b hosts p)"
proof -
  have "table_html b hosts (renderTable b hosts p) = table_html b hosts p" by (rule table_html_cong) simp_all
  with assms table_html_tags [OF assms(1), of hosts p] show ?thesis
    by (simp add: page_inv_def page_base_def rest_safe_def tbody_safe_def renderTable_html)
qed

lemma page_inv_render_last: "plain_locale b \<Longrightarrow> page_base p \<Longrightarrow> page_inv b (render_last b p)"
  using page_inv_render [of b p] by (simp add: render_last_def page_base_def)

lemma page_inv_cong:
  assumes "page_inv b p" "page_base p \<Longrightarrow> page_base q" "pg_sort_col q = pg_sort_col p" "pg_sort_asc q = pg_sort_asc p"
    "pg_filter_text q = pg_filter_text p" "pg_last_hosts q = pg_last_hosts p" "pg_html q ''host-tbody'' = pg_html p ''host-tbody''"
  shows "page_inv b q"
  using assms table_html_cong [of p q b] unfolding page_inv_def tbody_safe_def by simp

lemmas page_parts = page_base_def rest_safe_def tbody_safe_def

lemma page_inv_updateMetrics: "page_inv b p \<Longrightarrow> page_inv b (updateMetrics b data p)"
  by (erule page_inv_cong) (simp_all add: page_parts list_all_iff updateMetrics_def fold_update_metric_frame fold_update_metric del: append_Cons append_Nil)

lemma page_inv_updateDoh: "plain_locale b \<Longrightarrow> page_inv b p \<Longrightarrow> page_inv b (updateDoh b data p)"
proof (erule page_inv_cong)
  assume "plain_locale b"
  then have "tbody_safe (updateDoh b data p) ''doh-tbody''"
    using doh_rows_tags message_row_tags by (simp add: tbody_safe_def updateDoh_def Let_def)
  then show "page_base p \<Longrightarrow> page_base (updateDoh b data p)" by (simp add: page_base_def rest_safe_def updateDoh_html)
qed simp_all

lemma updateHosts_shaped: "receipts_shaped v \<Longrightarrow> hosts_shaped (if js_truthy (js_get v ''hosts'') then the (js_get v ''hosts'') else JObj [])"
proof -
  assume v: "receipts_shaped v"
  have ob: "\<exists>ob. h = JObj ob" if "hosts_shaped h" for h using that by (cases h) (simp_all add: hosts_shaped_def)
  from v consider "js_get v ''hosts'' = None" | "js_get v ''hosts'' = Some JNull" | h where "js_get v ''hosts'' = Some h" "hosts_shaped h"
    by (auto simp: receipts_shaped_def split: option.splits jval.splits)
  then show ?thesis by cases (use hosts_json_shaped(2) ob in force)+
qed

lemma page_inv_updateHosts: "plain_locale b \<Longrightarrow> receipts_shaped v \<Longrightarrow> page_inv b p \<Longrightarrow> page_inv b (updateHosts b v p)"
  using updateHosts_shaped [of v] unfolding updateHosts_def Let_def
  by (intro page_inv_render) (simp_all add: page_inv_def page_parts)

lemma page_inv_updateStatus: "plain_mode v \<Longrightarrow> page_inv b p \<Longrightarrow> page_inv b (updateStatus b v p)"
proof (erule page_inv_cong)
  assume "plain_mode v"
  then obtain h where "pg_html (updateStatus b v p) ''policy-mode'' = Some h" "snd ` set (html_parse h) \<subseteq> mode_tags"
    using mode_html_tags [of "js_str_or (js_get v ''policy_mode'') ''--''"] by (simp add: plain_mode_def updateStatus_def Let_def)
  then show "page_base p \<Longrightarrow> page_base (updateStatus b v p)"
    by (simp add: page_parts list_all_iff updateStatus_html del: append_Cons append_Nil)
qed simp_all

text \<open>A refresh at the server of the engine: nothing, or the four updates with documents of the shapes they expect.\<close>

lemma engine_answers_response:
  assumes "engine_answers b x"
  shows "res_ok (json_response x v)" "br_json b (rp_body (json_response x v)) \<in> {Some v, Some (JObj [])}"
  using assms by (auto simp: engine_answers_def json_response_def json_response_with_status_def res_ok_def split: sum.splits)

lemma refresh_engine:
  assumes "engine_answers b x"
  shows "fst (refresh b x up p s) = p \<or> (\<exists>m d r t. metrics_shaped m \<and> doh_shaped d \<and> receipts_shaped r \<and> status_shaped t \<and> plain_mode t \<and>
    fst (refresh b x up p s) = updateStatus b t (updateHosts b r (updateDoh b d (updateMetrics b m p))))"
proof (cases "\<forall>path \<in> {''/api/metrics'', ''/api/doh'', ''/api/receipts'', ''/api/status''}. up path")
  case True
  let ?s1 = "pruned_stats x s" let ?s2 = "pruned_stats x ?s1"
  obtain pa pr where J: "dx_json x = jval_api pa pr" using assms by (auto simp: engine_answers_def)
  obtain m d r t where sent: "br_json b (rp_body (json_response x (metrics_doc x s))) = Some m" "br_json b (rp_body (json_response x (doh_doc x ?s1))) = Some d"
      "br_json b (rp_body (json_response x (receipts_doc x ?s2))) = Some r" "br_json b (rp_body (json_response x (status_doc x ?s2))) = Some t"
    and shaped: "metrics_shaped m" "doh_shaped d" "receipts_shaped r" "status_shaped t" "plain_mode t"
    using engine_answers_response(2) [OF assms] metrics_doc_shaped doh_doc_shaped receipts_doc_shaped [OF J] status_doc_shaped empty_shaped plain_mode_sent
    by (metis insertE singletonD)
  have "m \<noteq> JNull" "r \<noteq> JNull" "t \<noteq> JNull" using shaped by (auto simp: metrics_shaped_def receipts_shaped_def status_shaped_def object_with_def)
  then have "fst (refresh b x up p s) = updateStatus b t (updateHosts b r (updateDoh b d (updateMetrics b m p)))"
    using True by (simp add: refresh_def fetch_def rq_path_get handle_gets page_updates_def needs_object_def run_update_def engine_answers_response(1) [OF assms] sent shaped Let_def)
  with shaped show ?thesis by blast
next
  case False
  then have "fst (refresh b x up p s) = p"
    by (auto simp: refresh_def fetch_def get_request_def case_prod_unfold Let_def split: option.split)
  then show ?thesis ..
qed

lemma page_inv_refresh: "plain_locale b \<Longrightarrow> engine_answers b x \<Longrightarrow> page_inv b p \<Longrightarrow> page_inv b (fst (refresh b x up p s))"
proof -
  assume b: "plain_locale b" "engine_answers b x" and p: "page_inv b p"
  from refresh_engine [OF b(2), of up p s] show ?thesis
    using b(1) p by (elim disjE exE conjE) (simp_all add: page_inv_updateMetrics page_inv_updateDoh page_inv_updateHosts page_inv_updateStatus)
qed

lemma refresh_alerts: "engine_answers b x \<Longrightarrow> pg_alerts (fst (refresh b x up p s)) = pg_alerts p"
proof -
  assume "engine_answers b x"
  from refresh_engine [OF this, of up p s] show ?thesis by (elim disjE exE conjE) (simp_all add: updateHosts_def Let_def)
qed

text \<open>Reading changes nothing of the server but the statistics of the DoH clients.\<close>

definition stats_only :: "dashboard_state \<Rightarrow> dashboard_state \<Rightarrow> bool" where
  "stats_only s t \<longleftrightarrow> t\<lparr>dz_doh_stats := None\<rparr> = s\<lparr>dz_doh_stats := None\<rparr>"

lemma fetch_get:
  assumes "path \<in> {''/api/metrics'', ''/api/doh'', ''/api/receipts'', ''/api/status''}"
  shows "stats_only s (snd (fetch x up (get_request path) s))"
  using assms by (auto simp: stats_only_def fetch_def handle_gets pruned_stats_def)

lemma refresh_server: "stats_only s (snd (refresh b x up p s))"
proof -
  have trans: "stats_only s t \<Longrightarrow> stats_only t u \<Longrightarrow> stats_only s u" for s t u by (simp add: stats_only_def)
  show ?thesis
    unfolding refresh_def case_prod_unfold Let_def snd_conv by (rule trans [OF trans [OF trans [OF fetch_get fetch_get] fetch_get] fetch_get]) simp_all
qed

lemma page_inv_alert: "page_inv b p \<Longrightarrow> page_inv b (page_alert msg p)"
  by (erule page_inv_cong) (simp_all add: page_alert_def page_parts)

lemma page_inv_step:
  assumes "plain_locale b" "page_inv b p" "engine_answers b x"
  shows "page_inv b (fst (page_event_step b ev x p s))"
proof (cases ev)
  case (HeaderClick col)
  have "page_inv b (header_click b col p)" if "col \<in> set (map fst HOST_COLS)"
    unfolding header_click_def Let_def using assms that by (intro page_inv_render_last) (auto simp: page_inv_def page_parts)
  with HeaderClick assms(2) show ?thesis by simp
next
  case (SearchInput v)
  then show ?thesis
    using assms by (simp add: search_input_def) (rule page_inv_render_last, auto simp: page_inv_def page_parts)
next
  case (AcceptChange checked)
  with assms(2) show ?thesis by simp (erule page_inv_cong, simp_all add: accept_change_def page_parts)
next
  case (ChangedTimeout key)
  with assms(2) show ?thesis by simp (erule page_inv_cong, simp_all add: changed_timeout_def page_parts)
next
  case (ResetClick up confirmed)
  with assms show ?thesis
    by (simp add: reset_click_def page_inv_alert page_inv_refresh Let_def split: prod.split option.split)
qed (simp add: page_inv_refresh assms)

interpretation session: step_system "\<lambda>p. p = page_open" "page_step b" "\<lambda>p. plain_locale b \<longrightarrow> page_inv b p" for b
  by unfold_locales (auto simp: page_inv_open page_inv_step elim!: page_stepE)

section \<open>Properties\<close>

text \<open>C31: no data of the engine can become markup of the page, whatever happens in a session: after any
  events, each at a server of the engine in any state (with any names of hosts and clients, any policy, any counters, and requests that may fail),
  the markup in the tables of the hosts and of the DoH clients has only the tags of its rows and cells, the policy mode has only its
  \<open>span\<close>, and the cards and the header of the table are as they were at first; these are all the places that the script writes markup to. The cards
  have an element for every counter, the sort column is one of the columns, and
  the table of the hosts shows the last hosts received under the current sorting and search.\<close>
theorem page_session_safe:
  assumes "plain_locale b" "(page_step b)\<^sup>*\<^sup>* page_open p"
  shows "(\<forall>i \<in> {''host-tbody'', ''doh-tbody''}. \<exists>html. pg_html p i = Some html \<and> snd ` set (html_parse html) \<subseteq> table_tags) \<and>
    (\<forall>html. pg_html p ''policy-mode'' = Some html \<longrightarrow> snd ` set (html_parse html) \<subseteq> mode_tags) \<and>
    (\<forall>i \<in> {''metric-cards'', ''host-thead''}. pg_html p i = pg_html page_open i) \<and>
    (\<forall>k \<in> set card_keys. pg_text p (''v-'' @ k) \<noteq> None) \<and> pg_sort_col p \<in> set (map fst HOST_COLS) \<and>
    (pg_html p ''host-tbody'' = Some [] \<and> pg_last_hosts p = JObj [] \<or> pg_html p ''host-tbody'' = pg_html (renderTable b (pg_last_hosts p) p) ''host-tbody'')"
proof -
  have "page_inv b p" using session.inv_run [OF refl assms(2)] assms(1) by blast
  then show ?thesis
    by (auto simp: page_inv_def page_parts list_all_iff renderTable_html simp del: append_Cons append_Nil split: option.splits)
qed

lemma row_texts_receipt:
  "row_host (h, receipt_as_json (jval_api pa pr) r) # map (cell_text b (h, receipt_as_json (jval_api pa pr) r)) count_cols = host_texts b h r"
proof -
  note count = row_count [of _ _ h pa pr r, unfolded count_fields_def list.set]
  show ?thesis
    by (simp add: row_host_receipt host_texts_def count_cols_def HOST_COLS_def cell_text_def Let_def count del: row_get.simps)
qed

lemma refresh_host_table:
  assumes "list_all (reads_back b x) (served x s)" "\<And>path. up path" "dx_json x = jval_api pa pr" "dz_receipts s = Some st" "\<not> rs_poisoned st"
  shows "pg_html (fst (refresh b x up p s)) ''host-tbody'' =
    Some (table_html b (JObj (map (\<lambda>h. (h, receipt_as_json (jval_api pa pr) (the (rs_hosts st h)))) (sorted_list_of_set (dom (rs_hosts st))))) p)"
proof -
  let ?hosts = "JObj (map (\<lambda>h. (h, receipt_as_json (jval_api pa pr) (the (rs_hosts st h)))) (sorted_list_of_set (dom (rs_hosts st))))"
  have "served x s ! 2 = JObj [(''hosts'', ?hosts)]"
    using assms(3-5) by (simp add: served_def receipts_doc_def pruned_stats_frame hosts_as_json_def hosts_json_def Let_def)
  then have "pg_html (fst (refresh b x up p s)) ''host-tbody'' =
      Some (table_html b ?hosts ((updateDoh b (served x s ! 1) (updateMetrics b (served x s ! 0) p))\<lparr>pg_last_hosts := ?hosts\<rparr>))"
    by (simp add: refresh_served [OF assms(1,2,3)] updateHosts_def renderTable_html Let_def)
  also have "table_html b ?hosts ((updateDoh b (served x s ! 1) (updateMetrics b (served x s ! 0) p))\<lparr>pg_last_hosts := ?hosts\<rparr>) = table_html b ?hosts p"
    by (rule table_html_cong) simp_all
  finally show ?thesis .
qed

lemma table_rows_hosts:
  fixes m :: "bytes \<rightharpoonup> host_receipt" and pa :: "bytes \<Rightarrow> string + jval" and pr :: "jval \<Rightarrow> string + bytes" and b :: browser and p :: page
  assumes "finite (dom m)"
  defines "row \<equiv> \<lambda>h. (h, receipt_as_json (jval_api pa pr) (the (m h)))"
  defines "rows \<equiv> table_rows b (JObj (map row (sorted_list_of_set (dom m)))) p"
  shows "map row (map fst rows) = rows" "distinct (map fst rows)" "set (map fst rows) = {h \<in> dom m. sublist (pg_filter_text p) h}"
proof -
  let ?ob = "map row (sorted_list_of_set (dom m))"
  let ?es = "if pg_filter_text p = [] then object_entries ?ob else filter (\<lambda>r. str_contains (row_host r) (pg_filter_text p)) (object_entries ?ob)"
  have rows: "rows = js_sort (row_compare b (pg_sort_col p) (pg_sort_asc p)) ?es" by (simp add: rows_def table_rows_def Let_def)
  have in_row: "r \<in> row ` dom m" if "r \<in> set rows" for r
    using that assms(1) by (auto simp: rows js_sort_simps set_object_entries split: if_splits)
  have "row (fst r) = r" if "r \<in> set rows" for r using in_row [OF that] by (auto simp: row_def)
  then show "map row (map fst rows) = rows" by (simp add: map_idI)
  have "distinct (map fst ?ob)" by (simp add: row_def comp_def)
  then have "distinct (map fst (object_entries ?ob))" by (rule set_object_entries(3))
  then have "distinct (map fst ?es)" by (simp add: distinct_map_filter)
  moreover have "mset (map fst rows) = mset (map fst ?es)" unfolding rows mset_map mset_js_sort ..
  ultimately show "distinct (map fst rows)" using mset_eq_imp_distinct_iff by blast
  have row: "row_host (row h) = h" "fst (row h) = h" for h by (simp_all add: row_def row_host_receipt)
  have "set rows = {r \<in> row ` dom m. sublist (pg_filter_text p) (row_host r)}"
    using assms(1) by (auto simp: rows js_sort_simps set_object_entries str_contains_iff)
  also have "... = row ` {h \<in> dom m. sublist (pg_filter_text p) h}" using row(1) by auto
  finally show "set (map fst rows) = {h \<in> dom m. sublist (pg_filter_text p) h}" by (simp add: image_image row(2))
qed

text \<open>The order that the script's sort gives on a counter.\<close>

lemma table_rows_ranked:
  fixes p :: page
  assumes "pg_sort_col p = k" "k \<noteq> ''host''"
  defines "key \<equiv> \<lambda>r. js_num (row_get r k)"
  defines "before \<equiv> \<lambda>r q. if pg_sort_asc p then key r \<le> key q else key q \<le> key r"
  shows "sorted_wrt before (table_rows b hosts p)"
    "r \<in> set (take n (table_rows b hosts p)) \<Longrightarrow> q \<in> set (drop n (table_rows b hosts p)) \<Longrightarrow> before r q"
proof -
  obtain es where rows: "table_rows b hosts p = js_sort (row_compare b k (pg_sort_asc p)) es" using assms(1) by (simp add: table_rows_def Let_def)
  show "sorted_wrt before (table_rows b hosts p)"
    using ascending.sort_sorted [of key es] descending.sort_sorted [of key es]
    by (cases "pg_sort_asc p") (simp_all add: rows row_compare_column [OF assms(2)] before_def key_def)
  show "r \<in> set (take n (table_rows b hosts p)) \<Longrightarrow> q \<in> set (drop n (table_rows b hosts p)) \<Longrightarrow> before r q"
    using ascending.sort_prefix_least [of r n key es q] descending.sort_prefix_least [of r n key es q]
    by (cases "pg_sort_asc p") (simp_all add: rows row_compare_column [OF assms(2)] before_def key_def)
qed

lemma shown_hosts_ranked:
  fixes m :: "bytes \<rightharpoonup> host_receipt" and pa :: "bytes \<Rightarrow> string + jval" and pr :: "jval \<Rightarrow> string + bytes" and b :: browser and p :: page
  assumes "finite (dom m)" "(k, f) \<in> set count_fields" "pg_sort_col p = k"
  defines "row \<equiv> \<lambda>h. (h, receipt_as_json (jval_api pa pr) (the (m h)))"
  defines "rows \<equiv> table_rows b (JObj (map row (sorted_list_of_set (dom m)))) p"
  defines "before \<equiv> \<lambda>g h. ranks (pg_sort_asc p) (f (the (m g))) (f (the (m h)))"
  shows "sorted_wrt before (map fst (take n rows)) \<and> (\<forall>g \<in> set (map fst (take n rows)). \<forall>h \<in> set (map fst (drop n rows)). before g h)"
proof -
  let ?key = "\<lambda>r. js_num (row_get r k)"
  let ?before = "\<lambda>r q. if pg_sort_asc p then ?key r \<le> ?key q else ?key q \<le> ?key r"
  have k: "k \<noteq> ''host''" using assms(2) HOST_COLS_keys(2) count_fields_keys by (metis fst_conv image_eqI set_map)
  have rows: "map row (map fst rows) = rows"
    using table_rows_hosts(1) [OF assms(1), where pa = pa and pr = pr and b = b and p = p] by (simp only: rows_def row_def)
  then have part: "map row (map fst (take n rows)) = take n rows" "map row (map fst (drop n rows)) = drop n rows"
    by (simp_all only: take_map [symmetric] drop_map [symmetric])
  have before: "before g h" if "?before (row g) (row h)" for g h
    using that js_double_le_iff row_count [OF assms(2)]
    by (auto simp: before_def row_def ranks_def word_le_nat_alt simp del: row_get.simps split: if_splits)
  have "sorted_wrt ?before (map row (map fst (take n rows)))"
    unfolding part(1) by (rule sorted_wrt_take) (unfold rows_def, rule table_rows_ranked(1) [OF assms(3) k])
  then have "sorted_wrt before (map fst (take n rows))"
    unfolding sorted_wrt_map [of _ row] by (rule sorted_wrt_mono_rel [rotated]) (rule before)
  moreover have "before g h" if "g \<in> set (map fst (take n rows))" "h \<in> set (map fst (drop n rows))" for g h
  proof -
    have "row g \<in> set (take n rows)" "row h \<in> set (drop n rows)"
      using imageI [OF that(1), of row] imageI [OF that(2), of row] unfolding set_map [symmetric] part by simp_all
    from table_rows_ranked(2) [OF assms(3) k this [unfolded rows_def]] show ?thesis by (rule before)
  qed
  ultimately show ?thesis by blast
qed

text \<open>C40: the table of the hosts tells the truth: after a refresh that the server answers, read as HTML it has a row for each of at most 200
  hosts of the receipts whose name contains the search text, all of them when there are no more, each once, with the name exactly as
  it is and the counters of the receipt under the headers of their columns. Sorted by a counter, the rows are in its order, and no
  host left out belongs before a host shown (counters above \<open>2 ^ 53\<close> are compared as rounded).\<close>
theorem page_table_faithful:
  assumes "plain_locale b" "list_all (reads_back b x) (served x s)" "\<forall>path. up path" "dx_json x = jval_api pa pr"
    and "dz_receipts s = Some st" "\<not> rs_poisoned st" "finite (dom (rs_hosts st))"
    and "matching = {h \<in> dom (rs_hosts st). sublist (pg_filter_text p) h}" "matching \<noteq> {}"
  shows "\<exists>hs. html_table (the (pg_html (fst (refresh b x up p s)) ''host-tbody'')) = map (\<lambda>h. host_texts b h (the (rs_hosts st h))) hs \<and>
    distinct hs \<and> set hs \<subseteq> matching \<and> length hs = min 200 (card matching) \<and>
    (\<forall>(k, f) \<in> set count_fields. pg_sort_col p = k \<longrightarrow>
      (let count = (\<lambda>h. f (the (rs_hosts st h)))
       in sorted_wrt (\<lambda>g h. ranks (pg_sort_asc p) (count g) (count h)) hs \<and>
          (\<forall>g \<in> set hs. \<forall>h \<in> matching - set hs. ranks (pg_sort_asc p) (count g) (count h))))"
proof -
  let ?m = "rs_hosts st"
  let ?row = "\<lambda>h. (h, receipt_as_json (jval_api pa pr) (the (?m h)))"
  let ?rows = "table_rows b (JObj (map ?row (sorted_list_of_set (dom ?m)))) p"
  let ?hs = "map fst (take 200 ?rows)"
  note rows = table_rows_hosts [OF assms(7), where pa = pa and pr = pr and b = b and p = p]
  have split: "set (map fst ?rows) = set ?hs \<union> set (map fst (drop 200 ?rows))"
    by (simp only: set_append [symmetric] map_append [symmetric] append_take_drop_id)
  have row: "map ?row ?hs = take 200 ?rows" by (simp only: take_map [symmetric] rows(1))
  have "?rows \<noteq> []" using rows(3) assms(8,9) by auto
  then have "html_table (the (pg_html (fst (refresh b x up p s)) ''host-tbody'')) = map (\<lambda>r. row_host r # map (cell_text b r) count_cols) (take 200 ?rows)"
    using refresh_host_table [OF assms(2) _ assms(4-6)] assms(3) table_html_reads [OF assms(1)] by simp
  also have "... = map (\<lambda>r. row_host r # map (cell_text b r) count_cols) (map ?row ?hs)" by (simp only: row)
  also have "... = map (\<lambda>h. host_texts b h (the (?m h))) ?hs" by (simp only: map_map comp_def row_texts_receipt)
  finally have table: "html_table (the (pg_html (fst (refresh b x up p s)) ''host-tbody'')) = map (\<lambda>h. host_texts b h (the (?m h))) ?hs" .
  have len: "length ?hs = min 200 (card matching)"
    using distinct_card [OF rows(2)] rows(3) assms(8) by simp
  have order: "sorted_wrt (\<lambda>g h. ranks (pg_sort_asc p) (f (the (?m g))) (f (the (?m h)))) ?hs \<and>
      (\<forall>g \<in> set ?hs. \<forall>h \<in> matching - set ?hs. ranks (pg_sort_asc p) (f (the (?m g))) (f (the (?m h))))"
    if "(k, f) \<in> set count_fields" "pg_sort_col p = k" for k f
    using shown_hosts_ranked [OF assms(7) that, where pa = pa and pr = pr and b = b] rows(3) assms(8) split by blast
  have "distinct ?hs" "set ?hs \<subseteq> matching"
    using rows(2,3) assms(8) split by (auto simp: take_map [symmetric])
  with table len order show ?thesis by (intro exI [of _ ?hs]) (auto simp: Let_def)
qed

text \<open>The cards show the counters: the server sends a number under every key of the cards, and after a refresh that
  it answers each card shows that number, on every page of a session.\<close>
theorem cards_show_counters:
  assumes "plain_locale b" "(page_step b)\<^sup>*\<^sup>* page_open p" "list_all (reads_back b x) (served x s)" "\<forall>path. up path" "k \<in> set card_keys"
    and "dx_json x = jval_api pa pr"
  shows "\<exists>n. map_of (metrics_entries (snapshot (dz_metrics s)) @ doh_counts (fst (doh_of x s))) k = Some (JNum n) \<and>
    pg_text (fst (refresh b x up p s)) (''v-'' @ k) = Some (br_locale_num b (js_double (unat n)))"
proof -
  have "page_inv b p" using session.inv_run [OF refl assms(2)] assms(1) by blast
  then have el: "pg_text p (''v-'' @ k) \<noteq> None" using assms(5) by (simp add: page_inv_def page_base_def list_all_iff del: append_Cons append_Nil)
  have doc: "served x s ! 0 = JObj (metrics_entries (snapshot (dz_metrics s)) @ doh_counts (fst (doh_of x s)))"
    by (simp add: served_def metrics_doc_def Let_def)
  obtain n where n: "map_of (metrics_entries (snapshot (dz_metrics s)) @ doh_counts (fst (doh_of x s))) k = Some (JNum n)"
    using card_key_served [OF assms(5)] by blast
  have "pg_text (fst (refresh b x up p s)) (''v-'' @ k) = pg_text (updateMetrics b (served x s ! 0) p) (''v-'' @ k)"
    using assms(4) by (simp add: refresh_served [OF assms(3) _ assms(6)] updateHosts_def Let_def del: append_Cons append_Nil)
  also have "... = Some (br_locale_num b (js_double (unat n)))"
    using el assms(5) n by (simp add: updateMetrics_def fold_update_metric doc del: append_Cons append_Nil map_of_append)
  finally show ?thesis using n by blast
qed

lemma admin_token_visible: "header_to_str (make_admin_token rng now) = Some (make_admin_token rng now)"
proof -
  have digit: "32 \<le> code (digit_char d) \<and> code (digit_char d) < 127" if "d < 16" for d using that by (simp add: digit_char_def)
  have "list_all (\<lambda>c. code c = 9 \<or> 32 \<le> code c \<and> code c < 127) (concat (map hex2 bytes))" for bytes
  proof (induction bytes)
    case (Cons c bytes)
    have "code c div 16 < 16" "code c mod 16 < 16" by (simp_all add: div_less_iff_less_mult)
    with digit Cons show ?case by (simp add: hex2_def)
  qed simp
  moreover have "list_all (\<lambda>c. code c = 9 \<or> 32 \<le> code c \<and> code c < 127) (show_nat n)" for n
    using show_nat_codes [of _ n] by (fastforce simp: list_all_iff)
  ultimately show ?thesis by (simp add: header_to_str_def make_admin_token_def split: option.split)
qed

lemma refresh_token:
  assumes "list_all (reads_back b x) (served x s)" "\<And>path. up path" "dx_json x = jval_api pa pr"
  shows "pg_admin_token (fst (refresh b x up p s)) = dz_admin_token s"
proof -
  have "map_of (status_entries x s' doh) ''admin_token'' = Some (JStr (dz_admin_token s'))" for s' doh
    by (simp add: status_entries_def doh_counts_def case_prod_unfold Let_def)
  then have "js_get (served x s ! 3) ''admin_token'' = Some (JStr (dz_admin_token s))"
    by (simp add: served_def status_doc_def pruned_stats_frame Let_def)
  then show ?thesis by (simp add: refresh_served [OF assms] updateStatus_def Let_def)
qed

lemma reset_click_answered:
  assumes "pg_admin_token p \<noteq> []" "up ''/api/pins/reset''"
    "handle_dash_request x \<lparr>rq_verb = ''POST'', rq_path = ''/api/pins/reset'', rq_headers = [(''x-admin-token'', pg_admin_token p)]\<rparr> s = (resp, t)"
    "body = (case br_json b (rp_body resp) of Some v \<Rightarrow> v | None \<Rightarrow> JObj [])"
  shows "reset_click b x up True p s = (if \<not> res_ok resp \<or> body = JNull then (page_alert ''Pin reset failed'' p, t)
    else refresh b x up (page_alert (removed_message b body) p) t)"
  using assms by (simp add: reset_click_def fetch_def removed_message_def Let_def)

lemma refresh_frame:
  assumes "refresh b x up p s = (q, t)" "engine_answers b x"
  shows "dz_pinned_hosts t = dz_pinned_hosts s" "dz_disk t = dz_disk s" "pg_alerts q = pg_alerts p"
  using arg_cong [OF refresh_server [of s b x up p, unfolded stats_only_def], of dz_pinned_hosts]
    arg_cong [OF refresh_server [of s b x up p, unfolded stats_only_def], of dz_disk] refresh_alerts [of b x up p s] by (simp_all add: assms)

text \<open>The button works with the token that the page was given: after a refresh, a confirmed click at a server that still has this token
  empties the pinned hosts, and adds one message; unless the message says that the reset failed, the file
  of the pins is empty too.\<close>
theorem reset_button_clears_pins:
  assumes "list_all (reads_back b x) (served x s)" "\<forall>path. up path" "dz_admin_token s = make_admin_token rng now" "rng \<noteq> Some []"
    and "dz_admin_token s' = dz_admin_token s" "\<not> ph_poisoned (dz_pinned_hosts s')" "json_laws (dx_json x')" "p_ext (ph_path (dz_pinned_hosts s')) \<noteq> Some ''tmp''"
    and "reset_click b x' up True (fst (refresh b x up p s)) s' = (p'', s'')" "engine_answers b x" "engine_answers b x'"
  shows "ph_hosts (dz_pinned_hosts s'') = {} \<and> (\<exists>msg. pg_alerts p'' = pg_alerts p @ [msg] \<and>
    (msg \<noteq> ''Pin reset failed'' \<longrightarrow> load_pinned_hosts (dx_json x') None (dz_disk s'') (ph_path (dz_pinned_hosts s')) = Ok {}))"
proof -
  let ?p = "fst (refresh b x up p s)"
  let ?req = "\<lparr>rq_verb = ''POST'', rq_path = ''/api/pins/reset'', rq_headers = [(''x-admin-token'', dz_admin_token s')]\<rparr>"
  let ?s = "\<lambda>d. s'\<lparr>dz_disk := d, dz_pinned_hosts := (dz_pinned_hosts s')\<lparr>ph_hosts := {}\<rparr>\<rparr>"
  have token: "pg_admin_token ?p = dz_admin_token s'" "dz_admin_token s' \<noteq> []" "header_to_str (dz_admin_token s') = Some (dz_admin_token s')"
    using refresh_token [OF assms(1)] assms(2-5,10) admin_token_form admin_token_visible by (auto simp: engine_answers_def)
  have auth: "authorised ?req s'" using token by (simp add: authorised_def)
  obtain d r where pp: "persist_pinned_hosts (dx_json x') (dx_fs x') (dz_disk s') (ph_path (dz_pinned_hosts s')) {} = (d, r)" by fastforce
  obtain resp where h: "handle_dash_request x' ?req s' = (resp, ?s d)"
    and ok: "res_ok resp \<Longrightarrow> r = Ok ()"
    using reset_authorised [OF auth, of x'] pp assms(6)
    by (cases r) (auto simp: handle_dash_request_def clear_and_persist_def json_response_def json_response_with_status_def res_ok_def)
  have load: "load_pinned_hosts (dx_json x') None d (ph_path (dz_pinned_hosts s')) = Ok {}" if "res_ok resp"
    using persist_then_load [OF assms(7) _ assms(8), of "{}"] pp ok [OF that] by simp
  define body where "body = (case br_json b (rp_body resp) of Some v \<Rightarrow> v | None \<Rightarrow> JObj [])"
  have click: "reset_click b x' up True ?p s' = (if \<not> res_ok resp \<or> body = JNull then (page_alert ''Pin reset failed'' ?p, ?s d)
      else refresh b x' up (page_alert (removed_message b body) ?p) (?s d))"
    by (rule reset_click_answered [OF _ _ _ body_def]) (simp_all add: token assms(2) h)
  show ?thesis
  proof (cases "res_ok resp \<and> body \<noteq> JNull")
    case True
    then have "refresh b x' up (page_alert (removed_message b body) ?p) (?s d) = (p'', s'')" using click assms(9) by simp
    from refresh_frame [OF this assms(11)] have "dz_pinned_hosts s'' = dz_pinned_hosts (?s d)" "dz_disk s'' = d" "pg_alerts p'' = pg_alerts p @ [removed_message b body]"
      by (simp_all add: refresh_alerts assms(10) page_alert_def)
    with True load show ?thesis by simp
  next
    case False
    with click assms(9) show ?thesis by (auto simp: page_alert_def refresh_alerts assms(10))
  qed
qed

text \<open>The table of the DoH clients, as it is read: the clients that the server lists.\<close>

lemma doh_table_reads:
  assumes "plain_locale b" "list_all (reads_back b x) (served x s)" "\<And>path. up path" "fst (doh_of x (pruned_stats x s)) = Some snap" "ss_top_clients snap \<noteq> []"
    and "dx_json x = jval_api pa pr"
  shows "html_table (the (pg_html (fst (refresh b x up p s)) ''doh-tbody'')) =
    map (\<lambda>c. [js_str_or (Some (JStr (cs_client_ip c))) ''--'', br_locale_num b (js_double (unat (cs_query_total c))), fmtTime b (js_double (unat (cs_last_seen_unix c)))])
      (ss_top_clients snap)"
proof -
  let ?cs = "map client_json (ss_top_clients snap)"
  have "served x s ! 1 = JObj ([(''enabled'', JBool True)] @ doh_counts (Some snap) @ [(''top_clients'', JArr ?cs)])"
    using assms(4) by (simp add: served_def doh_doc_def Let_def)
  then have "js_get (served x s ! 1) ''enabled'' = Some (JBool True)" "js_get (served x s ! 1) ''top_clients'' = Some (JArr ?cs)" "served x s ! 1 \<noteq> JNull"
    by (simp_all add: doh_counts_def)
  then have "pg_html (fst (refresh b x up p s)) ''doh-tbody'' = Some (concat (map (doh_row b) ?cs))"
    using assms(5) by (simp add: refresh_served [OF assms(2,3,6)] updateHosts_def renderTable_html updateDoh_def Let_def)
  moreover have "html_parse (concat (map (doh_row b) ?cs)) = concat (map (client_tokens b) ?cs)" by (rule emits_parse [OF emits_doh_rows [OF assms(1)]])
  ultimately show ?thesis
    using cells_rows_toks [of "[]" "\<lambda>c. js_str_or (js_get c ''client_ip'') ''--''"
        "\<lambda>c. [br_locale_num b (js_num (js_get c ''query_total'')), fmtTime b (js_num (js_get c ''last_seen_unix''))]" ?cs]
    by (simp add: html_table_def client_tokens_def [abs_def] client_json_def comp_def)
qed

text \<open>The page changes the engine only when the user confirms a reset.\<close>

lemma page_read_only: "(\<And>up. ev \<noteq> ResetClick up True) \<Longrightarrow> stats_only s (snd (page_event_step b ev x p s))"
proof -
  have "stats_only s s" by (simp add: stats_only_def)
  then show "(\<And>up. ev \<noteq> ResetClick up True) \<Longrightarrow> ?thesis" by (cases ev) (auto simp: refresh_server reset_click_def)
qed

section \<open>Witnesses\<close>

text \<open>A printer that numbers the documents of a list, and a browser that reads the numbers.\<close>

definition wit_print :: "jval list \<Rightarrow> jval \<Rightarrow> string + bytes" where
  "wit_print docs v = (if v \<in> set docs then Inr (replicate (length (takeWhile (\<lambda>w. w \<noteq> v) docs)) CHR ''x'') else Inl ''unsupported document'')"

definition wit_browser :: "jval list \<Rightarrow> browser" where
  "wit_browser docs = \<lparr>br_json = (\<lambda>t. if t = ''{}'' then Some (JObj []) else if length t < length docs then Some (docs ! length t) else None), br_show_num = show_nat,
     br_locale_num = show_nat, br_locale_time = show_nat, br_compare = (\<lambda>_ _. 0), br_lower = to_ascii_lowercase,
     br_text = (\<lambda>v. ''[object Object]''), br_other = (\<lambda>f v p. (p, False))\<rparr>"

lemma wit_plain: "plain_locale (wit_browser docs)"
  by (simp add: plain_locale_def wit_browser_def show_nat_no_markup)

lemma replicate_not_braces: "replicate n CHR ''x'' \<noteq> ''{}''"
  by (cases n) simp_all

lemma wit_reads: "v \<in> set docs \<Longrightarrow> reads_back (wit_browser docs) (x\<lparr>dx_to_string := wit_print docs\<rparr>) v"
proof -
  assume v: "v \<in> set docs"
  then have "length (takeWhile (\<lambda>w. w \<noteq> v) docs) < length docs"
    by (induction docs) auto
  from this nth_length_takeWhile [OF this] v show ?thesis
    by (simp add: reads_back_def wit_print_def wit_browser_def replicate_not_braces)
qed

lemma wit_answers:
  assumes "dx_json x = jval_api pa pr"
  shows "engine_answers (wit_browser docs) (x\<lparr>dx_to_string := wit_print docs\<rparr>)"
proof -
  have "br_json (wit_browser docs) t = Some v" if "wit_print docs v = Inr t" for v t
    using wit_reads [of v docs x] that by (auto simp: reads_back_def wit_print_def split: if_splits)
  moreover have "br_json (wit_browser docs) ''{}'' = Some (JObj [])" by (simp add: wit_browser_def)
  moreover have "dx_json (x\<lparr>dx_to_string := wit_print docs\<rparr>) = jval_api pa pr" using assms by simp
  ultimately show ?thesis unfolding engine_answers_def by (intro conjI exI) simp_all
qed

lemma served_print: "served (x\<lparr>dx_to_string := f\<rparr>) s = served x s"
proof -
  have "doh_of (x\<lparr>dx_to_string := f\<rparr>) s = doh_of x s" for s by (cases "dz_doh_stats s") (simp_all add: doh_of_def)
  moreover have "status_entries (x\<lparr>dx_to_string := f\<rparr>) s doh = status_entries x s doh" for s doh
    by (cases "dz_ca_export s") (simp_all add: status_entries_def Let_def)
  moreover have "pruned_stats (x\<lparr>dx_to_string := f\<rparr>) s = pruned_stats x s" for s by (simp add: pruned_stats_def)
  moreover have "receipts_doc (x\<lparr>dx_to_string := f\<rparr>) s = receipts_doc x s" for s by (cases "dz_receipts s") (simp_all add: receipts_doc_def)
  ultimately show ?thesis by (simp add: served_def metrics_doc_def doh_doc_def status_doc_def)
qed

text \<open>A server with one host in its receipts, whose name looks like markup, and one pinned host.\<close>

definition wit_store :: receipt_store where
  "wit_store = \<lparr>rs_path = \<lparr>p_dir = [], p_stem = ''receipts'', p_ext = Some ''json''\<rparr>, rs_hosts = [''<b>'' \<mapsto> wit_receipt], rs_dirty = False, rs_poisoned = False\<rparr>"

definition wit_server :: dashboard_state where
  "wit_server = wit_dash\<lparr>dz_receipts := Some wit_store, dz_admin_token := make_admin_token (Some ''k'') 0\<rparr>"

definition wit_page_env :: dash_env where
  "wit_page_env = wit_dash_env\<lparr>dx_to_string := wit_print (served wit_dash_env wit_server)\<rparr>"

definition wit_tab :: browser where
  "wit_tab = wit_browser (served wit_dash_env wit_server)"

lemma wit_served: "list_all (reads_back wit_tab wit_page_env) (served wit_page_env wit_server)"
  by (simp add: list_all_iff wit_tab_def wit_page_env_def served_print wit_reads)

lemma wit_engine: "dx_json wit_page_env = jval_api (\<lambda>t. if t = ''{}'' then Inr JNull else Inl ''expected value'') (\<lambda>w. if w = JNull then Inr ''{}'' else Inl ''unsupported document'')"
    "engine_answers wit_tab wit_page_env"
proof -
  have j: "dx_json wit_dash_env = jval_api (\<lambda>t. if t = ''{}'' then Inr JNull else Inl ''expected value'') (\<lambda>w. if w = JNull then Inr ''{}'' else Inl ''unsupported document'')"
    by (simp add: wit_dash_env_def jdoc_def)
  then show "dx_json wit_page_env = jval_api (\<lambda>t. if t = ''{}'' then Inr JNull else Inl ''expected value'') (\<lambda>w. if w = JNull then Inr ''{}'' else Inl ''unsupported document'')"
    by (simp add: wit_page_env_def)
  show "engine_answers wit_tab wit_page_env" unfolding wit_tab_def wit_page_env_def by (rule wit_answers [OF j])
qed

text \<open>The refresh at this server, then a click on a header.\<close>

theorem page_session_safe_witness:
  "let p = header_click wit_tab ''host'' (fst (refresh wit_tab wit_page_env (\<lambda>_. True) page_open wit_server)) in
   (\<forall>i \<in> {''host-tbody'', ''doh-tbody''}. \<exists>html. pg_html p i = Some html \<and> snd ` set (html_parse html) \<subseteq> table_tags) \<and>
   (\<exists>html. pg_html p ''policy-mode'' = Some html \<and> snd ` set (html_parse html) \<subseteq> mode_tags)"
proof -
  let ?q = "fst (refresh wit_tab wit_page_env (\<lambda>_. True) page_open wit_server)"
  let ?p = "header_click wit_tab ''host'' ?q"
  have "page_step wit_tab page_open (fst (page_event_step wit_tab (Tick (\<lambda>_. True)) wit_page_env page_open wit_server))"
    by (rule page_step.event [OF wit_engine(2)])
  moreover have "page_step wit_tab ?q (fst (page_event_step wit_tab (HeaderClick ''host'') wit_page_env ?q wit_server))"
    by (rule page_step.event [OF wit_engine(2)])
  ultimately have run: "(page_step wit_tab)\<^sup>*\<^sup>* page_open ?p" by (simp add: HOST_COLS_def)
  have plain: "plain_locale wit_tab" by (simp add: wit_tab_def wit_plain)
  have "hosts_shaped (pg_last_hosts ?q)"
    using page_inv_refresh [OF plain wit_engine(2) page_inv_open, of "\<lambda>_. True" wit_server] by (simp add: page_inv_def page_base_def)
  then have "pg_html ?p ''policy-mode'' = pg_html ?q ''policy-mode''"
    by (simp add: header_click_def render_last_def renderTable_html Let_def)
  moreover have "pg_html ?q ''policy-mode'' \<noteq> None"
    using refresh_served [OF wit_served _ wit_engine(1), of "\<lambda>_. True" page_open] by (simp add: updateStatus_def Let_def)
  ultimately show ?thesis using page_session_safe [OF plain run] unfolding Let_def by force
qed

theorem page_table_faithful_witness:
  "html_table (the (pg_html (fst (refresh wit_tab wit_page_env (\<lambda>_. True) page_open wit_server)) ''host-tbody'')) = [host_texts wit_tab ''<b>'' wit_receipt]"
proof -
  have f: "pg_filter_text page_open = []"
    by (simp add: page_open_def initTable_def initCards_def init_texts_frame page_initial_def)
  have st: "dz_receipts wit_server = Some wit_store" "\<not> rs_poisoned wit_store" "finite (dom (rs_hosts wit_store))" "dom (rs_hosts wit_store) = {''<b>''}"
    by (simp_all add: wit_server_def wit_store_def)
  note j = wit_engine(1)
  have m: "{''<b>''} = {h \<in> dom (rs_hosts wit_store). sublist (pg_filter_text page_open) h}" by (simp add: st(4) f)
  have plain: "plain_locale wit_tab" by (simp add: wit_tab_def wit_plain)
  obtain hs where hs: "html_table (the (pg_html (fst (refresh wit_tab wit_page_env (\<lambda>_. True) page_open wit_server)) ''host-tbody'')) =
      map (\<lambda>h. host_texts wit_tab h (the (rs_hosts wit_store h))) hs" "set hs \<subseteq> {''<b>''}" "length hs = min 200 (card {''<b>''})"
    using page_table_faithful [where up = "\<lambda>_. True", OF plain wit_served _ j st(1-3) m] by auto
  have "hs = [''<b>'']" using hs(2,3) by (cases hs) auto
  then show ?thesis by (simp add: hs(1) wit_store_def)
qed

theorem cards_show_counters_witness:
  "pg_text (fst (refresh wit_tab wit_page_env (\<lambda>_. True) page_open wit_server)) ''v-connection_total'' = Some ''0''"
proof -
  have plain: "plain_locale wit_tab" by (simp add: wit_tab_def wit_plain)
  have k: "''connection_total'' \<in> set card_keys" by (simp add: card_keys_def CARDS_def)
  obtain n where n: "map_of (metrics_entries (snapshot (dz_metrics wit_server)) @ doh_counts (fst (doh_of wit_page_env wit_server))) ''connection_total'' = Some (JNum n)"
    "pg_text (fst (refresh wit_tab wit_page_env (\<lambda>_. True) page_open wit_server)) (''v-'' @ ''connection_total'') = Some (br_locale_num wit_tab (js_double (unat n)))"
    using cards_show_counters [where up = "\<lambda>_. True", OF plain rtranclp.rtrancl_refl wit_served _ k wit_engine(1)] by (simp only: simp_thms) blast
  have "ms_connection_total (snapshot (dz_metrics wit_server)) = 0" by (simp add: wit_server_def wit_dash_def snapshot_def metrics_default_def)
  with n(1) have "n = 0" by (simp only: metrics_entries_def append_Cons map_of.simps fst_conv snd_conv fun_upd_same option.inject jval.inject)
  moreover have "show_nat 0 = ''0''" by code_simp
  ultimately show ?thesis using n(2) by (simp add: wit_tab_def wit_browser_def js_double_exact)
qed

theorem reset_button_clears_pins_witness:
  "ph_hosts (dz_pinned_hosts wit_server) = {''bank.com''} \<and>
   ph_hosts (dz_pinned_hosts (snd (reset_click wit_tab wit_page_env (\<lambda>_. True) True (fst (refresh wit_tab wit_page_env (\<lambda>_. True) page_open wit_server)) wit_server))) = {}"
proof -
  let ?r = "reset_click wit_tab wit_page_env (\<lambda>_. True) True (fst (refresh wit_tab wit_page_env (\<lambda>_. True) page_open wit_server)) wit_server"
  have "dz_admin_token wit_server = make_admin_token (Some ''k'') 0" "\<not> ph_poisoned (dz_pinned_hosts wit_server)"
    "p_ext (ph_path (dz_pinned_hosts wit_server)) \<noteq> Some ''tmp''" "json_laws (dx_json wit_page_env)"
    by (simp_all add: wit_server_def wit_dash_def wit_page_env_def wit_dash_env_def json_laws_jdoc)
  then have "ph_hosts (dz_pinned_hosts (snd ?r)) = {}"
    using reset_button_clears_pins [OF wit_served _ _ _ refl _ _ _ prod.collapse [symmetric] wit_engine(2) wit_engine(2), of "\<lambda>_. True" "Some ''k''" 0 page_open] by simp
  then show ?thesis by (simp add: wit_server_def wit_dash_def)
qed

end
