(* ===== verification/Tls_Profile.thy ===== *)
theory Tls_Profile
  imports Mitm_Engine
begin

text \<open>
  How the engine configures TLS (\<^verbatim>\<open>src/mitm.rs\<close>, and the client configurations of
  \<^verbatim>\<open>src/dns_filter.rs\<close> and \<^verbatim>\<open>src/filter_list.rs\<close>): the cipher suites and groups of a profile, the upstream
  client configurations of \<open>MitmEngine::new\<close>, the root certificates, and the parameters of the certificates that
  are made. The defaults of the crate \<^verbatim>\<open>rustls\<close>, its trust anchors and the system's certificates are arguments; the
  handshakes themselves are not modelled.
\<close>

section \<open>Profiles\<close>

datatype cipher_suite =
    TLS13_AES_128_GCM_SHA256 | TLS13_AES_256_GCM_SHA384 | TLS13_CHACHA20_POLY1305_SHA256
  | TLS_ECDHE_ECDSA_WITH_AES_128_GCM_SHA256 | TLS_ECDHE_RSA_WITH_AES_128_GCM_SHA256
  | TLS_ECDHE_ECDSA_WITH_AES_256_GCM_SHA384 | TLS_ECDHE_RSA_WITH_AES_256_GCM_SHA384
  | TLS_ECDHE_ECDSA_WITH_CHACHA20_POLY1305_SHA256 | TLS_ECDHE_RSA_WITH_CHACHA20_POLY1305_SHA256

datatype named_group = X25519 | SECP256R1 | SECP384R1 | OtherGroup nat

record crypto_provider =
  pv_cipher_suites :: "cipher_suite list"
  pv_kx_groups :: "named_group list"

definition profile_provider :: "tls_profile \<Rightarrow> crypto_provider \<Rightarrow> crypto_provider" where
  "profile_provider profile default_provider =
    (if profile = ChromeProfile then
       \<lparr>pv_cipher_suites =
         [TLS13_AES_128_GCM_SHA256, TLS13_AES_256_GCM_SHA384, TLS13_CHACHA20_POLY1305_SHA256,
          TLS_ECDHE_ECDSA_WITH_AES_128_GCM_SHA256, TLS_ECDHE_RSA_WITH_AES_128_GCM_SHA256,
          TLS_ECDHE_ECDSA_WITH_AES_256_GCM_SHA384, TLS_ECDHE_RSA_WITH_AES_256_GCM_SHA384,
          TLS_ECDHE_ECDSA_WITH_CHACHA20_POLY1305_SHA256, TLS_ECDHE_RSA_WITH_CHACHA20_POLY1305_SHA256],
        pv_kx_groups = [X25519, SECP256R1, SECP384R1]\<rparr>
     else default_provider)"

fun profile_describe :: "tls_profile \<Rightarrow> bytes" where
  "profile_describe DefaultProfile = ''rustls defaults (no fingerprint normalization)''"
| "profile_describe ChromeProfile = ''Chrome-like: cipher order, named groups (X25519/P-256/P-384), EMS required, session tickets''"

datatype resumption = DefaultResumption | InMemorySessions nat

record client_config =
  cc_provider :: crypto_provider
  cc_roots :: "bytes list"
  cc_alpn :: "bytes list"
  cc_require_ems :: bool
  cc_resumption :: resumption

definition configure_client :: "tls_profile \<Rightarrow> client_config \<Rightarrow> client_config" where
  "configure_client profile config =
    (if profile = ChromeProfile then config\<lparr>cc_require_ems := True, cc_resumption := InMemorySessions 256\<rparr> else config)"

section \<open>Root certificates\<close>

text \<open>The crate's own anchors, and those of the system's certificates that it accepts; others are skipped.\<close>

fun add_native :: "(bytes \<Rightarrow> bytes option) \<Rightarrow> bytes list \<Rightarrow> bytes list \<times> nat \<Rightarrow> bytes list \<times> nat" where
  "add_native to_anchor [] (store, added) = (store, added)"
| "add_native to_anchor (cert # certs) (store, added) =
    (case to_anchor cert of Some anchor \<Rightarrow> add_native to_anchor certs (store @ [anchor], added + 1)
     | None \<Rightarrow> add_native to_anchor certs (store, added))"

definition build_root_cert_store :: "bytes list \<Rightarrow> (bytes \<Rightarrow> bytes option) \<Rightarrow> bytes list \<Rightarrow> bytes list" where
  "build_root_cert_store webpki_roots to_anchor native_certs = fst (add_native to_anchor native_certs (webpki_roots, 0))"

section \<open>Client configurations\<close>

text \<open>\<open>versions\<close> is what \<open>with_safe_default_protocol_versions\<close> answers for a provider.\<close>

record tls_defaults =
  td_provider :: crypto_provider
  td_versions :: "crypto_provider \<Rightarrow> string option"
  td_require_ems :: bool
  td_webpki_roots :: "bytes list"
  td_to_anchor :: "bytes \<Rightarrow> bytes option"

definition client_config_new :: "tls_defaults \<Rightarrow> crypto_provider \<Rightarrow> bytes list \<Rightarrow> string + client_config" where
  "client_config_new T provider roots =
    (case td_versions T provider of Some m \<Rightarrow> Inl (''TLS config error: '' @ m)
     | None \<Rightarrow> Inr \<lparr>cc_provider = provider, cc_roots = roots, cc_alpn = [], cc_require_ems = td_require_ems T, cc_resumption = DefaultResumption\<rparr>)"

text \<open>The two configurations of \<open>MitmEngine::new\<close>; each reads the system's certificates for itself.\<close>

definition upstream_client_configs :: "tls_defaults \<Rightarrow> tls_profile \<Rightarrow> bytes list \<Rightarrow> bytes list \<Rightarrow> mitm_error + (client_config \<times> client_config)" where
  "upstream_client_configs T profile native1 native2 =
    (let provider = profile_provider profile (td_provider T) in
     and_then (map_err CaConfig (client_config_new T provider (build_root_cert_store (td_webpki_roots T) (td_to_anchor T) native1))) (\<lambda>c.
     and_then (map_err CaConfig (client_config_new T provider (build_root_cert_store (td_webpki_roots T) (td_to_anchor T) native2))) (\<lambda>c1.
     Ok (configure_client profile (c\<lparr>cc_alpn := [''h2'', ''http/1.1'']\<rparr>), configure_client profile (c1\<lparr>cc_alpn := [''http/1.1'']\<rparr>)))))"

text \<open>\<open>make_tls_client_config\<close> of the DoH client and of the filter-list download: the same code twice.\<close>

definition make_tls_client_config :: "tls_defaults \<Rightarrow> client_config io_result" where
  "make_tls_client_config T =
    and_then (map_err (IoError Other) (client_config_new T (td_provider T) (td_webpki_roots T))) (\<lambda>cfg. Ok (cfg\<lparr>cc_alpn := [''http/1.1'']\<rparr>))"

definition download_tls_client_config :: "tls_defaults \<Rightarrow> client_config io_result" where
  "download_tls_client_config T =
    and_then (map_err (IoError Other) (client_config_new T (td_provider T) (td_webpki_roots T))) (\<lambda>cfg. Ok (cfg\<lparr>cc_alpn := [''http/1.1'']\<rparr>))"

section \<open>Certificate parameters\<close>

datatype is_ca = NoCa | ExplicitNoCa | CaUnconstrained
datatype key_usage = DigitalSignature | KeyCertSign | CrlSign
datatype extended_key_usage = ServerAuth

record cert_params =
  ps_alt_names :: "bytes list"
  ps_common_name :: "bytes option"
  ps_organization :: "bytes option"
  ps_is_ca :: is_ca
  ps_key_usages :: "key_usage list"
  ps_extended_key_usages :: "extended_key_usage list"

definition root_ca_params :: cert_params where
  "root_ca_params = \<lparr>ps_alt_names = [], ps_common_name = Some ''privacy-engine-rust'', ps_organization = Some ''privacy-engine-rust'',
     ps_is_ca = CaUnconstrained, ps_key_usages = [DigitalSignature, KeyCertSign, CrlSign], ps_extended_key_usages = []\<rparr>"

text \<open>The parameters of a leaf: \<open>CertificateParams::new\<close> takes the name, or rejects it.\<close>

definition leaf_params :: "(bytes \<Rightarrow> string option) \<Rightarrow> bytes \<Rightarrow> mitm_error + cert_params" where
  "leaf_params san_error normalized_host =
    (case san_error normalized_host of Some m \<Rightarrow> Err (CertGeneration m)
     | None \<Rightarrow> Ok \<lparr>ps_alt_names = [normalized_host], ps_common_name = Some normalized_host, ps_organization = None,
         ps_is_ca = ExplicitNoCa, ps_key_usages = [DigitalSignature], ps_extended_key_usages = [ServerAuth]\<rparr>)"

section \<open>Properties\<close>

fun tls13 :: "cipher_suite \<Rightarrow> bool" where
  "tls13 TLS13_AES_128_GCM_SHA256 = True"
| "tls13 TLS13_AES_256_GCM_SHA384 = True"
| "tls13 TLS13_CHACHA20_POLY1305_SHA256 = True"
| "tls13 _ = False"

fun strength_rank :: "cipher_suite \<Rightarrow> nat" where
  "strength_rank TLS13_AES_128_GCM_SHA256 = 0"
| "strength_rank TLS_ECDHE_ECDSA_WITH_AES_128_GCM_SHA256 = 0"
| "strength_rank TLS_ECDHE_RSA_WITH_AES_128_GCM_SHA256 = 0"
| "strength_rank TLS13_AES_256_GCM_SHA384 = 1"
| "strength_rank TLS_ECDHE_ECDSA_WITH_AES_256_GCM_SHA384 = 1"
| "strength_rank TLS_ECDHE_RSA_WITH_AES_256_GCM_SHA384 = 1"
| "strength_rank _ = 2"

text \<open>The order that the source's comment states: TLS 1.3 before TLS 1.2, and within a version AES-128, AES-256, ChaCha20.\<close>

definition chrome_order :: "cipher_suite \<Rightarrow> cipher_suite \<Rightarrow> bool" where
  "chrome_order a b \<longleftrightarrow> (tls13 b \<longrightarrow> tls13 a) \<and> (tls13 a = tls13 b \<longrightarrow> strength_rank a \<le> strength_rank b)"

lemma add_native_store: "fst (add_native f certs (store, n)) = store @ List.map_filter f certs"
  by (induction certs arbitrary: store n) (auto simp: List.map_filter_def split: option.split)

lemma chrome_suites:
  "let suites = pv_cipher_suites (profile_provider ChromeProfile p) in distinct suites \<and> sorted_wrt chrome_order suites \<and> length suites = 9"
  by (simp add: profile_provider_def chrome_order_def)

text \<open>The upstream side of an interception is configured alike for both uses: the two client configurations have the
  profile's suites and groups, differ only in the protocols they offer, which are those that the client side of the same
  interception is offered, and trust every root of the crate, whatever the system's certificates are. The Chrome profile orders
  all nine suites as documented.\<close>
theorem upstream_tls_consistent:
  assumes "upstream_client_configs T profile native native = Ok (c, c1)"
  shows "cc_alpn c = alpn_for False \<and> cc_alpn c1 = alpn_for True \<and> c1\<lparr>cc_alpn := cc_alpn c\<rparr> = c \<and>
    cc_provider c = profile_provider profile (td_provider T) \<and> set (td_webpki_roots T) \<subseteq> set (cc_roots c) \<and>
    set (cc_roots c) = set (td_webpki_roots T) \<union> {a. \<exists>n \<in> set native. td_to_anchor T n = Some a} \<and>
    (profile = ChromeProfile \<longrightarrow> cc_require_ems c \<and> cc_resumption c = InMemorySessions 256 \<and>
       distinct (pv_cipher_suites (cc_provider c)) \<and> sorted_wrt chrome_order (pv_cipher_suites (cc_provider c)) \<and>
       length (pv_cipher_suites (cc_provider c)) = 9)"
proof -
  let ?roots = "build_root_cert_store (td_webpki_roots T) (td_to_anchor T) native" and ?p = "profile_provider profile (td_provider T)"
  have v: "td_versions T ?p = None"
    and c: "c = configure_client profile \<lparr>cc_provider = ?p, cc_roots = ?roots, cc_alpn = [''h2'', ''http/1.1''], cc_require_ems = td_require_ems T, cc_resumption = DefaultResumption\<rparr>"
    and c1: "c1 = configure_client profile \<lparr>cc_provider = ?p, cc_roots = ?roots, cc_alpn = [''http/1.1''], cc_require_ems = td_require_ems T, cc_resumption = DefaultResumption\<rparr>"
    using assms by (auto simp: upstream_client_configs_def client_config_new_def map_err_def Let_def split: option.splits)
  have "set ?roots = set (td_webpki_roots T) \<union> {a. \<exists>n \<in> set native. td_to_anchor T n = Some a}"
    by (force simp: build_root_cert_store_def add_native_store List.map_filter_def)
  then show ?thesis using chrome_suites [of "td_provider T"] by (simp add: c c1 configure_client_def alpn_for_def Let_def)
qed

text \<open>Only the authority can sign: a leaf is for one name, is no authority, and serves TLS servers only.\<close>

lemma leaf_params_restricted:
  "leaf_params san h = Ok p \<Longrightarrow> ps_alt_names p = [h] \<and> ps_is_ca p = ExplicitNoCa \<and> KeyCertSign \<notin> set (ps_key_usages p) \<and>
     ps_extended_key_usages p = [ServerAuth] \<and> ps_is_ca root_ca_params = CaUnconstrained \<and> KeyCertSign \<in> set (ps_key_usages root_ca_params)"
  by (auto simp: leaf_params_def root_ca_params_def split: option.splits)

lemma tls_client_configs_equal: "download_tls_client_config T = make_tls_client_config T"
  by (simp add: download_tls_client_config_def make_tls_client_config_def)

definition wit_tls :: tls_defaults where
  "wit_tls = \<lparr>td_provider = \<lparr>pv_cipher_suites = [TLS13_AES_256_GCM_SHA384], pv_kx_groups = [X25519]\<rparr>, td_versions = \<lambda>p. None,
     td_require_ems = False, td_webpki_roots = [''root''], td_to_anchor = \<lambda>c. if c = [] then None else Some c\<rparr>"

theorem upstream_tls_consistent_witness:
  "\<exists>c c1. upstream_client_configs wit_tls ChromeProfile [[], ''corp''] [[], ''corp''] = Ok (c, c1) \<and> set (cc_roots c) = {''root'', ''corp''}"
proof -
  obtain c c1 where r: "upstream_client_configs wit_tls ChromeProfile [[], ''corp''] [[], ''corp''] = Ok (c, c1)"
    by (simp add: upstream_client_configs_def client_config_new_def map_err_def wit_tls_def Let_def)
  from upstream_tls_consistent [OF r] have "set (cc_roots c) = {''root'', ''corp''}" by (auto simp: wit_tls_def split: if_splits)
  with r show ?thesis by blast
qed

end
