(* ===== verification/Chunked_Decoders.thy ===== *)
theory Chunked_Decoders
  imports Filter_List Http1
begin

text \<open>
  The engine has two decoders for chunked bodies: \<open>decode_chunked\<close> of \<^verbatim>\<open>src/filter_list.rs\<close>, for a
  response that has been read to its end, and \<open>try_decode_chunked_message\<close> of \<^verbatim>\<open>src/mitm.rs\<close>, which
  is tried on every prefix of a stream and also finds where the message ends. Both are compared with one
  grammar of chunked messages, on arbitrary bytes.
\<close>

section \<open>The grammar\<close>

text \<open>A size line: up to the first line end; a hexadecimal number, with blanks around it, before the first semicolon.\<close>

definition size_line :: "bytes \<Rightarrow> nat \<Rightarrow> bool" where
  "size_line l n \<longleftrightarrow> \<not> sublist CRLF l \<and> from_str_radix 16 usize_bound (trim (hd (split_on CHR '';'' (from_utf8_lossy l)))) = Some n"

text \<open>The bytes of a message, its body, and what stands after the size line of the last chunk; \<open>ok\<close> holds of every size line.\<close>

inductive chunked_message :: "(bytes \<Rightarrow> bool) \<Rightarrow> bytes \<Rightarrow> bytes \<Rightarrow> bytes \<Rightarrow> bool" for ok where
  last_chunk: "chunked_message ok (l @ CRLF @ t) [] t" if "size_line l 0" "ok l"
| next_chunk: "chunked_message ok (l @ CRLF @ c @ CRLF @ rest) (c @ body) t"
    if "size_line l (length c)" "ok l" "c \<noteq> []" "chunked_message ok rest body t"

text \<open>The trailer section: an empty line, or lines up to and with the first empty line.\<close>

definition trailer_section :: "bytes \<Rightarrow> bool" where
  "trailer_section u \<longleftrightarrow> u = CRLF \<or> \<not> prefix CRLF u \<and> suffix CRLF2 u \<and> \<not> sublist CRLF2 (butlast u)"

section \<open>First occurrences\<close>

lemma find_CRLF_at: "\<not> sublist CRLF l \<Longrightarrow> find_sub CRLF (l @ CRLF @ r) = Some (length l)"
proof (induction l)
  case (Cons a l)
  then have "\<not> prefix CRLF ((a # l) @ CRLF @ r)" by (cases l) (auto simp: sublist_Cons_right)
  with Cons show ?case by (simp add: sublist_Cons_right)
qed simp

lemma find_CRLF_split:
  assumes "find_sub CRLF s = Some n"
  obtains l r where "s = l @ CRLF @ r" "length l = n" "\<not> sublist CRLF l"
proof -
  obtain r where "drop n s = CRLF @ r" using assms by (auto simp: find_sub_Some_iff prefix_def)
  then have "s = take n s @ CRLF @ r" by (metis append_take_drop_id)
  moreover have n: "length (take n s) = n" using find_sub_bound [OF assms] by simp
  moreover have "\<not> sublist CRLF (take n s)"
  proof
    assume "sublist CRLF (take n s)"
    then obtain m where m: "find_sub CRLF (take n s) = Some m" using find_sub_None_iff [of CRLF "take n s"] by auto
    with find_sub_extend [OF m, of "drop n s"] assms have "m = n" by simp
    with find_sub_bound [OF m] n show False by simp
  qed
  ultimately show thesis using that by blast
qed

lemma first_line_unique:
  assumes "l @ CRLF @ r = l' @ CRLF @ r'" "\<not> sublist CRLF l" "\<not> sublist CRLF l'"
  shows "l = l' \<and> r = r'"
proof -
  have "length l = length l'" using find_CRLF_at [OF assms(2), of r] find_CRLF_at [OF assms(3), of r'] assms(1) by simp
  then show ?thesis using assms(1) by simp
qed

lemma find_CRLF2_iff: "find_sub CRLF2 t = Some e \<longleftrightarrow> (\<exists>u v. t = u @ v \<and> length u = e + 4 \<and> suffix CRLF2 u \<and> \<not> sublist CRLF2 (butlast u))"
proof
  assume f: "find_sub CRLF2 t = Some e"
  then obtain v where v: "drop e t = CRLF2 @ v" by (auto simp: find_sub_Some_iff prefix_def)
  let ?u = "take e t @ CRLF2"
  have t: "t = ?u @ v" using v by (metis append.assoc append_take_drop_id)
  have e: "length (take e t) = e" using find_sub_bound [OF f] by simp
  have "\<not> sublist CRLF2 (butlast ?u)"
  proof
    assume "sublist CRLF2 (butlast ?u)"
    then obtain m where m: "find_sub CRLF2 (butlast ?u) = Some m" using find_sub_None_iff [of CRLF2 "butlast ?u"] by auto
    have "t = butlast ?u @ (LF # v)" using t by (simp add: butlast_append)
    then have "m = e" using find_sub_extend [OF m, of "LF # v"] f by simp
    with find_sub_bound [OF m] e show False by (simp add: butlast_append)
  qed
  moreover have "suffix CRLF2 ?u" by (rule suffixI) simp
  moreover have "length ?u = e + 4" using e by simp
  ultimately show "\<exists>u v. t = u @ v \<and> length u = e + 4 \<and> suffix CRLF2 u \<and> \<not> sublist CRLF2 (butlast u)" using t by blast
next
  assume "\<exists>u v. t = u @ v \<and> length u = e + 4 \<and> suffix CRLF2 u \<and> \<not> sublist CRLF2 (butlast u)"
  then obtain u v where u: "t = u @ v" "length u = e + 4" "suffix CRLF2 u" "\<not> sublist CRLF2 (butlast u)" by blast
  have "sublist CRLF2 u" using u(3) by (rule suffix_imp_sublist)
  then obtain m where m: "find_sub CRLF2 u = Some m" using find_sub_None_iff [of CRLF2 u] by auto
  have "e \<le> m"
  proof (rule ccontr)
    assume "\<not> e \<le> m"
    then have "length (drop m u) > 4" using u(2) by simp
    moreover obtain w where w: "drop m u = CRLF2 @ w" using m by (auto simp: find_sub_Some_iff prefix_def)
    ultimately have "w \<noteq> []" by auto
    then have "butlast (take m u @ drop m u) = take m u @ CRLF2 @ butlast w" unfolding w by (simp add: butlast_append)
    then have "sublist CRLF2 (butlast u)" by (metis append_take_drop_id sublist_appendI)
    with u(4) show False ..
  qed
  with find_sub_bound [OF m] u(2) have "m = e" by simp
  then show "find_sub CRLF2 t = Some e" using find_sub_extend [OF m] u(1) by simp
qed

section \<open>The decoders follow the grammar\<close>

lemma no_line_no_message: "chunked_message ok s body t \<Longrightarrow> find_sub CRLF s \<noteq> None"
  by (induction rule: chunked_message.induct) (auto simp: size_line_def find_CRLF_at simp del: append_Cons)

text \<open>A message by its first line.\<close>

lemma message_by_line:
  assumes "\<not> sublist CRLF l"
  shows "chunked_message ok (l @ CRLF @ r) body t \<longleftrightarrow> ok l \<and>
    (size_line l 0 \<and> body = [] \<and> t = r \<or>
     (\<exists>c rest body'. size_line l (length c) \<and> c \<noteq> [] \<and> r = c @ CRLF @ rest \<and> body = c @ body' \<and> chunked_message ok rest body' t))"
proof
  assume "chunked_message ok (l @ CRLF @ r) body t"
  then show "ok l \<and> (size_line l 0 \<and> body = [] \<and> t = r \<or>
     (\<exists>c rest body'. size_line l (length c) \<and> c \<noteq> [] \<and> r = c @ CRLF @ rest \<and> body = c @ body' \<and> chunked_message ok rest body' t))"
  proof (cases rule: chunked_message.cases)
    case (last_chunk l')
    then have "l = l' \<and> r = t" by (intro first_line_unique assms) (simp_all add: size_line_def)
    with last_chunk show ?thesis by simp
  next
    case (next_chunk l' c rest body')
    then have "l = l' \<and> r = c @ CRLF @ rest" by (intro first_line_unique assms) (simp_all add: size_line_def)
    with next_chunk show ?thesis by blast
  qed
qed (auto intro: chunked_message.intros simp del: append_Cons append.simps)

lemma take_CRLF_bound: "take 2 (drop e d) = CRLF \<Longrightarrow> e + 2 \<le> length d"
proof -
  assume "take 2 (drop e d) = CRLF"
  then have "length (take 2 (drop e d)) = 2" by simp
  then show ?thesis by simp
qed

text \<open>A chunk in front of a text.\<close>

lemma chunk_split:
  assumes "0 < z"
  shows "(\<exists>c rest. length c = z \<and> c \<noteq> [] \<and> r = c @ CRLF @ rest \<and> P c rest) \<longleftrightarrow> take 2 (drop z r) = CRLF \<and> P (take z r) (drop (z + 2) r)"
proof
  assume "\<exists>c rest. length c = z \<and> c \<noteq> [] \<and> r = c @ CRLF @ rest \<and> P c rest"
  then show "take 2 (drop z r) = CRLF \<and> P (take z r) (drop (z + 2) r)" by auto
next
  assume a: "take 2 (drop z r) = CRLF \<and> P (take z r) (drop (z + 2) r)"
  then have "drop z r = CRLF @ drop 2 (drop z r)" by (metis append_take_drop_id)
  then have r: "r = take z r @ CRLF @ drop (z + 2) r" by (metis append_take_drop_id add.commute drop_drop)
  moreover have "length (take z r) = z"
  proof -
    have "length (take 2 (drop z r)) = 2" using a by simp
    then show ?thesis by simp
  qed
  ultimately show "\<exists>c rest. length c = z \<and> c \<noteq> [] \<and> r = c @ CRLF @ rest \<and> P c rest" using a assms by (metis list.size(3) not_less0)
qed

lemma decode_chunked_from_iff:
  assumes "length (pre @ s) < usize_bound"
  shows "decode_chunked_from (pre @ s) (length pre) out = Ok b \<longleftrightarrow> (\<exists>body t. chunked_message (\<lambda>_. True) s body t \<and> b = out @ body)"
  using assms
proof (induction "length s" arbitrary: pre s out rule: less_induct)
  case less
  show ?case
  proof (cases "find_sub CRLF s")
    case None
    then have "\<not> chunked_message ok s body t" for ok body t using no_line_no_message [of ok s body t] by blast
    then show ?thesis using None by (subst decode_chunked_from.simps) simp
  next
    case (Some off)
    then obtain l r where s: "s = l @ CRLF @ r" "length l = off" "\<not> sublist CRLF l" by (rule find_CRLF_split)
    let ?size = "from_str_radix 16 usize_bound (trim (hd (split_on CHR '';'' (from_utf8_lossy l))))"
    have first: "find_sub CRLF (drop (length pre) (pre @ s)) = Some off" "take off (drop (length pre) (pre @ s)) = l"
      using find_CRLF_at [OF s(3), of r] s(1,2) by simp_all
    have after: "drop (off + length pre + 2 + k) (pre @ s) = drop k r" "off + length pre + 2 + k > length (pre @ s) \<longleftrightarrow> k > length r"
      "drop (off + length pre + 2) (pre @ s) = r" for k
      using s(1,2) by simp_all
    have unf: "decode_chunked_from (pre @ s) (length pre) out =
      (case ?size of None \<Rightarrow> Err (IoError InvalidData ''invalid chunk size'')
       | Some sz \<Rightarrow> if sz = 0 then Ok out
         else if off + length pre + 2 + sz \<ge> usize_bound then Err (IoError InvalidData ''chunk size overflow'')
         else if sz > length r then Err (IoError UnexpectedEof ''chunked body truncated'')
         else if take 2 (drop sz r) \<noteq> CRLF then Err (IoError InvalidData ''invalid chunk terminator'')
         else decode_chunked_from (pre @ s) (off + length pre + 2 + sz + 2) (out @ take sz r))"
      by (subst decode_chunked_from.simps) (simp only: first after option.case Let_def)
    show ?thesis
    proof (cases ?size)
      case None
      then show ?thesis unfolding unf unfolding s(1) message_by_line [OF s(3)] by (simp add: size_line_def)
    next
      case (Some z)
      then have z: "size_line l m \<longleftrightarrow> m = z" for m using s(3) by (auto simp: size_line_def)
      show ?thesis
      proof (cases "z = 0")
        case True
        then show ?thesis unfolding unf unfolding s(1) message_by_line [OF s(3)] by (auto simp: Some z)
      next
        case False
        let ?rest = "drop (z + 2) r"
        have split: "(\<exists>body t. chunked_message (\<lambda>_. True) s body t \<and> b = out @ body) \<longleftrightarrow>
            take 2 (drop z r) = CRLF \<and> (\<exists>body t. chunked_message (\<lambda>_. True) ?rest body t \<and> b = (out @ take z r) @ body)"
          unfolding s(1) message_by_line [OF s(3)] z
          using chunk_split [of z r "\<lambda>c rest. \<exists>body t. chunked_message (\<lambda>_. True) rest body t \<and> b = (out @ c) @ body"] False
          by (simp del: append_Cons) blast
        show ?thesis
        proof (cases "take 2 (drop z r) = CRLF")
          case True
          then have len: "z + 2 \<le> length r" by (rule take_CRLF_bound)
          have parts: "pre @ s = (pre @ l @ CRLF @ take (z + 2) r) @ ?rest" "length (pre @ l @ CRLF @ take (z + 2) r) = off + length pre + 2 + z + 2"
            using s len by simp_all
          have "decode_chunked_from (pre @ s) (off + length pre + 2 + z + 2) (out @ take z r) = Ok b \<longleftrightarrow>
              (\<exists>body t. chunked_message (\<lambda>_. True) ?rest body t \<and> b = (out @ take z r) @ body)"
            using less(1) [of ?rest "pre @ l @ CRLF @ take (z + 2) r" "out @ take z r"] less(2) s(1,2) len
            unfolding parts(1) [symmetric] parts(2) by simp
          then show ?thesis unfolding unf split using Some False True len less(2) s by simp
        next
          case no: False
          then show ?thesis unfolding unf split using Some False by simp
        qed
      qed
    qed
  qed
qed

text \<open>Where the trailer section ends.\<close>

lemma trailer_end_iff:
  "(if length t < 2 then None else if take 2 t = CRLF then Some (pos + 2) else map_option (\<lambda>e. pos + e + 4) (find_sub CRLF2 t)) = Some n \<longleftrightarrow>
    (\<exists>u v. t = u @ v \<and> trailer_section u \<and> n = pos + length u)"
proof (cases "prefix CRLF t")
  case True
  then obtain v where v: "t = CRLF @ v" by (auto simp: prefix_def)
  have "u = CRLF" if "t = u @ w" "trailer_section u" for u w
  proof (rule ccontr)
    assume "u \<noteq> CRLF"
    with that(2) have u: "\<not> prefix CRLF u" "suffix CRLF2 u" by (simp_all add: trailer_section_def)
    from suffix_length_le [OF u(2)] have "2 \<le> length u" by simp
    with True that(1) have "prefix CRLF u" by (intro prefix_length_prefix [of CRLF t u]) auto
    with u(1) show False ..
  qed
  moreover have "trailer_section CRLF" by (simp add: trailer_section_def)
  ultimately have "(\<exists>u v. t = u @ v \<and> trailer_section u \<and> n = pos + length u) \<longleftrightarrow> n = pos + length CRLF" using v by blast
  then show ?thesis unfolding v by auto
next
  case False
  have "(\<exists>u v. t = u @ v \<and> trailer_section u \<and> n = pos + length u) \<longleftrightarrow>
      (\<exists>e. find_sub CRLF2 t = Some e \<and> n = pos + e + 4)"
    unfolding find_CRLF2_iff
  proof (intro iffI; elim exE conjE)
    fix u v assume u: "t = u @ v" "trailer_section u" "n = pos + length u"
    then have "suffix CRLF2 u" "\<not> sublist CRLF2 (butlast u)" using False by (auto simp: trailer_section_def)
    moreover have "length u = (length u - 4) + 4" using suffix_length_le [OF \<open>suffix CRLF2 u\<close>] by simp
    ultimately show "\<exists>e. (\<exists>u v. t = u @ v \<and> length u = e + 4 \<and> suffix CRLF2 u \<and> \<not> sublist CRLF2 (butlast u)) \<and> n = pos + e + 4"
      using u(1,3) by (intro exI [of _ "length u - 4"]) auto
  next
    fix e u v assume "t = u @ v" "length u = e + 4" "suffix CRLF2 u" "\<not> sublist CRLF2 (butlast u)" "n = pos + e + 4"
    moreover have "\<not> prefix CRLF u" using False \<open>t = u @ v\<close> prefix_prefix by blast
    ultimately show "\<exists>u v. t = u @ v \<and> trailer_section u \<and> n = pos + length u" by (intro exI [of _ u] exI [of _ v]) (simp add: trailer_section_def)
  qed
  moreover have "take 2 t \<noteq> CRLF" using False by (metis take_is_prefix)
  moreover have "find_sub CRLF2 t = None" if "length t < 2" using that find_sub_bound [of CRLF2 t] by (cases "find_sub CRLF2 t") auto
  ultimately show ?thesis by auto
qed

lemma decode_message_from_iff:
  assumes "length (pre @ s) < usize_bound"
  shows "decode_message_from (pre @ s) (length pre) acc = Some (b, n) \<longleftrightarrow>
    (\<exists>body t u v. chunked_message utf8_valid s body t \<and> b = acc @ body \<and> t = u @ v \<and> trailer_section u \<and> n + length v = length (pre @ s))"
  using assms
proof (induction "length s" arbitrary: pre s acc rule: less_induct)
  case less
  show ?case
  proof (cases "find_sub CRLF s")
    case None
    then have "\<not> chunked_message ok s body t" for ok body t using no_line_no_message [of ok s body t] by blast
    then show ?thesis using None by (subst decode_message_from.simps) simp
  next
    case (Some off)
    then obtain l r where s: "s = l @ CRLF @ r" "length l = off" "\<not> sublist CRLF l" by (rule find_CRLF_split)
    let ?size = "from_str_radix 16 usize_bound (trim (hd (split_on CHR '';'' l)))"
    have first: "find_sub CRLF (drop (length pre) (pre @ s)) = Some off" "take off (drop (length pre) (pre @ s)) = l"
      using find_CRLF_at [OF s(3), of r] s(1,2) by simp_all
    have after: "drop (length pre + off + 2 + k) (pre @ s) = drop k r" "length pre + off + 2 + k + 2 > length (pre @ s) \<longleftrightarrow> k + 2 > length r"
      "drop (length pre + off + 2) (pre @ s) = r" "length pre + off + 2 + 2 > length (pre @ s) \<longleftrightarrow> length r < 2" for k
      using s(1,2) by auto
    have unf: "decode_message_from (pre @ s) (length pre) acc =
      (case from_utf8 l of None \<Rightarrow> None | Some line \<Rightarrow>
       (case from_str_radix 16 usize_bound (trim (hd (split_on CHR '';'' line))) of None \<Rightarrow> None
       | Some sz \<Rightarrow> if sz = 0 then
           (if length r < 2 then None else if take 2 r = CRLF then Some (acc, length pre + off + 2 + 2)
            else map_option (\<lambda>e. (acc, length pre + off + 2 + e + 4)) (find_sub CRLF2 r))
         else if length pre + off + 2 + sz + 2 \<ge> usize_bound then None
         else if sz + 2 > length r then None
         else if take 2 (drop sz r) \<noteq> CRLF then None
         else decode_message_from (pre @ s) (length pre + off + 2 + sz + 2) (acc @ take sz r)))"
      by (subst decode_message_from.simps) (simp only: first after option.case Let_def)
    show ?thesis
    proof (cases "utf8_valid l \<and> ?size \<noteq> None")
      case False
      then have "\<not> (utf8_valid l \<and> size_line l m)" for m by (auto simp: size_line_def from_utf8_lossy_valid)
      moreover have "decode_message_from (pre @ s) (length pre) acc = None" unfolding unf using False by (auto simp: from_utf8_def)
      ultimately show ?thesis unfolding s(1) message_by_line [OF s(3)] by auto
    next
      case True
      then obtain z where z: "?size = Some z" and l: "utf8_valid l" by blast
      have sz: "size_line l m \<longleftrightarrow> m = z" for m using s(3) z l by (auto simp: size_line_def from_utf8_lossy_valid)
      have utf8: "from_utf8 l = Some l" using l by (simp add: from_utf8_def)
      show ?thesis
      proof (cases "z = 0")
        case True
        let ?pos = "length pre + off + 2"
        have "(\<exists>body t u v. chunked_message utf8_valid s body t \<and> b = acc @ body \<and> t = u @ v \<and> trailer_section u \<and> n + length v = length (pre @ s)) \<longleftrightarrow>
            b = acc \<and> (\<exists>u v. r = u @ v \<and> trailer_section u \<and> n = ?pos + length u)"
        proof -
          have n: "n + length v = length (pre @ l @ CRLF @ r) \<longleftrightarrow> n = ?pos + length u" if "r = u @ v" for u v using that s(2) by auto
          show ?thesis unfolding s(1) message_by_line [OF s(3)] sz using True l n by blast
        qed
        moreover have "decode_message_from (pre @ s) (length pre) acc = Some (b, n) \<longleftrightarrow> b = acc \<and>
            (if length r < 2 then None else if take 2 r = CRLF then Some (?pos + 2) else map_option (\<lambda>e. ?pos + e + 4) (find_sub CRLF2 r)) = Some n"
          unfolding unf utf8 option.case z using True by auto
        ultimately show ?thesis unfolding trailer_end_iff by blast
      next
        case False
        let ?rest = "drop (z + 2) r"
        let ?fits = "\<lambda>rest out. \<exists>body t u v. chunked_message utf8_valid rest body t \<and> b = out @ body \<and> t = u @ v \<and> trailer_section u \<and> n + length v = length (pre @ s)"
        have split: "?fits s acc \<longleftrightarrow> take 2 (drop z r) = CRLF \<and> ?fits ?rest (acc @ take z r)"
        proof -
          have "?fits s acc \<longleftrightarrow> (\<exists>c rest. length c = z \<and> c \<noteq> [] \<and> r = c @ CRLF @ rest \<and> ?fits rest (acc @ c))"
            unfolding s(1) message_by_line [OF s(3)] sz append.assoc using False l by blast
          also have "... \<longleftrightarrow> take 2 (drop z r) = CRLF \<and> ?fits ?rest (acc @ take z r)"
            using False by (intro chunk_split) simp
          finally show ?thesis .
        qed
        show ?thesis
        proof (cases "take 2 (drop z r) = CRLF")
          case True
          then have len: "z + 2 \<le> length r" by (rule take_CRLF_bound)
          have parts: "pre @ s = (pre @ l @ CRLF @ take (z + 2) r) @ ?rest" "length (pre @ l @ CRLF @ take (z + 2) r) = length pre + off + 2 + z + 2"
            using s len by simp_all
          have "decode_message_from (pre @ s) (length pre + off + 2 + z + 2) (acc @ take z r) = Some (b, n) \<longleftrightarrow> ?fits ?rest (acc @ take z r)"
            using less(1) [of ?rest "pre @ l @ CRLF @ take (z + 2) r" "acc @ take z r"] less(2) s(1,2) len
            unfolding parts(1) [symmetric] parts(2) by simp
          then show ?thesis unfolding unf split utf8 option.case z using False True len less(2) s by simp
        next
          case no: False
          then show ?thesis unfolding unf split utf8 option.case z using False by simp
        qed
      qed
    qed
  qed
qed

text \<open>C20: the two decoders of chunked bodies, on arbitrary bytes. The downloader's decoder returns a body exactly when the bytes are
  a chunked message with that body: size lines that read as hexadecimal numbers, chunks of exactly these sizes, each closed
  by a line end, up to a chunk of size zero; what follows does not matter. The relay's decoder returns a body and a length exactly when
  besides every size line is valid UTF-8 and the message has its trailer section, and the length
  is that of the message with this section, whatever bytes follow. So whenever the relay's decoder finds a message, the
  downloader's decoder gives the same body.\<close>
theorem chunked_decoders_agree:
  assumes "length data < usize_bound"
  shows "(decode_chunked data = Ok body \<longleftrightarrow> (\<exists>t. chunked_message (\<lambda>_. True) data body t)) \<and>
    (try_decode_chunked_message data = Some (body, n) \<longleftrightarrow>
      (\<exists>u v. chunked_message utf8_valid data body (u @ v) \<and> trailer_section u \<and> n + length v = length data)) \<and>
    (try_decode_chunked_message data = Some (body, n) \<longrightarrow> decode_chunked data = Ok body)"
proof -
  have a: "decode_chunked data = Ok body \<longleftrightarrow> (\<exists>t. chunked_message (\<lambda>_. True) data body t)"
    using decode_chunked_from_iff [of "[]" data "[]" body] assms by (simp add: decode_chunked_def)
  have b: "try_decode_chunked_message data = Some (body, n) \<longleftrightarrow>
      (\<exists>u v. chunked_message utf8_valid data body (u @ v) \<and> trailer_section u \<and> n + length v = length data)"
    using decode_message_from_iff [of "[]" data "[]" body n] assms by (auto simp: try_decode_chunked_message_def)
  have "chunked_message (\<lambda>_. True) data body t" if "chunked_message utf8_valid data body t" for t
    using that by (induction rule: chunked_message.induct) (rule chunked_message.intros; simp)+
  with a b show ?thesis by blast
qed

text \<open>A body that is not ASCII, with bytes of a next message; and a size line that is not UTF-8.\<close>

lemma wit_chunks: "size_line ''2'' (length [CHR 0xC3, CHR 0xA9])" "size_line ''0'' 0" "size_line [CHR ''1'', CHR '';'', CHR 0xFF] (length ''a'')"
    "\<not> utf8_valid [CHR ''1'', CHR '';'', CHR 0xFF]" "utf8_valid ''2''" "utf8_valid ''0''"
proof -
  have digit: "size_line l n"
    if "find_sub CRLF l = None" "trim (hd (split_on CHR '';'' (from_utf8_lossy l))) = show_radix 16 n" "n < 16" for l n
    using that from_str_radix_show [of 16 n usize_bound] by (simp add: size_line_def find_sub_None_iff usize_bound_def)
  show "size_line ''2'' (length [CHR 0xC3, CHR 0xA9])" "size_line ''0'' 0" "size_line [CHR ''1'', CHR '';'', CHR 0xFF] (length ''a'')"
    by (rule digit; code_simp)+
  show "\<not> utf8_valid [CHR ''1'', CHR '';'', CHR 0xFF]" "utf8_valid ''2''" "utf8_valid ''0''" by code_simp+
qed

theorem chunked_decoders_agree_witness:
  "decode_chunked (''2'' @ CRLF @ [CHR 0xC3, CHR 0xA9] @ CRLF @ ''0'' @ CRLF @ CRLF @ ''GET'') = Ok [CHR 0xC3, CHR 0xA9] \<and>
   try_decode_chunked_message (''2'' @ CRLF @ [CHR 0xC3, CHR 0xA9] @ CRLF @ ''0'' @ CRLF @ CRLF @ ''GET'') = Some ([CHR 0xC3, CHR 0xA9], 12) \<and>
   decode_chunked ([CHR ''1'', CHR '';'', CHR 0xFF] @ CRLF @ ''a'' @ CRLF @ ''0'' @ CRLF @ CRLF) = Ok ''a'' \<and>
   try_decode_chunked_message ([CHR ''1'', CHR '';'', CHR 0xFF] @ CRLF @ ''a'' @ CRLF @ ''0'' @ CRLF @ CRLF) = None"
proof -
  let ?d = "''2'' @ CRLF @ [CHR 0xC3, CHR 0xA9] @ CRLF @ ''0'' @ CRLF @ (CRLF @ ''GET'')" and ?l = "[CHR ''1'', CHR '';'', CHR 0xFF]"
  let ?e = "?l @ CRLF @ ''a'' @ CRLF @ ''0'' @ CRLF @ CRLF"
  have "chunked_message utf8_valid ?d ([CHR 0xC3, CHR 0xA9] @ []) (CRLF @ ''GET'')"
    by (rule chunked_message.next_chunk [OF _ _ _ chunked_message.last_chunk]) ((rule wit_chunks TrueI) | simp)+
  moreover have "trailer_section CRLF" "12 + length ''GET'' = length ?d" "length ?d < usize_bound" by (simp_all add: trailer_section_def usize_bound_def)
  ultimately have d: "try_decode_chunked_message ?d = Some ([CHR 0xC3, CHR 0xA9] @ [], 12)" "decode_chunked ?d = Ok ([CHR 0xC3, CHR 0xA9] @ [])"
    using chunked_decoders_agree [of ?d "[CHR 0xC3, CHR 0xA9] @ []" 12] by blast+
  have e: "chunked_message (\<lambda>_. True) ?e (''a'' @ []) CRLF"
    by (rule chunked_message.next_chunk [OF _ _ _ chunked_message.last_chunk]) ((rule wit_chunks TrueI) | simp)+
  have "\<not> chunked_message utf8_valid ?e b t" for b t
    using message_by_line [of ?l utf8_valid "''a'' @ CRLF @ ''0'' @ CRLF @ CRLF" b t] wit_chunks(3,4) by (simp add: size_line_def del: utf8_valid.simps)
  moreover have len: "length ?e < usize_bound" by (simp add: usize_bound_def)
  ultimately have "try_decode_chunked_message ?e \<noteq> Some (b, n)" for b n
    using chunked_decoders_agree [of ?e b n] by blast
  then have "try_decode_chunked_message ?e = None" by (cases "try_decode_chunked_message ?e") auto
  moreover have "decode_chunked ?e = Ok (''a'' @ [])" using chunked_decoders_agree [OF len, of "''a'' @ []"] e by blast
  ultimately show ?thesis using d by simp
qed

end
