(* ===== verification/Concurrent_Connections.thy ===== *)
theory Concurrent_Connections
  imports Proxy_Main
begin

text \<open>
  The connections of the proxy run concurrently (\<^verbatim>\<open>src/main.rs\<close> spawns a task for each): between two
  critical sections of one connection those of others may run. Here every handler of \<open>Proxy_Main\<close> is a task,
  a sequence of sections: an update of a counter, a critical section under one of the locks (pinned hosts, certificate pins,
  certificate cache, log of certificates, receipts), or an event on the connection's own sockets. A task that runs alone
  is the handler of \<open>Proxy_Main\<close>. The engine is a step system over all connections; what a
  connection may rely on and has to guarantee is the locale \<open>shared_state\<close>. The counts of a relay are applied in
  one section.
\<close>

section \<open>Tasks\<close>

text \<open>A task has ended, or runs its next section: the events and the new shared state, and the rest of the task, which depends on what
  the section has read.\<close>

datatype 'a task =
    Done "'a outcome"
  | Section "proxy_world \<Rightarrow> net_event list \<times> proxy_world" "proxy_world \<Rightarrow> 'a task"

primrec t_bind :: "'a task \<Rightarrow> ('a \<Rightarrow> 'b task) \<Rightarrow> 'b task" where
  "t_bind (Done r) f = (case r of Finished x \<Rightarrow> f x | Failed e \<Rightarrow> Done (Failed e) | Waiting \<Rightarrow> Done Waiting)"
| "t_bind (Section eff k) f = Section eff (\<lambda>w. t_bind (k w) f)"

definition atomic :: "'a action \<Rightarrow> 'a task" where
  "atomic m = Section (\<lambda>w. snd (m w)) (\<lambda>w. Done (fst (m w)))"

definition t_ret :: "'a \<Rightarrow> 'a task" where "t_ret x = Done (Finished x)"

definition t_fail :: "io_error \<Rightarrow> 'a task" where "t_fail e = Done (Failed e)"

text \<open>A task that nothing interrupts.\<close>

primrec run_alone :: "'a task \<Rightarrow> 'a action" where
  "run_alone (Done r) w = (r, [], w)"
| "run_alone (Section eff k) w = (let (ev, w') = eff w; (r, ev', w'') = run_alone (k w) w' in (r, ev @ ev', w''))"

lemma run_alone_atomic: "run_alone (atomic m) = m"
  by (rule ext) (simp add: atomic_def case_prod_unfold)

lemma run_alone_ret: "run_alone (t_ret x) = ret x" "run_alone (t_fail e) = fail e"
  by (rule ext, simp add: t_ret_def t_fail_def ret_def fail_def)+

lemma run_alone_bind: "run_alone (t_bind t f) = act_bind (run_alone t) (\<lambda>x. run_alone (f x))"
proof
  show "run_alone (t_bind t f) w = act_bind (run_alone t) (\<lambda>x. run_alone (f x)) w" for w
  proof (induction t arbitrary: w)
    case (Done r)
    then show ?case by (cases r) (simp_all add: act_bind_def case_prod_unfold)
  next
    case (Section eff k)
    obtain ev w1 where e: "eff w = (ev, w1)" by fastforce
    obtain r ev' w2 where r: "run_alone (k w) w1 = (r, ev', w2)" by (cases "run_alone (k w) w1") auto
    have "run_alone (t_bind (k w) f) w1 = act_bind (run_alone (k w)) (\<lambda>x. run_alone (f x)) w1" by (rule Section) simp
    then show ?case by (cases r) (simp_all add: act_bind_def e r case_prod_unfold Let_def)
  qed
qed

section \<open>The sections of the handlers\<close>

text \<open>A counter of the metrics is an atomic, the receipts have a lock: counting is two sections.\<close>

definition tally_task :: "(metrics \<Rightarrow> metrics) \<Rightarrow> (receipt_store \<Rightarrow> receipt_store) \<Rightarrow> unit task" where
  "tally_task f g = t_bind (atomic (tally_act f id)) (\<lambda>_. atomic (tally_act id g))"

definition tunnel_task :: "'v conn_env \<Rightarrow> bytes \<Rightarrow> bytes option \<Rightarrow> unit task" where
  "tunnel_task env target_addr initial_client_bytes =
    t_bind (tally_task inc_passthrough_tunnel_total id) (\<lambda>_.
    t_bind (atomic (tcp_connect env target_addr)) (\<lambda>r.
    case r of Some e \<Rightarrow> t_fail e
    | None \<Rightarrow>
       t_bind (case initial_client_bytes of Some buf \<Rightarrow> if buf \<noteq> [] then atomic (write_server env buf) else t_ret () | None \<Rightarrow> t_ret ()) (\<lambda>_.
       atomic (copy_bidirectional target_addr))))"

text \<open>The certificate pin check: the section under the read lock, then at most one under the write lock.\<close>

definition pin_read :: "bytes \<Rightarrow> bytes \<Rightarrow> cau_decision io_result option action" where
  "pin_read host fingerprint w =
    (Finished (map_option (\<lambda>db. cau_read db (normalize_host host) fingerprint) (mw_pins (pw_mitm w))), [], w)"

definition pin_write :: "(disk \<Rightarrow> cert_pin_db \<Rightarrow> disk \<times> cert_pin_db \<times> pin_check_result io_result) \<Rightarrow> pin_check_result io_result option action" where
  "pin_write sec w =
    (case mw_pins (pw_mitm w) of None \<Rightarrow> (Finished None, [], w)
     | Some db \<Rightarrow> let (d, db, r) = sec (mw_disk (pw_mitm w)) db
                  in (Finished (Some r), [], w\<lparr>pw_mitm := (pw_mitm w)\<lparr>mw_disk := d, mw_pins := Some db\<rparr>\<rparr>))"

definition pin_verdict :: "'v tunnel_env \<Rightarrow> bytes \<Rightarrow> pin_check_result io_result option \<Rightarrow> unit task" where
  "pin_verdict env host r =
    (case r of Some (Inr (Mismatch expected got)) \<Rightarrow>
       tally_task inc_cert_pin_violation_total (record_cert_pin_violation (le_now (te_leaf env)) host)
     | _ \<Rightarrow> t_ret ())"

definition pin_check_task :: "'v tunnel_env \<Rightarrow> bytes \<Rightarrow> bytes option \<Rightarrow> unit task" where
  "pin_check_task env host leaf =
    (case leaf of None \<Rightarrow> t_ret ()
     | Some der \<Rightarrow>
        let fingerprint = cert_der_fingerprint (le_sha256 (te_leaf env)) der; now = le_now (te_leaf env) in
        t_bind (atomic (pin_read host fingerprint)) (\<lambda>d.
        case d of None \<Rightarrow> t_ret ()
        | Some (Inl e) \<Rightarrow> pin_verdict env host (Some (Err e))
        | Some (Inr (Decided r)) \<Rightarrow> pin_verdict env host (Some (Ok r))
        | Some (Inr GoHit) \<Rightarrow>
            t_bind (atomic (pin_write (\<lambda>d db. cau_hit (te_json env) (te_fs env) d db now (normalize_host host)))) (pin_verdict env host)
        | Some (Inr GoInsert) \<Rightarrow>
            t_bind (atomic (pin_write (\<lambda>d db. cau_insert (te_json env) (te_fs env) d db now (normalize_host host) fingerprint))) (pin_verdict env host)))"

text \<open>The certificate for a host: the cache is looked up under its lock, the certificate is made and logged without it, and
  the cache is locked again for the insertion.\<close>

definition cache_lookup :: "bytes \<Rightarrow> server_config option action" where
  "cache_lookup key w = (let s = mw_engine (pw_mitm w) in (Finished (if me_cache_poisoned s then None else me_cache s key), [], w))"

definition with_engine :: "(mitm_engine \<Rightarrow> mitm_engine) \<Rightarrow> unit action" where
  "with_engine f w = (Finished (), [], w\<lparr>pw_mitm := (pw_mitm w)\<lparr>mw_engine := f (mw_engine (pw_mitm w))\<rparr>\<rparr>)"

definition cache_insert :: "bytes \<Rightarrow> server_config \<Rightarrow> mitm_engine \<Rightarrow> mitm_engine" where
  "cache_insert key cfg s = (if me_cache_poisoned s then s else s\<lparr>me_cache := (me_cache s)(key \<mapsto> cfg)\<rparr>)"

definition server_config_task :: "leaf_env \<Rightarrow> bytes \<Rightarrow> bool \<Rightarrow> (mitm_error + server_config) task" where
  "server_config_task env target_host force =
    (let normalized_host = to_ascii_lowercase (trim target_host) in
     if normalized_host = [] then t_ret (Err (CertGeneration ''empty target host''))
     else let key = cache_key normalized_host force in
     t_bind (atomic (cache_lookup key)) (\<lambda>hit.
     case hit of Some cfg \<Rightarrow> t_ret (Ok cfg)
     | None \<Rightarrow>
        (case le_issue env normalized_host of Inl e \<Rightarrow> t_ret (Err (CertGeneration e))
         | Inr leaf \<Rightarrow>
            t_bind (atomic (with_engine (cert_log_record env normalized_host (case lf_serial leaf of Some n \<Rightarrow> n | None \<Rightarrow> ''auto'')
              (leaf_fingerprint (le_sha256 env) leaf)))) (\<lambda>_.
            case le_accept env leaf of Inl e \<Rightarrow> t_ret (Err (CertGeneration e))
            | Inr _ \<Rightarrow>
               let cfg = \<lparr>sc_leaf = leaf, sc_alpn = alpn_for force\<rparr> in
               t_bind (atomic (with_engine (cache_insert key cfg))) (\<lambda>_. t_ret (Ok cfg))))))"

definition tls_event :: "client_action \<Rightarrow> unit action" where
  "tls_event a w = (Finished (), [Tls a], w)"

definition relay_act :: "'v tunnel_env \<Rightarrow> relay_kind \<Rightarrow> unit io_result action" where
  "relay_act env kind w = (let (r, t) = te_relay env kind (mw_tally (pw_mitm w)) in (Finished r, [Tls (RunRelay kind)], w\<lparr>pw_mitm := (pw_mitm w)\<lparr>mw_tally := t\<rparr>\<rparr>))"

definition intercept_task :: "'v conn_env \<Rightarrow> policy_engine \<Rightarrow> bytes \<Rightarrow> (mitm_error + unit) task" where
  "intercept_task cenv e host =
    (let env = ce_tunnel cenv; body_plan = plan_for_body_rewrite e host; force = force_http1 e host (Some (ce_client_ip cenv)) in
     case te_connect env of Some err \<Rightarrow> t_ret (Err (UpstreamConnect err))
     | None \<Rightarrow>
     if \<not> te_server_name_ok env then t_ret (Err (InvalidServerName host))
     else case te_upstream_tls env of Inl msg \<Rightarrow> t_ret (Err (UpstreamTlsHandshake msg))
     | Inr (leaf, upstream_alpn) \<Rightarrow>
        t_bind (pin_check_task env host leaf) (\<lambda>_.
        t_bind (server_config_task (te_leaf env) host force) (\<lambda>cfg.
        case cfg of Inl err \<Rightarrow> t_ret (Err err)
        | Inr cfg \<Rightarrow>
           t_bind (atomic (tls_event (AcceptTls cfg))) (\<lambda>_.
           case te_client_tls env of Inl msg \<Rightarrow> t_ret (Err (ClientTlsHandshake msg))
           | Inr client_alpn \<Rightarrow>
              let kind = (if force then PolicyRelay
                    else if is_http1 client_alpn \<and> is_http1 upstream_alpn \<and> should_rewrite body_plan then PolicyRelay else CopyRelay)
              in t_bind (atomic (relay_act env kind)) (\<lambda>r. t_ret (map_err RelayError r))))))"

definition in_grace :: "'v conn_env \<Rightarrow> bool action" where
  "in_grace env w = (Finished (in_grace_period (pw_pinned w) (ce_mono env) (AUTO_PIN_GRACE_PERIOD_SECS * 1000000000)), [], w)"

definition auto_pin_task :: "'v conn_env \<Rightarrow> bytes \<Rightarrow> unit task" where
  "auto_pin_task env host =
    t_bind (atomic (in_grace env)) (\<lambda>grace.
    if grace then t_ret ()
    else t_bind (atomic (pin_host_after_tls_rejection env host)) (\<lambda>added.
      if added then tally_task inc_host_auto_pinned_total (record_host_auto_pinned (ce_now env) host) else t_ret ()))"

definition run_mitm_intercept_task :: "'v conn_env \<Rightarrow> policy_engine \<Rightarrow> bytes \<Rightarrow> bytes \<Rightarrow> unit task" where
  "run_mitm_intercept_task env e target_addr host =
    t_bind (tally_task inc_mitm_attempt_total (record_mitm_attempt (ce_now env) host)) (\<lambda>_.
    t_bind (intercept_task env e host) (\<lambda>r.
    case r of
      Inr _ \<Rightarrow> tally_task inc_mitm_success_total (record_mitm_success (ce_now env) host)
    | Inl err \<Rightarrow>
       if is_benign_peer_close err then tally_task inc_mitm_success_total (record_mitm_success (ce_now env) host)
       else if is_upstream_tls_handshake_failure err then
         t_bind (auto_pin_task env host) (\<lambda>_.
         t_bind (tally_task inc_passthrough_tunnel_total id) (\<lambda>_.
         tunnel_task env target_addr None))
       else
         t_bind (tally_task inc_mitm_failure_total (record_mitm_failure (ce_now env) host)) (\<lambda>_.
         if is_client_tls_handshake_failure err then
           t_bind (tally_task inc_mitm_client_tls_reject_total (record_client_tls_reject (ce_now env) host)) (\<lambda>_.
           auto_pin_task env host)
         else t_ret ())))"

definition http_proxy_task :: "'v conn_env \<Rightarrow> unit task" where
  "http_proxy_task env =
    t_bind (atomic (read_headers env)) (\<lambda>(request_head, body_after_headers).
    case first_request_line request_head of
      None \<Rightarrow> t_fail (IoError InvalidData ''Malformed HTTP proxy request'')
    | Some request_line \<Rightarrow>
       (case rewrite_proxy_request request_line request_head of
          Inl message \<Rightarrow> atomic (send_http_error env ''400 Bad Request'' message)
        | Inr (target_addr, rewritten_request) \<Rightarrow>
           t_bind (atomic (tcp_connect env target_addr)) (\<lambda>r.
           case r of
             Some _ \<Rightarrow> atomic (send_http_error env ''502 Bad Gateway'' ''Failed to connect to upstream target.'')
           | None \<Rightarrow>
              t_bind (atomic (write_server env rewritten_request)) (\<lambda>_.
              t_bind (if body_after_headers \<noteq> [] then atomic (write_server env body_after_headers) else t_ret ()) (\<lambda>_.
              atomic (copy_bidirectional target_addr))))))"

definition connect_passthrough_task :: "'v conn_env \<Rightarrow> bytes \<Rightarrow> bytes \<Rightarrow> unit task" where
  "connect_passthrough_task env target_addr buffered_after_headers =
    t_bind (tally_task inc_passthrough_tunnel_total id) (\<lambda>_.
    t_bind (atomic (tcp_connect env target_addr)) (\<lambda>r.
    case r of
      Some _ \<Rightarrow> atomic (send_http_error env ''502 Bad Gateway'' ''Failed to connect to upstream target.'')
    | None \<Rightarrow>
       t_bind (atomic (write_client env CONNECT_OK)) (\<lambda>_.
       t_bind (if buffered_after_headers \<noteq> [] then atomic (write_server env buffered_after_headers) else t_ret ()) (\<lambda>_.
       atomic (copy_bidirectional target_addr)))))"

definition connect_tunnel_task :: "'v conn_env \<Rightarrow> bool \<Rightarrow> policy_engine \<Rightarrow> unit task" where
  "connect_tunnel_task env mitm e =
    t_bind (atomic (read_headers env)) (\<lambda>(request_head, buffered_after_headers).
    case first_request_line request_head of
      None \<Rightarrow> t_fail (IoError InvalidData ''Malformed CONNECT request: missing request line'')
    | Some request_line \<Rightarrow>
    (case parse_connect_target request_line of
      None \<Rightarrow> t_fail (IoError InvalidData (''Malformed CONNECT request line: '' @ request_line))
    | Some target_addr \<Rightarrow>
       let has_early_tunnel_bytes = (buffered_after_headers \<noteq> []) in
       (case host_from_authority target_addr of
          None \<Rightarrow> connect_passthrough_task env target_addr buffered_after_headers
        | Some host \<Rightarrow>
           t_bind (atomic (host_pinned host)) (\<lambda>host_is_pinned.
           let (decision, reason) = connect_decision host_is_pinned mitm has_early_tunnel_bytes in
           t_bind (atomic (log_tls_routing_decision env ''connect'' host decision reason)) (\<lambda>_.
           if mitm \<and> can_attempt_connect_mitm host_is_pinned True has_early_tunnel_bytes then
             t_bind (atomic (write_client env CONNECT_OK)) (\<lambda>_. run_mitm_intercept_task env e target_addr host)
           else connect_passthrough_task env target_addr buffered_after_headers)))))"

definition transparent_task :: "'v conn_env \<Rightarrow> bool \<Rightarrow> policy_engine \<Rightarrow> bytes \<Rightarrow> unit task" where
  "transparent_task env mitm e sni =
    (let target_addr = sni @ '':443''; normalized_sni = to_ascii_lowercase sni in
     t_bind (atomic (host_pinned normalized_sni)) (\<lambda>host_is_pinned.
     let decision = decide_tls_routing host_is_pinned mitm in
     case decision of
       AttemptMitm \<Rightarrow>
         t_bind (atomic (log_tls_routing_decision env ''transparent'' normalized_sni decision ''host_not_pinned_and_mitm_enabled'')) (\<lambda>_.
         run_mitm_intercept_task env e target_addr normalized_sni)
     | Passthrough \<Rightarrow>
         t_bind (atomic (log_tls_routing_decision env ''transparent'' normalized_sni decision
            (if host_is_pinned then ''host_is_pinned'' else ''mitm_disabled''))) (\<lambda>_.
         tunnel_task env target_addr None)))"

definition connection_task :: "'v conn_env \<Rightarrow> bool \<Rightarrow> policy_engine \<Rightarrow> unit task" where
  "connection_task env mitm e =
    t_bind (atomic (lift_io (ce_peek env))) (\<lambda>bytes.
    let peeked = take MAX_PEEK_BYTES bytes in
    if peeked = [] then t_ret ()
    else if starts_with_ascii_case_insensitive peeked ''CONNECT '' then connect_tunnel_task env mitm e
    else case parse_sni peeked of
      Some sni \<Rightarrow> transparent_task env mitm e sni
    | None \<Rightarrow> if looks_like_http_request peeked then http_proxy_task env else t_ret ())"

definition accept_task :: "'v conn_env \<Rightarrow> bool \<Rightarrow> policy_engine \<Rightarrow> unit task" where
  "accept_task env mitm e = t_bind (atomic (tally_act inc_connection_total id)) (\<lambda>_. connection_task env mitm e)"

section \<open>The handlers are their tasks, run alone\<close>

named_theorems alone

lemmas [alone] = run_alone_atomic run_alone_ret run_alone_bind

lemma alone_tally [alone]: "run_alone (tally_task f g) = tally_act f g"
  by (rule ext) (simp add: tally_task_def alone tally_act_def act_bind_def tick_def option.map_id0)

lemma alone_cases [alone]:
  "run_alone (case x of None \<Rightarrow> a | Some y \<Rightarrow> f y) = (case x of None \<Rightarrow> run_alone a | Some y \<Rightarrow> run_alone (f y))"
  "run_alone (case s of Inl y \<Rightarrow> g y | Inr z \<Rightarrow> h z) = (case s of Inl y \<Rightarrow> run_alone (g y) | Inr z \<Rightarrow> run_alone (h z))"
  "run_alone (case q of (y, z) \<Rightarrow> i y z) = (case q of (y, z) \<Rightarrow> run_alone (i y z))"
  "run_alone (if c then m else n) = (if c then run_alone m else run_alone n)"
  "run_alone (case d of AttemptMitm \<Rightarrow> m | Passthrough \<Rightarrow> n) = (case d of AttemptMitm \<Rightarrow> run_alone m | Passthrough \<Rightarrow> run_alone n)"
  "run_alone (Let v l) = (let v' = v in run_alone (l v'))"
  by (simp_all split: option.split sum.split prod.split tls_routing_decision.split)

lemma alone_tunnel [alone]: "run_alone (tunnel_task env t i) = tunnel env t i"
  by (simp only: tunnel_task_def tunnel_def alone)

lemma alone_pin_verdict:
  "run_alone (pin_verdict env host r) w = (Finished (), [], case r of
     Some (Inr (Mismatch expected got)) \<Rightarrow> tallied inc_cert_pin_violation_total (record_cert_pin_violation (le_now (te_leaf env)) host) w | _ \<Rightarrow> w)"
  by (simp add: pin_verdict_def alone tally_act_run ret_def split: option.split sum.split pin_check_result.split)

lemma alone_pin_check:
  "run_alone (pin_check_task env host leaf) w = (Finished (), [], w\<lparr>pw_mitm := pin_check env host leaf (pw_mitm w)\<rparr>)"
proof (cases "leaf = None \<or> mw_pins (pw_mitm w) = None")
  case True
  then show ?thesis
    by (auto simp: pin_check_task_def pin_check_def alone ret_def act_bind_def pin_read_def Let_def split: option.split)
next
  case False
  then obtain der db where l: "leaf = Some der" "mw_pins (pw_mitm w) = Some db" by auto
  let ?fp = "cert_der_fingerprint (le_sha256 (te_leaf env)) der"
  show ?thesis
  proof (cases "cau_read db (normalize_host host) ?fp")
    case (Inl e)
    then show ?thesis
      by (simp add: pin_check_task_def pin_check_def alone act_bind_def pin_read_def alone_pin_verdict l check_and_update_def Let_def)
  next
    case (Inr d)
    then show ?thesis
      by (cases d) (auto simp: pin_check_task_def pin_check_def alone act_bind_def pin_read_def pin_write_def alone_pin_verdict l check_and_update_def
          tallied_def case_prod_unfold Let_def split: sum.split pin_check_result.split)
  qed
qed

lemma alone_server_config:
  "run_alone (server_config_task env host f) w = (let (r, s) = server_config_for_host env host f (mw_engine (pw_mitm w))
     in (Finished r, [], w\<lparr>pw_mitm := (pw_mitm w)\<lparr>mw_engine := s\<rparr>\<rparr>))"
  by (simp add: server_config_task_def server_config_for_host_def alone act_bind_def ret_def cache_lookup_def with_engine_def cache_insert_def
      case_prod_unfold Let_def split: option.split sum.split)

lemma alone_intercept [alone]: "run_alone (intercept_task env e host) = intercept env e host"
proof
  show "run_alone (intercept_task env e host) w = intercept env e host w" for w
    by (simp add: intercept_task_def intercept_def intercept_tls_tunnel_def alone act_bind_def ret_def alone_pin_check alone_server_config
        tls_event_def relay_act_def case_prod_unfold Let_def split: option.split sum.split)
qed

lemma alone_auto_pin [alone]: "run_alone (auto_pin_task env host) = auto_pin env host"
  by (rule ext) (simp add: auto_pin_task_def auto_pin_def alone act_bind_def [of "in_grace env"] in_grace_def case_prod_unfold cong: if_cong)

lemma alone_run_mitm_intercept [alone]: "run_alone (run_mitm_intercept_task env e t host) = run_mitm_intercept env e t host"
  by (simp only: run_mitm_intercept_task_def run_mitm_intercept_def alone Let_def)

lemma alone_http_proxy [alone]: "run_alone (http_proxy_task env) = handle_http_proxy env"
  by (simp only: http_proxy_task_def handle_http_proxy_def alone)

lemma alone_connect_passthrough [alone]: "run_alone (connect_passthrough_task env t b) = connect_passthrough env t b"
  by (simp only: connect_passthrough_task_def connect_passthrough_def alone)

lemma alone_connect_tunnel [alone]: "run_alone (connect_tunnel_task env mitm e) = handle_connect_tunnel env mitm e"
  by (simp only: connect_tunnel_task_def handle_connect_tunnel_def alone)

lemma alone_transparent [alone]: "run_alone (transparent_task env mitm e sni) = handle_transparent env mitm e sni"
  by (simp only: transparent_task_def handle_transparent_def alone)

lemma alone_connection [alone]: "run_alone (connection_task env mitm e) = handle_connection env mitm e"
  by (simp only: connection_task_def handle_connection_def alone)

lemma alone_accept: "run_alone (accept_task env mitm e) = accept_connection env mitm e"
  by (simp only: accept_task_def accept_connection_def alone)

section \<open>Rely and guarantee\<close>

text \<open>Every section of a task, begun in a state with \<open>I\<close>, changes the state by \<open>G\<close> and emits events with \<open>E\<close>; when the task
  finishes, its result has \<open>Q\<close>. Between the sections others may change the state, as long as \<open>I\<close> holds at each section.\<close>

primrec safe :: "(proxy_world \<Rightarrow> bool) \<Rightarrow> (proxy_world \<Rightarrow> proxy_world \<Rightarrow> bool) \<Rightarrow> (net_event \<Rightarrow> bool) \<Rightarrow> ('a \<Rightarrow> bool) \<Rightarrow> 'a task \<Rightarrow> bool" where
  "safe I G E Q (Done r) \<longleftrightarrow> (case r of Finished x \<Rightarrow> Q x | _ \<Rightarrow> True)"
| "safe I G E Q (Section eff k) \<longleftrightarrow> (\<forall>w. I w \<longrightarrow> G w (snd (eff w)) \<and> (\<forall>x \<in> set (fst (eff w)). E x) \<and> safe I G E Q (k w))"

lemma safe_mono: "safe I G E Q t \<Longrightarrow> (\<And>x. Q x \<Longrightarrow> R x) \<Longrightarrow> safe I G E R t"
proof (induction t)
  case (Done r)
  then show ?case by (cases r) simp_all
qed simp

lemma safe_bind: "safe I G E Q t \<Longrightarrow> (\<And>x. Q x \<Longrightarrow> safe I G E R (f x)) \<Longrightarrow> safe I G E R (t_bind t f)"
proof (induction t)
  case (Done r)
  then show ?case by (cases r) simp_all
qed simp

lemma safe_ret: "Q x \<Longrightarrow> safe I G E Q (t_ret x)" and safe_fail: "safe I G E Q (t_fail e)"
  by (simp_all add: t_ret_def t_fail_def)

lemma safe_atomic:
  assumes "\<And>w. I w \<Longrightarrow> G w (snd (snd (m w)))" "\<And>w x. I w \<Longrightarrow> x \<in> set (fst (snd (m w))) \<Longrightarrow> E x"
    "\<And>w x. I w \<Longrightarrow> fst (m w) = Finished x \<Longrightarrow> Q x"
  shows "safe I G E Q (atomic m)"
  using assms by (auto simp: atomic_def split: outcome.split)

lemma safe_option: "(\<And>y. x = Some y \<Longrightarrow> safe I G E Q (s y)) \<Longrightarrow> (x = None \<Longrightarrow> safe I G E Q n) \<Longrightarrow> safe I G E Q (case x of None \<Rightarrow> n | Some y \<Rightarrow> s y)"
  and safe_if: "(c \<Longrightarrow> safe I G E Q m) \<Longrightarrow> (\<not> c \<Longrightarrow> safe I G E Q n) \<Longrightarrow> safe I G E Q (if c then m else n)"
  by (cases x) auto

lemma safe_sum: "(\<And>y. x = Inl y \<Longrightarrow> safe I G E Q (s y)) \<Longrightarrow> (\<And>y. x = Inr y \<Longrightarrow> safe I G E Q (n y)) \<Longrightarrow> safe I G E Q (case x of Inl y \<Rightarrow> s y | Inr y \<Rightarrow> n y)"
  by (cases x) auto

lemma safe_prod: "(\<And>y z. q = (y, z) \<Longrightarrow> safe I G E Q (f y z)) \<Longrightarrow> safe I G E Q (case q of (y, z) \<Rightarrow> f y z)"
  by (cases q) auto

lemmas safe_cases = safe_option safe_if safe_sum safe_prod

text \<open>The contract of the connections on the shared state. \<open>G\<close> is what every section guarantees, \<open>I\<close> what a connection relies on, which
  \<open>G\<close> keeps; \<open>fits n cfg\<close> is what is known of a configuration found under the name \<open>n\<close>, \<open>knows h b\<close> of the
  answer \<open>b\<close> to the question whether \<open>h\<close> is pinned; \<open>good\<close> are the certificate makers of the connections.\<close>

locale shared_state =
  fixes I :: "proxy_world \<Rightarrow> bool" and G :: "proxy_world \<Rightarrow> proxy_world \<Rightarrow> bool"
    and good :: "leaf_env \<Rightarrow> bool" and fits :: "bytes \<Rightarrow> server_config \<Rightarrow> bool" and knows :: "bytes \<Rightarrow> bool \<Rightarrow> bool"
  assumes stable: "I w \<Longrightarrow> G w w' \<Longrightarrow> I w'"
    and guar_refl: "G w w"
    and guar_tally: "G w (w\<lparr>pw_mitm := (pw_mitm w)\<lparr>mw_tally := t\<rparr>\<rparr>)"
    and guar_pins: "G w (w\<lparr>pw_mitm := (pw_mitm w)\<lparr>mw_disk := d, mw_pins := db\<rparr>\<rparr>)"
    and guar_log: "G w (w\<lparr>pw_mitm := (pw_mitm w)\<lparr>mw_engine := cert_log_record lenv n serial fp (mw_engine (pw_mitm w))\<rparr>\<rparr>)"
    and guar_insert: "good lenv \<Longrightarrow> le_issue lenv n = Ok leaf \<Longrightarrow>
      G w (w\<lparr>pw_mitm := (pw_mitm w)\<lparr>mw_engine := cache_insert (cache_key n f) \<lparr>sc_leaf = leaf, sc_alpn = alpn_for f\<rparr> (mw_engine (pw_mitm w))\<rparr>\<rparr>)"
    and guar_add: "add_and_persist (J :: 'v json_api) fs (mw_disk (pw_mitm w)) (pw_pinned w) h = (d, ph, r) \<Longrightarrow>
      G w (w\<lparr>pw_mitm := (pw_mitm w)\<lparr>mw_disk := d\<rparr>, pw_pinned := ph\<rparr>)"
    and fits_issued: "good lenv \<Longrightarrow> le_issue lenv n = Ok leaf \<Longrightarrow> fits n \<lparr>sc_leaf = leaf, sc_alpn = alpn_for f\<rparr>"
    and fits_cached: "I w \<Longrightarrow> me_cache (mw_engine (pw_mitm w)) (cache_key n f) = Some cfg \<Longrightarrow> fits n cfg"
    and knows_pinned: "I w \<Longrightarrow> pinned_contains (pw_pinned w) h = Ok b \<Longrightarrow> knows h b"
begin

abbreviation ok where "ok \<equiv> safe I G"

lemma ok_read:
  assumes "\<And>w. snd (snd (m w)) = w" "\<And>w x. x \<in> set (fst (snd (m w))) \<Longrightarrow> E x" "\<And>w x. I w \<Longrightarrow> fst (m w) = Finished x \<Longrightarrow> Q x"
  shows "ok E Q (atomic m)"
  by (rule safe_atomic) (simp_all add: assms guar_refl)

lemma ok_tally: "ok E (\<lambda>_. True) (atomic (tally_act f g))"
  by (rule safe_atomic) (simp_all add: tally_act_def guar_tally)

lemma ok_seq: "ok E (\<lambda>_. True) t \<Longrightarrow> (\<And>x. ok E R (f x)) \<Longrightarrow> ok E R (t_bind t f)"
  by (rule safe_bind)

lemma ok_tally_task: "ok E (\<lambda>_. True) (tally_task f g)"
  unfolding tally_task_def by (rule ok_seq [OF ok_tally ok_tally])

text \<open>Sections on the connection's own sockets.\<close>

lemma ok_io:
  "(\<And>b. E (ToClient b)) \<Longrightarrow> ok E (\<lambda>_. True) (atomic (write_client env b))"
  "(\<And>b. E (ToServer b)) \<Longrightarrow> ok E (\<lambda>_. True) (atomic (write_server env b))"
  "(\<And>b. E (ConnectTo b)) \<Longrightarrow> ok E (\<lambda>_. True) (atomic (tcp_connect env t))"
  "(\<And>b. E (Splice b)) \<Longrightarrow> ok E (\<lambda>_. True) (atomic (copy_bidirectional t))"
  "(\<And>b. E (ToClient b)) \<Longrightarrow> ok E (\<lambda>_. True) (atomic (send_http_error env s m))"
  "ok E (\<lambda>_. True) (atomic (log_tls_routing_decision env flow h d reason))"
  by (auto simp: write_client_def write_server_def tcp_connect_def copy_bidirectional_def send_http_error_def log_tls_routing_decision_def
      intro: ok_read ok_tally)

lemma ok_read_headers: "ok E (\<lambda>x. read_until_headers_complete [] (ce_reads env) = Some (Ok x)) (atomic (read_headers env))"
  by (rule ok_read) (auto simp: read_headers_def lift_io_def ret_def fail_def split: option.splits sum.splits)

lemma ok_peek: "ok E (\<lambda>x. ce_peek env = Ok x) (atomic (lift_io (ce_peek env)))"
  by (rule ok_read) (auto simp: lift_io_def ret_def fail_def split: sum.splits)

lemma ok_host_pinned: "ok E (knows h) (atomic (host_pinned h))"
  by (rule ok_read) (auto simp: host_pinned_def lift_io_def ret_def fail_def knows_pinned split: sum.splits)

lemma ok_tunnel:
  assumes "\<And>b. E (ToServer b)" "\<And>b. E (ConnectTo b)" "\<And>b. E (Splice b)"
  shows "ok E (\<lambda>_. True) (tunnel_task env t i)"
  unfolding tunnel_task_def by (intro ok_seq ok_tally_task ok_io safe_cases safe_fail safe_ret assms TrueI)

lemma ok_connect_passthrough:
  assumes "\<And>b. E (ToServer b)" "\<And>b. E (ConnectTo b)" "\<And>b. E (Splice b)" "\<And>b. E (ToClient b)"
  shows "ok E (\<lambda>_. True) (connect_passthrough_task env t b)"
  unfolding connect_passthrough_task_def by (intro ok_seq ok_tally_task ok_io safe_cases safe_ret assms TrueI)

lemma ok_http_proxy:
  assumes "\<And>b. E (ToServer b)" "\<And>b. E (ConnectTo b)" "\<And>b. E (Splice b)" "\<And>b. E (ToClient b)"
  shows "ok E (\<lambda>_. True) (http_proxy_task env)"
  unfolding http_proxy_task_def
  by (rule safe_bind [OF ok_read_headers]) (intro safe_cases ok_seq ok_io safe_fail safe_ret assms TrueI)

text \<open>Sections of an interception.\<close>

lemma ok_pin_write: "ok E (\<lambda>_. True) (atomic (pin_write sec))"
  by (rule safe_atomic) (auto simp: pin_write_def guar_refl guar_pins case_prod_unfold Let_def split: option.splits)

lemma ok_pin_verdict: "ok E (\<lambda>_. True) (pin_verdict env host r)"
  by (auto simp: pin_verdict_def intro: ok_tally_task safe_ret split: option.split sum.split pin_check_result.split)

lemma ok_pin_check: "ok E (\<lambda>_. True) (pin_check_task env host leaf)"
proof -
  have r: "ok E (\<lambda>_. True) (atomic (pin_read h fp))" for h fp by (rule ok_read) (simp_all add: pin_read_def)
  show ?thesis
    unfolding pin_check_task_def Let_def
    by (auto intro!: ok_seq r ok_pin_write ok_pin_verdict safe_ret split: option.split sum.split cau_decision.split)
qed

lemma ok_server_config:
  assumes "good env"
  shows "ok E (\<lambda>r. \<forall>cfg. r = Ok cfg \<longrightarrow> fits (to_ascii_lowercase (trim host)) cfg) (server_config_task env host f)"
proof -
  let ?n = "to_ascii_lowercase (trim host)"
  let ?Q = "\<lambda>r. \<forall>cfg. r = Ok cfg \<longrightarrow> fits ?n cfg"
  have look: "ok E (\<lambda>hit. \<forall>cfg. hit = Some cfg \<longrightarrow> fits ?n cfg) (atomic (cache_lookup (cache_key ?n f)))"
    by (rule ok_read) (auto simp: cache_lookup_def fits_cached Let_def split: if_splits)
  have log: "ok E (\<lambda>_. True) (atomic (with_engine (cert_log_record env ?n serial fp)))" for serial fp
    by (rule safe_atomic) (simp_all add: with_engine_def guar_log)
  have ins: "ok E (\<lambda>_. True) (atomic (with_engine (cache_insert (cache_key ?n f) \<lparr>sc_leaf = leaf, sc_alpn = alpn_for f\<rparr>)))"
    if "le_issue env ?n = Ok leaf" for leaf
    by (rule safe_atomic) (simp_all add: with_engine_def guar_insert [OF assms that])
  show ?thesis
    unfolding server_config_task_def Let_def
    by (intro safe_if safe_bind [OF look] safe_option safe_sum ok_seq log ins safe_ret) (simp_all add: fits_issued [OF assms])
qed

lemma ok_intercept:
  assumes "good (te_leaf (ce_tunnel env))" "\<And>cfg. fits (to_ascii_lowercase (trim host)) cfg \<Longrightarrow> E (Tls (AcceptTls cfg))" "\<And>k. E (Tls (RunRelay k))"
  shows "ok E (\<lambda>_. True) (intercept_task env e host)"
proof -
  have rel: "ok E (\<lambda>_. True) (atomic (relay_act (ce_tunnel env) kind))" for kind
    by (rule safe_atomic) (simp_all add: relay_act_def case_prod_unfold guar_tally assms(3) Let_def)
  have acc: "ok E (\<lambda>_. True) (atomic (tls_event (AcceptTls cfg)))" if "fits (to_ascii_lowercase (trim host)) cfg" for cfg
    by (rule ok_read) (simp_all add: tls_event_def assms(2) that)
  show ?thesis
    unfolding intercept_task_def Let_def
    by (intro safe_option safe_if safe_sum safe_prod safe_ret ok_seq ok_pin_check safe_bind [OF ok_server_config [OF assms(1)]] acc rel TrueI) simp_all
qed

lemma ok_auto_pin: "ok E (\<lambda>_. True) (auto_pin_task (env :: 'v conn_env) host)"
proof -
  have "ok E (\<lambda>_. True) (atomic (in_grace env))" by (rule ok_read) (simp_all add: in_grace_def)
  moreover have "ok E (\<lambda>_. True) (atomic (pin_host_after_tls_rejection env host))"
  proof (rule safe_atomic)
    fix w :: proxy_world
    obtain d ph r where a: "add_and_persist (ce_json env) (ce_pin_fs env) (mw_disk (pw_mitm w)) (pw_pinned w) host = (d, ph, r)"
      by (cases "add_and_persist (ce_json env) (ce_pin_fs env) (mw_disk (pw_mitm w)) (pw_pinned w) host") auto
    show "G w (snd (snd (pin_host_after_tls_rejection env host w)))"
      using guar_add [OF a] by (cases r) (simp_all add: pin_host_after_tls_rejection_def a lift_io_def ret_def fail_def)
  next
    show "x \<in> set (fst (snd (pin_host_after_tls_rejection env host w))) \<Longrightarrow> E x" for w x
      by (auto simp: pin_host_after_tls_rejection_def lift_io_def ret_def fail_def case_prod_unfold Let_def split: sum.splits)
  qed simp
  ultimately show ?thesis
    unfolding auto_pin_task_def by (intro ok_seq safe_if ok_tally_task safe_ret TrueI)
qed

lemma ok_run_mitm_intercept:
  fixes env :: "'v conn_env"
  assumes "\<And>b. E (ToServer b)" "\<And>b. E (ConnectTo b)" "\<And>b. E (Splice b)"
    and "good (te_leaf (ce_tunnel env))" "\<And>cfg. fits (to_ascii_lowercase (trim host)) cfg \<Longrightarrow> E (Tls (AcceptTls cfg))" "\<And>k. E (Tls (RunRelay k))"
  shows "ok E (\<lambda>_. True) (run_mitm_intercept_task env e t host)"
  unfolding run_mitm_intercept_task_def
  by (intro ok_seq ok_tally_task ok_intercept ok_auto_pin ok_tunnel safe_if safe_sum safe_ret assms TrueI)

text \<open>A whole connection: TLS events come only after the answer that the requested host is not pinned.\<close>

lemma ok_connect_tunnel:
  fixes env :: "'v conn_env"
  assumes "\<And>b. E (ToServer b)" "\<And>b. E (ConnectTo b)" "\<And>b. E (Splice b)" "\<And>b. E (ToClient b)" "good (te_leaf (ce_tunnel env))"
    and tls: "\<And>h t early cfg k. connect_request env = Some (t, early) \<Longrightarrow> host_from_authority t = Some h \<Longrightarrow> mitm \<Longrightarrow> knows h False \<Longrightarrow>
      (fits (to_ascii_lowercase (trim h)) cfg \<longrightarrow> E (Tls (AcceptTls cfg))) \<and> E (Tls (RunRelay k))"
  shows "ok E (\<lambda>_. True) (connect_tunnel_task env mitm e)"
  unfolding connect_tunnel_task_def
proof (rule safe_bind [OF ok_read_headers], rule safe_prod, rule safe_option, goal_cases)
  case (1 x head early line)
  show ?case
  proof (rule safe_option, goal_cases)
    case (1 t)
    then have req: "connect_request env = Some (t, early)" using \<open>read_until_headers_complete [] (ce_reads env) = Some (Ok x)\<close> \<open>x = (head, early)\<close> \<open>first_request_line head = Some line\<close>
      by (simp add: connect_request_def)
    show ?case
      unfolding Let_def
    proof (rule safe_option, rule safe_bind [OF ok_host_pinned], rule safe_prod, rule ok_seq [OF ok_io(6)], rule safe_if, goal_cases)
      case (1 host pinned decision reason y)
      then have "mitm" "knows host False" "host_from_authority t = Some host" by (auto simp: can_attempt_connect_mitm_def decide_tls_routing_def split: if_splits)
      with tls [OF req] show ?case by (intro ok_seq ok_io ok_run_mitm_intercept assms) blast+
    qed (intro ok_connect_passthrough assms)+
  qed (rule safe_fail)
qed (rule safe_fail)

lemma ok_transparent:
  fixes env :: "'v conn_env"
  assumes "\<And>b. E (ToServer b)" "\<And>b. E (ConnectTo b)" "\<And>b. E (Splice b)" "good (te_leaf (ce_tunnel env))"
    and tls: "\<And>cfg k. mitm \<Longrightarrow> knows (to_ascii_lowercase sni) False \<Longrightarrow>
      (fits (to_ascii_lowercase (trim (to_ascii_lowercase sni))) cfg \<longrightarrow> E (Tls (AcceptTls cfg))) \<and> E (Tls (RunRelay k))"
  shows "ok E (\<lambda>_. True) (transparent_task env mitm e sni)"
  unfolding transparent_task_def Let_def
proof (rule safe_bind [OF ok_host_pinned])
  fix pinned
  assume k: "knows (to_ascii_lowercase sni) pinned"
  show "ok E (\<lambda>_. True) (case decide_tls_routing pinned mitm of
      AttemptMitm \<Rightarrow> t_bind (atomic (log_tls_routing_decision env ''transparent'' (to_ascii_lowercase sni) (decide_tls_routing pinned mitm)
          ''host_not_pinned_and_mitm_enabled'')) (\<lambda>_. run_mitm_intercept_task env e (sni @ '':443'') (to_ascii_lowercase sni))
    | Passthrough \<Rightarrow> t_bind (atomic (log_tls_routing_decision env ''transparent'' (to_ascii_lowercase sni) (decide_tls_routing pinned mitm)
          (if pinned then ''host_is_pinned'' else ''mitm_disabled''))) (\<lambda>_. tunnel_task env (sni @ '':443'') None))"
  proof (cases "decide_tls_routing pinned mitm")
    case AttemptMitm
    then have "mitm" "knows (to_ascii_lowercase sni) False" using k by (auto simp: decide_tls_routing_def split: if_splits)
    note tls = tls [OF this]
    show ?thesis unfolding AttemptMitm tls_routing_decision.case by (intro ok_seq ok_io ok_run_mitm_intercept assms) (use tls in blast)+
  next
    case Passthrough
    show ?thesis unfolding Passthrough tls_routing_decision.case by (intro ok_seq ok_io ok_tunnel assms)
  qed
qed

lemma ok_accept:
  fixes env :: "'v conn_env"
  assumes "\<And>b. E (ToServer b)" "\<And>b. E (ConnectTo b)" "\<And>b. E (Splice b)" "\<And>b. E (ToClient b)" "good (te_leaf (ce_tunnel env))"
    and tls: "\<And>h cfg k. requested_host env = Some h \<Longrightarrow> mitm \<Longrightarrow> knows h False \<Longrightarrow>
      (fits (to_ascii_lowercase (trim h)) cfg \<longrightarrow> E (Tls (AcceptTls cfg))) \<and> E (Tls (RunRelay k))"
  shows "ok E (\<lambda>_. True) (accept_task env mitm e)"
  unfolding accept_task_def connection_task_def Let_def
proof (rule ok_seq [OF ok_tally], rule safe_bind [OF ok_peek], rule safe_if, goal_cases)
  case (2 x b)
  let ?p = "take MAX_PEEK_BYTES b"
  have con: "requested_host env = Some h"
    if "starts_with_ascii_case_insensitive ?p ''CONNECT ''" "connect_request env = Some (t, early)" "host_from_authority t = Some h" for h t early
    using 2 that by (simp add: requested_host_def)
  have sni: "requested_host env = Some (to_ascii_lowercase sni)"
    if "\<not> starts_with_ascii_case_insensitive ?p ''CONNECT ''" "parse_sni ?p = Some sni" for sni
    using 2 that by (simp add: requested_host_def)
  show ?case
    by (intro safe_if safe_option safe_ret ok_http_proxy ok_connect_tunnel ok_transparent assms TrueI) (use tls con sni in blast)+
qed (rule safe_ret, simp)

end

section \<open>The engine with concurrent connections\<close>

record 'v conn =
  cn_env :: "'v conn_env"
  cn_events :: "net_event list"
  cn_task :: "unit task"

record 'v engine_sys =
  es_world :: proxy_world
  es_conns :: "'v conn list"

text \<open>A step of the engine: a connection is accepted (with the policy at that time), a connection runs its next section, or the dashboard resets the
  pinned hosts.\<close>

inductive engine_step :: "bool \<Rightarrow> ('v conn_env \<Rightarrow> bool) \<Rightarrow> bool \<Rightarrow> 'v engine_sys \<Rightarrow> 'v engine_sys \<Rightarrow> bool" for mitm admits resets where
  accept: "admits env \<Longrightarrow>
    engine_step mitm admits resets s (s\<lparr>es_conns := es_conns s @ [\<lparr>cn_env = env, cn_events = [], cn_task = accept_task env mitm e\<rparr>]\<rparr>)"
| run_section: "i < length (es_conns s) \<Longrightarrow> cn_task (es_conns s ! i) = Section eff k \<Longrightarrow> eff (es_world s) = (ev, w) \<Longrightarrow>
    engine_step mitm admits resets s
      (s\<lparr>es_world := w, es_conns := (es_conns s)[i := (es_conns s ! i)\<lparr>cn_events := cn_events (es_conns s ! i) @ ev, cn_task := k (es_world s)\<rparr>]\<rparr>)"
| reset: "resets \<Longrightarrow> clear_and_persist (J :: 'v json_api) fs (mw_disk (pw_mitm (es_world s))) (pw_pinned (es_world s)) = (d, ph, r) \<Longrightarrow>
    engine_step mitm admits resets s
      (s\<lparr>es_world := (es_world s)\<lparr>pw_mitm := (pw_mitm (es_world s))\<lparr>mw_disk := d\<rparr>, pw_pinned := ph\<rparr>\<rparr>)"

inductive_cases engine_stepE: "engine_step mitm admits resets s s'"

text \<open>A connection in good order: some condition, true now and kept by everything the others may do (\<open>R\<close>), makes the rest of its task
  safe, and its events so far are allowed.\<close>

definition conn_ok :: "(proxy_world \<Rightarrow> proxy_world \<Rightarrow> bool) \<Rightarrow> (proxy_world \<Rightarrow> proxy_world \<Rightarrow> bool) \<Rightarrow> (net_event \<Rightarrow> bool) \<Rightarrow> proxy_world \<Rightarrow> 'v conn \<Rightarrow> bool" where
  "conn_ok R G E w c \<longleftrightarrow> (\<exists>I. I w \<and> (\<forall>u v. I u \<longrightarrow> R u v \<longrightarrow> I v) \<and> safe I G E (\<lambda>_. True) (cn_task c)) \<and> (\<forall>x \<in> set (cn_events c). E x)"

lemma conn_ok_rely: "conn_ok R G E w c \<Longrightarrow> R w w' \<Longrightarrow> conn_ok R G E w' c"
  unfolding conn_ok_def by blast

lemma conn_ok_section:
  assumes "conn_ok R G E w c" "cn_task c = Section eff k" "eff w = (ev, w')" "\<And>u v. G u v \<Longrightarrow> R u v"
  shows "G w w' \<and> conn_ok R G E w' (c\<lparr>cn_events := cn_events c @ ev, cn_task := k w\<rparr>)"
proof -
  obtain I where I: "I w" "\<forall>u v. I u \<longrightarrow> R u v \<longrightarrow> I v" "safe I G E (\<lambda>_. True) (cn_task c)" and old: "\<forall>x \<in> set (cn_events c). E x"
    using assms(1) by (auto simp: conn_ok_def)
  then have "G w w'" "\<forall>x \<in> set ev. E x" "safe I G E (\<lambda>_. True) (k w)" using assms(2,3) by auto
  moreover have "I w'" using I assms(4) calculation(1) by blast
  ultimately show ?thesis using I(2) old by (auto simp: conn_ok_def)
qed

definition sys_ok :: "(proxy_world \<Rightarrow> proxy_world \<Rightarrow> bool) \<Rightarrow> (proxy_world \<Rightarrow> proxy_world \<Rightarrow> bool) \<Rightarrow> (proxy_world \<Rightarrow> bool) \<Rightarrow>
    (nat \<Rightarrow> 'v conn_env \<Rightarrow> net_event \<Rightarrow> bool) \<Rightarrow> nat \<Rightarrow> 'v engine_sys \<Rightarrow> bool" where
  "sys_ok R G Inv E n s \<longleftrightarrow> Inv (es_world s) \<and> n \<le> length (es_conns s) \<and>
    (\<forall>i < length (es_conns s). conn_ok R G (E i (cn_env (es_conns s ! i))) (es_world s) (es_conns s ! i))"

lemma sys_okD: "sys_ok R G Inv E n s \<Longrightarrow> i < length (es_conns s) \<Longrightarrow> x \<in> set (cn_events (es_conns s ! i)) \<Longrightarrow> E i (cn_env (es_conns s ! i)) x"
  unfolding sys_ok_def conn_ok_def by blast

text \<open>Parallel composition: connections that guarantee what the others rely on stay in good order together.\<close>

locale parallel =
  fixes R G :: "proxy_world \<Rightarrow> proxy_world \<Rightarrow> bool" and Inv :: "proxy_world \<Rightarrow> bool"
    and E :: "nat \<Rightarrow> 'v conn_env \<Rightarrow> net_event \<Rightarrow> bool" and mitm :: bool and admits :: "'v conn_env \<Rightarrow> bool" and resets :: bool and n :: nat
  assumes guar_rely: "G u v \<Longrightarrow> R u v"
    and inv_rely: "Inv u \<Longrightarrow> R u v \<Longrightarrow> Inv v"
    and new_ok: "admits env \<Longrightarrow> Inv w \<Longrightarrow> n \<le> i \<Longrightarrow> conn_ok R G (E i env) w \<lparr>cn_env = env, cn_events = [], cn_task = accept_task env mitm e\<rparr>"
    and reset_rely: "resets \<Longrightarrow> clear_and_persist (J :: 'v json_api) fs (mw_disk (pw_mitm w)) (pw_pinned w) = (d, ph, r) \<Longrightarrow>
      R w (w\<lparr>pw_mitm := (pw_mitm w)\<lparr>mw_disk := d\<rparr>, pw_pinned := ph\<rparr>)"
begin

abbreviation all_ok where "all_ok \<equiv> sys_ok R G Inv E n"

lemma sys_ok_world: "all_ok s \<Longrightarrow> R (es_world s) w \<Longrightarrow> all_ok (s\<lparr>es_world := w\<rparr>)"
  unfolding sys_ok_def by (auto intro: inv_rely conn_ok_rely)

lemma sys_ok_step: "all_ok s \<Longrightarrow> engine_step mitm admits resets s s' \<Longrightarrow> all_ok s'"
proof (erule engine_stepE)
  fix env e
  assume "all_ok s" "admits env" "s' = s\<lparr>es_conns := es_conns s @ [\<lparr>cn_env = env, cn_events = [], cn_task = accept_task env mitm e\<rparr>]\<rparr>"
  then show ?thesis using new_ok [of env "es_world s" "length (es_conns s)" e] by (auto simp: sys_ok_def nth_append less_Suc_eq)
next
  fix i eff k ev w
  let ?c = "es_conns s ! i"
  assume s: "all_ok s" and i: "i < length (es_conns s)" "cn_task ?c = Section eff k" "eff (es_world s) = (ev, w)"
    and s': "s' = s\<lparr>es_world := w, es_conns := (es_conns s)[i := ?c\<lparr>cn_events := cn_events ?c @ ev, cn_task := k (es_world s)\<rparr>]\<rparr>"
  have "conn_ok R G (E i (cn_env ?c)) (es_world s) ?c" using s i by (auto simp: sys_ok_def)
  note c = conn_ok_section [OF this i(2,3) guar_rely]
  then have "R (es_world s) w" by (blast intro: guar_rely)
  from sys_ok_world [OF s this] c show ?thesis by (auto simp: s' sys_ok_def nth_list_update [OF i(1)])
next
  fix J :: "'v json_api" and fs d ph r
  assume "all_ok s" "resets" "clear_and_persist J fs (mw_disk (pw_mitm (es_world s))) (pw_pinned (es_world s)) = (d, ph, r)"
    "s' = s\<lparr>es_world := (es_world s)\<lparr>pw_mitm := (pw_mitm (es_world s))\<lparr>mw_disk := d\<rparr>, pw_pinned := ph\<rparr>\<rparr>"
  then show ?thesis using sys_ok_world reset_rely by simp
qed

end

sublocale parallel \<subseteq> sys: step_system "sys_ok R G Inv E n" "engine_step mitm admits resets" "sys_ok R G Inv E n"
  by unfold_locales (auto intro: sys_ok_step)

section \<open>What the sections of the model guarantee\<close>

abbreviation world_cache_ok :: "proxy_world \<Rightarrow> bool" where
  "world_cache_ok w \<equiv> cache_ok (mw_engine (pw_mitm w))"

definition keeps_cache :: "proxy_world \<Rightarrow> proxy_world \<Rightarrow> bool" where
  "keeps_cache w w' \<longleftrightarrow> (world_cache_ok w \<longrightarrow> world_cache_ok w')"

interpretation certs_shared: shared_state world_cache_ok keeps_cache issues_for_host "\<lambda>n cfg. lf_subject (sc_leaf cfg) = n" "\<lambda>_ _. True"
proof unfold_locales
  fix lenv n leaf f and w :: proxy_world
  assume "issues_for_host lenv" "le_issue lenv n = Ok leaf"
  then have "lf_subject leaf = n" by (auto simp: issues_for_host_def)
  then show "keeps_cache w (w\<lparr>pw_mitm := (pw_mitm w)\<lparr>mw_engine := cache_insert (cache_key n f) \<lparr>sc_leaf = leaf, sc_alpn = alpn_for f\<rparr> (mw_engine (pw_mitm w))\<rparr>\<rparr>)"
    by (auto simp: keeps_cache_def cache_ok_def cache_insert_def dest: cache_key_inj)
  from \<open>lf_subject leaf = n\<close> show "lf_subject (sc_leaf \<lparr>sc_leaf = leaf, sc_alpn = alpn_for f\<rparr>) = n" by simp
qed (auto simp: keeps_cache_def cache_ok_def)

lemma add_and_persist_grows:
  assumes "add_and_persist J fs (mw_disk (pw_mitm w)) (pw_pinned w) h = (d, ph, r)"
  shows "pins_grow w (w\<lparr>pw_mitm := (pw_mitm w)\<lparr>mw_disk := d\<rparr>, pw_pinned := ph\<rparr>)"
  using add_and_persist_hosts [of J fs "mw_disk (pw_mitm w)" "pw_pinned w" h] add_and_persist_frame [of J fs "mw_disk (pw_mitm w)" "pw_pinned w" h]
  by (auto simp: pins_grow_def assms)

lemma pinned_grows: "pinned_contains (pw_pinned w) g = Ok True \<Longrightarrow> pins_grow w w' \<Longrightarrow> pinned_contains (pw_pinned w') g = Ok True"
  by (auto simp: pinned_contains_def pins_grow_def split: if_splits)

interpretation growth_shared: shared_state "\<lambda>_. True" pins_grow "\<lambda>_. True" "\<lambda>_ _. True" "\<lambda>_ _. True"
  by unfold_locales (simp_all add: add_and_persist_grows, simp_all add: pins_grow_def)

interpretation pinned_shared: shared_state "\<lambda>w. pinned_contains (pw_pinned w) g = Ok True" pins_grow "\<lambda>_. True" "\<lambda>_ _. True"
  "\<lambda>h b. normalize_host h = normalize_host g \<longrightarrow> b" for g
proof unfold_locales
  show "pinned_contains (pw_pinned w) g = Ok True \<Longrightarrow> pinned_contains (pw_pinned w) h = Ok b \<Longrightarrow> normalize_host h = normalize_host g \<longrightarrow> b" for w h b
    by (auto simp: pinned_contains_def split: if_splits)
qed (use add_and_persist_grows pinned_grows in \<open>blast, simp_all add: pins_grow_def\<close>)

text \<open>What a connection may do with the client: with interception, for a host that it names, and with a certificate for that host.\<close>

definition tls_allowed :: "bool \<Rightarrow> 'v conn_env \<Rightarrow> net_event \<Rightarrow> bool" where
  "tls_allowed mitm env x = (case x of Tls a \<Rightarrow> mitm \<and> (\<exists>h. requested_host env = Some h \<and>
     (case a of AcceptTls cfg \<Rightarrow> lf_subject (sc_leaf cfg) = to_ascii_lowercase (trim h) | RunRelay _ \<Rightarrow> True)) | _ \<Rightarrow> True)"

interpretation certs_parallel: parallel keeps_cache keeps_cache world_cache_ok "\<lambda>_. tls_allowed mitm" mitm
  "\<lambda>env. issues_for_host (te_leaf (ce_tunnel env))" resets 0 for mitm resets
proof unfold_locales
  fix env :: "'a conn_env" and w e
  assume "issues_for_host (te_leaf (ce_tunnel env))" "world_cache_ok w"
  then show "conn_ok keeps_cache keeps_cache (tls_allowed mitm env) w \<lparr>cn_env = env, cn_events = [], cn_task = accept_task env mitm e\<rparr>"
    unfolding conn_ok_def
    by (intro conjI exI [of _ world_cache_ok]) (auto intro!: certs_shared.ok_accept simp: tls_allowed_def keeps_cache_def)
qed (auto simp: keeps_cache_def)

interpretation growth_parallel: parallel "\<lambda>_ _. True" pins_grow "\<lambda>_. True" "\<lambda>_ _ _. True" mitm "\<lambda>_. True" resets 0 for mitm resets
proof unfold_locales
  fix env :: "'a conn_env" and w e
  show "conn_ok (\<lambda>_ _. True) pins_grow (\<lambda>_. True) w \<lparr>cn_env = env, cn_events = [], cn_task = accept_task env mitm e\<rparr>"
    unfolding conn_ok_def by (intro conjI exI [of _ "\<lambda>_. True"]) (auto intro!: growth_shared.ok_accept)
qed auto

definition asks_for :: "bytes \<Rightarrow> 'v conn_env \<Rightarrow> bool" where
  "asks_for g env = (case requested_host env of Some h \<Rightarrow> normalize_host h = normalize_host g | None \<Rightarrow> False)"

interpretation pinned_parallel: parallel pins_grow pins_grow "\<lambda>w. pinned_contains (pw_pinned w) g = Ok True"
  "\<lambda>i env x. n \<le> i \<and> asks_for g env \<longrightarrow> no_tls x" mitm "\<lambda>_. True" False n for g mitm n
proof unfold_locales
  fix env :: "'a conn_env" and w :: proxy_world and e i
  assume w: "pinned_contains (pw_pinned w) g = Ok True" and "n \<le> i"
  have "safe (\<lambda>w. pinned_contains (pw_pinned w) g = Ok True) pins_grow (\<lambda>x. n \<le> i \<and> asks_for g env \<longrightarrow> no_tls x) (\<lambda>_. True) (accept_task env mitm e)"
    by (rule pinned_shared.ok_accept) (auto simp: asks_for_def)
  with w show "conn_ok pins_grow pins_grow (\<lambda>x. n \<le> i \<and> asks_for g env \<longrightarrow> no_tls x) w \<lparr>cn_env = env, cn_events = [], cn_task = accept_task env mitm e\<rparr>"
    unfolding conn_ok_def using pinned_grows by (intro conjI exI [of _ "\<lambda>w. pinned_contains (pw_pinned w) g = Ok True"]) auto
qed (auto intro: pinned_grows)

text \<open>A connection that is run to its end without interruption.\<close>

lemma run_alone_steps:
  assumes "i < length (es_conns s)" "run_alone (cn_task (es_conns s ! i)) (es_world s) = (r, ev, w)"
  shows "(engine_step mitm admits resets)\<^sup>*\<^sup>* s (s\<lparr>es_world := w, es_conns := (es_conns s)[i := (es_conns s ! i)
    \<lparr>cn_events := cn_events (es_conns s ! i) @ ev, cn_task := Done r\<rparr>]\<rparr>)"
  using assms
proof (induction "cn_task (es_conns s ! i)" arbitrary: s ev)
  case (Done x)
  then have d: "x = r" "ev = []" "w = es_world s" by (simp_all flip: Done.hyps)
  have "(es_conns s ! i)\<lparr>cn_task := Done r\<rparr> = es_conns s ! i" using Done.hyps d(1) by (cases "es_conns s ! i") simp
  then show ?case by (simp add: d)
next
  case (Section eff k)
  let ?c = "es_conns s ! i"
  obtain ev1 w1 where e: "eff (es_world s) = (ev1, w1)" by fastforce
  obtain r2 ev2 w2 where k: "run_alone (k (es_world s)) w1 = (r2, ev2, w2)" by (cases "run_alone (k (es_world s)) w1") auto
  have eq: "r2 = r" "ev = ev1 @ ev2" "w2 = w" using Section.prems(2) by (simp_all flip: Section.hyps(2) add: e k)
  let ?s = "s\<lparr>es_world := w1, es_conns := (es_conns s)[i := ?c\<lparr>cn_events := cn_events ?c @ ev1, cn_task := k (es_world s)\<rparr>]\<rparr>"
  have "engine_step mitm admits resets s ?s" by (rule run_section [OF Section.prems(1) Section.hyps(2) [symmetric] e])
  moreover have "(engine_step mitm admits resets)\<^sup>*\<^sup>* ?s (?s\<lparr>es_world := w, es_conns := (es_conns ?s)[i := (es_conns ?s ! i)
    \<lparr>cn_events := cn_events (es_conns ?s ! i) @ ev2, cn_task := Done r\<rparr>]\<rparr>)"
    by (rule Section.hyps(1)) (use Section.prems(1) k eq in simp_all)
  ultimately show ?case using Section.prems(1) by (simp add: eq(2) converse_rtranclp_into_rtranclp)
qed

lemma sequential_steps:
  assumes "\<forall>(env, e) \<in> set conns. admits env"
  shows "\<exists>s'. (engine_step mitm admits resets)\<^sup>*\<^sup>* s s' \<and> es_world s' = snd (serve_connections mitm conns (es_world s)) \<and>
    map cn_env (es_conns s') = map cn_env (es_conns s) @ map fst conns \<and> map cn_events (es_conns s') = map cn_events (es_conns s) @ fst (serve_connections mitm conns (es_world s))"
  using assms
proof (induction conns arbitrary: s)
  case (Cons conn conns)
  obtain env e where c: "conn = (env, e)" by fastforce
  obtain r ev w1 where a: "accept_connection env mitm e (es_world s) = (r, ev, w1)" by (cases "accept_connection env mitm e (es_world s)") auto
  let ?s = "s\<lparr>es_conns := es_conns s @ [\<lparr>cn_env = env, cn_events = [], cn_task = accept_task env mitm e\<rparr>]\<rparr>"
  let ?t = "s\<lparr>es_world := w1, es_conns := es_conns s @ [\<lparr>cn_env = env, cn_events = ev, cn_task = Done r\<rparr>]\<rparr>"
  have "engine_step mitm admits resets s ?s" by (rule accept) (use Cons.prems c in simp)
  moreover have "(engine_step mitm admits resets)\<^sup>*\<^sup>* ?s ?t"
    using run_alone_steps [of "length (es_conns s)" ?s r ev w1 mitm admits resets] by (simp add: alone_accept a)
  ultimately have "(engine_step mitm admits resets)\<^sup>*\<^sup>* s ?t" by (rule converse_rtranclp_into_rtranclp)
  moreover from Cons.IH [of ?t] Cons.prems obtain s' where "(engine_step mitm admits resets)\<^sup>*\<^sup>* ?t s'" "es_world s' = snd (serve_connections mitm conns w1)"
    "map cn_env (es_conns s') = map cn_env (es_conns s) @ env # map fst conns" "map cn_events (es_conns s') = map cn_events (es_conns s) @ ev # fst (serve_connections mitm conns w1)"
    by auto
  ultimately show ?case by (intro exI [of _ s']) (simp add: c a case_prod_unfold Let_def)
qed auto

section \<open>Evaluated examples\<close>

text \<open>In any state without pins and with an empty cache, the connection of the example is offered a certificate.\<close>

lemma wit_offered:
  assumes "mw_engine (pw_mitm w) = mitm_engine_new False" "mw_pins (pw_mitm w) = None" "pinned_contains (pw_pinned w) ''bank.com'' = Ok False"
  shows "\<exists>r ev w' cfg. accept_connection wit_conn True (policy_engine_new Enforce) w = (r, ev, w') \<and> Tls (AcceptTls cfg) \<in> set ev"
proof -
  let ?e = "policy_engine_new Enforce"
  obtain r ev w' where run: "accept_connection wit_conn True ?e w = (r, ev, w')" by (metis prod_cases3)
  let ?w1 = "tallied id (record_tls_routing_decision (ce_now wit_conn) ''connect'' ''bank.com'' ''mitm'' ''host_not_pinned_and_mitm_enabled'')
     (tallied inc_connection_total id w)"
  let ?w2 = "tallied inc_mitm_attempt_total (record_mitm_attempt (ce_now wit_conn) ''bank.com'') ?w1"
  have d: "connect_decision False True False = (AttemptMitm, ''host_not_pinned_and_mitm_enabled'')"
    by (simp add: connect_decision_def decide_tls_routing_def)
  have c: "ce_peek wit_conn = Ok wit_head" "ce_client_write wit_conn CONNECT_OK = None" by (simp_all add: wit_conn_def)
  have "mw_engine (pw_mitm ?w2) = mitm_engine_new False" "mw_pins (pw_mitm ?w2) = None" using assms(1,2) by (simp_all add: tallied_def)
  from wit_intercept_any [OF this] obtain cfg mw where i: "intercept_tls_tunnel (ce_tunnel wit_conn) ?e ''bank.com'' (Some (ce_client_ip wit_conn)) (pw_mitm ?w2) =
      (Err (ClientTlsHandshake ''unknown certificate authority''), [AcceptTls cfg], mw)" by blast
  obtain r3 ev3 w3 where m: "run_mitm_intercept wit_conn ?e ''bank.com:443'' ''bank.com'' ?w1 = (r3, ev3, w3)" by (metis prod_cases3)
  have "accept_connection wit_conn True ?e w = act_bind (write_client wit_conn CONNECT_OK) (\<lambda>_. run_mitm_intercept wit_conn ?e ''bank.com:443'' ''bank.com'') ?w1"
    using c(1) wit_request d assms(3) by (simp add: accept_connection_def connection_run connect_tunnel_run)
  with run m c(2) have "ev = [ToClient CONNECT_OK] @ ev3" by (simp add: act_bind_def write_client_def)
  moreover from run_mitm_intercept_run [OF i m] obtain ev' where "ev3 = [Tls (AcceptTls cfg)] @ ev'" by auto
  ultimately show ?thesis using run by auto
qed

lemma wit_issues: "issues_for_host (te_leaf (ce_tunnel wit_conn))"
  by (simp add: wit_conn_def wit_tunnel_def issues_for_host_def wit_leaf_env_def)

section \<open>Properties\<close>

text \<open>C4: certificates under concurrency. Whatever the sections of concurrent connections, each of which may find the cache without its host, make
  a certificate and insert it, and with the dashboard resetting the pins in between: every certificate that a client is offered is for the host
  that this client asked for, in lower case, and interception is on.\<close>
theorem concurrent_certificates_match:
  assumes "es_conns s = []" "mw_engine (pw_mitm (es_world s)) = mitm_engine_new logging"
    and "(engine_step mitm (\<lambda>env. issues_for_host (te_leaf (ce_tunnel env))) resets)\<^sup>*\<^sup>* s s'"
    and "c \<in> set (es_conns s')" "Tls (AcceptTls cfg) \<in> set (cn_events c)"
  shows "mitm \<and> (\<exists>h. requested_host (cn_env c) = Some h \<and> lf_subject (sc_leaf cfg) = to_ascii_lowercase (trim h))"
proof -
  have "sys_ok keeps_cache keeps_cache world_cache_ok (\<lambda>_. tls_allowed mitm) 0 s"
    using assms(1,2) by (simp add: sys_ok_def cache_ok_def mitm_engine_new_def)
  note ok = sys_okD [OF certs_parallel.sys.inv_run [OF this assms(3)]]
  obtain i where "i < length (es_conns s')" "es_conns s' ! i = c" using assms(4) by (auto simp: in_set_conv_nth)
  with ok [of i "Tls (AcceptTls cfg)"] assms(5) show ?thesis by (auto simp: tls_allowed_def)
qed

theorem concurrent_certificates_match_witness:
  "\<exists>s' (c :: jval conn) cfg. (engine_step True (\<lambda>env. issues_for_host (te_leaf (ce_tunnel env))) True)\<^sup>*\<^sup>* \<lparr>es_world = wit_world {}, es_conns = []\<rparr> s' \<and>
     c \<in> set (es_conns s') \<and> Tls (AcceptTls cfg) \<in> set (cn_events c) \<and> lf_subject (sc_leaf cfg) = ''bank.com''"
proof -
  let ?e = "policy_engine_new Enforce" and ?s = "\<lparr>es_world = wit_world {}, es_conns = []\<rparr> :: jval engine_sys"
  have w: "mw_engine (pw_mitm (wit_world {})) = mitm_engine_new False" "mw_pins (pw_mitm (wit_world {})) = None" by (simp_all add: wit_world_def)
  obtain r ev w' cfg where run: "accept_connection wit_conn True ?e (wit_world {}) = (r, ev, w')" and cfg: "Tls (AcceptTls cfg) \<in> set ev"
    using wit_offered [OF w] wit_pinned [of "{}"] by auto
  obtain s' where s': "(engine_step True (\<lambda>env. issues_for_host (te_leaf (ce_tunnel env))) True)\<^sup>*\<^sup>* ?s s'"
    "map cn_env (es_conns s') = [wit_conn]" "map cn_events (es_conns s') = [ev]"
    using sequential_steps [of "[(wit_conn, ?e)]" "\<lambda>env. issues_for_host (te_leaf (ce_tunnel env))" True True ?s] wit_issues by (auto simp: run)
  then obtain c where c: "c \<in> set (es_conns s')" "cn_env c = wit_conn" "cn_events c = ev" by auto
  have "lf_subject (sc_leaf cfg) = ''bank.com''"
    using concurrent_certificates_match [OF _ _ s'(1) c(1), of False cfg] w(1) c cfg by (simp add: wit_requested_host wit_bank)
  with s'(1) c cfg show ?thesis by blast
qed

text \<open>C5: pins under concurrency. From any moment at which a host is pinned, with any number of connections under way, no connection accepted later that
  asks for this host, in any spelling, is intercepted, however the sections of all connections interleave, as long as the pins are not reset.\<close>
theorem pinned_host_left_alone:
  assumes "es_conns s0 = []" "(engine_step mitm (\<lambda>_. True) True)\<^sup>*\<^sup>* s0 s" "pinned_contains (pw_pinned (es_world s)) g = Ok True"
    and "(engine_step mitm (\<lambda>_. True) False)\<^sup>*\<^sup>* s s'" "length (es_conns s) \<le> i" "i < length (es_conns s')"
    and "requested_host (cn_env (es_conns s' ! i)) = Some h" "normalize_host h = normalize_host g"
  shows "Tls a \<notin> set (cn_events (es_conns s' ! i))"
proof -
  have "sys_ok (\<lambda>_ _. True) pins_grow (\<lambda>_. True) (\<lambda>_ _ _. True) 0 s0" using assms(1) by (simp add: sys_ok_def)
  from growth_parallel.sys.inv_run [OF this assms(2)]
  have "\<forall>j < length (es_conns s). conn_ok (\<lambda>_ _. True) pins_grow (\<lambda>_. True) (es_world s) (es_conns s ! j)" by (simp add: sys_ok_def)
  moreover have "conn_ok pins_grow pins_grow (\<lambda>_. True) w c" if "conn_ok (\<lambda>_ _. True) pins_grow (\<lambda>_. True) w c" for w and c :: "'a conn"
    using that unfolding conn_ok_def by blast
  ultimately have "sys_ok pins_grow pins_grow (\<lambda>w. pinned_contains (pw_pinned w) g = Ok True)
      (\<lambda>i env x. length (es_conns s) \<le> i \<and> asks_for g env \<longrightarrow> no_tls x) (length (es_conns s)) s"
    using assms(3) by (simp add: sys_ok_def)
  note ok = sys_okD [OF pinned_parallel.sys.inv_run [OF this assms(4)] assms(6)]
  show ?thesis using ok [of "Tls a"] assms(5,7,8) by (auto simp: asks_for_def)
qed

theorem pinned_host_left_alone_witness:
  "\<exists>s'. (engine_step True (\<lambda>_. True) False)\<^sup>*\<^sup>* \<lparr>es_world = wit_world {''bank.com''}, es_conns = []\<rparr> s' \<and> map cn_env (es_conns s') = [wit_conn] \<and>
     Tls (RunRelay PolicyRelay) \<notin> set (cn_events (es_conns s' ! 0))"
proof -
  let ?e = "policy_engine_new Enforce" and ?s = "\<lparr>es_world = wit_world {''bank.com''}, es_conns = []\<rparr> :: jval engine_sys"
  obtain s' where s': "(engine_step True (\<lambda>_. True) False)\<^sup>*\<^sup>* ?s s'" "map cn_env (es_conns s') = [wit_conn]"
    using sequential_steps [of "[(wit_conn, ?e)]" "\<lambda>_. True" True False ?s] by auto
  then have "0 < length (es_conns s')" "cn_env (es_conns s' ! 0) = wit_conn" by auto
  then show ?thesis
    using s' pinned_host_left_alone [of ?s True ?s "''bank.com''" s' 0 "''bank.com''"] by (auto simp: wit_pinned wit_requested_host)
qed

text \<open>The sequential model is one schedule of the concurrent engine: a task that nothing interrupts is the handler of its connection, and the engine can reach
  what it reaches by serving connections one after the other, with the same events.\<close>
theorem sequential_schedule:
  "run_alone (accept_task env mitm e) = accept_connection env mitm e \<and>
   (\<exists>s'. (engine_step mitm (\<lambda>_. True) resets)\<^sup>*\<^sup>* \<lparr>es_world = w, es_conns = []\<rparr> s' \<and> es_world s' = snd (serve_connections mitm conns w) \<and>
     map cn_env (es_conns s') = map fst conns \<and> map cn_events (es_conns s') = fst (serve_connections mitm conns w))"
  using sequential_steps [of conns "\<lambda>_. True" mitm resets "\<lparr>es_world = w, es_conns = []\<rparr>"] by (simp add: alone_accept)

end
