(* ===== verification/Spec2Isabelle.thy ===== *)
theory Spec2Isabelle
  imports Services Dashboard_Page Tls_Profile Chunked_Decoders Concurrent_Connections
begin

text \<open>
  A verification development for the privacy engine (\<^verbatim>\<open>src/src\<close>, Rust): a local proxy that intercepts
  or tunnels TLS connections, rewrites HTTP traffic by policy, filters DNS, and keeps receipts of
  what it did.

  \<^bold>\<open>The program.\<close> \<^verbatim>\<open>main.rs\<close> reads the command line and the engine configuration
  (\<^verbatim>\<open>engine_config.rs\<close>), loads the policy (\<^verbatim>\<open>policy.rs\<close>), the filter lists (\<^verbatim>\<open>filter_list.rs\<close>,
  \<^verbatim>\<open>filter_list_parser.rs\<close>), the pinned hosts (\<^verbatim>\<open>host_store.rs\<close>), the certificate pins
  (\<^verbatim>\<open>cert_pin.rs\<close>) and the receipts (\<^verbatim>\<open>receipts.rs\<close>), and accepts connections. A connection is classified by
  its first bytes: \<open>CONNECT\<close>, a TLS ClientHello (\<^verbatim>\<open>tls_parser.rs\<close>), or plain HTTP. TLS to a host that
  is not pinned is intercepted by \<^verbatim>\<open>mitm.rs\<close>, whose relay asks the policy for every first request
  and response; other connections are tunnelled. A host whose handshake is rejected is pinned. Beside the
  proxy run a DNS filter and a DoH server (\<^verbatim>\<open>dns_filter.rs\<close>) and a local dashboard
  (\<^verbatim>\<open>dashboard.rs\<close>). All parts share the counters of \<^verbatim>\<open>metrics.rs\<close>.

  \<^bold>\<open>Foundations.\<close>
  \<^item> \<open>Rust_Prelude\<close>: results as sums (\<open>Ok\<close>, \<open>Err\<close>), I/O errors, \<open>u64\<close> as
  \<^typ>\<open>64 word\<close> with saturating operations, \<open>usize\<close> as naturals with \<open>usize_bound\<close> where the source checks
  overflow, the collections of simplification rules.
  \<^item> \<open>Rust_Str\<close>, \<open>Rust_Text\<close>: the string functions of the standard
  library on byte lists, UTF-8 validation and lossy decoding, integers as text.
  \<^item> \<open>Rust_Fmt\<close>: the formatting of \<open>format!\<close> and \<open>writeln!\<close> that the reports use (padding, \<open>Debug\<close> strings).
  \<^item> \<open>Hosts\<close>:
  normalised names and parent domains.
  \<^item> \<open>File_Store\<close>: disks, and the write-rename sequence with every failure.
  \<^item> \<open>Json_Api\<close>: \<^verbatim>\<open>serde_json\<close> as a parameter, with its laws and an instance on a datatype of JSON values.
  \<^item> \<open>Step_System\<close>: the locale of
  transition systems with an inductive invariant.
  \<^item> \<open>Tally\<close>: metrics and receipts counted together.

  \<^bold>\<open>Components.\<close> Each theory has the records and datatypes of its source file, one definition per function,
  in the order and composition of the code, and its lemmas.
  \<^item> \<open>Tls_Parser\<close> (\<^verbatim>\<open>tls_parser.rs\<close>): the cursor parser refines a parser on byte lists, on which the round trip
    with an encoder is proved.
  \<^item> \<open>Host_Store\<close> (\<^verbatim>\<open>host_store.rs\<close>): the pinned hosts and their file; the locale \<open>host_keyed_store\<close> is the
    contract of the stores keyed by normalised names, interpreted here, in \<open>Cert_Pin\<close> and in \<open>Receipts\<close>.
  \<^item> \<open>Cert_Pin\<close> (\<^verbatim>\<open>cert_pin.rs\<close>): the pin check as lock sections of interleaved threads (a step relation), and
    persistence.
  \<^item> \<open>Filter_List_Parser\<close>, \<open>Filter_List\<close>: rules, aggregation, download with redirects, cache and fallback.
  \<^item> \<open>Policy_Config\<close>, \<open>Policy\<close> (\<^verbatim>\<open>policy.rs\<close>): the strict configuration reader, the plans for hosts, DNS names and
    bodies, the Set-Cookie policy; the locale \<open>subdomain_closed\<close> for decisions that extend to subdomains.
  \<^item> \<open>Http1\<close>, \<open>Mitm_Relay\<close>, \<open>Mitm_Engine\<close> (\<^verbatim>\<open>mitm.rs\<close>): header and body rewriting; the relay as a step relation
    over reads of both sides, with failures; the certificate authority, the certificate cache and interception.
  \<^item> \<open>Chunked_Decoders\<close>: a grammar of chunked messages, and what exactly each of the two decoders of chunked bodies accepts of it, on arbitrary bytes.
  \<^item> \<open>Tls_Profile\<close> (\<^verbatim>\<open>mitm.rs\<close>): the upstream client configurations, the profiles with their cipher suites and
    key-exchange groups, the root store and the parameters of the generated certificates.
  \<^item> \<open>Metrics\<close>, \<open>Receipts\<close>: counters and their snapshot; receipts with their JSON form, file, pruning and report figures.
  \<^item> \<open>Receipts_Report\<close>, \<open>Report_Reading\<close> (\<^verbatim>\<open>receipts.rs\<close>): the text, the filtered text and the HTML report
    byte for byte; what a reader finds in them. A parser of the HTML page shows that its tables hold the receipts and nothing else
    (no name of a host becomes markup). The locale \<open>ranking\<close> is the contract of the sorted and truncated tables, \<open>piecewise\<close>
    that of renderers that work line by line.
  \<^item> \<open>Dns_Filter\<close> (\<^verbatim>\<open>dns_filter.rs\<close>): query processing, CNAME uncloaking, the UDP loop with its shared upstream
    socket, the DoH handler and statistics.
  \<^item> \<open>Engine_Config\<close> (\<^verbatim>\<open>engine_config.rs\<close>): the configuration file; which files are accepted is compared with a table of the documented keys
    (\<open>config_schema\<close>), what they are read as with a printer of configurations (\<open>config_entries\<close>).
  \<^item> \<open>Startup\<close> (\<open>main\<close>): start, dump modes
    with what they print (a report that cannot be printed is a panic), the services that the configuration starts and their sockets, the reload task.
  \<^item> \<open>Proxy_Request\<close>, \<open>Proxy_Main\<close> (\<^verbatim>\<open>main.rs\<close>): request parsing; the connection handlers as actions on the shared
    state with a trace of network events. The locale \<open>action_frame\<close> carries what an action may change from its
    parts to the whole; it is interpreted for the state that tunnels leave alone (\<open>untouched\<close>), for growing pins (\<open>growing\<close>)
    and for the certificates (\<open>certs\<close>).
  \<^item> \<open>Concurrent_Connections\<close> (\<^verbatim>\<open>main.rs\<close>, \<^verbatim>\<open>mitm.rs\<close>, \<^verbatim>\<open>cert_pin.rs\<close>): the connection handlers as tasks, which are sequences of sections
    (one access to shared state, or one socket operation, each), and the engine as a step relation that accepts connections, runs a section of any of them, or resets
    the pins. Each task run alone is the handler of \<open>Proxy_Main\<close> (the lemmas \<open>alone\<close>), so the sequential model is one schedule. The locale
    \<open>shared_state\<close> is the contract of the sections with the shared state (invariant, guarantee), \<open>parallel\<close> that of connections that guarantee what the others
    rely on; both are interpreted for the certificate cache, for growing pins and for a pinned host.
  \<^item> \<open>Dashboard\<close> (\<^verbatim>\<open>dashboard.rs\<close>): the request handlers and the admin token.
  \<^item> \<open>Dashboard_Page\<close> (\<^verbatim>\<open>dashboard.rs\<close>, the script of its page): cards, tables, sorting, search and the reset button as handlers
    on the state of the page, composed with the request handlers; what a reader of the page sees is read with
    the HTML parser of the reports, numbers are rounded as the browser does. The locale \<open>js_comparator\<close> is the contract of the comparison
    functions; a session is a step system. The script is described on documents of the shapes that the server sends; given another one, the page may become
    anything (\<open>br_other\<close>), so the properties of a session show that it only meets documents of these shapes.
  \<^item> \<open>Services\<close> (\<^verbatim>\<open>main.rs\<close>, \<^verbatim>\<open>dns_filter.rs\<close>, \<^verbatim>\<open>dashboard.rs\<close>): the loops of the running engine (accept loop, DNS filter, DoH
    server, dashboard, periodic flush and log). The locale \<open>event_server\<close> is what they share: a state, and a handler run
    once per arriving event; it is interpreted for the three servers.
  This theory has the properties that span them: automatic pinning across connections and restarts, and the
  certificates of intercepted connections, from the command line on.

  \<^bold>\<open>State and outside world.\<close> A handler takes the state as a record and returns it updated; the answers of the
  network, the clock, the file system and of other crates are explicit arguments, so every error branch of the code
  is a branch of the model. Locks appear as poisoned flags and, for the certificate pins, the relay and the
  connections, as interleaved steps. The counts of one relay are applied to the shared counters in one section, and the requests of the dashboard,
  of the DNS filter and of the DoH server are handled one after the other. Properties of \<open>Proxy_Main\<close> and of this theory on \<open>serve_connections\<close> are about connections
  served in sequence; those of \<open>Concurrent_Connections\<close> hold for all interleavings.

  A connection keeps the policy engine that it meets when it is accepted, where the source reads the reloadable policy at each use. The relay
  inside an intercepted connection is a parameter of the connection handlers, which may give any result and count anything that a relay counts; its own model
  is \<open>Mitm_Relay\<close>. The trace of an interception has the handshakes, not the address of the upstream connection.

  \<^bold>\<open>Loops.\<close> Loops over data are structural or have a measure. \<open>read_until_headers_complete\<close>, the UDP loop and the relay
  run on lists of reads; the header loop is shown to end after 16385 reads of any content, since each non-empty read
  fills a buffer of at most 16384 bytes. The download loop has the
  six rounds of the code's \<open>for\<close> loop; no definition needs fuel of its own.

  \<^bold>\<open>Not modelled.\<close> TLS and cryptography (crates \<^verbatim>\<open>rustls\<close>, \<^verbatim>\<open>rcgen\<close>, \<^verbatim>\<open>ring\<close>), the HTTP server of the dashboard (\<^verbatim>\<open>hyper\<close>), the DNS wire format
  (\<^verbatim>\<open>hickory-proto\<close>), HTML rewriting (\<^verbatim>\<open>lol_html\<close>) and compression are parameters, with the choices the code makes for them as values of the
  model. The style sheet and the fixed markup of the dashboard page have no model, nor have logging, the byte totals
  of the relay that are only logged, and \<^verbatim>\<open>clap\<close>.
\<close>

section \<open>Automatic pinning across connections and restarts\<close>

text \<open>C2: a host whose TLS handshake fails is left alone from then on. When an interception of a host that was
  not pinned ends with a rejected handshake (by the client, or upstream) after the grace period, and
  the handler finishes, then no later connection to that host, in any spelling with the same
  normal form, is intercepted, whatever other connections come between; and the same holds for an
  engine that starts again from the disk as the handler left it.\<close>
theorem rejected_host_stays_pinned:
  assumes "json_laws (ce_json env)" "pins_wf (pw_pinned w)" "p_ext (ph_path (pw_pinned w)) \<noteq> Some ''tmp''"
    and "\<forall>g \<in> insert (normalize_host host) (ph_hosts (pw_pinned w)). normalize_host g = g" "normalize_host host \<noteq> []"
    and "pinned_contains (pw_pinned w) host = Ok False"
    and "\<not> in_grace_period (pw_pinned w) (ce_mono env) (AUTO_PIN_GRACE_PERIOD_SECS * 1000000000)"
    and "intercept_tls_tunnel (ce_tunnel env) e host (Some (ce_client_ip env))
      (pw_mitm (tallied inc_mitm_attempt_total (record_mitm_attempt (ce_now env) host) w)) = (Err err, acts, mw)"
    and "is_client_tls_handshake_failure err \<or> is_upstream_tls_handshake_failure err"
    and "run_mitm_intercept env e t host w = (Finished (), ev, w')"
    and "i < length conns" "requested_host (fst (conns ! i)) = Some h" "normalize_host h = normalize_host host"
  shows "Tls a \<notin> set (fst (serve_connections mitm conns w') ! i) \<and>
    (\<exists>ph. pinned_load (ce_json env) None (mw_disk (pw_mitm w')) (ph_path (pw_pinned w)) now = Ok ph \<and>
       Tls a \<notin> set (fst (serve_connections mitm conns (w'\<lparr>pw_pinned := ph\<rparr>)) ! i))"
proof -
  obtain w1 ev1 w2 where p: "auto_pin env host w1 = (Finished (), ev1, w2)" "pw_pinned w1 = pw_pinned w" "same_tls w2 w'"
    by (rule rejection_pins [OF assms(8-10)])
  have "ph_hosts (pw_pinned w2) = insert (normalize_host host) (ph_hosts (pw_pinned w)) \<and> \<not> ph_poisoned (pw_pinned w2) \<and>
    load_pinned_hosts (ce_json env) None (mw_disk (pw_mitm w2)) (ph_path (pw_pinned w)) = Ok (ph_hosts (pw_pinned w2))"
    by (rule auto_pin_persists [OF p(1), unfolded p(2), OF assms(7,6,5,1,2,3,4)])
  then have w': "ph_hosts (pw_pinned w') = insert (normalize_host host) (ph_hosts (pw_pinned w))" "\<not> ph_poisoned (pw_pinned w')"
    "load_pinned_hosts (ce_json env) None (mw_disk (pw_mitm w')) (ph_path (pw_pinned w)) = Ok (ph_hosts (pw_pinned w'))"
    using p(3) by (auto simp: same_tls_def)
  let ?ph = "\<lparr>ph_path = ph_path (pw_pinned w), ph_hosts = ph_hosts (pw_pinned w'), ph_poisoned = False, ph_created_at = now\<rparr>"
  have pinned: "pinned_contains ph g = Ok True"
    if "normalize_host g = normalize_host host" "ph_hosts ph = ph_hosts (pw_pinned w')" "\<not> ph_poisoned ph" for g and ph :: pinned_hosts
    using that w'(1) by (simp add: pinned_contains_def)
  have "pinned_load (ce_json env) None (mw_disk (pw_mitm w')) (ph_path (pw_pinned w)) now = Ok ?ph"
    by (simp add: pinned_load_def w'(3))
  moreover have "Tls a \<notin> set (fst (serve_connections mitm conns (w'\<lparr>pw_pinned := ?ph\<rparr>)) ! i)"
    by (rule serve_connections_pinned [OF _ assms(11-13)]) (auto intro: pinned)
  moreover have "Tls a \<notin> set (fst (serve_connections mitm conns w') ! i)"
    by (rule serve_connections_pinned [OF _ assms(11-13)]) (rule pinned [OF _ refl w'(2)])
  ultimately show ?thesis by blast
qed

text \<open>Every intercepted client gets a certificate for the host it asked for. From a new engine, through any
  number of connections, with an issuer that names each certificate after the host it is asked
  for: when a connection is offered a certificate, interception is on, the connection names a host in its
  \<open>CONNECT\<close> request or its ClientHello, that host was not pinned at the start, and the certificate is
  for that host in lower case.\<close>
theorem intercepted_certificate_matches:
  assumes "mw_engine (pw_mitm w) = mitm_engine_new logging" "\<forall>(env, e) \<in> set conns. issues_for_host (te_leaf (ce_tunnel env))"
    and "i < length conns" "Tls (AcceptTls cfg) \<in> set (fst (serve_connections mitm conns w) ! i)"
  shows "mitm \<and> (\<exists>h. requested_host (fst (conns ! i)) = Some h \<and> lf_subject (sc_leaf cfg) = to_ascii_lowercase (trim h) \<and>
    pinned_contains (pw_pinned w) h \<noteq> Ok True)"
proof -
  have "cache_ok (mw_engine (pw_mitm w))" by (simp add: assms(1) cache_ok_def mitm_engine_new_def)
  from serve_connections_certificate [OF this assms(2-4)] show ?thesis .
qed

section \<open>From the command line to the certificates\<close>

lemma length_serve_connections: "length (fst (serve_connections mitm conns w)) = length conns"
  by (induction conns arbitrary: w) (auto simp: case_prod_unfold Let_def)

text \<open>C3: the engine intercepts as it is configured, from its start on: when \<open>main\<close> starts to serve and its accept
  loop then offers a certificate to some connection, interception was configured, the connection named a host in its
  \<open>CONNECT\<close> request or its ClientHello, the host was not among the pinned hosts that the start read from their
  file, and the certificate is for that host in lower case.\<close>
theorem engine_intercepts_as_configured:
  assumes "main_start env d a = (d', Started (Serving st))" "effective_args env d a = Ok a'"
    and "\<forall>(cenv, e) \<in> set (accepted evs). issues_for_host (te_leaf (ce_tunnel cenv))"
    and "accept_loop (st_mitm st) evs (st_world st) = (trace, w, res)" "i < length trace" "Tls (AcceptTls cfg) \<in> set (trace ! i)"
  shows "ar_enable_mitm a' \<and> i < length (accepted evs) \<and> (\<exists>h. requested_host (fst (accepted evs ! i)) = Some h \<and>
    lf_subject (sc_leaf cfg) = to_ascii_lowercase (trim h) \<and> normalize_host h \<notin> ph_hosts (pw_pinned (st_world st)))"
proof -
  note s = main_serving [OF assms(1,2)]
  note ok = serve_start_ok [OF s]
  then obtain logging where "mw_engine (pw_mitm (st_world st)) = mitm_engine_new logging" by (auto simp: start_ok_def)
  then have c: "cache_ok (mw_engine (pw_mitm (st_world st)))" by (simp add: cache_ok_def mitm_engine_new_def)
  have t: "trace = fst (serve_connections (st_mitm st) (accepted evs) (st_world st))" using assms(4) by (simp add: accept_loop_serves)
  then have i: "i < length (accepted evs)" using assms(5) by (simp add: length_serve_connections)
  from serve_connections_certificate [OF c assms(3) i assms(6) [unfolded t]]
  obtain h where h: "st_mitm st" "requested_host (fst (accepted evs ! i)) = Some h" "lf_subject (sc_leaf cfg) = to_ascii_lowercase (trim h)"
    "pinned_contains (pw_pinned (st_world st)) h \<noteq> Ok True" by blast
  have "normalize_host h \<notin> ph_hosts (pw_pinned (st_world st))" "ar_enable_mitm a'"
    using ok h(1,4) by (auto simp: start_ok_def pinned_contains_def split: if_splits)
  with h i show ?thesis by blast
qed

section \<open>Witnesses\<close>

text \<open>A first connection to \<open>bank.com\<close> is intercepted, rejected by the client, and pinned.\<close>

lemma wit_rejection:
  "\<exists>ev w'. run_mitm_intercept wit_conn (policy_engine_new Enforce) ''bank.com:443'' ''bank.com'' (wit_world {}) = (Finished (), ev, w')"
proof -
  let ?e = "policy_engine_new Enforce" and ?w = "wit_world {}"
  obtain acts mw where i: "intercept_tls_tunnel (ce_tunnel wit_conn) ?e ''bank.com'' (Some (ce_client_ip wit_conn))
      (pw_mitm (tallied inc_mitm_attempt_total (record_mitm_attempt (ce_now wit_conn) ''bank.com'') ?w)) =
      (Err (ClientTlsHandshake ''unknown certificate authority''), acts, mw)"
    using wit_intercept by blast
  obtain r ev w' where run: "run_mitm_intercept wit_conn ?e ''bank.com:443'' ''bank.com'' ?w = (r, ev, w')" by (metis prod_cases3)
  from run_mitm_intercept_run [OF i run] obtain ev' where
    a: "after_intercept wit_conn ''bank.com:443'' ''bank.com'' (Err (ClientTlsHandshake ''unknown certificate authority'')) (?w\<lparr>pw_mitm := mw\<rparr>) = (r, ev', w')"
    by blast
  then obtain w1 where p: "auto_pin wit_conn ''bank.com'' w1 = (r, ev', w')" "pw_pinned w1 = pw_pinned ?w"
    by (auto simp: after_intercept_def is_benign_peer_close_def is_upstream_tls_handshake_failure_def is_client_tls_handshake_failure_def)
  have g: "\<not> in_grace_period (pw_pinned ?w) (ce_mono wit_conn) (AUTO_PIN_GRACE_PERIOD_SECS * 1000000000)"
    by (simp add: in_grace_period_def wit_world_def wit_conn_def AUTO_PIN_GRACE_PERIOD_SECS_def)
  have "\<exists>d ph. add_and_persist (jdoc JNull) fs_all_ok d0 (pw_pinned ?w) ''bank.com'' = (d, ph, Ok True)" for d0
    by (simp add: add_and_persist_def wit_bank wit_world_def persist_pinned_hosts_def jdoc_def j_print_strings_def replace_file_def
        fs_all_ok_def Let_def)
  moreover have j: "ce_json wit_conn = jdoc JNull" "ce_pin_fs wit_conn = fs_all_ok" by (simp_all add: wit_conn_def)
  ultimately obtain d ph where "add_and_persist (ce_json wit_conn) (ce_pin_fs wit_conn) (mw_disk (pw_mitm w1)) (pw_pinned ?w) ''bank.com'' = (d, ph, Ok True)"
    unfolding j by metis
  then have "r = Finished ()"
    using p g by (auto simp: auto_pin_def act_bind_def pin_host_after_tls_rejection_def lift_io_def ret_def tally_act_run)
  with run show ?thesis by blast
qed

theorem rejected_host_stays_pinned_witness:
  "\<forall>a. Tls a \<notin> set (fst (serve_connections True [(wit_conn, policy_engine_new Enforce)]
     (snd (snd (run_mitm_intercept wit_conn (policy_engine_new Enforce) ''bank.com:443'' ''bank.com'' (wit_world {}))))) ! 0)"
proof -
  let ?e = "policy_engine_new Enforce" and ?w = "wit_world {}"
  have prem: "json_laws (ce_json wit_conn)" "pins_wf (pw_pinned ?w)" "p_ext (ph_path (pw_pinned ?w)) \<noteq> Some ''tmp''"
    "\<forall>g \<in> insert (normalize_host ''bank.com'') (ph_hosts (pw_pinned ?w)). normalize_host g = g" "normalize_host ''bank.com'' \<noteq> []"
    "pinned_contains (pw_pinned ?w) ''bank.com'' = Ok False"
    "\<not> in_grace_period (pw_pinned ?w) (ce_mono wit_conn) (AUTO_PIN_GRACE_PERIOD_SECS * 1000000000)"
    by (simp_all add: wit_conn_def json_laws_jdoc wit_world_def pins_wf_def wit_bank wit_pinned pinned_contains_def in_grace_period_def
        AUTO_PIN_GRACE_PERIOD_SECS_def)
  obtain acts mw where i: "intercept_tls_tunnel (ce_tunnel wit_conn) ?e ''bank.com'' (Some (ce_client_ip wit_conn))
      (pw_mitm (tallied inc_mitm_attempt_total (record_mitm_attempt (ce_now wit_conn) ''bank.com'') ?w)) =
      (Err (ClientTlsHandshake ''unknown certificate authority''), acts, mw)"
    using wit_intercept by blast
  have err: "is_client_tls_handshake_failure (ClientTlsHandshake ''unknown certificate authority'') \<or>
    is_upstream_tls_handshake_failure (ClientTlsHandshake ''unknown certificate authority'')" by (simp add: is_client_tls_handshake_failure_def)
  obtain ev w' where run: "run_mitm_intercept wit_conn ?e ''bank.com:443'' ''bank.com'' ?w = (Finished (), ev, w')" using wit_rejection by blast
  have c: "0 < length [(wit_conn, ?e)]" "requested_host (fst ([(wit_conn, ?e)] ! 0)) = Some ''bank.com''" by (simp_all add: wit_requested_host)
  from rejected_host_stays_pinned [OF prem i err run c refl] show ?thesis unfolding run snd_conv by blast
qed

theorem intercepted_certificate_matches_witness:
  "\<exists>ev. fst (serve_connections True [(wit_conn, policy_engine_new Enforce)] (wit_world {})) = [ev] \<and>
     (\<exists>cfg. Tls (AcceptTls cfg) \<in> set ev \<and> lf_subject (sc_leaf cfg) = ''bank.com'')"
proof -
  let ?e = "policy_engine_new Enforce" and ?w = "wit_world {}"
  have e: "mw_engine (pw_mitm ?w) = mitm_engine_new False" "mw_pins (pw_mitm ?w) = None" by (simp_all add: wit_world_def)
  obtain r ev w' cfg where run: "accept_connection wit_conn True ?e ?w = (r, ev, w')" and cfg: "Tls (AcceptTls cfg) \<in> set ev"
    using wit_offered [OF e] wit_pinned [of "{}"] by auto
  have s: "fst (serve_connections True [(wit_conn, ?e)] ?w) = [ev]" by (simp add: run)
  from intercepted_certificate_matches [OF e(1), of "[(wit_conn, ?e)]" 0 cfg True] wit_issues cfg s have "lf_subject (sc_leaf cfg) = ''bank.com''"
    by (simp add: wit_requested_host wit_bank)
  with s cfg show ?thesis by blast
qed

lemma wit_serving_mitm:
  assumes "a = args_default\<lparr>ar_enable_mitm := True\<rparr>"
    and "d = [su_path wit_startup ''mitm_ca_cert.pem'' \<mapsto> ''BEGIN CERTIFICATE'', su_path wit_startup ''mitm_ca_key.pem'' \<mapsto> ''k'']"
  shows "effective_args wit_startup d a = Ok a \<and> (\<exists>st. main_start wit_startup d a = (d, Started (Serving st)) \<and> st_mitm st \<and>
    mw_engine (pw_mitm (st_world st)) = mitm_engine_new False \<and> mw_pins (pw_mitm (st_world st)) = None \<and>
    pinned_contains (pw_pinned (st_world st)) ''bank.com'' = Ok False)"
proof -
  have f: "init_policy wit_startup d a = Ok (policy_engine_new Disabled)" "configured_sources wit_startup d a = []"
    by (simp_all add: assms(1) init_policy_def configured_sources_def args_default_def)
  have m: "effective_args wit_startup d a = Ok a" by (simp add: assms(1) effective_args_def args_default_def)
  have s: "select_mode a = Ok Serve" by (simp add: assms(1) select_mode_def args_default_def)
  have r: "ar_receipts_file a = None" "su_bind wit_startup = (\<lambda>a. None)" by (simp_all add: assms(1) args_default_def wit_startup_def)
  have pem: "str_contains ''BEGIN CERTIFICATE'' ''BEGIN CERTIFICATE''" by (simp add: str_contains_iff)
  have pins: "d (su_path wit_startup (ar_pinned_hosts_file a)) = None" by (simp add: assms args_default_def wit_startup_def)
  have "\<exists>k. load_or_create_ca wit_ca wit_ca_fs d (ca_config wit_startup a) = (d, Ok k)"
    using pem by (simp add: load_or_create_ca_def ca_config_def assms args_default_def wit_ca_def wit_ca_fs_def wit_startup_def read_to_string_def map_err_def)
  then obtain c1 c2 c3 c4 where ca: "load_or_create_ca wit_ca wit_ca_fs d (ca_config wit_startup a) = (d, Ok (c1, c2, c3, c4))" by auto
  have off: "ar_cert_log_file a = None" "ar_cert_pin_file a = None" "ar_mitm_ca_export_cert_file a = None" "ar_enable_mitm a"
    by (simp_all add: assms(1) args_default_def)
  have env: "su_ca_lib wit_startup = wit_ca" "su_ca_fs wit_startup = wit_ca_fs" "su_tls_config wit_startup = None" by (simp_all add: wit_startup_def)
  have mitm: "init_mitm wit_startup d a = (d, Ok (Some (mitm_engine_new False, None)))"
    by (simp add: init_mitm_def new_mitm_engine_def ca off env)
  have addr: "first_addr wit_startup s m = Started (SocketV4 s 80)" for s m by (simp add: first_addr_def wit_startup_def)
  obtain sv where sv: "start_services wit_startup d a False = Started sv"
    by (simp add: start_services_def dns_filter_service_def doh_server_service_def assms(1) args_default_def)
  have "\<exists>st. serve_start wit_startup d a = (d, Started st) \<and> st_mitm st \<and>
    mw_engine (pw_mitm (st_world st)) = mitm_engine_new False \<and> mw_pins (pw_mitm (st_world st)) = None \<and> ph_hosts (pw_pinned (st_world st)) = {} \<and>
    \<not> ph_poisoned (pw_pinned (st_world st))"
    unfolding serve_start_def f sum.case
    by (simp add: init_filter_lists_def pinned_load_def load_pinned_hosts_def pins mitm r addr sv Let_def)
  then show ?thesis using m s by (auto simp: main_start_def pinned_contains_def)
qed

theorem engine_intercepts_as_configured_witness:
  "\<exists>d a st cfg. main_start wit_startup d a = (d, Started (Serving st)) \<and> ar_enable_mitm a \<and>
     Tls (AcceptTls cfg) \<in> set (fst (accept_loop (st_mitm st) [Accepted wit_conn (policy_engine_new Enforce), AcceptFailed (IoError Other ''busy'')] (st_world st)) ! 0) \<and>
     lf_subject (sc_leaf cfg) = ''bank.com''"
proof -
  let ?e = "policy_engine_new Enforce"
  let ?evs = "[Accepted wit_conn ?e, AcceptFailed (IoError Other ''busy'')]"
  obtain d a st where m: "effective_args wit_startup d a = Ok a" and st: "main_start wit_startup d a = (d, Started (Serving st))" and
    w: "st_mitm st" "mw_engine (pw_mitm (st_world st)) = mitm_engine_new False" "mw_pins (pw_mitm (st_world st)) = None"
      "pinned_contains (pw_pinned (st_world st)) ''bank.com'' = Ok False"
    using wit_serving_mitm [OF refl refl] by blast
  obtain r ev w' cfg where run: "accept_connection wit_conn True ?e (st_world st) = (r, ev, w')" and cfg: "Tls (AcceptTls cfg) \<in> set ev"
    using wit_offered [OF w(2-4)] by blast
  have loop: "accept_loop (st_mitm st) ?evs (st_world st) = ([ev], w', Some (IoError Other ''busy''))" by (simp add: w(1) run)
  have "\<forall>(cenv, e) \<in> set (accepted ?evs). issues_for_host (te_leaf (ce_tunnel cenv))" by (simp add: wit_issues)
  from engine_intercepts_as_configured [OF st m this loop, of 0 cfg] cfg
  have "ar_enable_mitm a" "lf_subject (sc_leaf cfg) = ''bank.com''" by (simp_all add: wit_requested_host wit_bank)
  with st cfg loop show ?thesis by (metis fst_conv nth_Cons_0)
qed

end
